(* ===== verification/Prelude.thy ===== *)
theory Prelude
  imports Main "HOL-Library.AList" "HOL-Library.Word"
begin

text \<open>
  Shared vocabulary of the development: byte strings and Rust strings, finite maps for
  Rust's \<open>HashMap\<close>, splitting and hexadecimal formatting of the standard library, and
  the generic lemmas the components use.

  A Rust \<open>String\<close> is its UTF-8 byte sequence, so \<^typ>\<open>string\<close> (a list of 8-bit
  characters) models it; binary data is a list of 8-bit words.
  A Rust \<open>HashMap\<close> is an association list with distinct keys: insertion, removal and
  in-place update keep the keys distinct, lookup is \<^term>\<open>map_of\<close>, and no definition
  depends on the order of the entries other than through a set or a quantifier over them.
\<close>

section \<open>Collections of the automation\<close>

named_theorems hm_simps \<open>lookup after update, removal and in-place update of a map\<close>
named_theorems section_defs \<open>atomic sections of the request handlers, for unfolding\<close>

section \<open>Types\<close>

type_synonym bytes = "8 word list"
type_synonym u8 = "8 word"
type_synonym u16 = "16 word"
type_synonym u32 = "32 word"
type_synonym u64 = "64 word"
type_synonym uuid = string

type_synonym ('k, 'v) hmap = "('k \<times> 'v) list"

section \<open>Finite maps\<close>

abbreviation hm_get :: "('k, 'v) hmap \<Rightarrow> 'k \<Rightarrow> 'v option" where
  "hm_get \<equiv> map_of"

abbreviation hm_put :: "'k \<Rightarrow> 'v \<Rightarrow> ('k, 'v) hmap \<Rightarrow> ('k, 'v) hmap" where
  "hm_put \<equiv> AList.update"

abbreviation hm_del :: "'k \<Rightarrow> ('k, 'v) hmap \<Rightarrow> ('k, 'v) hmap" where
  "hm_del \<equiv> AList.delete"

abbreviation hm_upd :: "'k \<Rightarrow> ('v \<Rightarrow> 'v) \<Rightarrow> ('k, 'v) hmap \<Rightarrow> ('k, 'v) hmap" where
  "hm_upd \<equiv> AList.map_entry"

abbreviation hm_wf :: "('k, 'v) hmap \<Rightarrow> bool" where
  "hm_wf m \<equiv> distinct (map fst m)"

lemma hm_get_put [hm_simps, simp]:
  "hm_get (hm_put k v m) k' = (if k' = k then Some v else hm_get m k')"
  by (simp add: update_conv')

lemma hm_get_del [hm_simps, simp]:
  "hm_get (hm_del k m) k' = (if k' = k then None else hm_get m k')"
  by (simp add: delete_conv')

lemma hm_get_upd [hm_simps, simp]:
  "hm_get (hm_upd k f m) k' = (if k' = k then map_option f (hm_get m k) else hm_get m k')"
  by (induction m) auto

lemma hm_keys_upd [simp]: "map fst (hm_upd k f m) = map fst m"
  by (induction m) auto

lemma hm_wf_put [simp, intro]: "hm_wf m \<Longrightarrow> hm_wf (hm_put k v m)"
  by (rule distinct_update)

lemma hm_wf_del [simp, intro]: "hm_wf m \<Longrightarrow> hm_wf (hm_del k m)"
  by (rule distinct_delete)

lemma hm_wf_filter [simp, intro]: "hm_wf m \<Longrightarrow> hm_wf (filter P m)"
  by (induction m) auto

lemma hm_wf_map_values:
  "hm_wf (map (\<lambda>(k, v). (k, f k v)) m) = hm_wf m"
  by (simp add: comp_def case_prod_beta)

lemma hm_get_map_values:
  "hm_get (map (\<lambda>(k, v). (k, f k v)) m) k' = map_option (f k') (hm_get m k')"
  by (induction m) auto

lemma hm_get_filter_key:
  "hm_get (filter (\<lambda>(k, v). P k) m) k' = (if P k' then hm_get m k' else None)"
  by (induction m) auto

lemma hm_get_in_set: "hm_get m k = Some v \<Longrightarrow> (k, v) \<in> set m"
  by (rule map_of_SomeD)

lemma hm_all_values_iff:
  assumes "hm_wf m"
  shows "list_all P (map snd m) \<longleftrightarrow> (\<forall>k v. hm_get m k = Some v \<longrightarrow> P v)"
  using assms by (force simp: list_all_iff)

lemma hm_length_put:
  "length (hm_put k v m) = (if hm_get m k = None then Suc (length m) else length m)"
  by (induction m) auto

lemma hm_length_del_le: "length (hm_del k m) \<le> length m"
  by (simp add: AList.delete_eq)

section \<open>Strings of the standard library\<close>

text \<open>\<open>str::split(c)\<close>: the pieces between the separators; the empty string has one piece.\<close>

fun split_on :: "char \<Rightarrow> string \<Rightarrow> string list" where
  "split_on c [] = [[]]"
| "split_on c (x # xs) =
     (if x = c then [] # split_on c xs
      else (case split_on c xs of [] \<Rightarrow> [[x]] | p # ps \<Rightarrow> (x # p) # ps))"

lemma split_on_nonempty [simp]: "split_on c s \<noteq> []"
  by (induction s) (auto split: list.splits)

lemma split_on_no_sep: "c \<notin> set s \<Longrightarrow> split_on c s = [s]"
  by (induction s) auto

lemma split_on_sep: "c \<notin> set p \<Longrightarrow> split_on c (p @ c # s) = p # split_on c s"
  by (induction p) auto

definition ascii_upper :: "char \<Rightarrow> char" where
  "ascii_upper c =
     (let n = of_char c :: nat in if 97 \<le> n \<and> n \<le> 122 then char_of (n - 32) else c)"

definition ascii_lower :: "char \<Rightarrow> char" where
  "ascii_lower c =
     (let n = of_char c :: nat in if 65 \<le> n \<and> n \<le> 90 then char_of (n + 32) else c)"

text \<open>\<open>str::to_ascii_uppercase\<close> and \<open>str::eq_ignore_ascii_case\<close>.\<close>

definition to_ascii_uppercase :: "string \<Rightarrow> string" where
  "to_ascii_uppercase s = map ascii_upper s"

definition eq_ignore_ascii_case :: "string \<Rightarrow> string \<Rightarrow> bool" where
  "eq_ignore_ascii_case a b \<longleftrightarrow> map ascii_lower a = map ascii_lower b"

lemma eq_ignore_ascii_case_refl [simp]: "eq_ignore_ascii_case s s"
  by (simp add: eq_ignore_ascii_case_def)

section \<open>Formatting bytes as hexadecimal\<close>

text \<open>The digits written by the format directives \<open>{:02x}\<close> and \<open>{:02X}\<close>.\<close>

definition hex_digit :: "nat \<Rightarrow> char" where
  "hex_digit n = ''0123456789abcdef'' ! n"

definition hex_digit_upper :: "nat \<Rightarrow> char" where
  "hex_digit_upper n = ''0123456789ABCDEF'' ! n"

definition hex_byte :: "u8 \<Rightarrow> string" where
  "hex_byte b = [hex_digit (unat b div 16), hex_digit (unat b mod 16)]"

definition hex_byte_upper :: "u8 \<Rightarrow> string" where
  "hex_byte_upper b = [hex_digit_upper (unat b div 16), hex_digit_upper (unat b mod 16)]"

lemma less_16_cases:
  assumes "n < (16::nat)"
  shows "n = 15 \<or> n = 14 \<or> n = 13 \<or> n = 12 \<or> n = 11 \<or> n = 10 \<or> n = 9 \<or> n = 8 \<or>
    n = 7 \<or> n = 6 \<or> n = 5 \<or> n = 4 \<or> n = 3 \<or> n = 2 \<or> n = 1 \<or> n = 0"
  using assms by presburger

lemma hex_digit_inj: "m < 16 \<Longrightarrow> n < 16 \<Longrightarrow> hex_digit m = hex_digit n \<Longrightarrow> m = n"
  by (simp add: hex_digit_def nth_eq_iff_index_eq)

lemma unat_byte_div16 [simp]: "unat (b :: u8) div 16 < 16"
  using unsigned_less [of b, where 'a = nat] by (simp add: less_mult_imp_div_less)

lemma hex_byte_inj: "hex_byte a = hex_byte b \<Longrightarrow> a = b"
proof -
  assume "hex_byte a = hex_byte b"
  then have "unat a div 16 = unat b div 16" and "unat a mod 16 = unat b mod 16"
    by (auto simp: hex_byte_def intro: hex_digit_inj)
  then have "unat a = unat b"
    by (metis div_mod_decomp)
  then show "a = b" by (rule unsigned_word_eqI)
qed

lemma ascii_upper_hex_digit: "n < 16 \<Longrightarrow> ascii_upper (hex_digit n) = hex_digit_upper n"
  by (drule less_16_cases) (elim disjE; simp add: hex_digit_def hex_digit_upper_def ascii_upper_def char_of_def bit_Suc_0_iff)

lemma length_hex_byte [simp]: "length (hex_byte b) = 2"
  by (simp add: hex_byte_def)

section \<open>Formatting integers\<close>

text \<open>Positional notation in base \<open>b\<close>: \<open>{}\<close> is base 10, \<open>{:x}\<close> base 16.\<close>

fun nat_str :: "nat \<Rightarrow> nat \<Rightarrow> string" where
  "nat_str b n =
     (if n < b \<or> b < 2 then [hex_digit n] else nat_str b (n div b) @ [hex_digit (n mod b)])"

declare nat_str.simps [simp del]

section \<open>Computations that may panic\<close>

text \<open>A Rust call either comes back with a value or panics.\<close>

datatype 'a run = Done 'a | Panicked

fun run_bind :: "'a run \<Rightarrow> ('a \<Rightarrow> 'b run) \<Rightarrow> 'b run" where
  "run_bind (Done x) f = f x"
| "run_bind Panicked f = Panicked"

lemma run_bind_Done_iff: "run_bind r f = Done y \<longleftrightarrow> (\<exists>x. r = Done x \<and> f x = Done y)"
  by (cases r) auto

lemma run_bind_Panicked_iff:
  "run_bind r f = Panicked \<longleftrightarrow> r = Panicked \<or> (\<exists>x. r = Done x \<and> f x = Panicked)"
  by (cases r) auto

section \<open>Unsigned 64-bit counters\<close>

lemma unat_u64_add:
  "unat w + n < 2 ^ 64 \<Longrightarrow> unat (w + of_nat n :: u64) = unat w + n"
  by (simp add: unat_word_ariths unat_of_nat)

lemma u8_saturating_bound: "unat (w :: u8) < 255 \<Longrightarrow> unat (w + 1) = unat w + 1"
  by (simp add: unat_word_ariths)

text \<open>
  \<open>u64::to_le_bytes\<close> and \<open>u64::from_le_bytes\<close>, through the value: the byte of weight
  \<open>256 ^ i\<close> is the \<open>i\<close>-th one.
\<close>

definition u64_to_le_bytes :: "u64 \<Rightarrow> bytes" where
  "u64_to_le_bytes w = map (\<lambda>i. of_nat (unat w div 256 ^ i mod 256)) [0..<8]"

definition u64_from_le_bytes :: "bytes \<Rightarrow> u64" where
  "u64_from_le_bytes bs = of_nat (foldr (\<lambda>b acc. unat b + 256 * acc) bs 0)"

lemma length_u64_to_le_bytes [simp]: "length (u64_to_le_bytes w) = 8"
  by (simp add: u64_to_le_bytes_def)

lemma le_digits_sum:
  "n < (256 :: nat) ^ (i + k) \<Longrightarrow>
     foldr (\<lambda>j acc. n div 256 ^ j mod 256 + 256 * acc) [i..<i + k] 0 = n div 256 ^ i"
proof (induction k arbitrary: i)
  case 0
  then show ?case by simp
next
  case (Suc k)
  have "foldr (\<lambda>j acc. n div 256 ^ j mod 256 + 256 * acc) [Suc i..<Suc i + k] 0 = n div 256 ^ Suc i"
    using Suc.prems by (intro Suc.IH) simp
  moreover have "n div 256 ^ i mod 256 + 256 * (n div 256 ^ Suc i) = n div 256 ^ i"
    by (simp only: power_Suc2 div_mult2_eq mod_mult_div_eq)
  moreover have "[i..<i + Suc k] = i # [Suc i..<Suc i + k]"
    by (simp add: upt_conv_Cons del: upt_Suc)
  ultimately show ?case by (simp del: upt_Suc power_Suc)
qed

lemma u64_le_bytes_roundtrip: "u64_from_le_bytes (u64_to_le_bytes w) = w"
proof -
  define n where "n = unat w"
  have less: "n < 256 ^ 8"
    unfolding n_def using unsigned_less [of w, where 'a = nat] by simp
  have byte: "unat (of_nat (k mod 256) :: u8) = k mod 256" for k :: nat
    by (simp add: unat_of_nat)
  have sum: "foldr (\<lambda>i acc. n div 256 ^ i mod 256 + 256 * acc) [0..<8] 0 = n"
    using le_digits_sum [of n 0 8] less by simp
  have "foldr (\<lambda>b acc. unat b + 256 * acc) (u64_to_le_bytes w) 0 =
      foldr (\<lambda>i acc. n div 256 ^ i mod 256 + 256 * acc) [0..<8] 0"
    unfolding u64_to_le_bytes_def n_def foldr_map comp_def byte ..
  then show ?thesis by (simp add: u64_from_le_bytes_def sum) (simp add: n_def)
qed

text \<open>\<open>u8::saturating_add(1)\<close>.\<close>

definition saturating_inc :: "u8 \<Rightarrow> u8" where
  "saturating_inc w = (if w = 255 then 255 else w + 1)"

lemma unat_saturating_inc: "unat w < 255 \<Longrightarrow> unat (saturating_inc w) = unat w + 1"
  by (auto simp: saturating_inc_def u8_saturating_bound)

end
