(* ===== verification/Crypto.thy ===== *)
theory Crypto
  imports Prelude
begin

text \<open>
  The \<open>crypto\<close> module of \<open>packages/core\<close>: nonces (\<open>nonce.rs\<close>), SHA-256 over buffers and
  over file contents (\<open>hash.rs\<close>), certificate checks (\<open>cert.rs\<close>) and the signed tokens that
  identify a device (\<open>token.rs\<close>).

  The primitives come from other crates (\<open>sha2\<close>, \<open>base64\<close>, \<open>ed25519-dalek\<close>, \<open>rsa\<close>,
  \<open>x509-parser\<close>, \<open>pem\<close>). They are fields of the record \<open>crypto_lib\<close>, which every
  definition that calls them takes as an argument; \<open>crypto_laws\<close> states what their
  documentation promises.
\<close>

section \<open>Primitives of other crates\<close>

record ('sk, 'ek, 'rk) crypto_lib =
  cl_sha256 :: "bytes \<Rightarrow> bytes"
  cl_b64_encode :: "bytes \<Rightarrow> string"
  cl_b64_decode :: "string \<Rightarrow> bytes option"
  cl_ed_key :: "'sk \<Rightarrow> 'ek"
  cl_ed_sign :: "'sk \<Rightarrow> bytes \<Rightarrow> bytes"
  cl_ed_verify :: "'ek \<Rightarrow> bytes \<Rightarrow> bytes \<Rightarrow> bool"
  cl_ed_der :: "'ek \<Rightarrow> bytes option"
  cl_ed_from_pem :: "string \<Rightarrow> 'ek option"
  cl_rsa_verify :: "'rk \<Rightarrow> bytes \<Rightarrow> bytes \<Rightarrow> bool"
  cl_rsa_der :: "'rk \<Rightarrow> bytes option"
  cl_rsa_from_pem :: "string \<Rightarrow> 'rk option"

text \<open>
  The URL-safe alphabet of base64 has no full stop, decoding inverts encoding, and a
  signature made with a key verifies under its public half.
\<close>

definition crypto_laws :: "('sk, 'ek, 'rk, 'z) crypto_lib_scheme \<Rightarrow> bool" where
  "crypto_laws lib \<longleftrightarrow>
     (\<forall>b. cl_b64_decode lib (cl_b64_encode lib b) = Some b) \<and>
     (\<forall>b. CHR ''.'' \<notin> set (cl_b64_encode lib b)) \<and>
     (\<forall>sk m. cl_ed_verify lib (cl_ed_key lib sk) m (cl_ed_sign lib sk m))"

section \<open>Nonces\<close>

text \<open>\<open>rng\<close> stands for the 32 bytes the random number generator fills in.\<close>

definition generate_nonce :: "(nat \<Rightarrow> u8) \<Rightarrow> bytes" where
  "generate_nonce rng = map rng [0..<32]"

definition validate_nonce :: "bytes \<Rightarrow> bool" where
  "validate_nonce nonce \<longleftrightarrow> length nonce \<ge> 16 \<and> length nonce \<le> 128"

lemma validate_generated_nonce [simp]: "validate_nonce (generate_nonce rng)"
  by (simp add: validate_nonce_def generate_nonce_def)

section \<open>Hashing\<close>

definition to_hex :: "bytes \<Rightarrow> string" where
  "to_hex bs = concat (map hex_byte bs)"

definition sha256_hex :: "('sk, 'ek, 'rk, 'z) crypto_lib_scheme \<Rightarrow> bytes \<Rightarrow> string" where
  "sha256_hex lib data = to_hex (cl_sha256 lib data)"

definition fingerprint_from_cert_der ::
  "('sk, 'ek, 'rk, 'z) crypto_lib_scheme \<Rightarrow> bytes \<Rightarrow> string" where
  "fingerprint_from_cert_der lib cert = concat (map hex_byte_upper (cl_sha256 lib cert))"

lemma length_to_hex: "length (to_hex bs) = 2 * length bs"
  by (induction bs) (simp_all add: to_hex_def)

lemma to_hex_inj: "to_hex a = to_hex b \<Longrightarrow> a = b"
proof (induction a arbitrary: b)
  case Nil
  then show ?case by (cases b) (simp_all add: to_hex_def hex_byte_def)
next
  case (Cons x a)
  show ?case
  proof (cases b)
    case Nil
    with Cons.prems show ?thesis by (simp add: to_hex_def hex_byte_def)
  next
    case (Cons y b')
    with Cons.prems have "hex_byte x = hex_byte y" and "to_hex a = to_hex b'"
      by (auto simp: to_hex_def hex_byte_def)
    with Cons Cons.IH show ?thesis by (simp add: hex_byte_inj)
  qed
qed

lemma hex_byte_upper_conv: "hex_byte_upper b = to_ascii_uppercase (hex_byte b)"
  by (simp add: hex_byte_upper_def hex_byte_def to_ascii_uppercase_def ascii_upper_hex_digit)

lemma fingerprint_is_upper_hex:
  "fingerprint_from_cert_der lib cert = to_ascii_uppercase (to_hex (cl_sha256 lib cert))"
proof -
  have "concat (map hex_byte_upper bs) = to_ascii_uppercase (to_hex bs)" for bs
    by (induction bs) (simp_all add: to_hex_def hex_byte_upper_conv to_ascii_uppercase_def)
  then show ?thesis by (simp add: fingerprint_from_cert_der_def)
qed

subsection \<open>Hashing a file's content\<close>

text \<open>
  A hasher is the bytes fed to it so far. The loops read a sequence of results: the chunks
  of a channel until it closes, or the results of \<open>file.read\<close> until it returns no bytes.
  \<open>cancelled i\<close> tells whether the cancellation token is set when the \<open>i\<close>-th
  \<open>select!\<close> polls it; the branch is \<open>biased\<close>, so the token wins over a ready chunk.
\<close>

datatype hash_error = Hash_Io string | Hash_Cancelled

datatype file_content = Content_Stream "bytes list" | Content_Path string | Content_Fd int

type_synonym reads = "(string + bytes) list"

fun hash_stream :: "(nat \<Rightarrow> bool) \<Rightarrow> nat \<Rightarrow> bytes \<Rightarrow> bytes list \<Rightarrow> hash_error + bytes" where
  "hash_stream cancelled i fed [] = (if cancelled i then Inl Hash_Cancelled else Inr fed)"
| "hash_stream cancelled i fed (c # cs) =
     (if cancelled i then Inl Hash_Cancelled
      else hash_stream cancelled (Suc i) (fed @ c) cs)"

text \<open>The end of the list stands for a read of no bytes, which ends the loop.\<close>

fun read_and_hash_from_file ::
  "(nat \<Rightarrow> bool) \<Rightarrow> nat \<Rightarrow> bytes \<Rightarrow> reads \<Rightarrow> hash_error + bytes" where
  "read_and_hash_from_file cancelled i fed [] =
     (if cancelled i then Inl Hash_Cancelled else Inr fed)"
| "read_and_hash_from_file cancelled i fed (r # rs) =
     (if cancelled i then Inl Hash_Cancelled
      else (case r of
          Inl e \<Rightarrow> Inl (Hash_Io e)
        | Inr chunk \<Rightarrow>
            if chunk = [] then Inr fed
            else read_and_hash_from_file cancelled (Suc i) (fed @ chunk) rs))"

text \<open>
  \<open>open_file\<close> opens a path (an error, or the reads the file will give), \<open>fd_reads\<close>
  gives the reads of a raw descriptor.
\<close>

definition sha256_file_content ::
  "('sk, 'ek, 'rk, 'z) crypto_lib_scheme \<Rightarrow> (string \<Rightarrow> string + reads) \<Rightarrow> (int \<Rightarrow> reads)
     \<Rightarrow> file_content \<Rightarrow> (nat \<Rightarrow> bool) \<Rightarrow> hash_error + string" where
  "sha256_file_content lib open_file fd_reads content cancelled =
     (let fed =
        (case content of
           Content_Stream chunks \<Rightarrow> hash_stream cancelled 0 [] chunks
         | Content_Path path \<Rightarrow>
             (case open_file path of
                Inl e \<Rightarrow> Inl (Hash_Io e)
              | Inr rs \<Rightarrow> read_and_hash_from_file cancelled 0 [] rs)
         | Content_Fd fd \<Rightarrow> read_and_hash_from_file cancelled 0 [] (fd_reads fd))
      in case fed of Inl e \<Rightarrow> Inl e | Inr bs \<Rightarrow> Inr (to_hex (cl_sha256 lib bs)))"

lemma hash_stream_uncancelled:
  "(\<And>i. \<not> cancelled i) \<Longrightarrow> hash_stream cancelled i fed cs = Inr (fed @ concat cs)"
  by (induction cs arbitrary: i fed) auto

lemma read_and_hash_uncancelled:
  "(\<And>i. \<not> cancelled i) \<Longrightarrow> \<forall>c \<in> set cs. c \<noteq> [] \<Longrightarrow>
     read_and_hash_from_file cancelled i fed (map Inr cs) = Inr (fed @ concat cs)"
  by (induction cs arbitrary: i fed) auto

lemma hash_stream_cancelled:
  "hash_stream cancelled i fed cs = Inl Hash_Cancelled \<longleftrightarrow>
     (\<exists>j \<le> length cs. cancelled (i + j))"
proof (induction cs arbitrary: i fed)
  case Nil
  show ?case by simp
next
  case (Cons c cs)
  have shift: "(\<exists>j \<le> Suc n. Q j) \<longleftrightarrow> Q 0 \<or> (\<exists>j \<le> n. Q (Suc j))" for n and Q :: "nat \<Rightarrow> bool"
    by (metis Suc_le_mono le0 not0_implies_Suc)
  show ?case
    using Cons.IH [of "Suc i" "fed @ c"] shift [of "length cs" "\<lambda>j. cancelled (i + j)"] by simp
qed

section \<open>Certificates\<close>

text \<open>
  What the parser of \<open>x509-parser\<close> exposes of a certificate: the time validity against the
  current clock, the parsed subject key (an error when it does not parse), the result of
  \<open>verify_signature(None)\<close> and the raw subject key.
\<close>

record 'pk x509_cert =
  x_time_valid :: bool
  x_subject_key :: "'pk option"
  x_self_signed :: bool
  x_spki_raw :: bytes

datatype cert_error = Cert_Parse | Cert_Time | Cert_Key_Parse | Cert_Key_Mismatch | Cert_Signature

definition verify_cert_from_cert ::
  "(string \<Rightarrow> 'pk option) \<Rightarrow> 'pk x509_cert \<Rightarrow> string option \<Rightarrow> cert_error + unit" where
  "verify_cert_from_cert parse_pem_key cert public_key =
     (if \<not> x_time_valid cert then Inl Cert_Time
      else
        (let key_check =
           (case public_key of
              None \<Rightarrow> Inr ()
            | Some pem \<Rightarrow>
                (case x_subject_key cert of
                   None \<Rightarrow> Inl Cert_Key_Parse
                 | Some cert_key \<Rightarrow>
                     (case parse_pem_key pem of
                        None \<Rightarrow> Inl Cert_Key_Parse
                      | Some expected \<Rightarrow>
                          if cert_key \<noteq> expected then Inl Cert_Key_Mismatch else Inr ())))
         in case key_check of
              Inl e \<Rightarrow> Inl e
            | Inr _ \<Rightarrow> if x_self_signed cert then Inr () else Inl Cert_Signature))"

definition verify_cert_from_der ::
  "(bytes \<Rightarrow> 'pk x509_cert option) \<Rightarrow> (string \<Rightarrow> 'pk option) \<Rightarrow> bytes \<Rightarrow> string option
     \<Rightarrow> cert_error + unit" where
  "verify_cert_from_der parse_der parse_pem_key cert public_key =
     (case parse_der cert of
        None \<Rightarrow> Inl Cert_Parse
      | Some c \<Rightarrow> verify_cert_from_cert parse_pem_key c public_key)"

definition verify_cert_from_pem ::
  "(string \<Rightarrow> 'pk x509_cert option) \<Rightarrow> (string \<Rightarrow> 'pk option) \<Rightarrow> string \<Rightarrow> string option
     \<Rightarrow> cert_error + unit" where
  "verify_cert_from_pem parse_pem parse_pem_key cert public_key =
     (case parse_pem cert of
        None \<Rightarrow> Inl Cert_Parse
      | Some c \<Rightarrow> verify_cert_from_cert parse_pem_key c public_key)"

definition public_key_from_cert :: "(bytes \<Rightarrow> string) \<Rightarrow> 'pk x509_cert \<Rightarrow> string" where
  "public_key_from_cert pem_encode cert = pem_encode (x_spki_raw cert)"

definition public_key_from_cert_der ::
  "(bytes \<Rightarrow> 'pk x509_cert option) \<Rightarrow> (bytes \<Rightarrow> string) \<Rightarrow> bytes \<Rightarrow> cert_error + string" where
  "public_key_from_cert_der parse_der pem_encode cert =
     (case parse_der cert of
        None \<Rightarrow> Inl Cert_Parse
      | Some c \<Rightarrow> Inr (public_key_from_cert pem_encode c))"

lemma verify_cert_from_cert_ok_iff:
  "verify_cert_from_cert parse c pk = Inr () \<longleftrightarrow>
     x_time_valid c \<and> x_self_signed c \<and>
     (case pk of None \<Rightarrow> True
      | Some pem \<Rightarrow> x_subject_key c \<noteq> None \<and> parse pem = x_subject_key c)"
  by (auto simp: verify_cert_from_cert_def split: option.splits)

section \<open>A concrete instance of the primitives\<close>

text \<open>
  An instance on which the theorems are applied: bytes are encoded as hexadecimal text, the
  hash is the identity and a signature is the message itself. It satisfies the laws.
\<close>

definition hex_val :: "char \<Rightarrow> nat" where
  "hex_val c = (let n = of_char c :: nat in if n < 58 then n - 48 else n - 87)"

fun from_hex :: "string \<Rightarrow> bytes option" where
  "from_hex [] = Some []"
| "from_hex [x] = None"
| "from_hex (x # y # s) = map_option (Cons (of_nat (16 * hex_val x + hex_val y))) (from_hex s)"

lemma hex_val_digit: "n < 16 \<Longrightarrow> hex_val (hex_digit n) = n"
  by (drule less_16_cases) (elim disjE; simp add: hex_val_def hex_digit_def)

lemma hex_digit_no_dot: "n < 16 \<Longrightarrow> hex_digit n \<noteq> CHR ''.''"
  by (drule less_16_cases) (elim disjE; simp add: hex_digit_def)

lemma from_hex_to_hex: "from_hex (to_hex bs) = Some bs"
proof (induction bs)
  case Nil
  then show ?case by (simp add: to_hex_def)
next
  case (Cons b bs)
  have "16 * (unat b div 16) + unat b mod 16 = unat b" by simp
  then have "of_nat (16 * (unat b div 16) + unat b mod 16) = b"
    by (simp only: of_nat_unat ucast_id)
  with Cons show ?case by (simp add: to_hex_def hex_byte_def hex_val_digit del: of_nat_add)
qed

lemma to_hex_no_dot: "CHR ''.'' \<notin> set (to_hex bs)"
  by (induction bs) (auto simp: to_hex_def hex_byte_def hex_digit_no_dot [THEN not_sym])

definition sample_lib :: "(unit, unit, unit) crypto_lib" where
  "sample_lib = \<lparr>cl_sha256 = (\<lambda>b. b), cl_b64_encode = to_hex, cl_b64_decode = from_hex,
     cl_ed_key = (\<lambda>_. ()), cl_ed_sign = (\<lambda>_ m. m), cl_ed_verify = (\<lambda>_ m s. m = s),
     cl_ed_der = (\<lambda>_. Some [1]), cl_ed_from_pem = (\<lambda>_. Some ()),
     cl_rsa_verify = (\<lambda>_ m s. False), cl_rsa_der = (\<lambda>_. None), cl_rsa_from_pem = (\<lambda>_. None)\<rparr>"

lemma sample_lib_laws: "crypto_laws sample_lib"
  by (simp add: crypto_laws_def sample_lib_def from_hex_to_hex to_hex_no_dot)

end
