(* ===== verification/Http_Types.thy ===== *)
theory Http_Types
  imports Crypto
begin

text \<open>
  The vocabulary of the HTTP server: device information and transfer DTOs
  (\<open>model/discovery.rs\<close>, \<open>model/transfer.rs\<close>, \<open>http/state.rs\<close>, \<open>http/dto_v2.rs\<close>,
  \<open>http/dto.rs\<close>), the address of a peer (\<open>server/peer_ip.rs\<close>), errors and responses
  (\<open>server/common/error.rs\<close>, \<open>response.rs\<close>, \<open>collect_to_json.rs\<close>, \<open>query.rs\<close>) and what
  the server knows of a request's client (\<open>RequestClientInfo\<close> in \<open>server/mod.rs\<close>).

  Bytes on the wire are parsed and printed by \<open>serde_json\<close>, \<open>form_urlencoded\<close> and
  \<open>hyper\<close>. A request body is therefore the outcome of collecting and parsing it, a query
  the parsed map, and a response body the value that is serialised.
\<close>

section \<open>Devices\<close>

datatype device_type = Mobile | Desktop | Web | Headless | Server

datatype protocol_type_v2 = Http | Https

definition protocol_as_str :: "protocol_type_v2 \<Rightarrow> string" where
  "protocol_as_str p = (case p of Http \<Rightarrow> ''http'' | Https \<Rightarrow> ''https'')"

text \<open>The serde helpers of \<open>device_type_v2\<close>: lowercase on the wire, unknown is \<open>Desktop\<close>.\<close>

fun device_type_serialize :: "device_type option \<Rightarrow> string option" where
  "device_type_serialize (Some Mobile) = Some ''mobile''"
| "device_type_serialize (Some Desktop) = Some ''desktop''"
| "device_type_serialize (Some Web) = Some ''web''"
| "device_type_serialize (Some Headless) = Some ''headless''"
| "device_type_serialize (Some Server) = Some ''server''"
| "device_type_serialize None = None"

text \<open>
  \<open>lowercase\<close> is \<open>str::to_lowercase\<close>, the Unicode mapping of the standard library.
\<close>

definition device_type_deserialize ::
  "(string \<Rightarrow> string) \<Rightarrow> string option \<Rightarrow> device_type option" where
  "device_type_deserialize lowercase value =
     map_option (\<lambda>v.
       (let l = lowercase v in
        if l = ''mobile'' then Mobile
        else if l = ''desktop'' then Desktop
        else if l = ''web'' then Web
        else if l = ''headless'' then Headless
        else if l = ''server'' then Server
        else Desktop)) value"

definition PROTOCOL_VERSION_V2 :: string where
  "PROTOCOL_VERSION_V2 = ''2.1''"

text \<open>\<open>http::state::ClientInfo\<close>: what this device tells about itself.\<close>

record client_info =
  ci_alias :: string
  ci_version :: string
  ci_device_model :: "string option"
  ci_device_type :: "device_type option"
  ci_token :: string

record register_dto_v2 =
  rd_alias :: string
  rd_version :: string
  rd_device_model :: "string option"
  rd_device_type :: "device_type option"
  rd_fingerprint :: string
  rd_port :: u16
  rd_protocol :: protocol_type_v2
  rd_download :: bool

text \<open>\<open>RegisterResponseDtoV2\<close> and \<open>InfoResponseDtoV2\<close> have the same fields.\<close>

record info_dto_v2 =
  id_alias :: string
  id_version :: string
  id_device_model :: "string option"
  id_device_type :: "device_type option"
  id_fingerprint :: string
  id_download :: bool

record register_response_dto =
  rr_alias :: string
  rr_version :: string
  rr_device_model :: "string option"
  rr_device_type :: "device_type option"
  rr_token :: string
  rr_has_web_interface :: bool

section \<open>Files\<close>

record file_metadata =
  fm_modified :: "string option"
  fm_accessed :: "string option"

record file_dto =
  fd_id :: string
  fd_file_name :: string
  fd_size :: u64
  fd_file_type :: string
  fd_sha256 :: "string option"
  fd_preview :: "string option"
  fd_metadata :: "file_metadata option"

record prepare_upload_request =
  pr_info :: register_dto_v2
  pr_files :: "(string, file_dto) hmap"

section \<open>Addresses\<close>

datatype ip_addr =
    V4 u8 u8 u8 u8
  | V6 u16 u16 u16 u16 u16 u16 u16 u16

fun v6_segments :: "ip_addr \<Rightarrow> u16 list" where
  "v6_segments (V6 a b c d e f g h) = [a, b, c, d, e, f, g, h]"
| "v6_segments (V4 a b c d) = []"

text \<open>
  \<open>Display\<close> of the standard library: dotted decimal, and for IPv6 groups in base 16 with the
  first longest run of at least two zero groups written \<open>::\<close> (an IPv4-mapped address shows
  its IPv4 part).
\<close>

definition ipv4_to_string :: "u8 \<Rightarrow> u8 \<Rightarrow> u8 \<Rightarrow> u8 \<Rightarrow> string" where
  "ipv4_to_string a b c d =
     nat_str 10 (unat a) @ ''.'' @ nat_str 10 (unat b) @ ''.'' @
     nat_str 10 (unat c) @ ''.'' @ nat_str 10 (unat d)"

fun longest_zero_run ::
  "nat \<Rightarrow> nat \<times> nat \<Rightarrow> nat \<times> nat \<Rightarrow> u16 list \<Rightarrow> nat \<times> nat" where
  "longest_zero_run i current longest [] = longest"
| "longest_zero_run i (start, len) longest (s # ss) =
     (if s = 0 then
        (let current = (if len = 0 then i else start, Suc len);
             longest' = (if snd current > snd longest then current else longest)
         in longest_zero_run (Suc i) current longest' ss)
      else longest_zero_run (Suc i) (0, 0) longest ss)"

fun fmt_subslice :: "u16 list \<Rightarrow> string" where
  "fmt_subslice [] = []"
| "fmt_subslice [s] = nat_str 16 (unat s)"
| "fmt_subslice (s # ss) = nat_str 16 (unat s) @ '':'' @ fmt_subslice ss"

definition ipv6_to_string :: "u16 list \<Rightarrow> string" where
  "ipv6_to_string segments =
     (if length segments = 8 \<and> take 5 segments = [0, 0, 0, 0, 0] \<and> segments ! 5 = 0xFFFF
      then ''::ffff:'' @
        (let hi = unat (segments ! 6); lo = unat (segments ! 7)
         in ipv4_to_string (of_nat (hi div 256)) (of_nat (hi mod 256))
              (of_nat (lo div 256)) (of_nat (lo mod 256)))
      else
        (let (start, len) = longest_zero_run 0 (0, 0) (0, 0) segments
         in if len > 1
            then fmt_subslice (take start segments) @ ''::'' @
                 fmt_subslice (drop (start + len) segments)
            else fmt_subslice segments))"

fun ip_to_string :: "ip_addr \<Rightarrow> string" where
  "ip_to_string (V4 a b c d) = ipv4_to_string a b c d"
| "ip_to_string ip = ipv6_to_string (v6_segments ip)"

text \<open>\<open>std::net::SocketAddr\<close>; only the IPv6 form carries a scope.\<close>

datatype socket_addr = Sock_V4 ip_addr u16 | Sock_V6 ip_addr u16 (sock_scope_id: u32)

fun sock_ip :: "socket_addr \<Rightarrow> ip_addr" where
  "sock_ip (Sock_V4 ip port) = ip"
| "sock_ip (Sock_V6 ip port scope) = ip"

record peer_ip =
  p_ip :: ip_addr
  p_scope_id :: "u32 option"

definition peer_from_remote_addr :: "socket_addr \<Rightarrow> peer_ip" where
  "peer_from_remote_addr remote_addr =
     \<lparr>p_ip = sock_ip remote_addr,
      p_scope_id =
        (case remote_addr of
           Sock_V6 ip port scope \<Rightarrow> if scope \<noteq> 0 then Some scope else None
         | _ \<Rightarrow> None)\<rparr>"

definition peer_to_string :: "peer_ip \<Rightarrow> string" where
  "peer_to_string p =
     (case p_scope_id p of
        Some scope_id \<Rightarrow> ip_to_string (p_ip p) @ ''%'' @ nat_str 10 (unat scope_id)
      | None \<Rightarrow> ip_to_string (p_ip p))"

section \<open>The client of a request\<close>

record request_client_info =
  rc_ip :: peer_ip
  rc_cert :: "bytes option"

definition cert_fingerprint ::
  "('sk, 'ek, 'rk, 'z) crypto_lib_scheme \<Rightarrow> request_client_info \<Rightarrow> string option" where
  "cert_fingerprint lib ci = map_option (fingerprint_from_cert_der lib) (rc_cert ci)"

text \<open>\<open>cert_key\<close> is \<open>public_key_from_cert_der\<close> on the parser and PEM printer in use.\<close>

definition extract_public_key ::
  "(bytes \<Rightarrow> cert_error + string) \<Rightarrow> request_client_info \<Rightarrow> string option" where
  "extract_public_key cert_key ci =
     (case rc_cert ci of
        Some cert \<Rightarrow> (case cert_key cert of Inr k \<Rightarrow> Some k | Inl _ \<Rightarrow> None)
      | None \<Rightarrow> None)"

definition client_identifier ::
  "(bytes \<Rightarrow> cert_error + string) \<Rightarrow> request_client_info \<Rightarrow> string" where
  "client_identifier cert_key ci =
     (case extract_public_key cert_key ci of
        Some k \<Rightarrow> k
      | None \<Rightarrow> peer_to_string (rc_ip ci))"

section \<open>Errors and responses\<close>

type_synonym status = nat

text \<open>
  The message of an error response: a fixed text, or the one built from a status code, whose
  reason phrase the \<open>http\<close> crate prints.
\<close>

datatype message = Msg string | Status_Msg status

datatype app_error =
    Hyper_Error
  | Status_Error status
  | Bad_Request string
  | Message_Error status string

datatype response_body =
    Empty_Body
  | Error_Body message
  | Info_Body info_dto_v2
  | Register_Body register_response_dto
  | Prepare_Upload_Body (pu_session_id: string) (pu_tokens: "(string, string) hmap")
  | Prepare_Download_Body info_dto_v2 string "(string, file_dto) hmap"
  | I18n_Body "(string, string) hmap"
  | Nonce_Body string
  | Static_Body string
  | Stream_Body "bytes list"

record response =
  rs_status :: status
  rs_headers :: "(string \<times> string) list"
  rs_body :: response_body

text \<open>\<open>JsonResponse::into_response\<close>, and a response with an empty body.\<close>

definition json_response :: "status \<Rightarrow> response_body \<Rightarrow> response" where
  "json_response status body =
     \<lparr>rs_status = status, rs_headers = [(''content-type'', ''application/json'')],
      rs_body = body\<rparr>"

definition empty_response :: "status \<Rightarrow> response" where
  "empty_response status = \<lparr>rs_status = status, rs_headers = [], rs_body = Empty_Body\<rparr>"

fun to_response :: "app_error \<Rightarrow> response" where
  "to_response Hyper_Error = json_response 500 (Error_Body (Msg ''Internal server error''))"
| "to_response (Status_Error code) = json_response code (Error_Body (Status_Msg code))"
| "to_response (Bad_Request message) = json_response 400 (Error_Body (Msg message))"
| "to_response (Message_Error status message) = json_response status (Error_Body (Msg message))"

type_synonym 'a app_result = "app_error + 'a"

definition error_status :: "app_error \<Rightarrow> status" where
  "error_status e = rs_status (to_response e)"

lemma error_status_simps [simp]:
  "error_status Hyper_Error = 500"
  "error_status (Status_Error c) = c"
  "error_status (Bad_Request m) = 400"
  "error_status (Message_Error c m) = c"
  by (simp_all add: error_status_def json_response_def)

section \<open>Request bodies and queries\<close>

text \<open>
  What reading a body and parsing it as JSON comes to: the connection fails, the bytes are not
  the expected JSON, or a value.
\<close>

datatype 'a incoming = Body_Failed | Body_Invalid | Body_Json 'a

fun collect_to_json :: "'a incoming \<Rightarrow> 'a app_result" where
  "collect_to_json Body_Failed = Inl Hyper_Error"
| "collect_to_json Body_Invalid = Inl (Bad_Request ''Invalid JSON body'')"
| "collect_to_json (Body_Json x) = Inr x"

text \<open>The certificate and the private key of a server, in PEM.\<close>

record tls_config =
  tc_cert :: string
  tc_private_key :: string

type_synonym query = "(string, string) hmap"

text \<open>
  \<open>form_parse\<close> is \<open>form_urlencoded::parse\<close>: the decoded pairs in order. Collecting them
  into a \<open>HashMap\<close> keeps the last value of a repeated key.
\<close>

definition parse_query :: "(string \<Rightarrow> (string \<times> string) list) \<Rightarrow> string option \<Rightarrow> query" where
  "parse_query form_parse query =
     (case query of
        None \<Rightarrow> []
      | Some q \<Rightarrow> foldl (\<lambda>m (k, v). hm_put k v m) [] (form_parse q))"

lemma hm_wf_parse_query: "hm_wf (parse_query form_parse query)"
proof -
  have "hm_wf m \<Longrightarrow> hm_wf (foldl (\<lambda>m (k, v). hm_put k v m) m ps)" for m :: query and ps
    by (induction ps arbitrary: m) auto
  then show ?thesis by (simp add: parse_query_def split: option.splits)
qed

lemma device_type_roundtrip:
  assumes "\<And>s. s \<in> {''mobile'', ''desktop'', ''web'', ''headless'', ''server''} \<Longrightarrow> lowercase s = s"
  shows "device_type_deserialize lowercase (device_type_serialize (Some d)) = Some d"
  using assms by (cases d) (simp_all add: device_type_deserialize_def)

end
