(* ===== verification/Pin.thy ===== *)
theory Pin
  imports Http_Types
begin

text \<open>
  The PIN check shared by uploads and web downloads (\<open>server/common/pin.rs\<close>).

  Failed attempts are counted per address in an \<open>LruCache\<close> of another crate; its operations
  are the fields of \<open>lru_ops\<close> and \<open>lru_laws\<close> is what its documentation promises. The
  locale \<open>pin_gate\<close> is the contract the two clients of the check rely on.
\<close>

section \<open>The LRU cache of the attempts\<close>

text \<open>A lookup may reorder the cache, so it returns the cache too.\<close>

record ('c, 'k, 'v) lru_ops =
  lru_get :: "'c \<Rightarrow> 'k \<Rightarrow> 'v option \<times> 'c"
  lru_put :: "'c \<Rightarrow> 'k \<Rightarrow> 'v \<Rightarrow> 'c"
  lru_pop :: "'c \<Rightarrow> 'k \<Rightarrow> 'c"

definition lru_peek :: "('c, 'k, 'v, 'z) lru_ops_scheme \<Rightarrow> 'c \<Rightarrow> 'k \<Rightarrow> 'v option" where
  "lru_peek ops c k = fst (lru_get ops c k)"

text \<open>
  A lookup changes no entry; an inserted entry is found; inserting may evict other entries but
  changes none; removing an entry leaves the others.
\<close>

definition lru_laws :: "('c, 'k, 'v, 'z) lru_ops_scheme \<Rightarrow> bool" where
  "lru_laws ops \<longleftrightarrow>
     (\<forall>c k k'. lru_peek ops (snd (lru_get ops c k)) k' = lru_peek ops c k') \<and>
     (\<forall>c k v. lru_peek ops (lru_put ops c k v) k = Some v) \<and>
     (\<forall>c k v k'. k' \<noteq> k \<longrightarrow>
        lru_peek ops (lru_put ops c k v) k' \<in> {lru_peek ops c k', None}) \<and>
     (\<forall>c k. lru_peek ops (lru_pop ops c k) k = None) \<and>
     (\<forall>c k k'. k' \<noteq> k \<longrightarrow> lru_peek ops (lru_pop ops c k) k' = lru_peek ops c k')"

lemma lru_get_D:
  assumes "lru_laws ops" and "lru_get ops c k = (found, c')"
  shows "found = lru_peek ops c k" and "lru_peek ops c' k' = lru_peek ops c k'"
proof -
  show "found = lru_peek ops c k" using assms(2) by (simp add: lru_peek_def)
  have "lru_peek ops (snd (lru_get ops c k)) k' = lru_peek ops c k'"
    using assms(1) unfolding lru_laws_def by blast
  with assms(2) show "lru_peek ops c' k' = lru_peek ops c k'" by simp
qed

lemma lru_put_same: "lru_laws ops \<Longrightarrow> lru_peek ops (lru_put ops c k v) k = Some v"
  by (simp add: lru_laws_def)

section \<open>The check\<close>

definition MAX_PIN_ATTEMPTS :: u32 where
  "MAX_PIN_ATTEMPTS = 3"

definition too_many_requests :: app_error where
  "too_many_requests = Message_Error 429 ''Too many requests''"

definition invalid_pin :: app_error where
  "invalid_pin = Message_Error 401 ''Invalid PIN''"

definition pin_required :: app_error where
  "pin_required = Message_Error 401 ''PIN required''"

definition check_pin ::
  "('c, ip_addr, u32, 'z) lru_ops_scheme \<Rightarrow> string option \<Rightarrow> 'c \<Rightarrow> query \<Rightarrow> ip_addr
     \<Rightarrow> unit app_result \<times> 'c" where
  "check_pin ops required_pin attempts query ip =
     (case required_pin of
        None \<Rightarrow> (Inr (), attempts)
      | Some required \<Rightarrow>
          (let (found, attempts) = lru_get ops attempts ip;
               count = (case found of None \<Rightarrow> 0 | Some n \<Rightarrow> n)
           in if count \<ge> MAX_PIN_ATTEMPTS then (Inl too_many_requests, attempts)
              else (case hm_get query ''pin'' of
                      Some pin \<Rightarrow>
                        if pin = required then (Inr (), lru_pop ops attempts ip)
                        else (Inl invalid_pin, lru_put ops attempts ip (count + 1))
                    | None \<Rightarrow> (Inl pin_required, attempts))))"

lemma check_pin_None [simp]: "check_pin ops None c q ip = (Inr (), c)"
  by (simp add: check_pin_def)

lemma check_pin_ok:
  "fst (check_pin ops (Some pin) c q ip) = Inr () \<Longrightarrow> hm_get q ''pin'' = Some pin"
  by (auto simp: check_pin_def split: prod.splits option.splits if_splits)

lemma check_pin_error:
  "fst (check_pin ops req c q ip) = Inl e \<Longrightarrow>
     e \<in> {too_many_requests, invalid_pin, pin_required}"
  by (auto simp: check_pin_def split: prod.splits option.splits if_splits)

section \<open>The contract of the check\<close>

text \<open>
  What a handler that starts with the check may rely on: without a PIN the gate is open and
  nothing is counted; with one, only a request that carries it passes; a refusal is 401 or 429.
\<close>

locale pin_gate =
  fixes check :: "string option \<Rightarrow> 'c \<Rightarrow> query \<Rightarrow> ip_addr \<Rightarrow> unit app_result \<times> 'c"
  assumes open_gate: "check None c q ip = (Inr (), c)"
    and only_with_pin: "fst (check (Some pin) c q ip) = Inr () \<Longrightarrow> hm_get q ''pin'' = Some pin"
    and refusal_status: "fst (check req c q ip) = Inl e \<Longrightarrow> error_status e \<in> {401, 429}"
begin

lemma passed_carries_pin:
  assumes "fst (check req c q ip) = Inr ()"
  shows "req = None \<or> hm_get q ''pin'' = req"
  using assms only_with_pin by (cases req) auto

text \<open>A handler guarded by the check: the refusal is returned, or the rest runs.\<close>

lemma guarded_ok:
  assumes "(case check req c q ip of (Inl e, c') \<Rightarrow> (Inl e, f c') | (Inr _, c') \<Rightarrow> k c') = (Inr x, s)"
  shows "(req = None \<or> hm_get q ''pin'' = req) \<and> k (snd (check req c q ip)) = (Inr x, s)"
  using assms passed_carries_pin [of req c q ip]
  by (auto split: prod.splits sum.splits)

lemma guarded_refused:
  assumes "req \<noteq> None" and "hm_get q ''pin'' \<noteq> req"
  shows "\<exists>e c'. (case check req c q ip of (Inl e, c') \<Rightarrow> (Inl e, f c') | (Inr _, c') \<Rightarrow> k c') =
      (Inl e, f c') \<and> error_status e \<in> {401, 429}"
proof -
  have "fst (check req c q ip) \<noteq> Inr ()"
    using assms passed_carries_pin by blast
  then obtain e where "fst (check req c q ip) = Inl e"
    by (cases "fst (check req c q ip)") auto
  with refusal_status [OF this] show ?thesis
    by (cases "check req c q ip") auto
qed

end

interpretation pin: pin_gate "check_pin ops" for ops
proof
  show "check_pin ops None c q ip = (Inr (), c)" for c q ip by simp
  show "fst (check_pin ops (Some pin) c q ip) = Inr () \<Longrightarrow> hm_get q ''pin'' = Some pin" for pin c q ip
    by (rule check_pin_ok)
  show "fst (check_pin ops req c q ip) = Inl e \<Longrightarrow> error_status e \<in> {401, 429}" for req c q ip e
    by (drule check_pin_error) (auto simp: too_many_requests_def invalid_pin_def pin_required_def)
qed

section \<open>Lockout\<close>

text \<open>A sequence of attempts from one address, and the results in order.\<close>

fun pin_attempts_run ::
  "('c, ip_addr, u32, 'z) lru_ops_scheme \<Rightarrow> string option \<Rightarrow> 'c \<Rightarrow> ip_addr \<Rightarrow> query list
     \<Rightarrow> unit app_result list \<times> 'c" where
  "pin_attempts_run ops req c ip [] = ([], c)"
| "pin_attempts_run ops req c ip (q # qs) =
     (let (r, c') = check_pin ops req c q ip;
          (rs, c'') = pin_attempts_run ops req c' ip qs
      in (r # rs, c''))"

lemma check_pin_wrong:
  assumes "lru_laws ops" and "hm_get q ''pin'' = Some p" and "p \<noteq> pin"
    and "lru_peek ops c ip = (if k = 0 then None else Some (of_nat k))" and "k \<le> 3"
  shows "\<exists>c'. check_pin ops (Some pin) c q ip =
      (Inl (if k < 3 then invalid_pin else too_many_requests), c') \<and>
    lru_peek ops c' ip = Some (of_nat (min 3 (Suc k)))"
proof -
  obtain found c1 where get: "lru_get ops c ip = (found, c1)" by fastforce
  have found: "found = (if k = 0 then None else Some (of_nat k))"
    and peek: "lru_peek ops c1 ip = (if k = 0 then None else Some (of_nat k))"
    using lru_get_D [OF assms(1) get] assms(4) by simp_all
  have "k = 0 \<or> k = 1 \<or> k = 2 \<or> k = 3"
    using assms(5) by linarith
  then show ?thesis
    using assms(2,3) found peek
    by (elim disjE) (simp_all add: check_pin_def MAX_PIN_ATTEMPTS_def get lru_put_same [OF assms(1)]
        word_le_nat_alt)
qed

lemma check_pin_locked:
  assumes "lru_laws ops" and "lru_peek ops c ip = Some 3"
  shows "\<exists>c'. check_pin ops (Some pin) c q ip = (Inl too_many_requests, c') \<and>
    lru_peek ops c' ip = Some 3"
proof -
  obtain found c1 where get: "lru_get ops c ip = (found, c1)" by fastforce
  then have "found = Some 3" and "lru_peek ops c1 ip = Some 3"
    using lru_get_D [OF assms(1) get] assms(2) by simp_all
  then show ?thesis by (simp add: check_pin_def MAX_PIN_ATTEMPTS_def get)
qed

lemma pin_attempts_run_wrong:
  assumes "lru_laws ops"
    and "list_all (\<lambda>q. \<exists>p. hm_get q ''pin'' = Some p \<and> p \<noteq> pin) qs"
    and "lru_peek ops c ip = (if k = 0 then None else Some (of_nat k))" and "k \<le> 3"
  shows "\<exists>c'. pin_attempts_run ops (Some pin) c ip qs =
      (replicate (min (3 - k) (length qs)) (Inl invalid_pin) @
       replicate (length qs - (3 - k)) (Inl too_many_requests), c') \<and>
    (3 \<le> k + length qs \<longrightarrow> lru_peek ops c' ip = Some 3)"
  using assms(2-)
proof (induction qs arbitrary: c k)
  case Nil
  then show ?case by auto
next
  case (Cons q qs)
  obtain p where p: "hm_get q ''pin'' = Some p" "p \<noteq> pin" using Cons.prems(1) by auto
  obtain c' where c': "check_pin ops (Some pin) c q ip =
        (Inl (if k < 3 then invalid_pin else too_many_requests), c')"
      "lru_peek ops c' ip = Some (of_nat (min 3 (Suc k)))"
    using check_pin_wrong [OF assms(1) p Cons.prems(2,3)] by blast
  have "\<exists>c''. pin_attempts_run ops (Some pin) c' ip qs =
        (replicate (min (3 - min 3 (Suc k)) (length qs)) (Inl invalid_pin) @
         replicate (length qs - (3 - min 3 (Suc k))) (Inl too_many_requests), c'') \<and>
      (3 \<le> min 3 (Suc k) + length qs \<longrightarrow> lru_peek ops c'' ip = Some 3)"
    using Cons.prems(1) c'(2) by (intro Cons.IH) auto
  then obtain c'' where "pin_attempts_run ops (Some pin) c' ip qs =
        (replicate (min (3 - min 3 (Suc k)) (length qs)) (Inl invalid_pin) @
         replicate (length qs - (3 - min 3 (Suc k))) (Inl too_many_requests), c'')"
      "3 \<le> min 3 (Suc k) + length qs \<longrightarrow> lru_peek ops c'' ip = Some 3"
    by blast
  moreover have "3 - k = Suc (3 - min 3 (Suc k))" if "k < 3" using that by simp
  ultimately show ?case using c' Cons.prems(3) by (cases "k < 3") auto
qed

section \<open>A concrete cache\<close>

text \<open>Most recently used entry first, cut at the capacity of 200 the server asks for.\<close>

definition list_lru :: "(('k, 'v) hmap, 'k, 'v) lru_ops" where
  "list_lru = \<lparr>lru_get = (\<lambda>c k. (hm_get c k, c)),
     lru_put = (\<lambda>c k v. take 200 ((k, v) # hm_del k c)),
     lru_pop = (\<lambda>c k. hm_del k c)\<rparr>"

lemma map_of_take': "map_of (take n m) k \<noteq> None \<Longrightarrow> map_of (take n m) k = map_of m k"
proof (induction m arbitrary: n)
  case (Cons a m)
  then show ?case by (cases n) (auto split: if_splits)
qed simp

lemma list_lru_laws: "lru_laws (list_lru :: (('k, 'v) hmap, 'k, 'v) lru_ops)"
proof -
  have "map_of (take 200 ((k, v) # hm_del k c)) k' \<in> {map_of c k', None}" if "k' \<noteq> k"
    for k k' :: 'k and v and c :: "('k, 'v) hmap"
    using that map_of_take' [of 200 "(k, v) # hm_del k c" k']
    by (cases "map_of (take 200 ((k, v) # hm_del k c)) k'") auto
  moreover have "map_of (take 200 ((k, v) # hm_del k c)) k = Some v" for k v and c :: "('k, 'v) hmap"
    by simp
  ultimately show ?thesis
    by (simp add: lru_laws_def lru_peek_def list_lru_def del: take_Cons_numeral)
qed

section \<open>Properties\<close>

text \<open>
  C29: Guessing a PIN from one address: the first three wrong PINs are answered 401, every
  further attempt is answered 429, the right PIN included.
\<close>

theorem pin_lockout:
  assumes "lru_laws ops"
    and "lru_peek ops c ip = None"
    and "list_all (\<lambda>q. \<exists>p. hm_get q ''pin'' = Some p \<and> p \<noteq> pin) qs"
  shows "fst (pin_attempts_run ops (Some pin) c ip qs) =
      replicate (min 3 (length qs)) (Inl invalid_pin) @
      replicate (length qs - 3) (Inl too_many_requests) \<and>
    (3 \<le> length qs \<longrightarrow>
      fst (check_pin ops (Some pin) (snd (pin_attempts_run ops (Some pin) c ip qs)) q ip) =
        Inl too_many_requests)"
proof -
  obtain c' where "pin_attempts_run ops (Some pin) c ip qs =
        (replicate (min (3 - 0) (length qs)) (Inl invalid_pin) @
         replicate (length qs - (3 - 0)) (Inl too_many_requests), c')"
      "3 \<le> 0 + length qs \<longrightarrow> lru_peek ops c' ip = Some 3"
    using pin_attempts_run_wrong [OF assms(1,3), of c ip 0] assms(2) by auto
  with check_pin_locked [OF assms(1), of c' ip pin q] show ?thesis by auto
qed

theorem pin_lockout_witness:
  "fst (check_pin list_lru (Some ''1234'')
      (snd (pin_attempts_run list_lru (Some ''1234'') [] (V4 10 0 0 1)
        (replicate 3 [(''pin'', ''0000'')]))) [(''pin'', ''1234'')] (V4 10 0 0 1)) =
    Inl too_many_requests"
  using pin_lockout [OF list_lru_laws, of "[]" "V4 10 0 0 1" "''1234''" "replicate 3 [(''pin'', ''0000'')]"
      "[(''pin'', ''1234'')]"]
  by (simp add: lru_peek_def list_lru_def numeral_eq_Suc)

end
