(* ===== verification/Drop_Guard.thy ===== *)
theory Drop_Guard
  imports Prelude
begin

text \<open>
  The pattern the request handlers share: a guard is created when a resource is claimed, it is
  disarmed when the resource is handed over, finished when the handler cleans up itself, and
  when it goes out of scope still armed (an early return, a dropped connection) its
  destructor cleans up. \<open>PendingSessionGuard\<close> and \<open>UploadGuard\<close> of \<open>server/v2.rs\<close> and
  \<open>PendingWebSessionGuard\<close> of \<open>server/web.rs\<close> are its three providers.
\<close>

locale drop_guard =
  fixes fresh :: "'i \<Rightarrow> 'g"
    and disarm :: "'g \<Rightarrow> 'g"
    and finish :: "'r \<Rightarrow> 'g \<Rightarrow> 's \<Rightarrow> 'g \<times> 's"
    and on_drop :: "'g \<Rightarrow> 's \<Rightarrow> 's"
    and cleanup :: "'i \<Rightarrow> 'r \<Rightarrow> 's \<Rightarrow> 's"
    and abandon :: "'i \<Rightarrow> 's \<Rightarrow> 's"
  assumes drop_fresh: "on_drop (fresh i) s = abandon i s"
    and drop_disarmed: "on_drop (disarm g) s = s"
    and finish_effect: "snd (finish r (fresh i) s) = cleanup i r s"
    and drop_finished: "on_drop (fst (finish r g s)) s' = s'"
begin

text \<open>On every path through a handler exactly one of the effects happens.\<close>

lemma finish_then_drop:
  "(case finish r (fresh i) s of (g, s') \<Rightarrow> on_drop g s') = cleanup i r s"
proof -
  obtain g s' where fin: "finish r (fresh i) s = (g, s')" by fastforce
  then have "on_drop g s' = s'" using drop_finished [of r "fresh i" s s'] by simp
  moreover have "s' = cleanup i r s" using finish_effect [of r i s] fin by simp
  ultimately show ?thesis using fin by simp
qed

lemma disarm_then_drop: "on_drop (disarm (fresh i)) s = s"
  by (rule drop_disarmed)

end

end
