(* ===== verification/Upload_Server.thy ===== *)
theory Upload_Server
  imports Pin Drop_Guard
begin

text \<open>
  The upload side of the v2 protocol: the single session slot (\<open>server/common/session.rs\<close>),
  the runtime state and the handlers \<open>register\<close>, \<open>info\<close>, \<open>prepare_upload\<close>, \<open>upload\<close>,
  \<open>cancel\<close> with their guards (\<open>server/v2.rs\<close>) and the cancellation from the application
  (\<open>ServerHandle::cancel_v2_session\<close> in \<open>server/mod.rs\<close>).

  A handler is asynchronous: between two \<open>await\<close>s it runs undisturbed, and it holds the
  session mutex only inside such a stretch. Each stretch that touches the shared state is a
  definition of its own here (an atomic section); a handler is the composition of its
  sections. \<open>Upload_Machine\<close> interleaves the same sections.

  Events are sent on a bounded channel: a send waits for room and fails when the application
  has dropped the receiver. \<open>v2_events\<close> is what was sent, in order. The answers of the
  application (a decision, an upload target) are inputs of the handlers.
\<close>

section \<open>The session slot\<close>

datatype file_status = File_Pending | File_InProgress | File_Finished | File_Failed

record session_file =
  sf_dto :: file_dto
  sf_token :: string
  sf_status :: file_status
  sf_attempts :: u8

text \<open>
  The cancellation token of a pending request is shared between the slot and the waiting
  handler; it is made together with the session id, which names it.
\<close>

record pending_session =
  ps_session_id :: string
  ps_sender_ip :: peer_ip

record upload_session =
  us_session_id :: string
  us_sender_ip :: peer_ip
  us_files :: "(string, session_file) hmap"

datatype session_state = Pending pending_session | Active upload_session

definition is_final :: "file_status \<Rightarrow> bool" where
  "is_final st \<longleftrightarrow> st = File_Finished \<or> st = File_Failed"

definition is_complete :: "upload_session \<Rightarrow> bool" where
  "is_complete session \<longleftrightarrow> list_all (\<lambda>f. is_final (sf_status f)) (map snd (us_files session))"

lemma is_complete_iff:
  "hm_wf (us_files us) \<Longrightarrow>
     is_complete us \<longleftrightarrow> (\<forall>fid f. hm_get (us_files us) fid = Some f \<longrightarrow> is_final (sf_status f))"
  unfolding is_complete_def by (rule hm_all_values_iff)

section \<open>Events and decisions\<close>

datatype session_end_reason = End_Finished | End_Cancelled

datatype server_event =
    Ev_Register peer_ip register_dto_v2
  | Ev_Prepare_Upload string peer_ip register_dto_v2 "string option" "(string, file_dto) hmap"
  | Ev_File_Upload string string file_dto
  | Ev_Session_End string session_end_reason
  | Ev_Prepare_Upload_Aborted string
  | Ev_Cancel_Received peer_ip string

text \<open>The set of accepted ids is given by its elements.\<close>

datatype prepare_upload_decision = Accept "string list" | Decline

text \<open>
  How waiting for the decision ends: the application decides, drops the channel, or the
  sender cancels.
\<close>

datatype decision_outcome = Decided prepare_upload_decision | Decision_Dropped | Sender_Cancelled

datatype save_result = Save_Success | Save_Failed | Save_HashMismatch

section \<open>Runtime state\<close>

record 'c v2_state =
  v2_pin :: "string option"
  v2_pin_attempts :: 'c
  v2_session :: "session_state option"
  v2_cancelled :: "string list"
  v2_event_open :: bool
  v2_events :: "server_event list"

definition emit :: "server_event \<Rightarrow> ('c, 'z) v2_state_scheme \<Rightarrow> bool \<times> ('c, 'z) v2_state_scheme" where
  "emit e s = (if v2_event_open s then (True, s\<lparr>v2_events := v2_events s @ [e]\<rparr>) else (False, s))"

lemma emit_frame [simp]:
  "v2_session (snd (emit e s)) = v2_session s"
  "v2_pin (snd (emit e s)) = v2_pin s"
  "v2_cancelled (snd (emit e s)) = v2_cancelled s"
  "v2_pin_attempts (snd (emit e s)) = v2_pin_attempts s"
  "v2_event_open (snd (emit e s)) = v2_event_open s"
  by (simp_all add: emit_def)

section \<open>Guards\<close>

subsection \<open>A claimed slot\<close>

definition clear_pending_session :: "('c, 'z) v2_state_scheme \<Rightarrow> ('c, 'z) v2_state_scheme" where
  "clear_pending_session s =
     (case v2_session s of
        Some (Pending p) \<Rightarrow> s\<lparr>v2_session := None\<rparr>
      | _ \<Rightarrow> s)"

record pending_guard =
  pg_session_id :: string
  pg_armed :: bool

definition pending_guard_new :: "string \<Rightarrow> pending_guard" where
  "pending_guard_new session_id = \<lparr>pg_session_id = session_id, pg_armed = True\<rparr>"

definition pending_guard_disarm :: "pending_guard \<Rightarrow> pending_guard" where
  "pending_guard_disarm g = g\<lparr>pg_armed := False\<rparr>"

definition pending_guard_clear ::
  "unit \<Rightarrow> pending_guard \<Rightarrow> ('c, 'z) v2_state_scheme \<Rightarrow> pending_guard \<times> ('c, 'z) v2_state_scheme" where
  "pending_guard_clear _ g s = (g\<lparr>pg_armed := False\<rparr>, clear_pending_session s)"

text \<open>The task the destructor spawns, run to its end.\<close>

definition abort_pending :: "string \<Rightarrow> ('c, 'z) v2_state_scheme \<Rightarrow> ('c, 'z) v2_state_scheme" where
  "abort_pending session_id s =
     snd (emit (Ev_Prepare_Upload_Aborted session_id) (clear_pending_session s))"

definition pending_guard_drop ::
  "pending_guard \<Rightarrow> ('c, 'z) v2_state_scheme \<Rightarrow> ('c, 'z) v2_state_scheme" where
  "pending_guard_drop g s = (if \<not> pg_armed g then s else abort_pending (pg_session_id g) s)"

interpretation pending_guard: drop_guard pending_guard_new pending_guard_disarm
  pending_guard_clear pending_guard_drop "\<lambda>_ _. clear_pending_session" abort_pending
  by unfold_locales
    (simp_all add: pending_guard_new_def pending_guard_disarm_def pending_guard_clear_def
      pending_guard_drop_def)

subsection \<open>A file in progress\<close>

definition MAX_UPLOAD_ATTEMPTS :: u8 where
  "MAX_UPLOAD_ATTEMPTS = 3"

definition final_status :: "save_result \<Rightarrow> u8 \<Rightarrow> file_status" where
  "final_status result attempts =
     (case result of
        Save_Success \<Rightarrow> File_Finished
      | Save_HashMismatch \<Rightarrow>
          if attempts < MAX_UPLOAD_ATTEMPTS then File_Pending else File_Failed
      | Save_Failed \<Rightarrow> File_Failed)"

text \<open>The critical section of \<open>finalize_file\<close>: the new slot, and whether the session ended.\<close>

definition finalize_slot ::
  "session_state option \<Rightarrow> string \<Rightarrow> string \<Rightarrow> save_result \<Rightarrow> bool \<times> session_state option" where
  "finalize_slot slot session_id file_id result =
     (case slot of
        Some (Active session) \<Rightarrow>
          if us_session_id session \<noteq> session_id then (False, slot)
          else
            (let files = hm_upd file_id
                   (\<lambda>file. if sf_status file = File_InProgress
                            then file\<lparr>sf_status := final_status result (sf_attempts file)\<rparr>
                            else file) (us_files session);
                 session' = session\<lparr>us_files := files\<rparr>
             in if is_complete session' then (True, None) else (False, Some (Active session')))
      | _ \<Rightarrow> (False, slot))"

definition finalize_file ::
  "string \<Rightarrow> string \<Rightarrow> save_result \<Rightarrow> ('c, 'z) v2_state_scheme \<Rightarrow> ('c, 'z) v2_state_scheme" where
  "finalize_file session_id file_id result s =
     (let (session_ended, slot) = finalize_slot (v2_session s) session_id file_id result;
          s = s\<lparr>v2_session := slot\<rparr>
      in if session_ended then snd (emit (Ev_Session_End session_id End_Finished) s) else s)"

record upload_guard =
  ug_session_id :: string
  ug_file_id :: string
  ug_armed :: bool

definition upload_guard_new :: "string \<times> string \<Rightarrow> upload_guard" where
  "upload_guard_new i = \<lparr>ug_session_id = fst i, ug_file_id = snd i, ug_armed = True\<rparr>"

definition upload_guard_finish ::
  "save_result \<Rightarrow> upload_guard \<Rightarrow> ('c, 'z) v2_state_scheme \<Rightarrow> upload_guard \<times> ('c, 'z) v2_state_scheme" where
  "upload_guard_finish result g s =
     (g\<lparr>ug_armed := False\<rparr>, finalize_file (ug_session_id g) (ug_file_id g) result s)"

definition upload_guard_drop ::
  "upload_guard \<Rightarrow> ('c, 'z) v2_state_scheme \<Rightarrow> ('c, 'z) v2_state_scheme" where
  "upload_guard_drop g s =
     (if \<not> ug_armed g then s else finalize_file (ug_session_id g) (ug_file_id g) Save_Failed s)"

text \<open>This guard has no separate way to be disarmed.\<close>

interpretation upload_guard: drop_guard upload_guard_new "\<lambda>g. g\<lparr>ug_armed := False\<rparr>"
  upload_guard_finish upload_guard_drop
  "\<lambda>i result. finalize_file (fst i) (snd i) result" "\<lambda>i. finalize_file (fst i) (snd i) Save_Failed"
  by unfold_locales
    (simp_all add: upload_guard_new_def upload_guard_finish_def upload_guard_drop_def)

section \<open>Prepare upload\<close>

text \<open>Counting and answering the PIN.\<close>

definition pu_check_pin ::
  "('c, ip_addr, u32, 'y) lru_ops_scheme \<Rightarrow> query \<Rightarrow> request_client_info
     \<Rightarrow> ('c, 'z) v2_state_scheme \<Rightarrow> unit app_result \<times> ('c, 'z) v2_state_scheme" where
  "pu_check_pin ops query ci s =
     (let (r, attempts) = check_pin ops (v2_pin s) (v2_pin_attempts s) query (p_ip (rc_ip ci))
      in (r, s\<lparr>v2_pin_attempts := attempts\<rparr>))"

definition pu_parse :: "prepare_upload_request incoming \<Rightarrow> prepare_upload_request app_result" where
  "pu_parse body =
     (case collect_to_json body of
        Inl e \<Rightarrow> Inl e
      | Inr payload \<Rightarrow>
          if pr_files payload = [] then Inl (Bad_Request ''No files provided'')
          else Inr payload)"

text \<open>Claiming the single slot.\<close>

definition pu_claim ::
  "string \<Rightarrow> request_client_info \<Rightarrow> ('c, 'z) v2_state_scheme
     \<Rightarrow> unit app_result \<times> ('c, 'z) v2_state_scheme" where
  "pu_claim session_id ci s =
     (if v2_session s \<noteq> None
      then (Inl (Message_Error 409 ''Blocked by another session''), s)
      else (Inr (), s\<lparr>v2_session :=
              Some (Pending \<lparr>ps_session_id = session_id, ps_sender_ip = rc_ip ci\<rparr>)\<rparr>))"

definition pu_event ::
  "('sk, 'ek, 'rk, 'y) crypto_lib_scheme \<Rightarrow> string \<Rightarrow> request_client_info
     \<Rightarrow> prepare_upload_request \<Rightarrow> server_event" where
  "pu_event lib session_id ci payload =
     Ev_Prepare_Upload session_id (rc_ip ci) (pr_info payload) (cert_fingerprint lib ci)
       (pr_files payload)"

text \<open>The accepted files, each with a token of its own; \<open>new_token\<close> gives the UUIDs.\<close>

definition pu_files ::
  "prepare_upload_request \<Rightarrow> string list \<Rightarrow> (string \<Rightarrow> string) \<Rightarrow> (string, session_file) hmap" where
  "pu_files payload accepted_ids new_token =
     map (\<lambda>(id, dto). (id, \<lparr>sf_dto = dto, sf_token = new_token id, sf_status = File_Pending,
                              sf_attempts = 0\<rparr>))
       (filter (\<lambda>(id, _). id \<in> set accepted_ids) (pr_files payload))"

definition pu_tokens :: "(string, session_file) hmap \<Rightarrow> (string, string) hmap" where
  "pu_tokens files = map (\<lambda>(id, file). (id, sf_token file)) files"

text \<open>Replacing the pending slot by the active session.\<close>

definition pu_activate ::
  "string \<Rightarrow> request_client_info \<Rightarrow> (string, session_file) hmap
     \<Rightarrow> ('c, 'z) v2_state_scheme \<Rightarrow> ('c, 'z) v2_state_scheme" where
  "pu_activate session_id ci files s =
     s\<lparr>v2_session := Some (Active \<lparr>us_session_id = session_id, us_sender_ip = rc_ip ci,
                                    us_files = files\<rparr>)\<rparr>"

definition cancelled_by_sender :: app_error where
  "cancelled_by_sender = Message_Error 403 ''Cancelled by sender''"

definition rejected :: app_error where
  "rejected = Message_Error 403 ''Rejected''"

text \<open>
  The handler run to its end, the guard dropped at every return. \<open>session_id\<close> and
  \<open>new_token\<close> are the UUIDs it draws, \<open>outcome\<close> is how the wait for the decision ends.
\<close>

definition prepare_upload ::
  "('c, ip_addr, u32, 'y) lru_ops_scheme \<Rightarrow> ('sk, 'ek, 'rk, 'x) crypto_lib_scheme
     \<Rightarrow> query \<Rightarrow> request_client_info \<Rightarrow> prepare_upload_request incoming
     \<Rightarrow> string \<Rightarrow> (string \<Rightarrow> string) \<Rightarrow> decision_outcome
     \<Rightarrow> ('c, 'z) v2_state_scheme \<Rightarrow> response app_result \<times> ('c, 'z) v2_state_scheme" where
  "prepare_upload ops lib query ci body session_id new_token outcome s =
     (case pu_check_pin ops query ci s of
        (Inl e, s) \<Rightarrow> (Inl e, s)
      | (Inr _, s) \<Rightarrow>
     (case pu_parse body of
        Inl e \<Rightarrow> (Inl e, s)
      | Inr payload \<Rightarrow>
     (case pu_claim session_id ci s of
        (Inl e, s) \<Rightarrow> (Inl e, s)
      | (Inr _, s) \<Rightarrow>
     (let guard = pending_guard_new session_id;
          (sent, s) = emit (pu_event lib session_id ci payload) s
      in if \<not> sent then (Inl (Status_Error 500), pending_guard_drop guard s)
         else
           (case outcome of
              Decision_Dropped \<Rightarrow> (Inl (Status_Error 500), pending_guard_drop guard s)
            | Sender_Cancelled \<Rightarrow> (Inl cancelled_by_sender, pending_guard_drop guard s)
            | Decided Decline \<Rightarrow>
                (let (guard, s) = pending_guard_clear () guard s
                 in (Inl rejected, pending_guard_drop guard s))
            | Decided (Accept accepted_ids) \<Rightarrow>
                (let files = pu_files payload accepted_ids new_token in
                 if files = []
                 then (let (guard, s) = pending_guard_clear () guard s
                       in (Inr (empty_response 204), pending_guard_drop guard s))
                 else
                   (let s = pu_activate session_id ci files s;
                        guard = pending_guard_disarm guard
                    in (Inr (json_response 200 (Prepare_Upload_Body session_id (pu_tokens files))),
                        pending_guard_drop guard s))))))))"

section \<open>Upload\<close>

definition invalid_token_error :: app_error where
  "invalid_token_error = Message_Error 403 ''Invalid token or IP address''"

text \<open>Validating the request and marking the file as in progress.\<close>

definition upload_begin ::
  "session_state option \<Rightarrow> peer_ip \<Rightarrow> string \<Rightarrow> string \<Rightarrow> string
     \<Rightarrow> file_dto app_result \<times> session_state option" where
  "upload_begin slot ip session_id file_id token =
     (case slot of
        Some (Active session) \<Rightarrow>
          if us_session_id session \<noteq> session_id \<or> us_sender_ip session \<noteq> ip
          then (Inl invalid_token_error, slot)
          else
            (case hm_get (us_files session) file_id of
               None \<Rightarrow> (Inl invalid_token_error, slot)
             | Some file \<Rightarrow>
                 if sf_token file \<noteq> token \<or> sf_status file \<noteq> File_Pending
                 then (Inl invalid_token_error, slot)
                 else
                   (let file' = file\<lparr>sf_status := File_InProgress,
                                     sf_attempts := saturating_inc (sf_attempts file)\<rparr>
                    in (Inr (sf_dto file'),
                        Some (Active (session\<lparr>us_files :=
                          hm_upd file_id (\<lambda>_. file') (us_files session)\<rparr>)))))
      | _ \<Rightarrow> (Inl invalid_token_error, slot))"

definition upload_params :: "query \<Rightarrow> (string \<times> string \<times> string) option" where
  "upload_params query =
     (case (hm_get query ''sessionId'', hm_get query ''fileId'', hm_get query ''token'') of
        (Some session_id, Some file_id, Some token) \<Rightarrow> Some (session_id, file_id, token)
      | _ \<Rightarrow> None)"

definition upload_response :: "save_result \<Rightarrow> response app_result" where
  "upload_response result =
     (case result of
        Save_Success \<Rightarrow> Inr (empty_response 200)
      | Save_Failed \<Rightarrow> Inl (Status_Error 500)
      | Save_HashMismatch \<Rightarrow> Inl (Message_Error 422 ''Checksum mismatch''))"

text \<open>
  The handler run to its end. \<open>target\<close> is the answer of the application (\<open>None\<close> when it drops
  the channel), \<open>save\<close> is \<open>save_req_to_target\<close> on the body of this request, given the
  target, the expected size and the expected checksum.
\<close>

definition upload ::
  "query \<Rightarrow> request_client_info \<Rightarrow> 't option \<Rightarrow> ('t \<Rightarrow> u64 \<Rightarrow> string option \<Rightarrow> save_result)
     \<Rightarrow> ('c, 'z) v2_state_scheme \<Rightarrow> response app_result \<times> ('c, 'z) v2_state_scheme" where
  "upload query ci target save s =
     (case upload_params query of
        None \<Rightarrow> (Inl (Message_Error 400 ''Missing parameters''), s)
      | Some (session_id, file_id, token) \<Rightarrow>
     (case upload_begin (v2_session s) (rc_ip ci) session_id file_id token of
        (Inl e, slot) \<Rightarrow> (Inl e, s\<lparr>v2_session := slot\<rparr>)
      | (Inr file_dto, slot) \<Rightarrow>
     (let s = s\<lparr>v2_session := slot\<rparr>;
          guard = upload_guard_new (session_id, file_id);
          (sent, s) = emit (Ev_File_Upload session_id file_id file_dto) s
      in if \<not> sent then
           (let (guard, s) = upload_guard_finish Save_Failed guard s
            in (Inl (Status_Error 500), upload_guard_drop guard s))
         else
           (case target of
              None \<Rightarrow>
                (let (guard, s) = upload_guard_finish Save_Failed guard s
                 in (Inl (Status_Error 500), upload_guard_drop guard s))
            | Some t \<Rightarrow>
                (let result = save t (fd_size file_dto) (fd_sha256 file_dto);
                     (guard, s) = upload_guard_finish result guard s
                 in (upload_response result, upload_guard_drop guard s))))))"

section \<open>Cancel\<close>

text \<open>
  The first critical section: a pending request of the same address, with no session id given
  or its own, has its token cancelled. The slot is left to the waiting handler.
\<close>

definition cancel_pending ::
  "peer_ip \<Rightarrow> string option \<Rightarrow> ('c, 'z) v2_state_scheme \<Rightarrow> bool \<times> ('c, 'z) v2_state_scheme" where
  "cancel_pending ip session_id s =
     (case v2_session s of
        Some (Pending pending) \<Rightarrow>
          if ps_sender_ip pending = ip \<and>
             (case session_id of None \<Rightarrow> True | Some sid \<Rightarrow> sid = ps_session_id pending)
          then (True, s\<lparr>v2_cancelled := ps_session_id pending # v2_cancelled s\<rparr>)
          else (False, s)
      | _ \<Rightarrow> (False, s))"

text \<open>The second critical section: an active session of the same address and id is ended.\<close>

definition cancel_active ::
  "peer_ip \<Rightarrow> string \<Rightarrow> ('c, 'z) v2_state_scheme \<Rightarrow> bool \<times> ('c, 'z) v2_state_scheme" where
  "cancel_active ip session_id s =
     (case v2_session s of
        Some (Active session) \<Rightarrow>
          if us_session_id session = session_id \<and> us_sender_ip session = ip
          then (True, s\<lparr>v2_session := None\<rparr>)
          else (False, s)
      | _ \<Rightarrow> (False, s))"

definition cancel ::
  "query \<Rightarrow> request_client_info \<Rightarrow> ('c, 'z) v2_state_scheme
     \<Rightarrow> response app_result \<times> ('c, 'z) v2_state_scheme" where
  "cancel query ci s =
     (let session_id = hm_get query ''sessionId'';
          (pending_cancelled, s) = cancel_pending (rc_ip ci) session_id s
      in if pending_cancelled then (Inr (empty_response 200), s)
         else
           (case session_id of
              None \<Rightarrow> (Inr (empty_response 200), s)
            | Some sid \<Rightarrow>
                (let (cancelled, s) = cancel_active (rc_ip ci) sid s;
                     (_, s) = emit (if cancelled then Ev_Session_End sid End_Cancelled
                                    else Ev_Cancel_Received (rc_ip ci) sid) s
                 in (Inr (empty_response 200), s))))"

text \<open>\<open>ServerHandle::cancel_v2_session\<close>.\<close>

definition cancel_v2_session ::
  "string \<Rightarrow> ('c, 'z) v2_state_scheme \<Rightarrow> bool \<times> ('c, 'z) v2_state_scheme" where
  "cancel_v2_session session_id s =
     (case v2_session s of
        Some (Active session) \<Rightarrow>
          if us_session_id session = session_id then (True, s\<lparr>v2_session := None\<rparr>) else (False, s)
      | _ \<Rightarrow> (False, s))"

section \<open>Register and info\<close>

definition info_dto :: "client_info \<Rightarrow> bool \<Rightarrow> info_dto_v2" where
  "info_dto info download =
     \<lparr>id_alias = ci_alias info, id_version = PROTOCOL_VERSION_V2,
      id_device_model = ci_device_model info, id_device_type = ci_device_type info,
      id_fingerprint = ci_token info, id_download = download\<rparr>"

definition register_fingerprint_valid ::
  "('sk, 'ek, 'rk, 'x) crypto_lib_scheme \<Rightarrow> request_client_info \<Rightarrow> register_dto_v2 \<Rightarrow> bool" where
  "register_fingerprint_valid lib ci payload =
     (case cert_fingerprint lib ci of
        Some fp \<Rightarrow> to_ascii_uppercase (rd_fingerprint payload) = fp
      | None \<Rightarrow> True)"

text \<open>\<open>v2\<close> is the optional state of the v2 endpoints, \<open>download\<close> whether web send is on.\<close>

definition register ::
  "('sk, 'ek, 'rk, 'x) crypto_lib_scheme \<Rightarrow> client_info \<Rightarrow> bool \<Rightarrow> register_dto_v2 incoming
     \<Rightarrow> request_client_info \<Rightarrow> ('c, 'z) v2_state_scheme option
     \<Rightarrow> response app_result \<times> ('c, 'z) v2_state_scheme option" where
  "register lib info download body ci v2 =
     (case collect_to_json body of
        Inl e \<Rightarrow> (Inl e, v2)
      | Inr payload \<Rightarrow>
          (Inr (json_response 200 (Info_Body (info_dto info download))),
           (case v2 of
              None \<Rightarrow> None
            | Some s \<Rightarrow>
                if register_fingerprint_valid lib ci payload
                then Some (snd (emit (Ev_Register (rc_ip ci) payload) s))
                else Some s)))"

definition info_handler :: "client_info \<Rightarrow> bool \<Rightarrow> response" where
  "info_handler info download = json_response 200 (Info_Body (info_dto info download))"

end
