(* ===== verification/Save_File.thy ===== *)
theory Save_File
  imports Upload_Server
begin

text \<open>
  Receiving the content of an uploaded file (\<open>server/common/save.rs\<close>): the request body is
  forwarded chunk by chunk to the application or to a task that writes a file; the size and
  the checksum decide the outcome.

  The frames of the body, the faults of the file system and the moment from which the
  receiving side refuses further chunks are inputs. Chunks go through a bounded channel in
  order, so what the receiver sees is the list of chunks that were sent.
\<close>

section \<open>Files being written\<close>

record out_file =
  of_content :: bytes
  of_pos :: nat

text \<open>\<open>write_all\<close> overwrites at the position; \<open>set_len\<close> cuts, or extends with zeros.\<close>

definition of_write :: "bytes \<Rightarrow> out_file \<Rightarrow> out_file" where
  "of_write bs f =
     \<lparr>of_content = take (of_pos f) (of_content f) @ bs @ drop (of_pos f + length bs) (of_content f),
      of_pos = of_pos f + length bs\<rparr>"

definition of_set_len :: "nat \<Rightarrow> out_file \<Rightarrow> out_file" where
  "of_set_len n f = f\<lparr>of_content := take n (of_content f @ replicate n 0)\<rparr>"

text \<open>
  The faults of one transfer: what opening gives, which call of \<open>write_all\<close> fails (after how
  many of its bytes), and whether flushing and truncating fail.
\<close>

record file_io =
  fi_open :: "string + out_file"
  fi_write :: "nat \<Rightarrow> (string \<times> nat) option"
  fi_flush :: "string option"
  fi_set_len :: "string option"

section \<open>The writer task\<close>

definition at_least_message :: "u64 \<Rightarrow> u64 \<Rightarrow> string" where
  "at_least_message expected written =
     ''Expected '' @ nat_str 10 (unat expected) @ '' bytes, received at least '' @
     nat_str 10 (unat written)"

definition mismatch_message :: "u64 \<Rightarrow> u64 \<Rightarrow> string" where
  "mismatch_message expected written =
     ''Expected '' @ nat_str 10 (unat expected) @ '' bytes, received '' @
     nat_str 10 (unat written)"

text \<open>
  The loop: the result is an error or the number of bytes written (a \<open>u64\<close>), the file, and
  the progress it tried to report.
\<close>

fun write_loop ::
  "file_io \<Rightarrow> u64 \<Rightarrow> nat \<Rightarrow> u64 \<Rightarrow> out_file \<Rightarrow> bytes list
     \<Rightarrow> (string + u64) \<times> out_file \<times> u64 list" where
  "write_loop io expected i written file [] = (Inr written, file, [])"
| "write_loop io expected i written file (chunk # chunks) =
     (let written = written + of_nat (length chunk) in
      if written > expected then (Inl (at_least_message expected written), file, [])
      else
        (case fi_write io i of
           Some (e, n) \<Rightarrow>
             (Inl (''Failed to write file: '' @ e), of_write (take n chunk) file, [])
         | None \<Rightarrow>
             (let (r, file', reports) =
                write_loop io expected (Suc i) written (of_write chunk file) chunks
              in (r, file', written # reports))))"

definition write_file_from_receiver ::
  "file_io \<Rightarrow> u64 \<Rightarrow> bytes list \<Rightarrow> (string + unit) \<times> out_file option \<times> u64 list" where
  "write_file_from_receiver io expected_size chunks =
     (case fi_open io of
        Inl e \<Rightarrow> (Inl e, None, [])
      | Inr file \<Rightarrow>
          (case write_loop io expected_size 0 0 file chunks of
             (Inl e, file, reports) \<Rightarrow> (Inl e, Some file, reports)
           | (Inr written, file, reports) \<Rightarrow>
               (case fi_flush io of
                  Some e \<Rightarrow> (Inl (''Failed to flush file: '' @ e), Some file, reports)
                | None \<Rightarrow>
                    if written \<noteq> expected_size
                    then (Inl (mismatch_message expected_size written), Some file, reports)
                    else
                      (case fi_set_len io of
                         Some e \<Rightarrow> (Inr (), Some file, reports)
                       | None \<Rightarrow> (Inr (), Some (of_set_len (unat written) file), reports)))))"

section \<open>The request handler's side\<close>

datatype body_frame = Frame_Data bytes | Frame_Trailers | Frame_Error string

text \<open>
  Where the content goes. A stream is consumed by the application, given as the result it
  reports for the chunks it received (\<open>None\<close> when it drops the channel).
\<close>

datatype upload_target =
    Target_Stream "bytes list \<Rightarrow> (string + unit) option"
  | Target_Path string
  | Target_Fd int

text \<open>
  Opening a target: \<open>File::create\<close> truncates, a descriptor has whatever content and position
  it was handed over with.
\<close>

record disk =
  dk_create :: "string \<Rightarrow> string option"
  dk_fd :: "int \<Rightarrow> out_file"
  dk_write :: "nat \<Rightarrow> (string \<times> nat) option"
  dk_flush :: "string option"
  dk_set_len :: "string option"

definition open_path :: "disk \<Rightarrow> string \<Rightarrow> file_io" where
  "open_path dk path =
     \<lparr>fi_open = (case dk_create dk path of
         Some e \<Rightarrow> Inl (''Failed to create '' @ path @ '': '' @ e)
       | None \<Rightarrow> Inr \<lparr>of_content = [], of_pos = 0\<rparr>),
      fi_write = dk_write dk, fi_flush = dk_flush dk, fi_set_len = dk_set_len dk\<rparr>"

definition open_fd :: "disk \<Rightarrow> int \<Rightarrow> file_io" where
  "open_fd dk fd =
     \<lparr>fi_open = Inr (dk_fd dk fd),
      fi_write = dk_write dk, fi_flush = dk_flush dk, fi_set_len = dk_set_len dk\<rparr>"

text \<open>
  The forwarding loop: the chunks sent and whether it broke off. \<open>room\<close> is how many sends
  succeed before the receiver is gone, if it ever is.
\<close>

fun forward_body :: "body_frame list \<Rightarrow> nat option \<Rightarrow> bytes list \<times> bool" where
  "forward_body [] room = ([], False)"
| "forward_body (Frame_Error e # frames) room = ([], True)"
| "forward_body (Frame_Trailers # frames) room = forward_body frames room"
| "forward_body (Frame_Data data # frames) room =
     (if data = [] then forward_body frames room
      else
        (case room of
           Some 0 \<Rightarrow> ([], True)
         | _ \<Rightarrow>
             (let (sent, err) = forward_body frames (map_option (\<lambda>n. n - 1) room)
              in (data # sent, err))))"

definition checksum_matches ::
  "('sk, 'ek, 'rk, 'z) crypto_lib_scheme \<Rightarrow> bytes \<Rightarrow> string option \<Rightarrow> bool" where
  "checksum_matches lib content expected_sha256 =
     (case expected_sha256 of
        None \<Rightarrow> True
      | Some expected \<Rightarrow> eq_ignore_ascii_case (to_hex (cl_sha256 lib content)) expected)"

text \<open>
  The outcome, from the broken-off flag, the answer on \<open>result_rx\<close> (\<open>None\<close> when the sender was
  dropped) and the chunks; the second component is the reason for the application.
\<close>

definition save_outcome ::
  "('sk, 'ek, 'rk, 'z) crypto_lib_scheme \<Rightarrow> bool \<Rightarrow> bool \<Rightarrow> (string + unit) option \<Rightarrow> bytes
     \<Rightarrow> string option \<Rightarrow> save_result \<times> string option" where
  "save_outcome lib to_file stream_error result content expected_sha256 =
     (if stream_error then
        (Save_Failed,
         case (to_file, result) of
           (True, Some (Inl e)) \<Rightarrow> Some e
         | _ \<Rightarrow> Some ''Upload aborted'')
      else
        (case result of
           None \<Rightarrow> (Save_Failed, Some ''Upload aborted'')
         | Some (Inl e) \<Rightarrow> (Save_Failed, Some e)
         | Some (Inr _) \<Rightarrow>
             if checksum_matches lib content expected_sha256 then (Save_Success, None)
             else (Save_HashMismatch, Some ''Checksum mismatch'')))"

record save_report =
  sr_result :: save_result
  sr_told :: "(string + unit) option"
  sr_file :: "out_file option"
  sr_progress :: "u64 list"

text \<open>A spawned writer reports to the handler, and the handler then to the application.\<close>

definition save_to_file ::
  "('sk, 'ek, 'rk, 'z) crypto_lib_scheme \<Rightarrow> file_io \<Rightarrow> body_frame list \<Rightarrow> nat option \<Rightarrow> u64
     \<Rightarrow> string option \<Rightarrow> save_report" where
  "save_to_file lib io frames room file_size expected_sha256 =
     (let (sent, stream_error) = forward_body frames room;
          (written, file, reports) = write_file_from_receiver io file_size sent;
          (result, error) =
            save_outcome lib True stream_error (Some written) (concat sent) expected_sha256
      in \<lparr>sr_result = result,
          sr_told = Some (case error of None \<Rightarrow> Inr () | Some e \<Rightarrow> Inl e),
          sr_file = file, sr_progress = reports\<rparr>)"

definition save_req_to_target ::
  "('sk, 'ek, 'rk, 'z) crypto_lib_scheme \<Rightarrow> disk \<Rightarrow> body_frame list \<Rightarrow> nat option
     \<Rightarrow> upload_target \<Rightarrow> u64 \<Rightarrow> string option \<Rightarrow> save_report" where
  "save_req_to_target lib dk frames room target file_size expected_sha256 =
     (case target of
        Target_Stream app \<Rightarrow>
          (let (sent, stream_error) = forward_body frames room;
               (result, error) =
                 save_outcome lib False stream_error (app sent) (concat sent) expected_sha256
           in \<lparr>sr_result = result, sr_told = None, sr_file = None, sr_progress = []\<rparr>)
      | Target_Path path \<Rightarrow>
          save_to_file lib (open_path dk path) frames room file_size expected_sha256
      | Target_Fd fd \<Rightarrow>
          save_to_file lib (open_fd dk fd) frames room file_size expected_sha256)"

section \<open>Writing\<close>

definition of_wf :: "out_file \<Rightarrow> bool" where
  "of_wf f \<longleftrightarrow> of_pos f \<le> length (of_content f)"

lemma of_write_wf [simp]: "of_wf f \<Longrightarrow> of_wf (of_write bs f)"
  by (simp add: of_wf_def of_write_def)

lemma of_write_append: "of_wf f \<Longrightarrow> of_write bs (of_write as f) = of_write (as @ bs) f"
  by (simp add: of_write_def of_wf_def min_absorb2 ac_simps)

lemma of_write_Nil [simp]: "of_write [] f = f"
  by (simp add: of_write_def)

lemma of_write_pos [simp]: "of_pos (of_write bs f) = of_pos f + length bs"
  by (simp add: of_write_def)

abbreviation small_chunks :: "bytes list \<Rightarrow> bool" where
  "small_chunks chunks \<equiv> \<forall>c \<in> set chunks. length c < 2 ^ 63"

text \<open>Below \<open>2 ^ 63\<close> the counter does not wrap, so it counts the bytes.\<close>

lemma counter_no_wrap:
  assumes "written \<le> expected" and "unat expected < 2 ^ 63" and "n < 2 ^ 63"
  shows "unat (written + of_nat n :: u64) = unat written + n"
  using assms by (intro unat_u64_add) (simp add: word_le_nat_alt)

lemma write_loop_ok:
  assumes "write_loop io expected i written f chunks = (Inr w, f', reports)"
    and "unat expected < 2 ^ 63" and "small_chunks chunks" and "written \<le> expected" and "of_wf f"
  shows "unat w = unat written + length (concat chunks) \<and> w \<le> expected \<and>
    f' = of_write (concat chunks) f \<and> length reports = length chunks"
  using assms
proof (induction chunks arbitrary: i written f reports)
  case (Cons c cs)
  let ?w = "written + of_nat (length c)"
  have w: "unat ?w = unat written + length c"
    using Cons.prems by (intro counter_no_wrap) auto
  have le: "?w \<le> expected"
    using Cons.prems(1) by (auto simp: Let_def split: if_splits)
  obtain rs where rec: "write_loop io expected (Suc i) ?w (of_write c f) cs = (Inr w, f', rs)"
    and "reports = ?w # rs"
    using Cons.prems(1) by (auto simp: Let_def split: if_splits option.splits prod.splits)
  then show ?case
    using Cons.IH [OF rec] Cons.prems le w by (auto simp: of_write_append)
qed simp


lemma write_loop_bound:
  assumes "write_loop io expected i written f chunks = (r, f', reports)"
    and "unat expected < 2 ^ 63" and "small_chunks chunks" and "written \<le> expected" and "of_wf f"
  shows "\<exists>bs. f' = of_write bs f \<and> unat written + length bs \<le> unat expected \<and>
    (\<exists>rest. bs @ rest = concat chunks)"
  using assms
proof (induction chunks arbitrary: i written f reports)
  case Nil
  then show ?case by (auto intro!: exI [of _ "[]"] simp: word_le_nat_alt)
next
  case (Cons c cs)
  let ?w = "written + of_nat (length c)"
  have w: "unat ?w = unat written + length c"
    using Cons.prems by (intro counter_no_wrap) auto
  consider (over) "?w > expected" "f' = f"
    | (fail) e n where "?w \<le> expected" "fi_write io i = Some (e, n)" "f' = of_write (take n c) f"
    | (go) rs where "?w \<le> expected"
        "write_loop io expected (Suc i) ?w (of_write c f) cs = (r, f', rs)"
    using Cons.prems(1) by (auto simp: Let_def split: if_splits option.splits prod.splits)
  then show ?case
  proof cases
    case over
    then show ?thesis using Cons.prems by (intro exI [of _ "[]"]) (simp add: word_le_nat_alt)
  next
    case fail
    then show ?thesis using w
      by (intro exI [of _ "take n c"]) (auto simp: word_le_nat_alt intro!: exI [of _ "drop n c @ concat cs"])
  next
    case go
    then obtain bs rest where "f' = of_write bs (of_write c f)"
      "unat ?w + length bs \<le> unat expected" "bs @ rest = concat cs"
      using Cons.IH [OF go(2)] Cons.prems by auto
    then show ?thesis using w Cons.prems(5)
      by (intro exI [of _ "c @ bs"]) (auto simp: of_write_append)
  qed
qed

lemma write_loop_total:
  assumes "fi_write io = (\<lambda>_. None)" and "unat expected < 2 ^ 63" and "small_chunks chunks"
    and "unat written + length (concat chunks) \<le> unat expected"
  shows "\<exists>w f' reports. write_loop io expected i written f chunks = (Inr w, f', reports)"
  using assms(3,4)
proof (induction chunks arbitrary: i written f)
  case (Cons c cs)
  let ?w = "written + of_nat (length c)"
  have "written \<le> expected" using Cons.prems by (simp add: word_le_nat_alt)
  then have w: "unat ?w = unat written + length c"
    using Cons.prems assms(2) by (intro counter_no_wrap) auto
  then obtain w f' reports where
    "write_loop io expected (Suc i) ?w (of_write c f) cs = (Inr w, f', reports)"
    using Cons.IH [of ?w "Suc i" "of_write c f"] Cons.prems by auto
  moreover have "\<not> ?w > expected" using w Cons.prems by (simp add: word_less_nat_alt)
  ultimately show ?case using assms(1) by (simp add: Let_def)
qed simp

section \<open>Forwarding\<close>

fun body_data :: "body_frame list \<Rightarrow> bytes" where
  "body_data [] = []"
| "body_data (Frame_Data data # frames) = data @ body_data frames"
| "body_data (_ # frames) = body_data frames"

fun body_broken :: "body_frame list \<Rightarrow> bool" where
  "body_broken [] = False"
| "body_broken (Frame_Error e # frames) = True"
| "body_broken (_ # frames) = body_broken frames"

abbreviation small_frames :: "body_frame list \<Rightarrow> bool" where
  "small_frames frames \<equiv> \<forall>d. Frame_Data d \<in> set frames \<longrightarrow> length d < 2 ^ 63"

lemma forward_body_whole:
  "forward_body frames room = (sent, False) \<Longrightarrow> concat sent = body_data frames \<and> \<not> body_broken frames"
  by (induction frames room arbitrary: sent rule: forward_body.induct)
    (auto split: if_splits option.splits nat.splits prod.splits)

lemma forward_body_patient:
  "\<exists>sent. forward_body frames None = (sent, body_broken frames)"
  by (induction frames "None :: nat option" rule: forward_body.induct) auto

lemma forward_body_small:
  "forward_body frames room = (sent, err) \<Longrightarrow> small_frames frames \<Longrightarrow> small_chunks sent"
  by (induction frames room arbitrary: sent err rule: forward_body.induct)
    (auto split: if_splits option.splits nat.splits prod.splits)

section \<open>Outcomes\<close>

lemma save_outcome_success [simp]:
  "save_outcome lib to_file err r content sha = (Save_Success, e) \<longleftrightarrow>
     \<not> err \<and> r = Some (Inr ()) \<and> checksum_matches lib content sha \<and> e = None"
  by (auto simp: save_outcome_def split: option.splits sum.splits if_splits)

lemma save_outcome_error:
  "save_outcome lib to_file err r content sha = (res, None) \<Longrightarrow> res = Save_Success"
  by (cases err; cases to_file; cases r) (auto simp: save_outcome_def split: sum.splits if_splits)

lemma write_file_ok:
  assumes "write_file_from_receiver io sz chunks = (Inr u, file, reports)"
    and "fi_open io = Inr f" and "of_wf f" and "unat sz < 2 ^ 63" and "small_chunks chunks"
  shows "length (concat chunks) = unat sz \<and>
    file = Some ((if fi_set_len io = None then of_set_len (unat sz) else id)
      (of_write (concat chunks) f))"
proof -
  obtain w f' where loop: "write_loop io sz 0 0 f chunks = (Inr w, f', reports)" and "w = sz"
    and "file = Some ((if fi_set_len io = None then of_set_len (unat sz) else id) f')"
    using assms(1,2)
    by (auto simp: write_file_from_receiver_def split: sum.splits prod.splits option.splits if_splits)
  then show ?thesis using write_loop_ok [OF loop assms(4,5) _ assms(3)] by simp
qed

lemma write_file_bounded:
  assumes "write_file_from_receiver io sz chunks = (r, Some f', reports)"
    and "fi_open io = Inr \<lparr>of_content = [], of_pos = 0\<rparr>" and "unat sz < 2 ^ 63"
    and "small_chunks chunks"
  shows "length (of_content f') \<le> unat sz"
proof -
  let ?f = "\<lparr>of_content = [], of_pos = 0\<rparr>"
  obtain r' f0 where loop: "write_loop io sz 0 0 ?f chunks = (r', f0, reports)"
    and f': "f' = f0 \<or> f' = of_set_len (unat sz) f0"
    using assms(1,2)
    by (auto simp: write_file_from_receiver_def split: sum.splits prod.splits option.splits if_splits)
  then obtain bs where "f0 = of_write bs ?f" "length bs \<le> unat sz"
    using write_loop_bound [OF loop assms(3,4)] by (auto simp: of_wf_def)
  then show ?thesis using f' by (auto simp: of_write_def of_set_len_def)
qed

definition faultless :: "disk \<Rightarrow> bool" where
  "faultless dk \<longleftrightarrow> dk_create dk = (\<lambda>_. None) \<and> dk_write dk = (\<lambda>_. None) \<and>
     dk_flush dk = None \<and> dk_set_len dk = None"

lemma open_path_faultless [simp]:
  "faultless dk \<Longrightarrow> open_path dk path =
     \<lparr>fi_open = Inr \<lparr>of_content = [], of_pos = 0\<rparr>, fi_write = (\<lambda>_. None), fi_flush = None,
      fi_set_len = None\<rparr>"
  by (simp add: faultless_def open_path_def)

text \<open>Two requests: one that keeps its promises, one that sends too much.\<close>

definition good_disk :: disk where
  "good_disk = \<lparr>dk_create = (\<lambda>_. None), dk_fd = (\<lambda>_. \<lparr>of_content = [9, 9, 9, 9], of_pos = 0\<rparr>),
     dk_write = (\<lambda>_. None), dk_flush = None, dk_set_len = None\<rparr>"

definition good_frames :: "body_frame list" where
  "good_frames = [Frame_Data [1], Frame_Trailers, Frame_Data [], Frame_Data [171]]"

section \<open>Properties\<close>





lemma save_success_whole:
  "sr_result (save_req_to_target lib dk frames room target file_size sha) = Save_Success \<Longrightarrow> \<not> body_broken frames"
  using forward_body_whole [of frames room]
  by (auto simp: save_req_to_target_def save_to_file_def split: upload_target.splits prod.splits)




text \<open>
  A descriptor that is not at its start: the file is cut at the number of bytes written, not at the position, so the end of
  what was just written is lost, and the transfer counts as saved.
\<close>

lemma offset_descriptor_truncated:
  "let report = save_req_to_target sample_lib (good_disk\<lparr>dk_fd := \<lambda>_. \<lparr>of_content = [9, 9, 9, 9], of_pos = 2\<rparr>\<rparr>)
      [Frame_Data [1, 2, 3]] None (Target_Fd 3) 3 None
   in sr_result report = Save_Success \<and> map_option of_content (sr_file report) = Some [9, 9, 1]"
  by (simp add: save_req_to_target_def save_to_file_def good_disk_def open_fd_def of_write_def of_set_len_def
      write_file_from_receiver_def save_outcome_def checksum_matches_def)

text \<open>
  On a disk without faults and with a receiver that keeps listening, the outcome is decided
  by the body alone: saved when it was read to its end with the announced size and checksum,
  a checksum mismatch when only the checksum is wrong, failed otherwise.
\<close>

theorem save_faultless_outcome:
  assumes "faultless dk" and "unat file_size < 2 ^ 63" and "small_frames frames"
  shows "sr_result (save_req_to_target lib dk frames None (Target_Path path) file_size sha) =
    (if body_broken frames \<or> length (body_data frames) \<noteq> unat file_size then Save_Failed
     else if checksum_matches lib (body_data frames) sha then Save_Success
     else Save_HashMismatch)"
proof -
  obtain sent where fwd: "forward_body frames None = (sent, body_broken frames)"
    using forward_body_patient by blast
  let ?io = "open_path dk path" and ?f = "\<lparr>of_content = [], of_pos = 0\<rparr>"
  obtain w out reports where wr: "write_file_from_receiver ?io file_size sent = (w, out, reports)"
    by (metis prod_cases3)
  note small = forward_body_small [OF fwd assms(3)]
  have "w = Inr () \<longleftrightarrow> length (concat sent) = unat file_size"
  proof
    assume "w = Inr ()"
    then show "length (concat sent) = unat file_size"
      using write_file_ok [of ?io file_size sent "()" out reports ?f] wr assms small
      by (simp add: of_wf_def)
  next
    assume len: "length (concat sent) = unat file_size"
    obtain n f rs where loop: "write_loop ?io file_size 0 0 ?f sent = (Inr n, f, rs)"
      using write_loop_total [of ?io file_size sent 0 0 ?f] assms small len by auto
    then have "unat n = unat file_size"
      using write_loop_ok [OF loop assms(2) small] len by (simp add: of_wf_def)
    then have "n = file_size" by (rule unsigned_word_eqI)
    then show "w = Inr ()"
      using wr loop assms(1) by (auto simp: write_file_from_receiver_def)
  qed
  moreover have "concat sent = body_data frames" if "\<not> body_broken frames"
    using forward_body_whole [of frames None sent] fwd that by simp
  ultimately show ?thesis using fwd wr
    by (cases w) (auto simp: save_req_to_target_def save_to_file_def save_outcome_def)
qed

theorem save_faultless_outcome_witness:
  "sr_result (save_req_to_target sample_lib good_disk good_frames None (Target_Path ''/f'') 3 None) =
    Save_Failed \<and> length (body_data good_frames) = 2"
proof -
  have "faultless good_disk" and small: "small_frames good_frames"
    by (auto simp: good_frames_def good_disk_def faultless_def)
  from save_faultless_outcome [OF this(1) _ small, of 3 sample_lib "''/f''" None]
  show ?thesis by (simp add: good_frames_def)
qed

text \<open>
  Whatever the sender sends and the disk does, no more than the announced size ends up in
  the file at the path.
\<close>

theorem save_size_bound:
  assumes "unat file_size < 2 ^ 63" and "small_frames frames"
  shows "case sr_file (save_req_to_target lib dk frames room (Target_Path path) file_size sha) of
      None \<Rightarrow> True
    | Some f \<Rightarrow> length (of_content f) \<le> unat file_size"
proof -
  obtain sent err where fwd: "forward_body frames room = (sent, err)" by fastforce
  obtain w out reports where
    wr: "write_file_from_receiver (open_path dk path) file_size sent = (w, out, reports)"
    by (metis prod_cases3)
  have "length (of_content f) \<le> unat file_size" if "out = Some f" for f
  proof -
    have "fi_open (open_path dk path) = Inr \<lparr>of_content = [], of_pos = 0\<rparr>"
      using wr that
      by (auto simp: write_file_from_receiver_def open_path_def split: option.splits)
    with write_file_bounded [of "open_path dk path" file_size sent w f reports] wr that
      forward_body_small [OF fwd assms(2)] assms(1)
    show ?thesis by simp
  qed
  then show ?thesis using fwd wr
    by (auto simp: save_req_to_target_def save_to_file_def split: prod.splits option.splits)
qed

theorem save_size_bound_witness:
  "case sr_file (save_req_to_target sample_lib good_disk good_frames None (Target_Path ''/f'') 1 None) of
      None \<Rightarrow> True
    | Some f \<Rightarrow> length (of_content f) \<le> 1"
proof -
  have small: "small_frames good_frames" by (auto simp: good_frames_def)
  from save_size_bound [OF _ small, of 1 sample_lib good_disk None "''/f''" None]
  show ?thesis by (simp split: option.splits)
qed

text \<open>
  For a target the server writes itself, the application is always told the outcome, and
  it is told success exactly when the request is answered as saved.
\<close>

theorem save_told_iff_success:
  "case target of
      Target_Stream app \<Rightarrow> sr_told (save_req_to_target lib dk frames room target file_size sha) = None
    | _ \<Rightarrow> (\<exists>outcome. sr_told (save_req_to_target lib dk frames room target file_size sha) = Some outcome \<and>
        (outcome = Inr () \<longleftrightarrow>
          sr_result (save_req_to_target lib dk frames room target file_size sha) = Save_Success))"
proof -
  have told: "\<exists>outcome. sr_told (save_to_file lib io frames room file_size sha) = Some outcome \<and>
      (outcome = Inr () \<longleftrightarrow> sr_result (save_to_file lib io frames room file_size sha) = Save_Success)" for io
    by (auto simp: save_to_file_def dest: save_outcome_error split: prod.splits option.splits)
  show ?thesis
    by (cases target) (simp_all add: save_req_to_target_def told split: prod.split)
qed

end
