(* ===== verification/Upload_Contract.thy ===== *)
theory Upload_Contract
  imports Upload_Server
begin

text \<open>
  What the upload handlers promise when they run without interference: lemmas per atomic
  section, then the contracts of \<open>prepare_upload\<close>, \<open>upload\<close>, \<open>cancel\<close> and \<open>register\<close>.
\<close>

section \<open>Sections\<close>

lemma clear_pending_session_simps [simp]:
  "v2_session s = None \<Longrightarrow> clear_pending_session s = s"
  "v2_session s = Some (Active a) \<Longrightarrow> clear_pending_session s = s"
  "v2_session s = Some (Pending p) \<Longrightarrow> clear_pending_session s = s\<lparr>v2_session := None\<rparr>"
  by (simp_all add: clear_pending_session_def)

lemma clear_pending_session_frame [simp]:
  "v2_pin (clear_pending_session s) = v2_pin s"
  "v2_cancelled (clear_pending_session s) = v2_cancelled s"
  "v2_events (clear_pending_session s) = v2_events s"
  "v2_event_open (clear_pending_session s) = v2_event_open s"
  by (simp_all add: clear_pending_session_def split: option.splits session_state.splits)

lemma clear_pending_session_slot:
  "v2_session (clear_pending_session s) =
     (case v2_session s of Some (Pending p) \<Rightarrow> None | slot \<Rightarrow> slot)"
  by (simp add: clear_pending_session_def split: option.splits session_state.splits)

lemma clear_pending_session_idem [simp]:
  "clear_pending_session (clear_pending_session s) = clear_pending_session s"
  by (cases "v2_session s") (auto simp: clear_pending_session_def split: session_state.splits)

lemma pu_check_pin_frame:
  assumes "pu_check_pin ops q ci s = (r, s')"
  shows "v2_session s' = v2_session s \<and> v2_events s' = v2_events s \<and>
    v2_pin s' = v2_pin s \<and> v2_cancelled s' = v2_cancelled s \<and> v2_event_open s' = v2_event_open s"
  using assms by (auto simp: pu_check_pin_def split: prod.splits)

lemma upload_begin_ok_iff:
  "upload_begin slot ip sid fid tok = (Inr dto, slot') \<longleftrightarrow>
     (\<exists>us f. slot = Some (Active us) \<and> us_session_id us = sid \<and> us_sender_ip us = ip \<and>
        hm_get (us_files us) fid = Some f \<and> sf_token f = tok \<and> sf_status f = File_Pending \<and>
        dto = sf_dto f \<and>
        slot' = Some (Active (us\<lparr>us_files := hm_upd fid
          (\<lambda>_. f\<lparr>sf_status := File_InProgress, sf_attempts := saturating_inc (sf_attempts f)\<rparr>)
          (us_files us)\<rparr>)))"
  by (auto simp: upload_begin_def Let_def split: option.splits session_state.splits if_splits)

lemma upload_begin_refused:
  "upload_begin slot ip sid fid tok = (Inl e, slot') \<Longrightarrow> e = invalid_token_error \<and> slot' = slot"
  by (auto simp: upload_begin_def Let_def split: option.splits session_state.splits if_splits)

lemma finalize_slot_other:
  assumes "finalize_slot slot sid fid r = (ended, slot')"
    and "\<And>us. slot = Some (Active us) \<Longrightarrow> us_session_id us \<noteq> sid"
  shows "\<not> ended \<and> slot' = slot"
  using assms by (auto simp: finalize_slot_def split: option.splits session_state.splits if_splits)

definition finalized_files ::
  "string \<Rightarrow> save_result \<Rightarrow> (string, session_file) hmap \<Rightarrow> (string, session_file) hmap" where
  "finalized_files fid r files =
     hm_upd fid (\<lambda>f. if sf_status f = File_InProgress
                     then f\<lparr>sf_status := final_status r (sf_attempts f)\<rparr> else f) files"

lemma finalize_slot_own:
  "slot = Some (Active us) \<Longrightarrow> us_session_id us = sid \<Longrightarrow>
     finalize_slot slot sid fid r =
       (let us' = us\<lparr>us_files := finalized_files fid r (us_files us)\<rparr>
        in if is_complete us' then (True, None) else (False, Some (Active us')))"
  by (simp add: finalize_slot_def finalized_files_def Let_def)

lemma hm_get_finalized:
  "hm_get (finalized_files fid r files) k =
     (if k = fid
      then map_option (\<lambda>f. if sf_status f = File_InProgress
                           then f\<lparr>sf_status := final_status r (sf_attempts f)\<rparr> else f)
             (hm_get files fid)
      else hm_get files k)"
  by (simp add: finalized_files_def)

lemma finalized_keys [simp]: "map fst (finalized_files fid r files) = map fst files"
  by (simp add: finalized_files_def)

lemma final_status_not_in_progress [simp]: "final_status r n \<noteq> File_InProgress"
  by (simp add: final_status_def split: save_result.splits)

lemma finalize_file_frame [simp]:
  "v2_pin (finalize_file sid fid r s) = v2_pin s"
  "v2_event_open (finalize_file sid fid r s) = v2_event_open s"
  by (simp_all add: finalize_file_def Let_def split: prod.splits)

lemma finalize_file_slot:
  "v2_session (finalize_file sid fid r s) = snd (finalize_slot (v2_session s) sid fid r)"
  by (simp add: finalize_file_def Let_def split: prod.splits)

lemma pu_files_get:
  "hm_get (pu_files payload ids tok) k =
     (if k \<in> set ids
      then map_option (\<lambda>dto. \<lparr>sf_dto = dto, sf_token = tok k, sf_status = File_Pending,
                               sf_attempts = 0\<rparr>) (hm_get (pr_files payload) k)
      else None)"
  unfolding pu_files_def
  by (subst hm_get_map_values, subst hm_get_filter_key) simp

lemma pu_files_wf: "hm_wf (pr_files payload) \<Longrightarrow> hm_wf (pu_files payload ids tok)"
  unfolding pu_files_def hm_wf_map_values by (rule hm_wf_filter)

lemma pu_tokens_get: "hm_get (pu_tokens files) k = map_option sf_token (hm_get files k)"
  unfolding pu_tokens_def by (subst hm_get_map_values) simp

section \<open>Prepare upload\<close>

text \<open>The part of the handler behind the PIN.\<close>

definition prepare_upload_rest ::
  "('sk, 'ek, 'rk, 'x) crypto_lib_scheme \<Rightarrow> request_client_info \<Rightarrow> prepare_upload_request incoming
     \<Rightarrow> string \<Rightarrow> (string \<Rightarrow> string) \<Rightarrow> decision_outcome
     \<Rightarrow> ('c, 'z) v2_state_scheme \<Rightarrow> response app_result \<times> ('c, 'z) v2_state_scheme" where
  "prepare_upload_rest lib ci body sid tok outcome s =
     (case pu_parse body of
        Inl e \<Rightarrow> (Inl e, s)
      | Inr payload \<Rightarrow>
     (case pu_claim sid ci s of
        (Inl e, s) \<Rightarrow> (Inl e, s)
      | (Inr _, s) \<Rightarrow>
     (let (sent, s) = emit (pu_event lib sid ci payload) s
      in if \<not> sent then (Inl (Status_Error 500), abort_pending sid s)
         else
           (case outcome of
              Decision_Dropped \<Rightarrow> (Inl (Status_Error 500), abort_pending sid s)
            | Sender_Cancelled \<Rightarrow> (Inl cancelled_by_sender, abort_pending sid s)
            | Decided Decline \<Rightarrow> (Inl rejected, clear_pending_session s)
            | Decided (Accept ids) \<Rightarrow>
                (let files = pu_files payload ids tok in
                 if files = [] then (Inr (empty_response 204), clear_pending_session s)
                 else (Inr (json_response 200 (Prepare_Upload_Body sid (pu_tokens files))),
                       pu_activate sid ci files s))))))"

lemma prepare_upload_guarded:
  "prepare_upload ops lib q ci body sid tok outcome s =
     (case check_pin ops (v2_pin s) (v2_pin_attempts s) q (p_ip (rc_ip ci)) of
        (Inl e, c) \<Rightarrow> (Inl e, s\<lparr>v2_pin_attempts := c\<rparr>)
      | (Inr _, c) \<Rightarrow> prepare_upload_rest lib ci body sid tok outcome (s\<lparr>v2_pin_attempts := c\<rparr>))"
  unfolding prepare_upload_def prepare_upload_rest_def pu_check_pin_def
  by (simp add: pending_guard_clear_def pending_guard_drop_def pending_guard_disarm_def
      pending_guard_new_def Let_def
      split: prod.splits sum.splits decision_outcome.splits prepare_upload_decision.splits)

lemma prepare_upload_rest_busy:
  assumes "v2_session s \<noteq> None"
  shows "\<exists>e. prepare_upload_rest lib ci body sid tok outcome s = (Inl e, s) \<and>
    error_status e \<in> {400, 409, 500}"
  using assms by (cases body) (auto simp: prepare_upload_rest_def pu_parse_def pu_claim_def)

lemma prepare_upload_rest_free:
  assumes "v2_session s = None"
    and "prepare_upload_rest lib ci body sid tok outcome s = (r, s')"
  shows "(\<exists>payload ids. r = Inr (json_response 200
            (Prepare_Upload_Body sid (pu_tokens (pu_files payload ids tok)))) \<and>
          body = Body_Json payload \<and> outcome = Decided (Accept ids) \<and>
          pu_files payload ids tok \<noteq> [] \<and>
          v2_session s' = Some (Active \<lparr>us_session_id = sid, us_sender_ip = rc_ip ci,
                                         us_files = pu_files payload ids tok\<rparr>)) \<or>
         (v2_session s' = None \<and> (r = Inr (empty_response 204) \<or>
            (\<exists>e. r = Inl e \<and> error_status e \<in> {400, 403, 500})))"
  using assms
  by (cases body)
    (auto simp: prepare_upload_rest_def pu_parse_def pu_claim_def emit_def abort_pending_def
      pu_activate_def rejected_def cancelled_by_sender_def Let_def
      split: decision_outcome.splits prepare_upload_decision.splits if_splits)

section \<open>Concrete requests\<close>

text \<open>A server without a PIN, a client, and a request offering two files.\<close>

definition sample_v2 :: "(ip_addr, u32) hmap v2_state" where
  "sample_v2 = \<lparr>v2_pin = None, v2_pin_attempts = [], v2_session = None, v2_cancelled = [],
     v2_event_open = True, v2_events = []\<rparr>"

definition sample_peer :: peer_ip where
  "sample_peer = \<lparr>p_ip = V4 192 168 1 42, p_scope_id = None\<rparr>"

definition sample_client :: request_client_info where
  "sample_client = \<lparr>rc_ip = sample_peer, rc_cert = Some [1, 171]\<rparr>"

definition sample_info :: client_info where
  "sample_info = \<lparr>ci_alias = ''Secret Banana'', ci_version = ''2.1'', ci_device_model = None,
     ci_device_type = Some Desktop, ci_token = ''tok''\<rparr>"

definition sample_register :: register_dto_v2 where
  "sample_register = \<lparr>rd_alias = ''Nice Orange'', rd_version = ''2.1'', rd_device_model = None,
     rd_device_type = Some Mobile, rd_fingerprint = ''01ab'', rd_port = 53317,
     rd_protocol = Https, rd_download = False\<rparr>"

definition sample_file :: "string \<Rightarrow> u64 \<Rightarrow> file_dto" where
  "sample_file fid sz = \<lparr>fd_id = fid, fd_file_name = fid @ ''.txt'', fd_size = sz,
     fd_file_type = ''text/plain'', fd_sha256 = Some ''01'', fd_preview = None, fd_metadata = None\<rparr>"

definition sample_payload :: prepare_upload_request where
  "sample_payload = \<lparr>pr_info = sample_register,
     pr_files = [(''a'', sample_file ''a'' 1), (''b'', sample_file ''b'' 2)]\<rparr>"

definition sample_session :: upload_session where
  "sample_session = \<lparr>us_session_id = ''s'', us_sender_ip = sample_peer,
     us_files = [(''a'', \<lparr>sf_dto = sample_file ''a'' 1, sf_token = ''ta'',
                           sf_status = File_Pending, sf_attempts = 0\<rparr>),
                 (''b'', \<lparr>sf_dto = sample_file ''b'' 2, sf_token = ''tb'',
                           sf_status = File_InProgress, sf_attempts = 1\<rparr>)]\<rparr>"

definition sample_active :: "(ip_addr, u32) hmap v2_state" where
  "sample_active = sample_v2\<lparr>v2_session := Some (Active sample_session)\<rparr>"

lemmas sample_defs = sample_v2_def sample_peer_def sample_client_def sample_register_def
  sample_file_def sample_payload_def sample_session_def sample_active_def

section \<open>Properties\<close>

text \<open>
  A prepare-upload request that finds the slot free leaves it active exactly when it is
  answered 200, and then the session holds precisely the offered files whose ids were
  accepted, each pending, never attempted and with the token the sender is told; on every
  other answer (204 included) the slot is free again. With a PIN configured, an answer other
  than an error was given only to a request that carries it.
\<close>

theorem prepare_upload_contract:
  assumes free: "v2_session s = None"
    and run: "prepare_upload ops lib q ci body sid tok outcome s = (r, s')"
  shows "(case r of
      Inl e \<Rightarrow> v2_session s' = None \<and> error_status e \<in> {400, 401, 403, 429, 500}
    | Inr resp \<Rightarrow>
        (v2_pin s = None \<or> hm_get q ''pin'' = v2_pin s) \<and>
        (if rs_status resp = 200
         then \<exists>us tokens. rs_body resp = Prepare_Upload_Body sid tokens \<and>
            v2_session s' = Some (Active us) \<and>
            us_session_id us = sid \<and> us_sender_ip us = rc_ip ci \<and> us_files us \<noteq> [] \<and>
            (\<forall>payload ids fid. body = Body_Json payload \<and> outcome = Decided (Accept ids) \<longrightarrow>
               hm_get (us_files us) fid =
                 (if fid \<in> set ids
                  then map_option (\<lambda>dto. \<lparr>sf_dto = dto, sf_token = tok fid,
                         sf_status = File_Pending, sf_attempts = 0\<rparr>) (hm_get (pr_files payload) fid)
                  else None) \<and>
               hm_get tokens fid = map_option sf_token (hm_get (us_files us) fid))
         else rs_status resp = 204 \<and> v2_session s' = None))"
proof (cases r)
  case (Inr resp)
  define c where "c = snd (check_pin ops (v2_pin s) (v2_pin_attempts s) q (p_ip (rc_ip ci)))"
  from run Inr have "(case check_pin ops (v2_pin s) (v2_pin_attempts s) q (p_ip (rc_ip ci)) of
        (Inl e, c) \<Rightarrow> (Inl e, s\<lparr>v2_pin_attempts := c\<rparr>)
      | (Inr _, c) \<Rightarrow> prepare_upload_rest lib ci body sid tok outcome (s\<lparr>v2_pin_attempts := c\<rparr>)) =
      (Inr resp, s')"
    by (simp only: prepare_upload_guarded)
  from pin.guarded_ok [OF this]
  have pin: "v2_pin s = None \<or> hm_get q ''pin'' = v2_pin s"
    and rest: "prepare_upload_rest lib ci body sid tok outcome (s\<lparr>v2_pin_attempts := c\<rparr>) = (Inr resp, s')"
    by (simp_all add: c_def)
  have "v2_session (s\<lparr>v2_pin_attempts := c\<rparr>) = None" using free by simp
  from prepare_upload_rest_free [OF this rest] show ?thesis
    using pin Inr
    by (auto simp: json_response_def empty_response_def pu_files_get pu_tokens_get)
next
  case (Inl e)
  show ?thesis
  proof (cases "check_pin ops (v2_pin s) (v2_pin_attempts s) q (p_ip (rc_ip ci))")
    case (Pair x c)
    show ?thesis
    proof (cases x)
      case x: (Inl e')
      then have "e' = e \<and> s' = s\<lparr>v2_pin_attempts := c\<rparr>" using run Inl Pair
        unfolding prepare_upload_guarded by simp
      moreover have "error_status e' \<in> {401, 429}"
        using pin.refusal_status [of ops "v2_pin s" "v2_pin_attempts s" q "p_ip (rc_ip ci)" e'] Pair x
        by simp
      ultimately show ?thesis using Inl free by auto
    next
      case (Inr u)
      then have "prepare_upload_rest lib ci body sid tok outcome (s\<lparr>v2_pin_attempts := c\<rparr>) = (r, s')"
        using run Pair unfolding prepare_upload_guarded by simp
      from prepare_upload_rest_free [OF _ this] show ?thesis using Inl free by auto
    qed
  qed
qed

theorem prepare_upload_contract_witness:
  "\<exists>s'. prepare_upload list_lru sample_lib [] sample_client (Body_Json sample_payload) ''s''
       (\<lambda>fid. ''t'' @ fid) (Decided (Accept [''b'', ''z''])) sample_v2 =
     (Inr (json_response 200 (Prepare_Upload_Body ''s'' [(''b'', ''tb'')])), s') \<and>
     (\<exists>us. v2_session s' = Some (Active us) \<and> hm_get (us_files us) ''a'' = None \<and>
        map_option sf_token (hm_get (us_files us) ''b'') = Some ''tb'')"
proof -
  let ?run = "prepare_upload list_lru sample_lib [] sample_client (Body_Json sample_payload) ''s''
       (\<lambda>fid. ''t'' @ fid) (Decided (Accept [''b'', ''z''])) sample_v2"
  have free: "v2_session sample_v2 = None" by (simp add: sample_v2_def)
  obtain r s' where run: "?run = (r, s')" by fastforce
  have r: "r = Inr (json_response 200 (Prepare_Upload_Body ''s'' [(''b'', ''tb'')]))"
    using run by (auto simp: prepare_upload_guarded prepare_upload_rest_def pu_parse_def
        pu_claim_def emit_def pu_files_def pu_tokens_def sample_defs)
  from prepare_upload_contract [OF free run] r run show ?thesis
    by (auto simp: json_response_def sample_payload_def)
qed

text \<open>
  While a session is pending or active, a prepare-upload request is refused without any
  effect on the slot and without an event to the application.
\<close>

theorem prepare_upload_busy:
  assumes "v2_session s \<noteq> None"
    and "prepare_upload ops lib q ci body sid tok outcome s = (r, s')"
  shows "v2_session s' = v2_session s \<and> v2_events s' = v2_events s \<and>
    (\<exists>e. r = Inl e \<and> error_status e \<in> {400, 401, 409, 429, 500})"
proof (cases "check_pin ops (v2_pin s) (v2_pin_attempts s) q (p_ip (rc_ip ci))")
  case (Pair x c)
  show ?thesis
  proof (cases x)
    case (Inl e)
    with Pair have "error_status e \<in> {401, 429}"
      using pin.refusal_status [of ops "v2_pin s" "v2_pin_attempts s" q "p_ip (rc_ip ci)" e] by simp
    with Pair Inl assms(2) show ?thesis unfolding prepare_upload_guarded by auto
  next
    case (Inr u)
    have "v2_session (s\<lparr>v2_pin_attempts := c\<rparr>) \<noteq> None" using assms(1) by simp
    from prepare_upload_rest_busy [OF this, of lib ci body sid tok outcome]
    show ?thesis using Pair Inr assms(2) unfolding prepare_upload_guarded by auto
  qed
qed

theorem prepare_upload_busy_witness:
  "\<exists>e s'. prepare_upload list_lru sample_lib [] sample_client (Body_Json sample_payload) ''n''
      (\<lambda>fid. fid) (Decided Decline) sample_active = (Inl e, s') \<and> v2_session s' = Some (Active sample_session)"
proof -
  obtain r s' where run: "prepare_upload list_lru sample_lib [] sample_client
      (Body_Json sample_payload) ''n'' (\<lambda>fid. fid) (Decided Decline) sample_active = (r, s')"
    by fastforce
  have "v2_session sample_active \<noteq> None" by (simp add: sample_active_def)
  from prepare_upload_busy [OF this run] run show ?thesis by (auto simp: sample_active_def)
qed

text \<open>
  C10: An upload request either names, from the sender's address, an active session, one of its
  files that is still pending, and that file's token, or it is refused with 400 or 403 and
  leaves the server as it was.
\<close>

theorem upload_admission:
  "(\<exists>sid fid tok us f. upload_params q = Some (sid, fid, tok) \<and>
      v2_session s = Some (Active us) \<and> us_session_id us = sid \<and> us_sender_ip us = rc_ip ci \<and>
      hm_get (us_files us) fid = Some f \<and> sf_token f = tok \<and> sf_status f = File_Pending) \<or>
   (\<exists>e. upload q ci target save s = (Inl e, s) \<and> error_status e \<in> {400, 403})"
proof (cases "upload_params q")
  case None
  then show ?thesis by (simp add: upload_def)
next
  case (Some p)
  then obtain sid fid tok where p: "upload_params q = Some (sid, fid, tok)" by (cases p) auto
  obtain r slot where b: "upload_begin (v2_session s) (rc_ip ci) sid fid tok = (r, slot)" by fastforce
  show ?thesis
  proof (cases r)
    case (Inl e)
    with upload_begin_refused [of "v2_session s" "rc_ip ci" sid fid tok e slot] b p show ?thesis
      by (simp add: upload_def invalid_token_error_def)
  next
    case (Inr dto)
    with b p show ?thesis by (auto simp: upload_begin_ok_iff)
  qed
qed

lemma final_status_cases:
  "final_status Save_Success n = File_Finished" "final_status Save_Failed n = File_Failed"
  "final_status Save_HashMismatch n = (if unat n < 3 then File_Pending else File_Failed)"
  by (simp_all add: final_status_def MAX_UPLOAD_ATTEMPTS_def word_less_nat_alt)

text \<open>
  C8: An admitted upload asks the application for a target and saves the body there. It is answered 200 if the
  file was saved, 422 if its checksum is wrong, and 500 if saving failed or the application is gone or gives no target. It
  counts one attempt; the file is then finished if it was saved, pending again if its checksum was wrong at the first or
  second attempt, and failed otherwise; the other files are as before. If now every file is finished or
  failed the slot is free and the end of the session is reported, else the session goes on.
\<close>

theorem upload_outcome:
  assumes params: "upload_params q = Some (sid, fid, tok)"
    and slot: "v2_session s = Some (Active us)" "us_session_id us = sid" "us_sender_ip us = rc_ip ci"
    and "file": "hm_get (us_files us) fid = Some f" "sf_token f = tok" "sf_status f = File_Pending"
    and wf: "hm_wf (us_files us)"
    and saved: "saved = (if v2_event_open s
        then map_option (\<lambda>t. save t (fd_size (sf_dto f)) (fd_sha256 (sf_dto f))) target else None)"
    and run: "upload q ci target save s = (r, s')"
  shows "r = (case saved of
        Some Save_Success \<Rightarrow> Inr (empty_response 200)
      | Some Save_HashMismatch \<Rightarrow> Inl (Message_Error 422 ''Checksum mismatch'')
      | Some Save_Failed \<Rightarrow> Inl (Status_Error 500)
      | None \<Rightarrow> Inl (Status_Error 500)) \<and>
    (\<exists>files over. map fst files = map fst (us_files us) \<and>
      (\<forall>other. other \<noteq> fid \<longrightarrow> hm_get files other = hm_get (us_files us) other) \<and>
      hm_get files fid = Some (f\<lparr>
        sf_status := (case saved of
            Some Save_Success \<Rightarrow> File_Finished
          | Some Save_HashMismatch \<Rightarrow> if unat (sf_attempts f) < 2 then File_Pending else File_Failed
          | _ \<Rightarrow> File_Failed),
        sf_attempts := if sf_attempts f = 255 then 255 else sf_attempts f + 1\<rparr>) \<and>
      over = (\<forall>other g. hm_get files other = Some g \<longrightarrow> sf_status g = File_Finished \<or> sf_status g = File_Failed) \<and>
      v2_session s' = (if over then None else Some (Active (us\<lparr>us_files := files\<rparr>))) \<and>
      v2_events s' = v2_events s @
        (if v2_event_open s
         then Ev_File_Upload sid fid (sf_dto f) # (if over then [Ev_Session_End sid End_Finished] else []) else []))"
proof -
  let ?f' = "f\<lparr>sf_status := File_InProgress, sf_attempts := saturating_inc (sf_attempts f)\<rparr>"
  let ?us = "us\<lparr>us_files := hm_upd fid (\<lambda>_. ?f') (us_files us)\<rparr>"
  define result where "result = (case saved of Some x \<Rightarrow> x | None \<Rightarrow> Save_Failed)"
  define files where "files = finalized_files fid result (us_files ?us)"
  define over where "over = is_complete (us\<lparr>us_files := files\<rparr>)"
  have started: "upload_begin (v2_session s) (rc_ip ci) sid fid tok = (Inr (sf_dto f), Some (Active ?us))"
    using slot "file" by (simp add: upload_begin_def Let_def)
  have fin: "finalize_slot (Some (Active ?us)) sid fid result =
      (if over then (True, None) else (False, Some (Active (us\<lparr>us_files := files\<rparr>))))"
    using slot by (simp add: finalize_slot_own Let_def files_def over_def)
  have attempts: "unat (saturating_inc (sf_attempts f)) < 3 \<longleftrightarrow> unat (sf_attempts f) < 2"
  proof (cases "unat (sf_attempts f) < 255")
    case False
    then have "sf_attempts f = 255" using unsigned_less [of "sf_attempts f", where 'a = nat] by (simp add: word_unat_eq_iff)
    then show ?thesis by (simp add: saturating_inc_def)
  qed (simp add: unat_saturating_inc)
  have get: "hm_get files fid = Some (?f'\<lparr>sf_status := final_status result (saturating_inc (sf_attempts f))\<rparr>)"
    using "file" by (simp add: files_def hm_get_finalized)
  have others: "\<forall>other. other \<noteq> fid \<longrightarrow> hm_get files other = hm_get (us_files us) other" and
      keys: "map fst files = map fst (us_files us)"
    by (simp_all add: files_def hm_get_finalized)
  have over: "over = (\<forall>other g. hm_get files other = Some g \<longrightarrow> sf_status g = File_Finished \<or> sf_status g = File_Failed)"
  proof -
    have "hm_wf files" using wf keys by (simp)
    then show ?thesis unfolding over_def by (subst is_complete_iff) (simp_all add: is_final_def)
  qed
  have status: "final_status result (saturating_inc (sf_attempts f)) = (case saved of
            Some Save_Success \<Rightarrow> File_Finished
          | Some Save_HashMismatch \<Rightarrow> if unat (sf_attempts f) < 2 then File_Pending else File_Failed
          | _ \<Rightarrow> File_Failed)"
    by (simp add: result_def final_status_cases attempts split: option.split save_result.split)
  have eff: "r = (case saved of
        Some Save_Success \<Rightarrow> Inr (empty_response 200)
      | Some Save_HashMismatch \<Rightarrow> Inl (Message_Error 422 ''Checksum mismatch'')
      | Some Save_Failed \<Rightarrow> Inl (Status_Error 500)
      | None \<Rightarrow> Inl (Status_Error 500)) \<and>
    v2_session s' = (if over then None else Some (Active (us\<lparr>us_files := files\<rparr>))) \<and>
    v2_events s' = v2_events s @
        (if v2_event_open s
         then Ev_File_Upload sid fid (sf_dto f) # (if over then [Ev_Session_End sid End_Finished] else []) else [])"
    using params started run fin saved
    by (auto simp: upload_def upload_guard_new_def upload_guard_finish_def upload_guard_drop_def result_def
        upload_response_def finalize_file_def emit_def Let_def split: option.splits if_splits save_result.splits)
  show ?thesis
    using eff keys others get over unfolding status by (intro conjI exI [of _ files] exI [of _ over]) (simp_all add: saturating_inc_def)
qed

theorem upload_outcome_witness:
  "\<exists>r s' us. upload [(''sessionId'', ''s''), (''fileId'', ''a''), (''token'', ''ta'')] sample_client
      (Some ()) (\<lambda>_ _ _. Save_HashMismatch) sample_active = (r, s') \<and>
    r = Inl (Message_Error 422 ''Checksum mismatch'') \<and> v2_session s' = Some (Active us) \<and>
    map_option sf_status (hm_get (us_files us) ''a'') = Some File_Pending"
proof -
  let ?q = "[(''sessionId'', ''s''), (''fileId'', ''a''), (''token'', ''ta'')]"
  obtain r s' where run: "upload ?q sample_client (Some ()) (\<lambda>_ _ _. Save_HashMismatch) sample_active = (r, s')"
    by fastforce
  have params: "upload_params ?q = Some (''s'', ''a'', ''ta'')" by (simp add: upload_params_def)
  obtain f where f: "hm_get (us_files sample_session) ''a'' = Some f" "sf_token f = ''ta''" "sf_status f = File_Pending"
      "sf_attempts f = 0" and wf: "hm_wf (us_files sample_session)"
    by (simp add: sample_session_def)
  have slot: "v2_session sample_active = Some (Active sample_session)" "us_session_id sample_session = ''s''"
      "us_sender_ip sample_session = rc_ip sample_client" and opened: "v2_event_open sample_active"
    by (simp_all add: sample_active_def sample_session_def sample_client_def sample_v2_def)
  from upload_outcome [OF params slot f(1-3) wf refl run] opened f(4) obtain files over where
      r: "r = Inl (Message_Error 422 ''Checksum mismatch'')"
      and pending: "hm_get files ''a'' = Some (f\<lparr>sf_status := File_Pending, sf_attempts := 1\<rparr>)"
      and over: "over = (\<forall>other g. hm_get files other = Some g \<longrightarrow> sf_status g = File_Finished \<or> sf_status g = File_Failed)"
      and slot': "v2_session s' = (if over then None else Some (Active (sample_session\<lparr>us_files := files\<rparr>)))"
    by auto
  have "\<not> over" using over spec [of _ "''a''"] pending by force
  then show ?thesis using r pending slot' run by (intro exI [of _ r] exI [of _ s'] exI [of _ "sample_session\<lparr>us_files := files\<rparr>"]) simp
qed

text \<open>
  A cancel request always succeeds. It ends an active session only if it comes from the
  session's sender and names it, it never touches the slot of a pending request, and it sets the
  cancellation token of a pending request only from that request's own address.
\<close>

theorem cancel_contract:
  "fst (cancel q ci s) = Inr (empty_response 200) \<and>
   (case v2_session s of
      None \<Rightarrow> v2_session (snd (cancel q ci s)) = None \<and> v2_cancelled (snd (cancel q ci s)) = v2_cancelled s
    | Some (Active us) \<Rightarrow>
        v2_session (snd (cancel q ci s)) =
          (if hm_get q ''sessionId'' = Some (us_session_id us) \<and> us_sender_ip us = rc_ip ci
           then None else v2_session s) \<and>
        v2_cancelled (snd (cancel q ci s)) = v2_cancelled s
    | Some (Pending p) \<Rightarrow>
        v2_session (snd (cancel q ci s)) = v2_session s \<and>
        v2_cancelled (snd (cancel q ci s)) =
          (if ps_sender_ip p = rc_ip ci \<and>
              (hm_get q ''sessionId'' = None \<or> hm_get q ''sessionId'' = Some (ps_session_id p))
           then ps_session_id p # v2_cancelled s else v2_cancelled s))"
proof (cases "v2_session s")
  case None
  then show ?thesis
    by (auto simp: cancel_def cancel_pending_def cancel_active_def Let_def emit_def
        split: option.splits)
next
  case (Some slot)
  then show ?thesis
    by (cases slot; cases "hm_get q ''sessionId''")
      (auto simp: cancel_def cancel_pending_def cancel_active_def Let_def emit_def)
qed

text \<open>
  Over TLS a registration reaches the application exactly when the claimed fingerprint is,
  up to the case of its ASCII letters, the hexadecimal SHA-256 of the certificate the client
  proved to own; the answer does not tell the two cases apart.
\<close>

theorem register_not_spoofable:
  assumes "rc_cert ci = Some cert" and "v2_event_open s"
  shows "register lib info download (Body_Json payload) ci (Some s) =
    (Inr (info_handler info download),
     Some (s\<lparr>v2_events := v2_events s @
       (if to_ascii_uppercase (rd_fingerprint payload) = to_ascii_uppercase (to_hex (cl_sha256 lib cert))
        then [Ev_Register (rc_ip ci) payload] else [])\<rparr>))"
  using assms
  by (simp add: register_def register_fingerprint_valid_def cert_fingerprint_def emit_def
      info_handler_def fingerprint_is_upper_hex)

theorem register_not_spoofable_witness:
  "register sample_lib sample_info True (Body_Json sample_register) sample_client (Some sample_v2) =
    (Inr (info_handler sample_info True),
     Some (sample_v2\<lparr>v2_events := [Ev_Register sample_peer sample_register]\<rparr>))"
proof -
  have cert: "rc_cert sample_client = Some [1, 171]" and opened: "v2_event_open sample_v2"
    by (simp_all add: sample_client_def sample_v2_def)
  have "to_ascii_uppercase ''01ab'' = to_ascii_uppercase (to_hex (cl_sha256 sample_lib [1, 171]))"
    by code_simp
  then show ?thesis
    using register_not_spoofable [OF cert opened, of sample_lib sample_info True sample_register]
    by (simp add: sample_register_def sample_client_def sample_v2_def)
qed

end
