(* ===== verification/Web_Send.thy ===== *)
theory Web_Send
  imports Upload_Contract
begin

text \<open>
  Web send, the download API for browsers (\<open>server/web.rs\<close>), and the streaming of a file's
  content into a response (\<open>FileContent::into_receiver\<close> in \<open>model/transfer.rs\<close>).

  Sessions are kept per client, keyed by the text of its address. As for uploads, each
  stretch of a handler between two awaits that touches the shared state is a definition of
  its own, and the handlers compose them.
\<close>

section \<open>The content of a file as chunks\<close>

text \<open>
  Reading to the end of file or to the first error; \<open>room\<close> is how many sends succeed before
  the receiver is gone. The second component counts the bytes read.
\<close>

fun read_file_into_sender :: "reads \<Rightarrow> nat option \<Rightarrow> u64 \<Rightarrow> bytes list \<times> u64" where
  "read_file_into_sender [] room count = ([], count)"
| "read_file_into_sender (Inl e # rs) room count = ([], count)"
| "read_file_into_sender (Inr buffer # rs) room count =
     (if buffer = [] then ([], count)
      else
        (let count = count + of_nat (length buffer) in
         case room of
           Some 0 \<Rightarrow> ([], count)
         | _ \<Rightarrow>
             (let (sent, n) = read_file_into_sender rs (map_option (\<lambda>n. n - 1) room) count
              in (buffer # sent, n))))"

definition into_receiver ::
  "(string \<Rightarrow> string + reads) \<Rightarrow> (int \<Rightarrow> reads) \<Rightarrow> nat option \<Rightarrow> file_content \<Rightarrow> bytes list" where
  "into_receiver open_file fd_reads room content =
     (case content of
        Content_Stream chunks \<Rightarrow> chunks
      | Content_Path path \<Rightarrow>
          (case open_file path of
             Inr rs \<Rightarrow> fst (read_file_into_sender rs room 0)
           | Inl e \<Rightarrow> [])
      | Content_Fd fd \<Rightarrow> fst (read_file_into_sender (fd_reads fd) room 0))"

section \<open>State\<close>

datatype web_event =
    Ev_Prepare_Download peer_ip string "string option"
  | Ev_File_Download string string file_dto

record web_session =
  wss_ip :: peer_ip
  wss_accepted :: bool

record 'c web_state =
  web_files :: "(string, file_dto) hmap"
  web_pin :: "string option"
  web_i18n :: "(string, string) hmap"
  web_event_open :: bool
  web_events :: "web_event list"
  web_sessions :: "(string, web_session) hmap"
  web_pin_attempts :: 'c

record web_send_config =
  wc_files :: "(string, file_dto) hmap"
  wc_pin :: "string option"
  wc_i18n :: "(string, string) hmap"

definition web_page_state_new :: "'c \<Rightarrow> web_send_config \<Rightarrow> 'c web_state" where
  "web_page_state_new empty_cache config =
     \<lparr>web_files = wc_files config, web_pin = wc_pin config, web_i18n = wc_i18n config,
      web_event_open = True, web_events = [], web_sessions = [], web_pin_attempts = empty_cache\<rparr>"

text \<open>The default translations, under the names they have on the wire.\<close>

definition web_send_i18n_default :: "(string, string) hmap" where
  "web_send_i18n_default =
     [(''waiting'', ''Waiting for response'' @ map char_of [226 :: nat, 128, 166]),
      (''enterPin'', ''Enter PIN''), (''invalidPin'', ''Invalid PIN''),
      (''tooManyAttempts'', ''Too many attempts''), (''rejected'', ''Rejected''),
      (''files'', ''Files''), (''fileName'', ''File name''), (''size'', ''Size'')]"

definition web_emit :: "web_event \<Rightarrow> ('c, 'z) web_state_scheme \<Rightarrow> bool \<times> ('c, 'z) web_state_scheme" where
  "web_emit e s =
     (if web_event_open s then (True, s\<lparr>web_events := web_events s @ [e]\<rparr>) else (False, s))"

section \<open>Static pages\<close>

definition html_response :: "status \<Rightarrow> string \<Rightarrow> string \<Rightarrow> response" where
  "html_response status content content_type =
     \<lparr>rs_status = status, rs_headers = [(''content-type'', content_type)], rs_body = Static_Body content\<rparr>"

text \<open>The pages are assets compiled into the program; they are named by their file.\<close>

definition error_403_page :: response where
  "error_403_page = html_response 403 ''error-403.html'' ''text/html; charset=utf-8''"

definition web_index :: "'s option \<Rightarrow> response" where
  "web_index web =
     (case web of
        Some _ \<Rightarrow> html_response 200 ''index.html'' ''text/html; charset=utf-8''
      | None \<Rightarrow> error_403_page)"

definition web_main_js :: "'s option \<Rightarrow> response" where
  "web_main_js web =
     (case web of
        Some _ \<Rightarrow> html_response 200 ''main.js'' ''text/javascript; charset=utf-8''
      | None \<Rightarrow> error_403_page)"

definition require_web :: "'s option \<Rightarrow> 's app_result" where
  "require_web web =
     (case web of Some s \<Rightarrow> Inr s | None \<Rightarrow> Inl (Message_Error 403 ''Web send not initialized.''))"

definition web_i18n_response :: "('c, 'z) web_state_scheme option \<Rightarrow> response app_result" where
  "web_i18n_response web =
     (case require_web web of
        Inl e \<Rightarrow> Inl e
      | Inr s \<Rightarrow> Inr (json_response 200 (I18n_Body (web_i18n s))))"

definition file_list_response ::
  "client_info \<Rightarrow> ('c, 'z) web_state_scheme \<Rightarrow> string \<Rightarrow> response" where
  "file_list_response info web session_id =
     json_response 200 (Prepare_Download_Body (info_dto info True) session_id (web_files web))"

section \<open>Sessions\<close>

text \<open>The check under the lock that both handlers make.\<close>

definition session_valid :: "('c, 'z) web_state_scheme \<Rightarrow> peer_ip \<Rightarrow> string \<Rightarrow> bool" where
  "session_valid s ip session_id =
     (case hm_get (web_sessions s) session_id of
        Some session \<Rightarrow> wss_accepted session \<and> wss_ip session = ip
      | None \<Rightarrow> False)"

definition web_insert :: "peer_ip \<Rightarrow> ('c, 'z) web_state_scheme \<Rightarrow> ('c, 'z) web_state_scheme" where
  "web_insert ip s =
     s\<lparr>web_sessions := hm_put (peer_to_string ip) \<lparr>wss_ip = ip, wss_accepted = False\<rparr> (web_sessions s)\<rparr>"

definition web_accept :: "string \<Rightarrow> ('c, 'z) web_state_scheme \<Rightarrow> ('c, 'z) web_state_scheme" where
  "web_accept session_id s =
     s\<lparr>web_sessions := hm_upd session_id (\<lambda>session. session\<lparr>wss_accepted := True\<rparr>) (web_sessions s)\<rparr>"

definition clear_pending_web_session ::
  "string \<Rightarrow> ('c, 'z) web_state_scheme \<Rightarrow> ('c, 'z) web_state_scheme" where
  "clear_pending_web_session session_id s =
     (case hm_get (web_sessions s) session_id of
        Some session \<Rightarrow>
          if \<not> wss_accepted session
          then s\<lparr>web_sessions := hm_del session_id (web_sessions s)\<rparr> else s
      | None \<Rightarrow> s)"

record web_guard =
  wg_session_id :: string
  wg_armed :: bool

definition web_guard_new :: "string \<Rightarrow> web_guard" where
  "web_guard_new session_id = \<lparr>wg_session_id = session_id, wg_armed = True\<rparr>"

definition web_guard_disarm :: "web_guard \<Rightarrow> web_guard" where
  "web_guard_disarm g = g\<lparr>wg_armed := False\<rparr>"

definition web_guard_clear ::
  "unit \<Rightarrow> web_guard \<Rightarrow> ('c, 'z) web_state_scheme \<Rightarrow> web_guard \<times> ('c, 'z) web_state_scheme" where
  "web_guard_clear _ g s =
     (g\<lparr>wg_armed := False\<rparr>, clear_pending_web_session (wg_session_id g) s)"

definition web_guard_drop ::
  "web_guard \<Rightarrow> ('c, 'z) web_state_scheme \<Rightarrow> ('c, 'z) web_state_scheme" where
  "web_guard_drop g s =
     (if \<not> wg_armed g then s else clear_pending_web_session (wg_session_id g) s)"

interpretation web_guard: drop_guard web_guard_new web_guard_disarm web_guard_clear web_guard_drop
  "\<lambda>i _. clear_pending_web_session i" clear_pending_web_session
  by unfold_locales
    (simp_all add: web_guard_new_def web_guard_disarm_def web_guard_clear_def web_guard_drop_def)

section \<open>Prepare download\<close>

definition pd_refetch ::
  "query \<Rightarrow> peer_ip \<Rightarrow> ('c, 'z) web_state_scheme \<Rightarrow> string option" where
  "pd_refetch query ip s =
     (case hm_get query ''sessionId'' of
        Some session_id \<Rightarrow> if session_valid s ip session_id then Some session_id else None
      | None \<Rightarrow> None)"

definition pd_check_pin ::
  "('c, ip_addr, u32, 'y) lru_ops_scheme \<Rightarrow> query \<Rightarrow> peer_ip
     \<Rightarrow> ('c, 'z) web_state_scheme \<Rightarrow> unit app_result \<times> ('c, 'z) web_state_scheme" where
  "pd_check_pin ops query ip s =
     (let (r, attempts) = check_pin ops (web_pin s) (web_pin_attempts s) query (p_ip ip)
      in (r, s\<lparr>web_pin_attempts := attempts\<rparr>))"

text \<open>
  The handler run to its end; \<open>decision\<close> is the application's answer, \<open>None\<close> when it drops
  the channel.
\<close>

definition prepare_download ::
  "('c, ip_addr, u32, 'y) lru_ops_scheme \<Rightarrow> client_info \<Rightarrow> query \<Rightarrow> string option
     \<Rightarrow> request_client_info \<Rightarrow> bool option \<Rightarrow> ('c, 'z) web_state_scheme
     \<Rightarrow> response app_result \<times> ('c, 'z) web_state_scheme" where
  "prepare_download ops info query user_agent ci decision s =
     (case pd_refetch query (rc_ip ci) s of
        Some session_id \<Rightarrow> (Inr (file_list_response info s session_id), s)
      | None \<Rightarrow>
     (case pd_check_pin ops query (rc_ip ci) s of
        (Inl e, s) \<Rightarrow> (Inl e, s)
      | (Inr _, s) \<Rightarrow>
     (let session_id = peer_to_string (rc_ip ci);
          s = web_insert (rc_ip ci) s;
          guard = web_guard_new session_id;
          (sent, s) = web_emit (Ev_Prepare_Download (rc_ip ci) session_id user_agent) s
      in if \<not> sent then (Inl (Status_Error 500), web_guard_drop guard s)
         else
           (case decision of
              None \<Rightarrow> (Inl (Status_Error 500), web_guard_drop guard s)
            | Some accepted \<Rightarrow>
                if \<not> accepted then
                  (let (guard, s) = web_guard_clear () guard s
                   in (Inl (Message_Error 403 ''File transfer rejected.''), web_guard_drop guard s))
                else
                  (let s = web_accept session_id s;
                       guard = web_guard_disarm guard
                   in (Inr (file_list_response info s session_id), web_guard_drop guard s))))))"

section \<open>Download\<close>

text \<open>
  Percent encoding and the check of a header value are those of the crates
  \<open>percent-encoding\<close> and \<open>http\<close>; \<open>he_encode keep\<close> encodes every byte but the ASCII characters
  of \<open>keep\<close>.
\<close>

record header_lib =
  he_encode :: "(char \<Rightarrow> bool) \<Rightarrow> string \<Rightarrow> string"
  he_value_ok :: "string \<Rightarrow> bool"

definition ascii_alnum :: "char \<Rightarrow> bool" where
  "ascii_alnum c =
     (let n = of_char c :: nat in
      48 \<le> n \<and> n \<le> 57 \<or> 65 \<le> n \<and> n \<le> 90 \<or> 97 \<le> n \<and> n \<le> 122)"

definition file_name_keep :: "char \<Rightarrow> bool" where
  "file_name_keep c \<longleftrightarrow> ascii_alnum c \<or> c \<in> set ''-_.!~*()'' \<or> c = CHR 0x27"

definition replace_slash :: "string \<Rightarrow> string" where
  "replace_slash name = map (\<lambda>c. if c = CHR ''/'' then CHR ''-'' else c) name"

definition content_disposition :: "('y) header_lib_scheme \<Rightarrow> string \<Rightarrow> string" where
  "content_disposition he file_name =
     ''attachment; filename='' @ [CHR 0x22] @ he_encode he file_name_keep (replace_slash file_name) @
     [CHR 0x22]"

text \<open>
  \<open>content\<close> is the application's answer to the event; the body streams its chunks.
\<close>

definition download ::
  "('y) header_lib_scheme \<Rightarrow> (file_content \<Rightarrow> bytes list) \<Rightarrow> query \<Rightarrow> request_client_info
     \<Rightarrow> file_content option \<Rightarrow> ('c, 'z) web_state_scheme
     \<Rightarrow> response app_result \<times> ('c, 'z) web_state_scheme" where
  "download he receiver query ci content s =
     (case hm_get query ''sessionId'' of
        None \<Rightarrow> (Inl (Bad_Request ''Missing sessionId.''), s)
      | Some session_id \<Rightarrow>
          if \<not> session_valid s (rc_ip ci) session_id
          then (Inl (Message_Error 403 ''Invalid sessionId.''), s)
          else
     (case hm_get query ''fileId'' of
        None \<Rightarrow> (Inl (Bad_Request ''Missing fileId.''), s)
      | Some file_id \<Rightarrow>
     (case hm_get (web_files s) file_id of
        None \<Rightarrow> (Inl (Message_Error 403 ''Invalid fileId.''), s)
      | Some file \<Rightarrow>
     (let (sent, s) = web_emit (Ev_File_Download session_id file_id file) s in
      if \<not> sent then (Inl (Status_Error 500), s)
      else
        (case content of
           None \<Rightarrow> (Inl (Status_Error 500), s)
         | Some content \<Rightarrow>
             if \<not> he_value_ok he (content_disposition he (fd_file_name file))
             then (Inl (Status_Error 500), s)
             else
               (Inr \<lparr>rs_status = 200,
                  rs_headers = [(''content-type'', ''application/octet-stream''),
                    (''content-disposition'', content_disposition he (fd_file_name file)),
                    (''content-length'', nat_str 10 (unat (fd_size file)))],
                  rs_body = Stream_Body (receiver content)\<rparr>, s))))))"

section \<open>Facts about the sections\<close>

lemma web_emit_frame [simp]:
  "web_sessions (snd (web_emit e s)) = web_sessions s"
  "web_files (snd (web_emit e s)) = web_files s"
  "web_pin (snd (web_emit e s)) = web_pin s"
  by (simp_all add: web_emit_def)

lemma web_emit_eq:
  "web_emit e s = (b, s') \<Longrightarrow> web_sessions s' = web_sessions s \<and> web_files s' = web_files s \<and> web_pin s' = web_pin s"
  by (auto simp: web_emit_def split: if_splits)

lemma web_insert_get [simp]:
  "hm_get (web_sessions (web_insert ip s)) k =
     (if k = peer_to_string ip then Some \<lparr>wss_ip = ip, wss_accepted = False\<rparr>
      else hm_get (web_sessions s) k)"
  by (simp add: web_insert_def)

lemma web_accept_get [simp]:
  "hm_get (web_sessions (web_accept sid s)) k =
     (if k = sid then map_option (\<lambda>w. w\<lparr>wss_accepted := True\<rparr>) (hm_get (web_sessions s) k)
      else hm_get (web_sessions s) k)"
  by (simp add: web_accept_def)

lemma clear_pending_web_session_get [simp]:
  "hm_get (web_sessions (clear_pending_web_session sid s)) k =
     (case hm_get (web_sessions s) k of
        Some w \<Rightarrow> if k = sid \<and> \<not> wss_accepted w then None else Some w
      | None \<Rightarrow> None)"
  by (auto simp: clear_pending_web_session_def split: option.splits)

lemma clear_pending_web_session_frame [simp]:
  "web_files (clear_pending_web_session sid s) = web_files s"
  by (simp add: clear_pending_web_session_def split: option.splits)

lemma pd_check_pin_frame:
  "pd_check_pin ops q ip s = (r, s') \<Longrightarrow>
     web_sessions s' = web_sessions s \<and> web_files s' = web_files s \<and>
     r = fst (check_pin ops (web_pin s) (web_pin_attempts s) q (p_ip ip))"
  by (auto simp: pd_check_pin_def split: prod.splits)

section \<open>Concrete requests\<close>

definition sample_web :: "(ip_addr, u32) hmap web_state" where
  "sample_web = web_page_state_new []
     \<lparr>wc_files = [(''a'', sample_file ''a'' 3)], wc_pin = Some ''42'', wc_i18n = web_send_i18n_default\<rparr>"

text \<open>Headers as the crates document them: printable ASCII is accepted.\<close>

definition percent_chars :: "char set" where
  "percent_chars = set ''%0123456789ABCDEF''"

definition header_laws :: "'y header_lib_scheme \<Rightarrow> bool" where
  "header_laws he \<longleftrightarrow>
     (\<forall>keep s. set (he_encode he keep s) \<subseteq>
        {c. keep c \<and> of_char c < (128 :: nat)} \<union> percent_chars) \<and>
     (\<forall>s. (\<forall>c \<in> set s. 32 \<le> (of_char c :: nat) \<and> of_char c < (127 :: nat)) \<longrightarrow> he_value_ok he s)"

definition sample_header_lib :: header_lib where
  "sample_header_lib = \<lparr>
     he_encode = (\<lambda>keep s. concat (map (\<lambda>c.
        if keep c \<and> of_char c < (128 :: nat) then [c]
        else ''%'' @ hex_byte_upper (of_nat (of_char c))) s)),
     he_value_ok = list_all (\<lambda>c. 32 \<le> (of_char c :: nat) \<and> of_char c < (127 :: nat))\<rparr>"

lemma hex_digit_upper_range: "n < 16 \<Longrightarrow> hex_digit_upper n \<in> percent_chars"
  by (drule less_16_cases) (elim disjE; simp add: hex_digit_upper_def percent_chars_def)

lemma percent_encoded_range: "set (''%'' @ hex_byte_upper b) \<subseteq> percent_chars"
proof -
  have "CHR ''%'' \<in> percent_chars" by (simp add: percent_chars_def)
  then show ?thesis by (simp add: hex_byte_upper_def hex_digit_upper_range)
qed

lemma sample_header_laws: "header_laws sample_header_lib"
proof -
  have char: "set (if keep c \<and> of_char c < (128 :: nat) then [c]
        else ''%'' @ hex_byte_upper (of_nat (of_char c))) \<subseteq>
      {c. keep c \<and> of_char c < (128 :: nat)} \<union> percent_chars" for keep c
    using percent_encoded_range [of "of_nat (of_char c)"] by (auto simp del: of_nat_of_char)
  have "set (he_encode sample_header_lib keep s) \<subseteq>
      {c. keep c \<and> of_char c < (128 :: nat)} \<union> percent_chars" for keep s
    unfolding sample_header_lib_def header_lib.simps set_concat set_map using char by (intro UN_least) blast
  then show ?thesis by (simp add: header_laws_def sample_header_lib_def list_all_iff)
qed

section \<open>Properties\<close>

text \<open>
  C34: A download is answered with content only for a session that was accepted for the very
  address of the request and a file that is on offer, under the announced length; otherwise the
  answer is 400, 403 or 500. The sessions never change.
\<close>

theorem download_authorised:
  "(case fst (download he receiver q ci content s) of
      Inr r \<Rightarrow> (\<exists>sid fid session file c.
        hm_get q ''sessionId'' = Some sid \<and> hm_get (web_sessions s) sid = Some session \<and>
        wss_accepted session \<and> wss_ip session = rc_ip ci \<and>
        hm_get q ''fileId'' = Some fid \<and> hm_get (web_files s) fid = Some file \<and>
        content = Some c \<and> rs_status r = 200 \<and> rs_body r = Stream_Body (receiver c) \<and>
        (''content-length'', nat_str 10 (unat (fd_size file))) \<in> set (rs_headers r))
    | Inl e \<Rightarrow> error_status e \<in> {400, 403, 500}) \<and>
   web_sessions (snd (download he receiver q ci content s)) = web_sessions s"
  by (auto simp: download_def session_valid_def web_emit_def Let_def split: option.splits)

text \<open>
  A prepare-download request is answered with the file list exactly for a client whose
  session is accepted afterwards: it was accepted before, or the request carried the PIN
  (where there is one) and the application accepted it. A request refused by the PIN changes no
  session; any other refusal leaves this client without a session.
\<close>

theorem prepare_download_contract:
  assumes run: "prepare_download ops info q ua ci decision s = (r, s')"
  shows "case r of
      Inr resp \<Rightarrow> (\<exists>sid. resp = file_list_response info s' sid \<and> session_valid s' (rc_ip ci) sid \<and>
        (session_valid s (rc_ip ci) sid \<and> s' = s \<or>
         sid = peer_to_string (rc_ip ci) \<and> decision = Some True \<and>
         (web_pin s = None \<or> hm_get q ''pin'' = web_pin s)))
    | Inl e \<Rightarrow> error_status e \<in> {401, 429} \<and> web_sessions s' = web_sessions s \<or>
        error_status e \<in> {403, 500} \<and> hm_get (web_sessions s') (peer_to_string (rc_ip ci)) = None"
proof (cases "pd_refetch q (rc_ip ci) s")
  case (Some sid)
  then show ?thesis using run
    by (auto simp: prepare_download_def pd_refetch_def split: option.splits if_splits)
next
  case None
  obtain rp s1 where pin: "pd_check_pin ops q (rc_ip ci) s = (rp, s1)" by fastforce
  note frame = pd_check_pin_frame [OF pin]
  show ?thesis
  proof (cases rp)
    case (Inl e)
    then have "error_status e \<in> {401, 429}" using frame pin.refusal_status by metis
    then show ?thesis using run None pin Inl frame by (auto simp: prepare_download_def)
  next
    case (Inr u)
    then have "web_pin s = None \<or> hm_get q ''pin'' = web_pin s"
      using frame pin.passed_carries_pin [of ops "web_pin s" "web_pin_attempts s" q "p_ip (rc_ip ci)"] by simp
    moreover obtain sent s2 where emit: "web_emit (Ev_Prepare_Download (rc_ip ci) (peer_to_string (rc_ip ci)) ua)
        (web_insert (rc_ip ci) s1) = (sent, s2)" by fastforce
    moreover note web_emit_eq [OF emit]
    ultimately show ?thesis using run None pin Inr
      by (cases "sent \<and> decision = Some True")
        (auto simp: prepare_download_def Let_def web_guard_clear_def web_guard_new_def web_guard_drop_def
          web_guard_disarm_def session_valid_def split: option.splits if_splits)
  qed
qed

theorem prepare_download_contract_witness:
  "case prepare_download list_lru sample_info [(''pin'', ''42'')] None sample_client (Some True) sample_web of
     (r, s') \<Rightarrow> (case r of
       Inr resp \<Rightarrow> \<exists>sid. resp = file_list_response sample_info s' sid \<and> session_valid s' sample_peer sid
     | Inl e \<Rightarrow> False)"
proof -
  obtain r s' where run: "prepare_download list_lru sample_info [(''pin'', ''42'')] None sample_client
      (Some True) sample_web = (r, s')" by fastforce
  moreover have "\<exists>resp. r = Inr resp"
  proof -
    have "check_pin list_lru (Some ''42'') [] [(''pin'', ''42'')] (p_ip sample_peer) = (Inr (), [])"
      by (simp add: check_pin_def list_lru_def MAX_PIN_ATTEMPTS_def)
    then have pin: "pd_check_pin list_lru [(''pin'', ''42'')] (rc_ip sample_client) sample_web = (Inr (), sample_web)"
      by (simp add: pd_check_pin_def sample_web_def web_page_state_new_def sample_client_def)
    have "pd_refetch [(''pin'', ''42'')] (rc_ip sample_client) sample_web = None"
      by (simp add: pd_refetch_def)
    then show ?thesis
      using run pin by (auto simp: prepare_download_def web_emit_def web_insert_def sample_web_def
          web_page_state_new_def Let_def)
  qed
  ultimately show ?thesis
    using prepare_download_contract [OF run] by (auto simp: sample_client_def)
qed

lemma file_name_keep_range:
  assumes "file_name_keep c" shows "32 \<le> (of_char c :: nat) \<and> (of_char c :: nat) < 127"
proof (cases "ascii_alnum c")
  case True
  then show ?thesis by (auto simp: ascii_alnum_def Let_def)
next
  case False
  then have "c \<in> {CHR ''-'', CHR ''_'', CHR ''.'', CHR ''!'', CHR ''~'', CHR ''*'', CHR ''('', CHR '')'', CHR 0x27}"
    using assms by (auto simp: file_name_keep_def)
  then show ?thesis by (elim insertE emptyE; simp)
qed

lemma file_name_keep_not [simp]:
  "\<not> file_name_keep (CHR 0x22)" "\<not> file_name_keep (CHR ''/'')"
  "\<not> file_name_keep (CHR 0x0A)" "\<not> file_name_keep (CHR 0x0D)"
  by (simp_all add: file_name_keep_def ascii_alnum_def)

lemma percent_chars_range:
  assumes "c \<in> percent_chars" shows "32 \<le> (of_char c :: nat) \<and> (of_char c :: nat) < 127"
  using assms unfolding percent_chars_def by (simp only: set_simps) (elim insertE emptyE; simp)

lemma percent_chars_not [simp]:
  "CHR 0x22 \<notin> percent_chars" "CHR ''/'' \<notin> percent_chars"
  "CHR 0x0A \<notin> percent_chars" "CHR 0x0D \<notin> percent_chars"
  by (simp_all add: percent_chars_def)

text \<open>
  A name chosen by whoever offers the file cannot break out of the response header: the
  value is always a valid one (so this branch never answers 500), it holds exactly the two
  quotes around the name, and no line break or slash.
\<close>

theorem content_disposition_safe:
  assumes "header_laws he"
  shows "he_value_ok he (content_disposition he name) \<and>
    count_list (content_disposition he name) (CHR 0x22) = 2 \<and>
    set (content_disposition he name) \<inter> {CHR ''/'', CHR 0x0A, CHR 0x0D} = {}"
proof -
  let ?enc = "he_encode he file_name_keep (replace_slash name)"
  have enc: "set ?enc \<subseteq> {c. file_name_keep c \<and> of_char c < (128 :: nat)} \<union> percent_chars"
    using assms unfolding header_laws_def by blast
  then have "\<forall>c \<in> set ?enc. 32 \<le> (of_char c :: nat) \<and> (of_char c :: nat) < 127"
    using file_name_keep_range percent_chars_range by blast
  then have "\<forall>c \<in> set (content_disposition he name). 32 \<le> (of_char c :: nat) \<and> (of_char c :: nat) < 127"
    by (auto simp: content_disposition_def)
  then have "he_value_ok he (content_disposition he name)"
    using assms unfolding header_laws_def by blast
  moreover have no: "c \<notin> set ?enc" if "\<not> file_name_keep c" "c \<notin> percent_chars" for c
    using enc that by blast
  then have "count_list ?enc (CHR 0x22) = 0" by (simp add: count_list_0_iff)
  ultimately show ?thesis using no by (simp add: content_disposition_def)
qed

theorem content_disposition_safe_witness:
  "count_list (content_disposition sample_header_lib (''a'' @ [CHR 0x22, CHR 0x0A] @ ''/b'')) (CHR 0x22) = 2"
  using content_disposition_safe [OF sample_header_laws] by blast

lemma read_and_hash_streamed:
  "read_and_hash_from_file (\<lambda>_. False) i fed rs = Inr bs \<Longrightarrow>
     bs = fed @ concat (fst (read_file_into_sender rs None n))"
proof (induction rs arbitrary: i fed n)
  case (Cons r rs)
  show ?case
  proof (cases r)
    case (Inl e)
    then show ?thesis using Cons.prems by simp
  next
    case (Inr chunk)
    then show ?thesis
      using Cons.prems Cons.IH [of "Suc i" "fed @ chunk" "n + of_nat (length chunk)"]
      by (cases "chunk = []") (simp_all add: Let_def split: prod.splits)
  qed
qed simp

text \<open>
  Where a content can be hashed without a fault, the hash is the SHA-256 of exactly the
  bytes that are streamed for the same content, be it a stream, a path or a descriptor.
\<close>

theorem hashed_is_streamed:
  assumes "sha256_file_content lib open_file fd_reads content (\<lambda>_. False) = Inr h"
  shows "h = to_hex (cl_sha256 lib (concat (into_receiver open_file fd_reads None content)))"
proof -
  have from_reads: "h = to_hex (cl_sha256 lib (concat (fst (read_file_into_sender rs None 0))))"
    if "(case read_and_hash_from_file (\<lambda>_. False) 0 [] rs of
          Inl e \<Rightarrow> Inl e | Inr bs \<Rightarrow> Inr (to_hex (cl_sha256 lib bs))) = Inr h" for rs
    using that read_and_hash_streamed [of 0 "[]" rs _ 0] by (auto split: sum.splits)
  show ?thesis
  proof (cases content)
    case (Content_Stream chunks)
    then show ?thesis using assms
      by (simp add: sha256_file_content_def into_receiver_def hash_stream_uncancelled)
  next
    case (Content_Path path)
    then show ?thesis using assms from_reads
      by (auto simp: sha256_file_content_def into_receiver_def split: sum.splits)
  next
    case (Content_Fd fd)
    then show ?thesis using assms from_reads
      by (simp add: sha256_file_content_def into_receiver_def)
  qed
qed

theorem hashed_is_streamed_witness:
  "concat (into_receiver (\<lambda>_. Inr [Inr [1], Inr [2, 3], Inr []]) (\<lambda>_. []) None (Content_Path ''/f'')) = [1, 2, 3]"
proof -
  have "sha256_file_content sample_lib (\<lambda>_. Inr [Inr [1], Inr [2, 3], Inr []]) (\<lambda>_. [])
      (Content_Path ''/f'') (\<lambda>_. False) = Inr (to_hex [1, 2, 3])"
    by (simp add: sha256_file_content_def sample_lib_def)
  from hashed_is_streamed [OF this] show ?thesis by (simp add: sample_lib_def to_hex_inj)
qed


section \<open>Interleaved requests\<close>

text \<open>
  The sections that change a session, in the order in which the running requests and dropped
  guards happen to execute them.
\<close>

datatype web_section = Sec_Insert peer_ip | Sec_Accept string | Sec_Clear string

fun web_section_apply :: "web_section \<Rightarrow> ('c, 'z) web_state_scheme \<Rightarrow> ('c, 'z) web_state_scheme" where
  "web_section_apply (Sec_Insert ip) s = web_insert ip s"
| "web_section_apply (Sec_Accept sid) s = web_accept sid s"
| "web_section_apply (Sec_Clear sid) s = clear_pending_web_session sid s"

definition web_accepted_in :: "web_section list \<Rightarrow> string \<Rightarrow> bool" where
  "web_accepted_in secs sid \<longleftrightarrow>
     (\<exists>xs ys. secs = xs @ Sec_Accept sid # ys \<and> (\<forall>ip. Sec_Insert ip \<in> set ys \<longrightarrow> peer_to_string ip \<noteq> sid))"

lemma web_accepted_in_snoc:
  "web_accepted_in secs sid \<Longrightarrow> (\<And>ip. sec = Sec_Insert ip \<Longrightarrow> peer_to_string ip \<noteq> sid) \<Longrightarrow>
     web_accepted_in (secs @ [sec]) sid"
proof -
  assume "web_accepted_in secs sid" and other: "\<And>ip. sec = Sec_Insert ip \<Longrightarrow> peer_to_string ip \<noteq> sid"
  then obtain xs ys where "secs = xs @ Sec_Accept sid # ys"
    "\<forall>ip. Sec_Insert ip \<in> set ys \<longrightarrow> peer_to_string ip \<noteq> sid"
    unfolding web_accepted_in_def by blast
  with other show ?thesis
    unfolding web_accepted_in_def by (intro exI [of _ xs] exI [of _ "ys @ [sec]"]) auto
qed

lemma web_accepted_in_now: "web_accepted_in (secs @ [Sec_Accept sid]) sid"
  unfolding web_accepted_in_def by (intro exI [of _ secs] exI [of _ "[]"]) simp

lemma web_sessions_run:
  assumes "hm_get (web_sessions (fold web_section_apply secs (web_page_state_new c config))) k = Some w"
  shows "k = peer_to_string (wss_ip w) \<and> (wss_accepted w \<longrightarrow> web_accepted_in secs k)"
  using assms
proof (induction secs arbitrary: w rule: rev_induct)
  case Nil
  then show ?case by (simp add: web_page_state_new_def)
next
  case (snoc sec secs)
  let ?s = "fold web_section_apply secs (web_page_state_new c config)"
  show ?case
  proof (cases sec)
    case (Sec_Insert ip)
    then show ?thesis using snoc by (auto intro: web_accepted_in_snoc split: if_splits)
  next
    case (Sec_Accept sid)
    then show ?thesis using snoc
      by (cases "k = sid") (auto intro: web_accepted_in_snoc web_accepted_in_now)
  next
    case (Sec_Clear sid)
    then show ?thesis using snoc by (auto intro: web_accepted_in_snoc split: option.splits if_splits)
  qed
qed

text \<open>
  C35: However the sections of concurrent requests interleave, a session is filed under the
  address of its own client, and it is accepted only if the application accepted this client
  after the client's latest request.
\<close>

theorem web_session_provenance:
  assumes "hm_get (web_sessions (fold web_section_apply secs (web_page_state_new c config))) k = Some w"
    and "wss_accepted w"
  shows "k = peer_to_string (wss_ip w) \<and>
    (\<exists>xs ys. secs = xs @ Sec_Accept k # ys \<and> Sec_Insert (wss_ip w) \<notin> set ys)"
proof -
  have "k = peer_to_string (wss_ip w)" and "web_accepted_in secs k"
    using web_sessions_run [OF assms(1)] assms(2) by blast+
  then show ?thesis unfolding web_accepted_in_def by blast
qed

theorem web_session_provenance_witness:
  "\<exists>xs ys. [Sec_Insert sample_peer, Sec_Accept (peer_to_string sample_peer)] =
     xs @ Sec_Accept (peer_to_string sample_peer) # ys \<and> Sec_Insert sample_peer \<notin> set ys"
proof -
  let ?secs = "[Sec_Insert sample_peer, Sec_Accept (peer_to_string sample_peer)]"
  let ?config = "\<lparr>wc_files = [], wc_pin = None, wc_i18n = []\<rparr>"
  have "hm_get (web_sessions (fold web_section_apply ?secs (web_page_state_new () ?config)))
      (peer_to_string sample_peer) = Some \<lparr>wss_ip = sample_peer, wss_accepted = True\<rparr>"
    by simp
  from web_session_provenance [OF this] show ?thesis by simp
qed

text \<open>
  Sessions are told apart only by the client's address. When a client's older request is
  aborted while a newer one waits, the older guard removes the session of the newer one;
  accepting that one then sets nothing, so its client, answered with the file list, is refused
  every download.
\<close>

theorem web_abort_loses_acceptance:
  "fst (download he receiver ((''sessionId'', peer_to_string (rc_ip ci)) # q) ci content
     (web_accept (peer_to_string (rc_ip ci))
       (web_guard_drop (web_guard_new (peer_to_string (rc_ip ci)))
         (web_insert (rc_ip ci) (web_insert (rc_ip ci) s))))) =
   Inl (Message_Error 403 ''Invalid sessionId.'')"
  by (simp add: download_def session_valid_def web_guard.drop_fresh)

end
