(* ===== verification/Router.thy ===== *)
theory Router
  imports Save_File Web_Send
begin

text \<open>
  The server as a whole (\<open>server/mod.rs\<close>): its state, the client of a connection, the
  dispatch of a request to its handler, and the remaining endpoints: the internal one that
  shows the application (\<open>server/internal.rs\<close>) and those of the v3 protocol
  (\<open>server/v3.rs\<close>).
\<close>

section \<open>State\<close>

record internal_state =
  int_show_token :: string
  int_event_open :: bool
  int_events :: "string list list"

record ('c, 'n) app_state =
  app_info :: client_info
  app_web :: "'c web_state option"
  app_internal :: "internal_state option"
  app_received_nonces :: 'n
  app_generated_nonces :: 'n
  app_v2 :: "'c v2_state option"

record server_config_v2 =
  sc_pin :: "string option"

record internal_config =
  icfg_show_token :: string

definition app_state_new ::
  "'c \<Rightarrow> 'n \<Rightarrow> client_info \<Rightarrow> internal_config option \<Rightarrow> server_config_v2 option
     \<Rightarrow> web_send_config option \<Rightarrow> ('c, 'n) app_state" where
  "app_state_new empty_attempts empty_nonces info internal_config v2_config web_config =
     \<lparr>app_info = info,
      app_web = map_option (web_page_state_new empty_attempts) web_config,
      app_internal = map_option (\<lambda>config. \<lparr>int_show_token = icfg_show_token config,
        int_event_open = True, int_events = []\<rparr>) internal_config,
      app_received_nonces = empty_nonces, app_generated_nonces = empty_nonces,
      app_v2 = map_option (\<lambda>config. \<lparr>v2_pin = sc_pin config, v2_pin_attempts = empty_attempts,
        v2_session = None, v2_cancelled = [], v2_event_open = True, v2_events = []\<rparr>) v2_config\<rparr>"

text \<open>\<open>ServerHandle::cancel_v2_session\<close> on the whole state.\<close>

definition server_cancel_v2_session :: "string \<Rightarrow> ('c, 'n) app_state \<Rightarrow> bool \<times> ('c, 'n) app_state" where
  "server_cancel_v2_session session_id state =
     (case app_v2 state of
        None \<Rightarrow> (False, state)
      | Some v2 \<Rightarrow>
          (let (cancelled, v2) = cancel_v2_session session_id v2
           in (cancelled, state\<lparr>app_v2 := Some v2\<rparr>)))"

text \<open>The listeners: without IPv4 the start fails, without IPv6 it goes on.\<close>

definition start_listeners :: "('e + 'l) \<Rightarrow> ('e + 'l) \<Rightarrow> 'e + 'l \<times> 'l option" where
  "start_listeners ipv4 ipv6 =
     (case ipv4 of
        Inl e \<Rightarrow> Inl e
      | Inr l4 \<Rightarrow> Inr (l4, case ipv6 of Inl _ \<Rightarrow> None | Inr l6 \<Rightarrow> Some l6))"

section \<open>The client of a connection\<close>

text \<open>\<open>CustomClientCertVerifier::verify_client_cert\<close>: any certificate valid in itself.\<close>

definition client_auth_mandatory :: bool where
  "client_auth_mandatory = True"

definition verify_client_cert ::
  "(bytes \<Rightarrow> 'pk x509_cert option) \<Rightarrow> (string \<Rightarrow> 'pk option) \<Rightarrow> bytes \<Rightarrow> bool" where
  "verify_client_cert parse_der parse_pem_key cert =
     (case verify_cert_from_der parse_der parse_pem_key cert None of Inl _ \<Rightarrow> False | Inr _ \<Rightarrow> True)"

text \<open>
  What a TLS handshake comes to, as \<open>rustls\<close> decides it with the verifier of the server: it
  fails, or gives the certificates the client presented, the end entity first. A plain
  connection has no handshake. \<open>Panicked\<close> is the \<open>unwrap\<close> on an empty chain.
\<close>

datatype handshake = Plain_Tcp | Tls_Failed | Tls_Ok "bytes list option"

definition connection_client ::
  "socket_addr \<Rightarrow> handshake \<Rightarrow> request_client_info option run" where
  "connection_client remote_addr hs =
     (let ip = peer_from_remote_addr remote_addr in
      case hs of
        Plain_Tcp \<Rightarrow> Done (Some \<lparr>rc_ip = ip, rc_cert = None\<rparr>)
      | Tls_Failed \<Rightarrow> Done None
      | Tls_Ok None \<Rightarrow> Done (Some \<lparr>rc_ip = ip, rc_cert = None\<rparr>)
      | Tls_Ok (Some []) \<Rightarrow> Panicked
      | Tls_Ok (Some (cert # _)) \<Rightarrow> Done (Some \<lparr>rc_ip = ip, rc_cert = Some cert\<rparr>))"

section \<open>Requests\<close>

datatype http_method = GET | POST | Other_Method string

record http_request =
  rq_method :: http_method
  rq_path :: string
  rq_query :: "string option"
  rq_user_agent :: "string option"
  rq_frames :: "body_frame list"

text \<open>The parsers of the request types, by \<open>serde_json\<close>, and of a query.\<close>

record parsers =
  ps_form :: "string \<Rightarrow> (string \<times> string) list"
  ps_register :: "bytes \<Rightarrow> register_dto_v2 option"
  ps_prepare_upload :: "bytes \<Rightarrow> prepare_upload_request option"
  ps_nonce :: "bytes \<Rightarrow> string option"
  ps_register_v3 :: "bytes \<Rightarrow> unit option"
  ps_show :: "bytes \<Rightarrow> string list option"

definition incoming_body :: "(bytes \<Rightarrow> 'a option) \<Rightarrow> body_frame list \<Rightarrow> 'a incoming" where
  "incoming_body parse frames =
     (if body_broken frames then Body_Failed
      else (case parse (body_data frames) of None \<Rightarrow> Body_Invalid | Some x \<Rightarrow> Body_Json x))"

text \<open>
  What the application and the random generator contribute to one request: the UUIDs and the
  nonce that are drawn, the answers to the events, and the disk of the upload.
\<close>

record answers =
  an_session_id :: string
  an_token :: "string \<Rightarrow> string"
  an_upload_decision :: decision_outcome
  an_target :: "upload_target option"
  an_room :: "nat option"
  an_disk :: disk
  an_download_decision :: "bool option"
  an_content :: "file_content option"
  an_receiver :: "file_content \<Rightarrow> bytes list"
  an_random :: "nat \<Rightarrow> u8"

section \<open>The internal endpoint\<close>

definition show_handler ::
  "(bytes \<Rightarrow> string list option) \<Rightarrow> query \<Rightarrow> body_frame list \<Rightarrow> internal_state option
     \<Rightarrow> response app_result \<times> internal_state option" where
  "show_handler parse query frames internal =
     (case internal of
        None \<Rightarrow> (Inl (Status_Error 404), None)
      | Some s \<Rightarrow>
          if hm_get query ''token'' \<noteq> Some (int_show_token s)
          then (Inl (Message_Error 403 ''Invalid token''), Some s)
          else if body_broken frames then (Inl Hyper_Error, Some s)
          else
            (case (if body_data frames = [] then Some [] else parse (body_data frames)) of
               None \<Rightarrow> (Inl (Bad_Request ''Invalid JSON body''), Some s)
             | Some args \<Rightarrow>
                 (Inr (empty_response 200),
                  Some (if int_event_open s then s\<lparr>int_events := int_events s @ [args]\<rparr> else s))))"

section \<open>The v3 endpoints\<close>

definition nonce_exchange ::
  "('sk, 'ek, 'rk, 'x) crypto_lib_scheme \<Rightarrow> ('n, string, bytes, 'y) lru_ops_scheme
     \<Rightarrow> (bytes \<Rightarrow> cert_error + string) \<Rightarrow> (nat \<Rightarrow> u8) \<Rightarrow> string incoming \<Rightarrow> request_client_info
     \<Rightarrow> ('c, 'n) app_state \<Rightarrow> response app_result \<times> ('c, 'n) app_state" where
  "nonce_exchange lib nops cert_key random body ci state =
     (case collect_to_json body of
        Inl e \<Rightarrow> (Inl e, state)
      | Inr payload \<Rightarrow>
     (case cl_b64_decode lib payload of
        None \<Rightarrow> (Inl (Bad_Request ''Invalid nonce format''), state)
      | Some nonce \<Rightarrow>
          if \<not> validate_nonce nonce then (Inl (Bad_Request ''Invalid nonce''), state)
          else
            (let remote_key = client_identifier cert_key ci;
                 new_nonce = generate_nonce random
             in (Inr (json_response 200 (Nonce_Body (cl_b64_encode lib new_nonce))),
                 state\<lparr>app_received_nonces := lru_put nops (app_received_nonces state) remote_key nonce,
                       app_generated_nonces :=
                         lru_put nops (app_generated_nonces state) remote_key new_nonce\<rparr>))))"

definition register_v3 ::
  "unit incoming \<Rightarrow> ('c, 'n) app_state \<Rightarrow> response app_result \<times> ('c, 'n) app_state" where
  "register_v3 body state =
     (case collect_to_json body of
        Inl e \<Rightarrow> (Inl e, state)
      | Inr _ \<Rightarrow>
          (let info = app_info state in
           (Inr (json_response 200 (Register_Body
              \<lparr>rr_alias = ci_alias info, rr_version = ci_version info,
               rr_device_model = ci_device_model info, rr_device_type = ci_device_type info,
               rr_token = ci_token info, rr_has_web_interface = app_web state \<noteq> None\<rparr>)),
            state)))"

section \<open>Dispatch\<close>

text \<open>A handler of one component lifted to the whole state.\<close>

definition on_web ::
  "('c web_state \<Rightarrow> response app_result \<times> 'c web_state) \<Rightarrow> ('c, 'n) app_state
     \<Rightarrow> response app_result \<times> ('c, 'n) app_state" where
  "on_web handler state =
     (case require_web (app_web state) of
        Inl e \<Rightarrow> (Inl e, state)
      | Inr web \<Rightarrow> (let (r, web) = handler web in (r, state\<lparr>app_web := Some web\<rparr>)))"

definition on_v2 ::
  "('c v2_state \<Rightarrow> response app_result \<times> 'c v2_state) \<Rightarrow> ('c, 'n) app_state
     \<Rightarrow> response app_result \<times> ('c, 'n) app_state" where
  "on_v2 handler state =
     (case app_v2 state of
        None \<Rightarrow> (Inl (Status_Error 404), state)
      | Some v2 \<Rightarrow> (let (r, v2) = handler v2 in (r, state\<lparr>app_v2 := Some v2\<rparr>)))"

definition on_internal ::
  "(internal_state option \<Rightarrow> response app_result \<times> internal_state option) \<Rightarrow> ('c, 'n) app_state
     \<Rightarrow> response app_result \<times> ('c, 'n) app_state" where
  "on_internal handler state =
     (let (r, internal) = handler (app_internal state) in (r, state\<lparr>app_internal := internal\<rparr>))"

definition register_v2 ::
  "('sk, 'ek, 'rk, 'x) crypto_lib_scheme \<Rightarrow> register_dto_v2 incoming \<Rightarrow> request_client_info
     \<Rightarrow> ('c, 'n) app_state \<Rightarrow> response app_result \<times> ('c, 'n) app_state" where
  "register_v2 lib body ci state =
     (if app_v2 state = None then (Inl (Status_Error 404), state)
      else
        (let (r, v2) = register lib (app_info state) (app_web state \<noteq> None) body ci (app_v2 state)
         in (r, state\<lparr>app_v2 := v2\<rparr>)))"

text \<open>The dependencies of the handlers that lie outside the repository.\<close>

record ('sk, 'ek, 'rk, 'c, 'n) deps =
  dp_lib :: "('sk, 'ek, 'rk) crypto_lib"
  dp_pins :: "('c, ip_addr, u32) lru_ops"
  dp_nonces :: "('n, string, bytes) lru_ops"
  dp_headers :: header_lib
  dp_cert_key :: "bytes \<Rightarrow> cert_error + string"
  dp_parsers :: parsers

definition handle_request_inner ::
  "('sk, 'ek, 'rk, 'c, 'n) deps \<Rightarrow> answers \<Rightarrow> http_request \<Rightarrow> request_client_info
     \<Rightarrow> ('c, 'n) app_state \<Rightarrow> response app_result \<times> ('c, 'n) app_state" where
  "handle_request_inner dp an req ci state =
     (let query = parse_query (ps_form (dp_parsers dp)) (rq_query req);
          path = rq_path req; method = rq_method req; lib = dp_lib dp;
          frames = rq_frames req
      in if method = GET \<and> path = ''/'' then (Inr (web_index (app_web state)), state)
         else if method = GET \<and> path = ''/main.js'' then (Inr (web_main_js (app_web state)), state)
         else if method = GET \<and> path = ''/i18n.json'' then
           (web_i18n_response (app_web state), state)
         else if method = POST \<and> path = ''/api/localsend/v2/prepare-download'' then
           on_web (prepare_download (dp_pins dp) (app_info state) query (rq_user_agent req) ci
             (an_download_decision an)) state
         else if method = GET \<and> path = ''/api/localsend/v2/download'' then
           on_web (download (dp_headers dp) (an_receiver an) query ci (an_content an)) state
         else if method = POST \<and> path = ''/api/localsend/v2/register'' then
           register_v2 lib (incoming_body (ps_register (dp_parsers dp)) frames) ci state
         else if method = GET \<and> path = ''/api/localsend/v2/info'' then
           on_v2 (\<lambda>v2. (Inr (info_handler (app_info state) (app_web state \<noteq> None)), v2)) state
         else if method = POST \<and> path = ''/api/localsend/v2/prepare-upload'' then
           on_v2 (prepare_upload (dp_pins dp) lib query ci
             (incoming_body (ps_prepare_upload (dp_parsers dp)) frames)
             (an_session_id an) (an_token an) (an_upload_decision an)) state
         else if method = POST \<and> path = ''/api/localsend/v2/upload'' then
           on_v2 (upload query ci (an_target an) (\<lambda>target sz sha.
             sr_result (save_req_to_target lib (an_disk an) frames (an_room an) target sz sha))) state
         else if method = POST \<and> path = ''/api/localsend/v2/cancel'' then
           on_v2 (cancel query ci) state
         else if method = POST \<and> path = ''/api/localsend/v2/show'' then
           on_internal (show_handler (ps_show (dp_parsers dp)) query frames) state
         else if method = POST \<and> path = ''/api/localsend/v3/nonce'' then
           nonce_exchange lib (dp_nonces dp) (dp_cert_key dp) (an_random an)
             (incoming_body (ps_nonce (dp_parsers dp)) frames) ci state
         else if method = POST \<and> path = ''/api/localsend/v3/register'' then
           register_v3 (incoming_body (ps_register_v3 (dp_parsers dp)) frames) state
         else (Inr (empty_response 404), state))"

definition handle_request ::
  "('sk, 'ek, 'rk, 'c, 'n) deps \<Rightarrow> answers \<Rightarrow> http_request \<Rightarrow> request_client_info
     \<Rightarrow> ('c, 'n) app_state \<Rightarrow> response \<times> ('c, 'n) app_state" where
  "handle_request dp an req ci state =
     (case handle_request_inner dp an req ci state of
        (Inl e, state) \<Rightarrow> (to_response e, state)
      | (Inr r, state) \<Rightarrow> (r, state))"

section \<open>Answers of the handlers\<close>

definition answer_status :: "response app_result \<Rightarrow> status" where
  "answer_status r = (case r of Inl e \<Rightarrow> error_status e | Inr resp \<Rightarrow> rs_status resp)"

lemma answer_status_simps [simp]:
  "answer_status (Inl e) = error_status e"
  "answer_status (Inr resp) = rs_status resp"
  by (simp_all add: answer_status_def)

lemma response_status_simps [simp]:
  "rs_status (json_response c b) = c" "rs_status (empty_response c) = c"
  "rs_status (html_response c x t) = c"
  by (simp_all add: json_response_def empty_response_def html_response_def)

lemma handle_request_status_inner:
  "rs_status (fst (handle_request dp an req ci state)) =
     answer_status (fst (handle_request_inner dp an req ci state))"
  by (simp add: handle_request_def error_status_def split: prod.split sum.split)

lemma handle_request_state [simp]:
  "snd (handle_request dp an req ci state) = snd (handle_request_inner dp an req ci state)"
  by (simp add: handle_request_def split: prod.split sum.split)

definition known_statuses :: "status set" where
  "known_statuses = {200, 204, 400, 401, 403, 404, 409, 422, 429, 500}"

lemma collect_to_json_error: "collect_to_json b = Inl e \<Longrightarrow> error_status e \<in> {400, 500}"
  by (cases b) auto

lemma prepare_upload_rest_status:
  "answer_status (fst (prepare_upload_rest lib ci body sid tok outcome s)) \<in> known_statuses"
proof -
  obtain r s' where run: "prepare_upload_rest lib ci body sid tok outcome s = (r, s')" by fastforce
  show ?thesis
  proof (cases "v2_session s = None")
    case True
    from prepare_upload_rest_free [OF True run] show ?thesis
      using run by (auto simp: known_statuses_def)
  next
    case False
    from prepare_upload_rest_busy [OF False, of lib ci body sid tok outcome] show ?thesis
      by (auto simp: known_statuses_def)
  qed
qed

lemma prepare_upload_status:
  "answer_status (fst (prepare_upload ops lib q ci body sid tok outcome s)) \<in> known_statuses"
proof -
  obtain rp c where pin: "check_pin ops (v2_pin s) (v2_pin_attempts s) q (p_ip (rc_ip ci)) = (rp, c)"
    by fastforce
  show ?thesis
  proof (cases rp)
    case (Inl e)
    then have "error_status e \<in> {401, 429}" using pin pin.refusal_status by (metis fst_conv)
    then show ?thesis using pin Inl by (auto simp: prepare_upload_guarded known_statuses_def)
  next
    case (Inr u)
    then show ?thesis using pin prepare_upload_rest_status by (simp add: prepare_upload_guarded)
  qed
qed

lemma upload_status: "answer_status (fst (upload q ci target save s)) \<in> known_statuses"
  by (auto simp: upload_def upload_response_def known_statuses_def emit_def Let_def invalid_token_error_def
      split: option.splits prod.splits sum.splits save_result.splits dest: upload_begin_refused)

lemma cancel_status: "answer_status (fst (cancel q ci s)) \<in> known_statuses"
  by (auto simp: cancel_def known_statuses_def Let_def split: prod.splits option.splits)

lemma prepare_download_status:
  "answer_status (fst (prepare_download ops info q ua ci decision s)) \<in> known_statuses"
  using pin.refusal_status [of ops "web_pin s" "web_pin_attempts s" q "p_ip (rc_ip ci)"]
  by (auto simp: prepare_download_def pd_check_pin_def file_list_response_def known_statuses_def Let_def
      split: option.splits prod.splits sum.splits)

lemma download_status: "answer_status (fst (download he receiver q ci content s)) \<in> known_statuses"
  by (auto simp: download_def known_statuses_def web_emit_def Let_def split: option.splits)

lemma register_status: "answer_status (fst (register lib info d body ci v2)) \<in> known_statuses"
  using collect_to_json_error [of body]
  by (auto simp: register_def known_statuses_def split: sum.splits)

lemma on_web_status:
  "(\<And>w. answer_status (fst (handler w)) \<in> known_statuses) \<Longrightarrow>
     answer_status (fst (on_web handler state)) \<in> known_statuses"
  by (auto simp: on_web_def require_web_def known_statuses_def split: option.splits prod.splits)
    (metis fst_conv)+

lemma on_v2_status:
  "(\<And>v. answer_status (fst (handler v)) \<in> known_statuses) \<Longrightarrow>
     answer_status (fst (on_v2 handler state)) \<in> known_statuses"
  by (auto simp: on_v2_def known_statuses_def split: option.splits prod.splits) (metis fst_conv)+

lemma show_handler_status: "answer_status (fst (show_handler parse q frames i)) \<in> known_statuses"
  by (simp add: show_handler_def known_statuses_def split: option.split)

lemma on_internal_status:
  "(\<And>i. answer_status (fst (handler i)) \<in> known_statuses) \<Longrightarrow>
     answer_status (fst (on_internal handler state)) \<in> known_statuses"
  by (auto simp: on_internal_def split: prod.splits) (metis fst_conv)

lemma nonce_exchange_status:
  "answer_status (fst (nonce_exchange lib nops ck rnd body ci state)) \<in> known_statuses"
  using collect_to_json_error [of body]
  by (auto simp: nonce_exchange_def known_statuses_def Let_def split: sum.splits option.splits)

lemma register_v3_status: "answer_status (fst (register_v3 body state)) \<in> known_statuses"
  using collect_to_json_error [of body]
  by (auto simp: register_v3_def known_statuses_def Let_def split: sum.splits)

lemma register_v2_status: "answer_status (fst (register_v2 lib body ci state)) \<in> known_statuses"
  using register_status [of lib "app_info state" "app_web state \<noteq> None" body ci "app_v2 state"]
  by (auto simp: register_v2_def known_statuses_def split: prod.splits)

lemma static_status:
  "rs_status (web_index w) \<in> known_statuses" "rs_status (web_main_js w) \<in> known_statuses"
  "answer_status (web_i18n_response w') \<in> known_statuses"
  by (simp_all add: web_index_def web_main_js_def error_403_page_def web_i18n_response_def
      require_web_def known_statuses_def split: option.split)

lemma info_handler_status [simp]:
  "rs_status (info_handler info d) \<in> known_statuses" "404 \<in> known_statuses"
  by (simp_all add: info_handler_def known_statuses_def)

lemmas handler_statuses = on_internal_status on_web_status on_v2_status prepare_download_status download_status
  register_v2_status prepare_upload_status upload_status show_handler_status
  nonce_exchange_status register_v3_status

section \<open>Concrete server\<close>

definition sample_parsers :: parsers where
  "sample_parsers = \<lparr>ps_form = (\<lambda>q. [(''token'', q)]), ps_register = (\<lambda>_. Some sample_register),
     ps_prepare_upload = (\<lambda>_. Some sample_payload), ps_nonce = (\<lambda>_. Some (to_hex (replicate 16 7))),
     ps_register_v3 = (\<lambda>_. Some ()), ps_show = (\<lambda>_. Some [''--hidden''])\<rparr>"

definition sample_deps :: "(unit, unit, unit, (ip_addr, u32) hmap, (string, bytes) hmap) deps" where
  "sample_deps = \<lparr>dp_lib = sample_lib, dp_pins = list_lru, dp_nonces = list_lru,
     dp_headers = sample_header_lib, dp_cert_key = (\<lambda>cert. Inr (to_hex cert)),
     dp_parsers = sample_parsers\<rparr>"

definition sample_server :: "((ip_addr, u32) hmap, (string, bytes) hmap) app_state" where
  "sample_server = app_state_new [] [] sample_info (Some \<lparr>icfg_show_token = ''t''\<rparr>) None None"

section \<open>Properties\<close>

text \<open>
  Every request is answered, and with one of ten statuses, whatever the method, path,
  query and body and whatever the application does.
\<close>

theorem response_status_known:
  "rs_status (fst (handle_request dp an req ci state)) \<in>
     {200, 204, 400, 401, 403, 404, 409, 422, 429, 500}"
proof -
  have "answer_status (fst (handle_request_inner dp an req ci state)) \<in> known_statuses"
    unfolding handle_request_inner_def Let_def
    by (simp add: handler_statuses static_status cancel_status info_handler_status)
  then show ?thesis by (simp add: handle_request_status_inner known_statuses_def)
qed

text \<open>
  Without a configuration for the v2 protocol none of its endpoints exists: they are
  answered 404, whatever the request, and nothing changes.
\<close>

theorem v2_disabled:
  assumes "app_v2 state = None"
    and "rq_path req \<in> (\<lambda>name. ''/api/localsend/v2/'' @ name) `
      {''register'', ''info'', ''prepare-upload'', ''upload'', ''cancel''}"
  shows "rs_status (fst (handle_request dp an req ci state)) = 404 \<and>
    snd (handle_request dp an req ci state) = state"
  using assms(2)
  by (elim imageE)
    (auto simp: handle_request_status_inner handle_request_inner_def Let_def on_v2_def register_v2_def assms(1))

theorem v2_disabled_witness:
  "\<forall>an. rs_status (fst (handle_request sample_deps an
      \<lparr>rq_method = POST, rq_path = ''/api/localsend/v2/upload'', rq_query = None,
       rq_user_agent = None, rq_frames = []\<rparr> sample_client sample_server)) = 404"
proof (rule allI)
  fix an
  have none: "app_v2 sample_server = None" by (simp add: sample_server_def app_state_new_def)
  show "rs_status (fst (handle_request sample_deps an
      \<lparr>rq_method = POST, rq_path = ''/api/localsend/v2/upload'', rq_query = None,
       rq_user_agent = None, rq_frames = []\<rparr> sample_client sample_server)) = 404"
    by (rule v2_disabled [OF none, THEN conjunct1]) simp
qed

text \<open>
  A request touches only the component it is addressed to: the upload state changes only
  under the four v2 paths that may change it, the download sessions only under prepare-download
  and download, the nonces only under the nonce exchange, the internal state only under the
  internal endpoint, and the device's own information never.
\<close>

theorem request_touches_one_component:
  "app_info (snd (handle_request dp an req ci state)) = app_info state \<and>
   (app_v2 (snd (handle_request dp an req ci state)) = app_v2 state \<or>
    rq_method req = POST \<and> rq_path req \<in> (\<lambda>name. ''/api/localsend/v2/'' @ name) `
      {''register'', ''prepare-upload'', ''upload'', ''cancel''}) \<and>
   (app_web (snd (handle_request dp an req ci state)) = app_web state \<or>
    rq_path req \<in> (\<lambda>name. ''/api/localsend/v2/'' @ name) ` {''prepare-download'', ''download''}) \<and>
   (app_internal (snd (handle_request dp an req ci state)) = app_internal state \<or>
    rq_path req = ''/api/localsend/v2/show'') \<and>
   (app_generated_nonces (snd (handle_request dp an req ci state)) = app_generated_nonces state \<or>
    rq_path req = ''/api/localsend/v3/nonce'')"
proof -
  have web: "app_v2 (snd (on_web h state)) = app_v2 state" "app_info (snd (on_web h state)) = app_info state"
    "app_internal (snd (on_web h state)) = app_internal state"
    "app_generated_nonces (snd (on_web h state)) = app_generated_nonces state" for h
    by (simp_all add: on_web_def split: sum.split prod.split)
  have v2: "app_web (snd (on_v2 h state)) = app_web state" "app_info (snd (on_v2 h state)) = app_info state"
    "app_internal (snd (on_v2 h state)) = app_internal state"
    "app_generated_nonces (snd (on_v2 h state)) = app_generated_nonces state" for h
    by (simp_all add: on_v2_def split: option.split prod.split)
  have info: "snd (on_v2 (\<lambda>v2. (r, v2)) state) = state" for r
    by (cases "app_v2 state") (simp_all add: on_v2_def)
  have int: "app_web (snd (on_internal h state)) = app_web state" "app_info (snd (on_internal h state)) = app_info state"
    "app_v2 (snd (on_internal h state)) = app_v2 state"
    "app_generated_nonces (snd (on_internal h state)) = app_generated_nonces state" for h
    by (simp_all add: on_internal_def split: prod.split)
  have reg: "app_web (snd (register_v2 l b ci state)) = app_web state"
    "app_info (snd (register_v2 l b ci state)) = app_info state"
    "app_internal (snd (register_v2 l b ci state)) = app_internal state"
    "app_generated_nonces (snd (register_v2 l b ci state)) = app_generated_nonces state" for l b
    by (simp_all add: register_v2_def split: prod.split)
  have nonce: "app_web (snd (nonce_exchange l n ck rnd b ci state)) = app_web state"
    "app_info (snd (nonce_exchange l n ck rnd b ci state)) = app_info state"
    "app_internal (snd (nonce_exchange l n ck rnd b ci state)) = app_internal state"
    "app_v2 (snd (nonce_exchange l n ck rnd b ci state)) = app_v2 state" for l n ck rnd b
    by (simp_all add: nonce_exchange_def Let_def split: sum.split option.split)
  have v3: "snd (register_v3 b state) = state" for b
    by (simp add: register_v3_def Let_def split: sum.split)
  show ?thesis
    by (simp add: handle_request_inner_def Let_def web v2 info int reg nonce v3)
qed

text \<open>
  The nonce exchange succeeds exactly for a nonce that decodes to 16 to 128 bytes. Both
  nonces are then on record under the client's identifier, and the answer decodes to the one
  generated for it, 32 bytes long; a refusal changes nothing.
\<close>

theorem nonce_exchange_contract:
  assumes "crypto_laws lib" and "lru_laws nops"
    and run: "nonce_exchange lib nops cert_key random body ci state = (r, state')"
  shows "case r of
      Inl e \<Rightarrow> state' = state \<and> error_status e \<in> {400, 500} \<and>
        (\<nexists>text nonce. body = Body_Json text \<and> cl_b64_decode lib text = Some nonce \<and>
          length nonce \<in> {16..128})
    | Inr resp \<Rightarrow> (\<exists>text nonce answer.
        body = Body_Json text \<and> cl_b64_decode lib text = Some nonce \<and> length nonce \<in> {16..128} \<and>
        resp = json_response 200 (Nonce_Body answer) \<and>
        lru_peek nops (app_received_nonces state') (client_identifier cert_key ci) = Some nonce \<and>
        lru_peek nops (app_generated_nonces state') (client_identifier cert_key ci) =
          cl_b64_decode lib answer \<and>
        map_option length (cl_b64_decode lib answer) = Some 32)"
proof -
  have roundtrip: "cl_b64_decode lib (cl_b64_encode lib b) = Some b" for b
    using assms(1) by (simp add: crypto_laws_def)
  show ?thesis
    using run by (cases body)
      (auto simp: nonce_exchange_def Let_def validate_nonce_def generate_nonce_def roundtrip
        lru_put_same [OF assms(2)] split: option.splits if_splits
        intro!: exI [of _ "cl_b64_encode lib (map random [0..<32])"])
qed

theorem nonce_exchange_contract_witness:
  "\<exists>resp state'. nonce_exchange sample_lib list_lru (\<lambda>cert. Inr (to_hex cert)) (\<lambda>i. of_nat i)
      (Body_Json (to_hex (replicate 16 7))) sample_client sample_server = (Inr resp, state') \<and>
    lru_peek list_lru (app_received_nonces state') (to_hex [1, 171]) = Some (replicate 16 7)"
proof -
  let ?run = "nonce_exchange sample_lib list_lru (\<lambda>cert. Inr (to_hex cert)) (\<lambda>i. of_nat i)
      (Body_Json (to_hex (replicate 16 7))) sample_client sample_server"
  have decode: "cl_b64_decode sample_lib (to_hex b) = Some b" for b
    by (simp add: sample_lib_def from_hex_to_hex)
  obtain r state' where run: "?run = (r, state')" by fastforce
  have "client_identifier (\<lambda>cert. Inr (to_hex cert)) sample_client = to_hex [1, 171]"
    by (simp add: client_identifier_def extract_public_key_def sample_client_def)
  with nonce_exchange_contract [OF sample_lib_laws list_lru_laws run] run show ?thesis
    by (cases r) (auto simp: decode)
qed

text \<open>
  The application is asked to show itself only by a request that carries the token it
  configured, and it gets the arguments of that request once.
\<close>

theorem show_needs_token:
  "case show_handler parse q frames internal of (r, internal') \<Rightarrow>
     internal' = internal \<or>
     (\<exists>s args. internal = Some s \<and> hm_get q ''token'' = Some (int_show_token s) \<and>
       \<not> body_broken frames \<and> r = Inr (empty_response 200) \<and>
       (if body_data frames = [] then args = [] else parse (body_data frames) = Some args) \<and>
       internal' = Some (s\<lparr>int_events := int_events s @ [args]\<rparr>))"
  by (auto simp: show_handler_def split: option.splits if_splits)

end
