(* ===== verification/Token.thy ===== *)
theory Token
  imports Crypto
begin

text \<open>
  Signed device tokens (\<open>crypto/token.rs\<close>): key handling, generation of a token over a salt
  (a nonce or a timestamp) and its verification.

  A token is \<open>HASH_METHOD.HASH.SALT.SIGN_METHOD.SIGNATURE\<close>. Verification splits it at the
  full stops and takes the slice \<open>parts[0..5]\<close>, which panics when there are fewer pieces;
  the panic is the value \<open>Panicked\<close>.
\<close>

section \<open>Keys\<close>

datatype 'sk signing_key = Signing_Key (inner_key: 'sk)

text \<open>The two implementations of the trait \<open>VerifyingTokenKey\<close>.\<close>

datatype ('ek, 'rk) verifying_key = Ed25519_Key 'ek | Rsa_Pss_Key 'rk

definition to_verifying_key ::
  "('sk, 'ek, 'rk, 'z) crypto_lib_scheme \<Rightarrow> 'sk signing_key \<Rightarrow> ('ek, 'rk) verifying_key" where
  "to_verifying_key lib key = Ed25519_Key (cl_ed_key lib (inner_key key))"

fun verify_sig ::
  "('sk, 'ek, 'rk, 'z) crypto_lib_scheme \<Rightarrow> ('ek, 'rk) verifying_key \<Rightarrow> bytes \<Rightarrow> bytes \<Rightarrow> bool" where
  "verify_sig lib (Ed25519_Key k) msg sig = cl_ed_verify lib k msg sig"
| "verify_sig lib (Rsa_Pss_Key k) msg sig = cl_rsa_verify lib k msg sig"

fun to_der ::
  "('sk, 'ek, 'rk, 'z) crypto_lib_scheme \<Rightarrow> ('ek, 'rk) verifying_key \<Rightarrow> bytes option" where
  "to_der lib (Ed25519_Key k) = cl_ed_der lib k"
| "to_der lib (Rsa_Pss_Key k) = cl_rsa_der lib k"

fun signature_method :: "('ek, 'rk) verifying_key \<Rightarrow> string" where
  "signature_method (Ed25519_Key k) = ''ed25519''"
| "signature_method (Rsa_Pss_Key k) = ''rsa-pss''"

text \<open>An unknown identifier and a PEM that does not parse are both errors.\<close>

definition parse_public_key ::
  "('sk, 'ek, 'rk, 'z) crypto_lib_scheme \<Rightarrow> string \<Rightarrow> string \<Rightarrow> ('ek, 'rk) verifying_key option" where
  "parse_public_key lib public_key identifier =
     (if identifier = ''ed25519'' then map_option Ed25519_Key (cl_ed_from_pem lib public_key)
      else if identifier = ''rsa-pss'' then map_option Rsa_Pss_Key (cl_rsa_from_pem lib public_key)
      else None)"

section \<open>Generating a token\<close>

definition generate_token_nonce ::
  "('sk, 'ek, 'rk, 'z) crypto_lib_scheme \<Rightarrow> 'sk signing_key \<Rightarrow> bytes \<Rightarrow> string option" where
  "generate_token_nonce lib key salt =
     (case cl_ed_der lib (cl_ed_key lib (inner_key key)) of
        None \<Rightarrow> None
      | Some public_key \<Rightarrow>
          (let digest = cl_sha256 lib (public_key @ salt);
               signature = cl_ed_sign lib (inner_key key) digest
           in Some (''sha256'' @ ''.'' @ cl_b64_encode lib digest @ ''.'' @
                    cl_b64_encode lib salt @ ''.'' @ ''ed25519'' @ ''.'' @
                    cl_b64_encode lib signature)))"

text \<open>\<open>now\<close> is the Unix time in seconds, an error before the epoch.\<close>

definition generate_token_timestamp ::
  "('sk, 'ek, 'rk, 'z) crypto_lib_scheme \<Rightarrow> u64 option \<Rightarrow> 'sk signing_key \<Rightarrow> string option" where
  "generate_token_timestamp lib now key =
     (case now of None \<Rightarrow> None
      | Some seconds \<Rightarrow> generate_token_nonce lib key (u64_to_le_bytes seconds))"

definition extract_signature_identifier :: "string \<Rightarrow> string option" where
  "extract_signature_identifier token =
     (let parts = split_on CHR ''.'' token
      in if 3 < length parts then Some (parts ! 3) else None)"

section \<open>Verifying a token\<close>

datatype salt_error = Salt_Length | Clock_Error | Salt_Expired | Salt_Nonce

datatype token_error =
  Invalid_Structure | Invalid_Hash_Method | Invalid_Sign_Method | Salt_Base64
  | Salt_Refused salt_error | Key_Der | Hash_Mismatch | Signature_Base64 | Invalid_Signature

text \<open>
  \<open>verify_salt\<close> is the closure of the caller; it may itself panic. The steps are those of
  the source, in its order. \<open>Invalid_Structure\<close> is the \<open>else\<close> of the slice pattern: the
  slice has exactly five elements whenever it exists, so no value reaches it.
\<close>

definition verify_token_with_result ::
  "('sk, 'ek, 'rk, 'z) crypto_lib_scheme \<Rightarrow> ('ek, 'rk) verifying_key \<Rightarrow> string
     \<Rightarrow> (bytes \<Rightarrow> (salt_error + unit) run) \<Rightarrow> (token_error + unit) run" where
  "verify_token_with_result lib public_key token verify_salt =
     (let parts = split_on CHR ''.'' token in
      if length parts < 5 then Panicked
      else
        (case take 5 parts of
           [hash_method, hash_base64, salt_base64, sign_method, signature_base64] \<Rightarrow>
             if hash_method \<noteq> ''sha256'' then Done (Inl Invalid_Hash_Method)
             else if sign_method \<noteq> signature_method public_key then Done (Inl Invalid_Sign_Method)
             else
               (case cl_b64_decode lib salt_base64 of
                  None \<Rightarrow> Done (Inl Salt_Base64)
                | Some salt \<Rightarrow>
                    run_bind (verify_salt salt) (\<lambda>checked.
                      (case checked of
                         Inl e \<Rightarrow> Done (Inl (Salt_Refused e))
                       | Inr _ \<Rightarrow>
                           (case to_der lib public_key of
                              None \<Rightarrow> Done (Inl Key_Der)
                            | Some der \<Rightarrow>
                                (let digest = cl_sha256 lib (der @ salt) in
                                 if cl_b64_encode lib digest \<noteq> hash_base64
                                 then Done (Inl Hash_Mismatch)
                                 else
                                   (case cl_b64_decode lib signature_base64 of
                                      None \<Rightarrow> Done (Inl Signature_Base64)
                                    | Some signature \<Rightarrow>
                                        if verify_sig lib public_key digest signature
                                        then Done (Inr ())
                                        else Done (Inl Invalid_Signature)))))))
         | _ \<Rightarrow> Done (Inl Invalid_Structure)))"

definition run_is_ok :: "('e + 'a) run \<Rightarrow> bool run" where
  "run_is_ok r = run_bind r (\<lambda>x. Done (case x of Inl _ \<Rightarrow> False | Inr _ \<Rightarrow> True))"

definition nonce_salt_check :: "bytes \<Rightarrow> bytes \<Rightarrow> (salt_error + unit) run" where
  "nonce_salt_check nonce salt = Done (if salt \<noteq> nonce then Inl Salt_Nonce else Inr ())"

definition verify_token_nonce ::
  "('sk, 'ek, 'rk, 'z) crypto_lib_scheme \<Rightarrow> ('ek, 'rk) verifying_key \<Rightarrow> string \<Rightarrow> bytes
     \<Rightarrow> bool run" where
  "verify_token_nonce lib public_key token nonce =
     run_is_ok (verify_token_with_result lib public_key token (nonce_salt_check nonce))"

text \<open>
  \<open>overflow_checks\<close> is the build's setting: with it (the \<open>dev\<close> profile) the subtraction
  \<open>now_seconds - salt\<close> panics when the salt lies in the future, without it (the \<open>release\<close>
  profile) it wraps.
\<close>

definition timestamp_salt_check ::
  "bool \<Rightarrow> u64 option \<Rightarrow> bytes \<Rightarrow> (salt_error + unit) run" where
  "timestamp_salt_check overflow_checks now salt_bytes =
     (if length salt_bytes \<noteq> 8 then Done (Inl Salt_Length)
      else
        (let salt = u64_from_le_bytes salt_bytes in
         case now of
           None \<Rightarrow> Done (Inl Clock_Error)
         | Some now_seconds \<Rightarrow>
             if overflow_checks \<and> now_seconds < salt then Panicked
             else if now_seconds - salt > 60 * 60 then Done (Inl Salt_Expired)
             else Done (Inr ())))"

definition verify_token_timestamp ::
  "('sk, 'ek, 'rk, 'z) crypto_lib_scheme \<Rightarrow> bool \<Rightarrow> u64 option \<Rightarrow> ('ek, 'rk) verifying_key
     \<Rightarrow> string \<Rightarrow> bool run" where
  "verify_token_timestamp lib overflow_checks now public_key token =
     run_is_ok (verify_token_with_result lib public_key token
                  (timestamp_salt_check overflow_checks now))"

section \<open>Lemmas\<close>

lemma run_is_ok_True [simp]: "run_is_ok r = Done True \<longleftrightarrow> (\<exists>x. r = Done (Inr x))"
proof (cases r)
  case (Done x)
  then show ?thesis by (cases x) (auto simp: run_is_ok_def)
qed (simp add: run_is_ok_def)

lemma run_is_ok_Done_Inl [simp]: "run_is_ok (Done (Inl e)) = Done False"
  by (simp add: run_is_ok_def)

lemma run_is_ok_Panicked [simp]: "run_is_ok r = Panicked \<longleftrightarrow> r = Panicked"
  by (cases r) (auto simp: run_is_ok_def)

lemma take_5_exists:
  "5 \<le> length parts \<Longrightarrow> \<exists>a b c d e rest. parts = [a, b, c, d, e] @ rest"
  by (auto simp: numeral_eq_Suc Suc_le_length_iff)

lemma verify_token_short: 
  "length (split_on CHR ''.'' token) < 5 \<Longrightarrow>
     verify_token_with_result lib pk token verify_salt = Panicked"
  by (simp add: verify_token_with_result_def)

lemma run_bind_checked_iff:
  "run_bind r (\<lambda>checked. case checked of Inl e \<Rightarrow> Done (Inl (f e)) | Inr (_ :: unit) \<Rightarrow> k) =
     Done (Inr ()) \<longleftrightarrow> r = Done (Inr ()) \<and> k = Done (Inr ())"
proof (cases r)
  case (Done x)
  then show ?thesis by (cases x) auto
qed simp

text \<open>The characteristic equivalence of a successful verification.\<close>

lemma verify_token_ok_iff:
  "verify_token_with_result lib pk token verify_salt = Done (Inr ()) \<longleftrightarrow>
     (\<exists>salt_base64 signature_base64 salt der signature rest.
        split_on CHR ''.'' token =
          [''sha256'', cl_b64_encode lib (cl_sha256 lib (der @ salt)), salt_base64,
           signature_method pk, signature_base64] @ rest \<and>
        cl_b64_decode lib salt_base64 = Some salt \<and>
        verify_salt salt = Done (Inr ()) \<and>
        to_der lib pk = Some der \<and>
        cl_b64_decode lib signature_base64 = Some signature \<and>
        verify_sig lib pk (cl_sha256 lib (der @ salt)) signature)"
proof (cases "length (split_on CHR ''.'' token) < 5")
  case True
  then show ?thesis by (auto simp: verify_token_short)
next
  case False
  then obtain a b c d e rest where "split_on CHR ''.'' token = [a, b, c, d, e] @ rest"
    using take_5_exists by (metis not_less)
  then show ?thesis
    by (auto simp: verify_token_with_result_def Let_def run_bind_checked_iff
        split: option.splits if_splits)
qed

lemma generated_token_split:
  assumes "crypto_laws lib" and "generate_token_nonce lib key salt = Some token"
  shows "\<exists>der. cl_ed_der lib (cl_ed_key lib (inner_key key)) = Some der \<and>
    split_on CHR ''.'' token =
      [''sha256'', cl_b64_encode lib (cl_sha256 lib (der @ salt)), cl_b64_encode lib salt,
       ''ed25519'',
       cl_b64_encode lib (cl_ed_sign lib (inner_key key) (cl_sha256 lib (der @ salt)))]"
proof -
  have no_dot: "CHR ''.'' \<notin> set (cl_b64_encode lib b)" for b
    using assms(1) by (simp add: crypto_laws_def)
  have dot: "split_on CHR ''.'' (p @ ''.'' @ s) = p # split_on CHR ''.'' s"
    if "CHR ''.'' \<notin> set p" for p s
    using split_on_sep [OF that] by simp
  obtain der where der: "cl_ed_der lib (cl_ed_key lib (inner_key key)) = Some der"
    using assms(2) by (auto simp: generate_token_nonce_def split: option.splits)
  have lits: "CHR ''.'' \<notin> set ''sha256''" "CHR ''.'' \<notin> set ''ed25519''" by simp_all
  show ?thesis
    using assms(2) der
    by (auto simp only: generate_token_nonce_def option.case Let_def option.inject
        dot [OF lits(1)] dot [OF lits(2)] dot [OF no_dot] split_on_no_sep [OF no_dot])
qed

lemma generate_then_verify:
  assumes "crypto_laws lib" and "generate_token_nonce lib key salt = Some token"
    and "verify_salt salt = Done (Inr ())"
  shows "verify_token_with_result lib (to_verifying_key lib key) token verify_salt = Done (Inr ())"
proof -
  obtain der where der: "cl_ed_der lib (cl_ed_key lib (inner_key key)) = Some der"
    and parts: "split_on CHR ''.'' token =
      [''sha256'', cl_b64_encode lib (cl_sha256 lib (der @ salt)), cl_b64_encode lib salt,
       ''ed25519'',
       cl_b64_encode lib (cl_ed_sign lib (inner_key key) (cl_sha256 lib (der @ salt)))]"
    using generated_token_split [OF assms(1,2)] by blast
  have laws: "cl_b64_decode lib (cl_b64_encode lib b) = Some b"
    "cl_ed_verify lib (cl_ed_key lib sk) m (cl_ed_sign lib sk m)" for b sk m
    using assms(1) by (simp_all add: crypto_laws_def)
  show ?thesis
    unfolding verify_token_ok_iff parts
    using assms(3) der by (auto simp: laws to_verifying_key_def)
qed

lemma timestamp_salt_check_ok_iff:
  "timestamp_salt_check oc (Some now) (u64_to_le_bytes t) = Done (Inr ()) \<longleftrightarrow>
     \<not> (oc \<and> now < t) \<and> now - t \<le> 3600"
  by (auto simp: timestamp_salt_check_def Let_def u64_le_bytes_roundtrip not_less)

lemma unat_sub_window:
  fixes now t :: u64
  assumes "unat t < 2 ^ 63" "unat now < 2 ^ 63"
  shows "now - t \<le> 3600 \<longleftrightarrow> t \<le> now \<and> unat now - unat t \<le> 3600"
proof (cases "t \<le> now")
  case True
  then have "unat (now - t) = unat now - unat t" by (rule unat_sub)
  with True show ?thesis by (simp add: word_le_nat_alt)
next
  case False
  then have "unat (now - t) = unat now + 2 ^ 64 - unat t"
    by (simp add: unat_sub_if_size word_size word_le_nat_alt)
  then show ?thesis using False assms by (simp add: word_le_nat_alt)
qed

lemma verify_generated_refused:
  assumes "crypto_laws lib" and "generate_token_nonce lib key salt = Some token"
    and "verify_salt salt = Done (Inl e)"
  shows "verify_token_with_result lib (to_verifying_key lib key) token verify_salt =
    Done (Inl (Salt_Refused e))"
proof -
  have "cl_b64_decode lib (cl_b64_encode lib b) = Some b" for b
    using assms(1) by (simp add: crypto_laws_def)
  with generated_token_split [OF assms(1,2)] assms(3) show ?thesis
    by (auto simp: verify_token_with_result_def Let_def to_verifying_key_def)
qed

lemma verify_generated_panics:
  assumes "crypto_laws lib" and "generate_token_nonce lib key salt = Some token"
    and "verify_salt salt = Panicked"
  shows "verify_token_with_result lib (to_verifying_key lib key) token verify_salt = Panicked"
proof -
  have "cl_b64_decode lib (cl_b64_encode lib b) = Some b" for b
    using assms(1) by (simp add: crypto_laws_def)
  with generated_token_split [OF assms(1,2)] assms(3) show ?thesis
    by (auto simp: verify_token_with_result_def Let_def to_verifying_key_def)
qed

lemma verify_token_panics_only_short:
  assumes "\<And>salt. verify_salt salt \<noteq> Panicked"
  shows "verify_token_with_result lib pk token verify_salt = Panicked \<longleftrightarrow>
    length (split_on CHR ''.'' token) < 5"
proof (cases "length (split_on CHR ''.'' token) < 5")
  case True
  then show ?thesis by (simp add: verify_token_short)
next
  case False
  then obtain a b c d e rest where "split_on CHR ''.'' token = [a, b, c, d, e] @ rest"
    using take_5_exists by (metis not_less)
  then show ?thesis
    using assms by (auto simp: verify_token_with_result_def Let_def run_bind_Panicked_iff
        split: option.splits if_splits sum.splits)
qed

section \<open>Properties\<close>

text \<open>
  A token generated for a nonce verifies under the public half of the signing key for
  exactly that nonce: every other nonce is refused, and nothing panics.
\<close>

theorem token_nonce_roundtrip:
  assumes "crypto_laws lib"
    and "generate_token_nonce lib key nonce = Some token"
  shows "verify_token_nonce lib (to_verifying_key lib key) token other = Done (other = nonce)"
proof (cases "other = nonce")
  case True
  then have "nonce_salt_check other nonce = Done (Inr ())" by (simp add: nonce_salt_check_def)
  with True show ?thesis
    by (simp add: verify_token_nonce_def generate_then_verify [OF assms])
next
  case False
  then have "nonce_salt_check other nonce = Done (Inl Salt_Nonce)" by (simp add: nonce_salt_check_def)
  with False show ?thesis
    by (simp add: verify_token_nonce_def verify_generated_refused [OF assms])
qed

theorem token_nonce_roundtrip_witness:
  "\<exists>token. generate_token_nonce sample_lib (Signing_Key ()) [1, 2] = Some token \<and>
     verify_token_nonce sample_lib (to_verifying_key sample_lib (Signing_Key ())) token [1, 3] =
       Done False"
proof -
  obtain token where "generate_token_nonce sample_lib (Signing_Key ()) [1, 2] = Some token"
    by (simp add: generate_token_nonce_def sample_lib_def Let_def)
  with token_nonce_roundtrip [OF sample_lib_laws this, of "[1, 3]"] show ?thesis by auto
qed

text \<open>
  A token accepted for a nonce carries a valid signature of the key over the digest of the
  key's DER form followed by that nonce, under the key's own signature method; the digest in
  the token is that digest.
\<close>

theorem token_verify_sound:
  assumes "verify_token_nonce lib pk token nonce = Done True"
  shows "\<exists>der salt_base64 signature_base64 signature rest.
    split_on CHR ''.'' token =
      [''sha256'', cl_b64_encode lib (cl_sha256 lib (der @ nonce)), salt_base64,
       signature_method pk, signature_base64] @ rest \<and>
    cl_b64_decode lib salt_base64 = Some nonce \<and>
    to_der lib pk = Some der \<and>
    cl_b64_decode lib signature_base64 = Some signature \<and>
    verify_sig lib pk (cl_sha256 lib (der @ nonce)) signature"
proof -
  have "verify_token_with_result lib pk token (nonce_salt_check nonce) = Done (Inr ())"
    using assms by (simp add: verify_token_nonce_def)
  moreover have "salt = nonce" if "nonce_salt_check nonce salt = Done (Inr ())" for salt
    using that by (simp add: nonce_salt_check_def split: if_splits)
  ultimately show ?thesis unfolding verify_token_ok_iff by blast
qed

theorem token_verify_sound_witness:
  "\<exists>token. verify_token_nonce sample_lib (Ed25519_Key ()) token [7] = Done True \<and>
     (\<exists>der. to_der sample_lib (Ed25519_Key ()) = Some der)"
proof -
  let ?t = "''sha256.0107.07.ed25519.0107''"
  have ok: "verify_token_nonce sample_lib (Ed25519_Key ()) ?t [7] = Done True"
    by code_simp
  from token_verify_sound [OF ok] ok show ?thesis by blast
qed

text \<open>
  Verification of a token against a nonce panics exactly when the token has fewer than five
  pieces; the branch that was written to report an invalid structure is never taken.
\<close>

theorem verify_token_nonce_panics_iff:
  "(verify_token_nonce lib pk token nonce = Panicked \<longleftrightarrow>
      length (split_on CHR ''.'' token) < 5) \<and>
   verify_token_with_result lib pk token (nonce_salt_check nonce) \<noteq> Done (Inl Invalid_Structure)"
proof
  have no_panic: "\<And>salt. nonce_salt_check nonce salt \<noteq> Panicked"
    by (simp add: nonce_salt_check_def)
  show "verify_token_nonce lib pk token nonce = Panicked \<longleftrightarrow>
      length (split_on CHR ''.'' token) < 5"
    by (simp add: verify_token_nonce_def verify_token_panics_only_short [OF no_panic])
  show "verify_token_with_result lib pk token (nonce_salt_check nonce) \<noteq> Done (Inl Invalid_Structure)"
  proof (cases "length (split_on CHR ''.'' token) < 5")
    case True
    then show ?thesis by (simp add: verify_token_short)
  next
    case False
    then obtain a b c d e rest where "split_on CHR ''.'' token = [a, b, c, d, e] @ rest"
      using take_5_exists by (metis not_less)
    then show ?thesis
      by (auto simp: verify_token_with_result_def Let_def nonce_salt_check_def
          split: option.splits if_splits)
  qed
qed

text \<open>
  C30: A timestamp token is accepted from the second it was made until one hour later. A clock
  that is behind the token's time makes verification panic in a build with overflow checks
  and refuse the token in a release build.
\<close>

theorem token_timestamp_window:
  assumes laws: "crypto_laws lib"
    and gen: "generate_token_timestamp lib (Some t) key = Some token"
    and small: "unat t < 2 ^ 63" "unat now < 2 ^ 63"
  shows "verify_token_timestamp lib overflow_checks (Some now) (to_verifying_key lib key) token =
    (if overflow_checks \<and> now < t then Panicked
     else Done (t \<le> now \<and> unat now - unat t \<le> 3600))"
proof -
  have gen': "generate_token_nonce lib key (u64_to_le_bytes t) = Some token"
    using gen by (simp add: generate_token_timestamp_def)
  let ?check = "timestamp_salt_check overflow_checks (Some now)"
  have check: "?check (u64_to_le_bytes t) =
      (if overflow_checks \<and> now < t then Panicked
       else if now - t \<le> 3600 then Done (Inr ()) else Done (Inl Salt_Expired))"
    by (auto simp: timestamp_salt_check_def Let_def u64_le_bytes_roundtrip not_less)
  consider (panic) "?check (u64_to_le_bytes t) = Panicked"
    | (ok) "?check (u64_to_le_bytes t) = Done (Inr ())"
    | (old) "?check (u64_to_le_bytes t) = Done (Inl Salt_Expired)"
    unfolding check
    by (cases "overflow_checks \<and> now < t"; cases "now - t \<le> 3600") simp_all
  then show ?thesis
  proof cases
    case panic
    then show ?thesis
      using verify_generated_panics [where verify_salt = "?check", OF laws gen' panic] check
      by (auto simp: verify_token_timestamp_def split: if_splits)
  next
    case ok
    then show ?thesis
      using generate_then_verify [where verify_salt = "?check", OF laws gen' ok] check unat_sub_window [OF small]
      by (auto simp: verify_token_timestamp_def split: if_splits)
  next
    case old
    then show ?thesis
      using verify_generated_refused [where verify_salt = "?check", OF laws gen' old] check unat_sub_window [OF small]
      by (auto simp: verify_token_timestamp_def split: if_splits)
  qed
qed

theorem token_timestamp_window_witness:
  "\<exists>token. generate_token_timestamp sample_lib (Some 1000) (Signing_Key ()) = Some token \<and>
     verify_token_timestamp sample_lib False (Some 4600)
       (to_verifying_key sample_lib (Signing_Key ())) token = Done True \<and>
     verify_token_timestamp sample_lib True (Some 999)
       (to_verifying_key sample_lib (Signing_Key ())) token = Panicked"
proof -
  obtain token where gen: "generate_token_timestamp sample_lib (Some 1000) (Signing_Key ()) = Some token"
    by (simp add: generate_token_timestamp_def generate_token_nonce_def sample_lib_def Let_def)
  from token_timestamp_window [OF sample_lib_laws gen, of 4600 False]
    token_timestamp_window [OF sample_lib_laws gen, of 999 True] gen
  show ?thesis by auto
qed

end
