(* ===== verification/Token_Keys.thy ===== *)
theory Token_Keys
  imports Token
begin

text \<open>
  Making keys and handing them out as texts (\<open>crypto/token.rs\<close> and \<open>api/crypto.rs\<close> of the Flutter bindings). The PEM
  forms are those of the crate \<open>ed25519-dalek\<close>; the bytes of the random number generator are an argument.
\<close>

section \<open>Keys\<close>

record ('sk, 'ek, 'rk) key_lib = "('sk, 'ek, 'rk) crypto_lib" +
  kl_generate :: "bytes \<Rightarrow> 'sk"
  kl_to_pkcs8_pem :: "'sk \<Rightarrow> string option"
  kl_from_pkcs8_pem :: "string \<Rightarrow> 'sk option"
  kl_to_public_pem :: "'ek \<Rightarrow> string option"

text \<open>Reading the text of a key gives the key.\<close>

definition key_laws :: "('sk, 'ek, 'rk, 'z) key_lib_scheme \<Rightarrow> bool" where
  "key_laws lib \<longleftrightarrow>
     (\<forall>sk pem. kl_to_pkcs8_pem lib sk = Some pem \<longrightarrow> kl_from_pkcs8_pem lib pem = Some sk) \<and>
     (\<forall>ek pem. kl_to_public_pem lib ek = Some pem \<longrightarrow> cl_ed_from_pem lib pem = Some ek)"

definition generate_key :: "('sk, 'ek, 'rk, 'z) key_lib_scheme \<Rightarrow> bytes \<Rightarrow> 'sk signing_key" where
  "generate_key lib random = Signing_Key (kl_generate lib random)"

definition export_private_key :: "('sk, 'ek, 'rk, 'z) key_lib_scheme \<Rightarrow> 'sk signing_key \<Rightarrow> string option" where
  "export_private_key lib key = kl_to_pkcs8_pem lib (inner_key key)"

definition parse_private_key :: "('sk, 'ek, 'rk, 'z) key_lib_scheme \<Rightarrow> string \<Rightarrow> 'sk signing_key option" where
  "parse_private_key lib private_key = map_option Signing_Key (kl_from_pkcs8_pem lib private_key)"

definition export_public_key :: "('sk, 'ek, 'rk, 'z) key_lib_scheme \<Rightarrow> 'sk signing_key \<Rightarrow> string option" where
  "export_public_key lib key = kl_to_public_pem lib (cl_ed_key lib (inner_key key))"

record key_pair =
  kp_private_key :: string
  kp_public_key :: string

definition generate_key_pair :: "('sk, 'ek, 'rk, 'z) key_lib_scheme \<Rightarrow> bytes \<Rightarrow> key_pair option" where
  "generate_key_pair lib random =
     (let signing_key = generate_key lib random
      in case export_private_key lib signing_key of
           None \<Rightarrow> None
         | Some private_key \<Rightarrow>
             (case export_public_key lib signing_key of
                None \<Rightarrow> None
              | Some public_key \<Rightarrow> Some \<lparr>kp_private_key = private_key, kp_public_key = public_key\<rparr>))"

section \<open>Properties\<close>

text \<open>
  A key pair that is handed out as texts is a pair: the private text is read back, and the tokens made with it
  verify under the public text, for their own nonce only.
\<close>

theorem key_pair_works:
  assumes "crypto_laws lib" and "key_laws lib" and "generate_key_pair lib random = Some pair"
    and "parse_private_key lib (kp_private_key pair) = Some key" and "generate_token_nonce lib key nonce = Some token"
  shows "\<exists>public. parse_public_key lib (kp_public_key pair) ''ed25519'' = Some public \<and>
    verify_token_nonce lib public token other = Done (other = nonce)"
proof -
  have key: "key = generate_key lib random" and
      public: "parse_public_key lib (kp_public_key pair) ''ed25519'' = Some (to_verifying_key lib (generate_key lib random))"
    using assms(2-4)
    by (auto simp: generate_key_pair_def export_private_key_def export_public_key_def parse_private_key_def key_laws_def
        generate_key_def parse_public_key_def to_verifying_key_def Let_def split: option.splits)
  have "verify_token_nonce lib (to_verifying_key lib key) token other = Done (other = nonce)"
  proof (cases "other = nonce")
    case True
    then have "nonce_salt_check other nonce = Done (Inr ())" by (simp add: nonce_salt_check_def)
    with True show ?thesis by (simp add: verify_token_nonce_def generate_then_verify [OF assms(1,5)])
  next
    case False
    then have "nonce_salt_check other nonce = Done (Inl Salt_Nonce)" by (simp add: nonce_salt_check_def)
    with False show ?thesis by (simp add: verify_token_nonce_def verify_generated_refused [OF assms(1,5)])
  qed
  then show ?thesis using public key by blast
qed

text \<open>The library of the samples, with the empty text for its only key.\<close>

definition sample_key_lib :: "(unit, unit, unit) key_lib" where
  "sample_key_lib = \<lparr>cl_sha256 = cl_sha256 sample_lib, cl_b64_encode = cl_b64_encode sample_lib,
     cl_b64_decode = cl_b64_decode sample_lib, cl_ed_key = cl_ed_key sample_lib, cl_ed_sign = cl_ed_sign sample_lib,
     cl_ed_verify = cl_ed_verify sample_lib, cl_ed_der = cl_ed_der sample_lib, cl_ed_from_pem = (\<lambda>_. Some ()),
     cl_rsa_verify = cl_rsa_verify sample_lib, cl_rsa_der = cl_rsa_der sample_lib, cl_rsa_from_pem = (\<lambda>_. None),
     kl_generate = (\<lambda>_. ()), kl_to_pkcs8_pem = (\<lambda>_. Some ''''), kl_from_pkcs8_pem = (\<lambda>_. Some ()),
     kl_to_public_pem = (\<lambda>_. Some '''')\<rparr>"

theorem key_pair_works_witness:
  "\<exists>token public. verify_token_nonce sample_key_lib public token [1, 2] = Done True \<and>
     verify_token_nonce sample_key_lib public token [1, 3] = Done False"
proof -
  have laws: "crypto_laws sample_key_lib" "key_laws sample_key_lib"
    using sample_lib_laws by (simp_all add: crypto_laws_def key_laws_def sample_key_lib_def)
  have pair: "generate_key_pair sample_key_lib [] = Some \<lparr>kp_private_key = '''', kp_public_key = ''''\<rparr>"
    by (simp add: generate_key_pair_def export_private_key_def export_public_key_def sample_key_lib_def)
  have key: "parse_private_key sample_key_lib (kp_private_key \<lparr>kp_private_key = '''', kp_public_key = ''''\<rparr>) = Some (Signing_Key ())"
    by (simp add: parse_private_key_def sample_key_lib_def)
  obtain token where token: "generate_token_nonce sample_key_lib (Signing_Key ()) [1, 2] = Some token"
    by (simp add: generate_token_nonce_def sample_key_lib_def sample_lib_def Let_def)
  show ?thesis
    using key_pair_works [OF laws pair key token, of "[1, 2]"] key_pair_works [OF laws pair key token, of "[1, 3]"]
    by (auto simp: intro!: exI [of _ token])
qed

end
