(* ===== verification/Upload_Machine.thy ===== *)
theory Upload_Machine
  imports Upload_Contract
begin

text \<open>
  The upload endpoints under concurrency. Any number of requests run at the same time; each is a
  task that stands at one of the points where its handler awaits something, and a step runs
  one atomic section of \<open>Upload_Server\<close>. A connection may be dropped at any such point:
  the handler's future is dropped and the destructor of an armed guard spawns a cleanup task.

  The relation \<open>mstep\<close> has one rule per transition. Its flag is set on the steps that drop a
  handler which has already disarmed its guard but not yet taken the session lock to clean
  up (inside \<open>PendingSessionGuard::clear\<close> and \<open>UploadGuard::finish\<close>).
\<close>

section \<open>Tasks\<close>

text \<open>
  Where a handler or a spawned cleanup stands: before a prepare-upload body is read, before its
  event, waiting for the decision, before clearing or activating the slot; before an upload's
  event, waiting for its target, saving, before finalising; before an event is sent.
  \<open>End_Event\<close> carries whether the task was spawned by a destructor.
\<close>

datatype task =
    Pu_Body request_client_info
  | Pu_Announce string request_client_info prepare_upload_request
  | Pu_Deciding string request_client_info prepare_upload_request
  | Pu_Clearing string
  | Pu_Activating string request_client_info "(string, session_file) hmap"
  | Pu_Cleanup string
  | Pu_Abort_Event string
  | Up_Announce string string file_dto
  | Up_Target string string file_dto
  | Up_Saving string string file_dto
  | Up_Finishing string string save_result
  | Up_Cleanup string string
  | End_Event bool string session_end_reason
  | Cn_Second peer_ip string
  | Cn_Event peer_ip string

record 'c machine =
  m_v2 :: "'c v2_state"
  m_tasks :: "(nat, task) hmap"
  m_used :: "string list"

abbreviation task_at :: "'c machine \<Rightarrow> nat \<Rightarrow> task option" where
  "task_at m t \<equiv> hm_get (m_tasks m) t"

abbreviation slot_of :: "'c machine \<Rightarrow> session_state option" where
  "slot_of m \<equiv> v2_session (m_v2 m)"

text \<open>A task moves on with a new state of the server, or ends with one.\<close>

abbreviation m_put :: "nat \<Rightarrow> task \<Rightarrow> 'c v2_state \<Rightarrow> 'c machine \<Rightarrow> 'c machine" where
  "m_put t k s m \<equiv> m\<lparr>m_v2 := s, m_tasks := hm_put t k (m_tasks m)\<rparr>"

abbreviation m_end :: "nat \<Rightarrow> 'c v2_state \<Rightarrow> 'c machine \<Rightarrow> 'c machine" where
  "m_end t s m \<equiv> m\<lparr>m_v2 := s, m_tasks := hm_del t (m_tasks m)\<rparr>"

text \<open>What is left of a handler when its future is dropped with the guard armed.\<close>

fun dropped_task :: "task \<Rightarrow> task option" where
  "dropped_task (Pu_Announce sid ci p) = Some (Pu_Cleanup sid)"
| "dropped_task (Pu_Deciding sid ci p) = Some (Pu_Cleanup sid)"
| "dropped_task (Pu_Activating sid ci files) = Some (Pu_Cleanup sid)"
| "dropped_task (Up_Announce sid fid dto) = Some (Up_Cleanup sid fid)"
| "dropped_task (Up_Target sid fid dto) = Some (Up_Cleanup sid fid)"
| "dropped_task (Up_Saving sid fid dto) = Some (Up_Cleanup sid fid)"
| "dropped_task _ = None"

text \<open>Handlers that hold nothing and may just vanish.\<close>

fun plain_task :: "task \<Rightarrow> bool" where
  "plain_task (Pu_Body ci) = True"
| "plain_task (Cn_Second ip sid) = True"
| "plain_task (Cn_Event ip sid) = True"
| "plain_task (End_Event spawned sid reason) = (\<not> spawned)"
| "plain_task _ = False"

fun disarmed_task :: "task \<Rightarrow> bool" where
  "disarmed_task (Pu_Clearing sid) = True"
| "disarmed_task (Up_Finishing sid fid r) = True"
| "disarmed_task _ = False"

section \<open>Steps\<close>

inductive mstep ::
  "('c, ip_addr, u32) lru_ops \<Rightarrow> ('sk, 'ek, 'rk) crypto_lib \<Rightarrow> bool
     \<Rightarrow> 'c machine \<Rightarrow> 'c machine \<Rightarrow> bool"
  for ops :: "('c, ip_addr, u32) lru_ops" and lib :: "('sk, 'ek, 'rk) crypto_lib" where
  prepare_pin_ok:
    "\<lbrakk>task_at m t = None; pu_check_pin ops q ci (m_v2 m) = (Inr (), s)\<rbrakk>
     \<Longrightarrow> mstep ops lib False m (m_put t (Pu_Body ci) s m)"
| prepare_pin_refused:
    "pu_check_pin ops q ci (m_v2 m) = (Inl e, s) \<Longrightarrow> mstep ops lib False m (m\<lparr>m_v2 := s\<rparr>)"
| prepare_body_refused:
    "\<lbrakk>task_at m t = Some (Pu_Body ci); pu_parse body = Inl e\<rbrakk>
     \<Longrightarrow> mstep ops lib False m (m_end t (m_v2 m) m)"
| prepare_busy:
    "\<lbrakk>task_at m t = Some (Pu_Body ci); pu_parse body = Inr payload;
      pu_claim sid ci (m_v2 m) = (Inl e, s)\<rbrakk>
     \<Longrightarrow> mstep ops lib False m (m_end t s m)"
| prepare_claim:
    "\<lbrakk>task_at m t = Some (Pu_Body ci); pu_parse body = Inr payload; hm_wf (pr_files payload);
      sid \<notin> set (m_used m); pu_claim sid ci (m_v2 m) = (Inr (), s)\<rbrakk>
     \<Longrightarrow> mstep ops lib False m
          (m_put t (Pu_Announce sid ci payload) s (m\<lparr>m_used := sid # m_used m\<rparr>))"
| prepare_announce:
    "\<lbrakk>task_at m t = Some (Pu_Announce sid ci payload);
      emit (pu_event lib sid ci payload) (m_v2 m) = (sent, s)\<rbrakk>
     \<Longrightarrow> mstep ops lib False m
          (m_put t (if sent then Pu_Deciding sid ci payload else Pu_Cleanup sid) s m)"
| decision_dropped:
    "task_at m t = Some (Pu_Deciding sid ci payload)
     \<Longrightarrow> mstep ops lib False m (m_put t (Pu_Cleanup sid) (m_v2 m) m)"
| decision_cancelled:
    "\<lbrakk>task_at m t = Some (Pu_Deciding sid ci payload); sid \<in> set (v2_cancelled (m_v2 m))\<rbrakk>
     \<Longrightarrow> mstep ops lib False m (m_put t (Pu_Cleanup sid) (m_v2 m) m)"
| decision_decline:
    "task_at m t = Some (Pu_Deciding sid ci payload)
     \<Longrightarrow> mstep ops lib False m (m_put t (Pu_Clearing sid) (m_v2 m) m)"
| decision_accept_none:
    "\<lbrakk>task_at m t = Some (Pu_Deciding sid ci payload); pu_files payload ids tok = []\<rbrakk>
     \<Longrightarrow> mstep ops lib False m (m_put t (Pu_Clearing sid) (m_v2 m) m)"
| decision_accept:
    "\<lbrakk>task_at m t = Some (Pu_Deciding sid ci payload); pu_files payload ids tok \<noteq> []\<rbrakk>
     \<Longrightarrow> mstep ops lib False m
          (m_put t (Pu_Activating sid ci (pu_files payload ids tok)) (m_v2 m) m)"
| prepare_clear:
    "task_at m t = Some (Pu_Clearing sid)
     \<Longrightarrow> mstep ops lib False m (m_end t (clear_pending_session (m_v2 m)) m)"
| prepare_activate:
    "task_at m t = Some (Pu_Activating sid ci files)
     \<Longrightarrow> mstep ops lib False m (m_end t (pu_activate sid ci files (m_v2 m)) m)"
| pending_cleanup:
    "task_at m t = Some (Pu_Cleanup sid)
     \<Longrightarrow> mstep ops lib False m (m_put t (Pu_Abort_Event sid) (clear_pending_session (m_v2 m)) m)"
| abort_event:
    "task_at m t = Some (Pu_Abort_Event sid)
     \<Longrightarrow> mstep ops lib False m (m_end t (snd (emit (Ev_Prepare_Upload_Aborted sid) (m_v2 m))) m)"
| upload_start:
    "\<lbrakk>task_at m t = None; upload_begin (slot_of m) ip sid fid token = (Inr dto, slot)\<rbrakk>
     \<Longrightarrow> mstep ops lib False m
          (m_put t (Up_Announce sid fid dto) ((m_v2 m)\<lparr>v2_session := slot\<rparr>) m)"
| upload_announce:
    "\<lbrakk>task_at m t = Some (Up_Announce sid fid dto);
      emit (Ev_File_Upload sid fid dto) (m_v2 m) = (sent, s)\<rbrakk>
     \<Longrightarrow> mstep ops lib False m
          (m_put t (if sent then Up_Target sid fid dto else Up_Finishing sid fid Save_Failed) s m)"
| upload_target:
    "task_at m t = Some (Up_Target sid fid dto)
     \<Longrightarrow> mstep ops lib False m (m_put t (Up_Saving sid fid dto) (m_v2 m) m)"
| upload_target_dropped:
    "task_at m t = Some (Up_Target sid fid dto)
     \<Longrightarrow> mstep ops lib False m (m_put t (Up_Finishing sid fid Save_Failed) (m_v2 m) m)"
| upload_saved:
    "task_at m t = Some (Up_Saving sid fid dto)
     \<Longrightarrow> mstep ops lib False m (m_put t (Up_Finishing sid fid result) (m_v2 m) m)"
| upload_finish_ended:
    "\<lbrakk>task_at m t = Some (Up_Finishing sid fid result);
      finalize_slot (slot_of m) sid fid result = (True, slot)\<rbrakk>
     \<Longrightarrow> mstep ops lib False m
          (m_put t (End_Event False sid End_Finished) ((m_v2 m)\<lparr>v2_session := slot\<rparr>) m)"
| upload_finish:
    "\<lbrakk>task_at m t = Some (Up_Finishing sid fid result);
      finalize_slot (slot_of m) sid fid result = (False, slot)\<rbrakk>
     \<Longrightarrow> mstep ops lib False m (m_end t ((m_v2 m)\<lparr>v2_session := slot\<rparr>) m)"
| upload_cleanup_ended:
    "\<lbrakk>task_at m t = Some (Up_Cleanup sid fid);
      finalize_slot (slot_of m) sid fid Save_Failed = (True, slot)\<rbrakk>
     \<Longrightarrow> mstep ops lib False m
          (m_put t (End_Event True sid End_Finished) ((m_v2 m)\<lparr>v2_session := slot\<rparr>) m)"
| upload_cleanup:
    "\<lbrakk>task_at m t = Some (Up_Cleanup sid fid);
      finalize_slot (slot_of m) sid fid Save_Failed = (False, slot)\<rbrakk>
     \<Longrightarrow> mstep ops lib False m (m_end t ((m_v2 m)\<lparr>v2_session := slot\<rparr>) m)"
| end_event:
    "task_at m t = Some (End_Event spawned sid reason)
     \<Longrightarrow> mstep ops lib False m (m_end t (snd (emit (Ev_Session_End sid reason) (m_v2 m))) m)"
| cancel_first_pending:
    "cancel_pending ip session_id (m_v2 m) = (True, s) \<Longrightarrow> mstep ops lib False m (m\<lparr>m_v2 := s\<rparr>)"
| cancel_first_other:
    "\<lbrakk>task_at m t = None; cancel_pending ip (Some sid) (m_v2 m) = (False, s)\<rbrakk>
     \<Longrightarrow> mstep ops lib False m (m_put t (Cn_Second ip sid) s m)"
| cancel_second_ended:
    "\<lbrakk>task_at m t = Some (Cn_Second ip sid); cancel_active ip sid (m_v2 m) = (True, s)\<rbrakk>
     \<Longrightarrow> mstep ops lib False m (m_put t (End_Event False sid End_Cancelled) s m)"
| cancel_second_other:
    "\<lbrakk>task_at m t = Some (Cn_Second ip sid); cancel_active ip sid (m_v2 m) = (False, s)\<rbrakk>
     \<Longrightarrow> mstep ops lib False m (m_put t (Cn_Event ip sid) s m)"
| cancel_event:
    "task_at m t = Some (Cn_Event ip sid)
     \<Longrightarrow> mstep ops lib False m (m_end t (snd (emit (Ev_Cancel_Received ip sid) (m_v2 m))) m)"
| app_cancel:
    "cancel_v2_session sid (m_v2 m) = (b, s) \<Longrightarrow> mstep ops lib False m (m\<lparr>m_v2 := s\<rparr>)"
| app_gone:
    "mstep ops lib False m (m\<lparr>m_v2 := (m_v2 m)\<lparr>v2_event_open := False\<rparr>\<rparr>)"
| drop_armed:
    "\<lbrakk>task_at m t = Some k; dropped_task k = Some k'\<rbrakk>
     \<Longrightarrow> mstep ops lib False m (m_put t k' (m_v2 m) m)"
| drop_plain:
    "\<lbrakk>task_at m t = Some k; plain_task k\<rbrakk> \<Longrightarrow> mstep ops lib False m (m_end t (m_v2 m) m)"
| drop_disarmed:
    "\<lbrakk>task_at m t = Some k; disarmed_task k\<rbrakk> \<Longrightarrow> mstep ops lib True m (m_end t (m_v2 m) m)"

inductive_cases mstep_disarmedE: "mstep ops lib True m m'"

text \<open>A server that has just been started, and the states it reaches.\<close>

definition v2_fresh :: "'c v2_state \<Rightarrow> bool" where
  "v2_fresh s \<longleftrightarrow> v2_session s = None \<and> v2_cancelled s = [] \<and> v2_events s = []"

definition machine_start :: "'c v2_state \<Rightarrow> 'c machine" where
  "machine_start s = \<lparr>m_v2 = s, m_tasks = [], m_used = []\<rparr>"

text \<open>With \<open>leaky\<close> off, no run drops a handler between disarming and cleaning up.\<close>

inductive reach ::
  "('c, ip_addr, u32) lru_ops \<Rightarrow> ('sk, 'ek, 'rk) crypto_lib \<Rightarrow> bool \<Rightarrow> 'c machine \<Rightarrow> bool"
  for ops :: "('c, ip_addr, u32) lru_ops" and lib :: "('sk, 'ek, 'rk) crypto_lib" and leaky :: bool where
  reach_start: "v2_fresh s \<Longrightarrow> reach ops lib leaky (machine_start s)"
| reach_step: "reach ops lib leaky m \<Longrightarrow> mstep ops lib d m m' \<Longrightarrow> (d \<Longrightarrow> leaky) \<Longrightarrow> reach ops lib leaky m'"

section \<open>Ownership\<close>

text \<open>
  The pending slot is owned by the handler that claimed it, or by the cleanup its guard left; a
  file in progress by the upload that started it, or by that upload's cleanup.
\<close>

fun pu_sid :: "task \<Rightarrow> string option" where
  "pu_sid (Pu_Announce sid ci p) = Some sid"
| "pu_sid (Pu_Deciding sid ci p) = Some sid"
| "pu_sid (Pu_Clearing sid) = Some sid"
| "pu_sid (Pu_Activating sid ci files) = Some sid"
| "pu_sid (Pu_Cleanup sid) = Some sid"
| "pu_sid _ = None"

fun up_key :: "task \<Rightarrow> (string \<times> string) option" where
  "up_key (Up_Announce sid fid dto) = Some (sid, fid)"
| "up_key (Up_Target sid fid dto) = Some (sid, fid)"
| "up_key (Up_Saving sid fid dto) = Some (sid, fid)"
| "up_key (Up_Finishing sid fid r) = Some (sid, fid)"
| "up_key (Up_Cleanup sid fid) = Some (sid, fid)"
| "up_key _ = None"

text \<open>The invariant of the slot and of the requests that wait for it.\<close>

definition inv_pending :: "'c machine \<Rightarrow> bool" where
  "inv_pending m \<longleftrightarrow>
     (\<forall>t k sid. task_at m t = Some k \<and> pu_sid k = Some sid \<longrightarrow>
        (\<exists>p. slot_of m = Some (Pending p) \<and> ps_session_id p = sid)) \<and>
     (\<forall>t t' k k'. task_at m t = Some k \<and> task_at m t' = Some k' \<and>
        pu_sid k \<noteq> None \<and> pu_sid k' \<noteq> None \<longrightarrow> t = t')"

lemma dropped_task_pu: "dropped_task k = Some k' \<Longrightarrow> pu_sid k' = pu_sid k"
  by (cases k) auto

lemma dropped_task_up: "dropped_task k = Some k' \<Longrightarrow> up_key k' = up_key k"
  by (cases k) auto

lemma plain_task_owns_nothing [simp]:
  "plain_task k \<Longrightarrow> pu_sid k = None" "plain_task k \<Longrightarrow> up_key k = None"
  by (cases k; simp)+

section \<open>Effects of the sections on the slot\<close>

lemma pu_claim_ok: "pu_claim sid ci s = (Inr (), s') \<longleftrightarrow>
   v2_session s = None \<and> s' = s\<lparr>v2_session := Some (Pending \<lparr>ps_session_id = sid, ps_sender_ip = rc_ip ci\<rparr>)\<rparr>"
  by (auto simp: pu_claim_def)
lemma pu_claim_err: "pu_claim sid ci s = (Inl e, s') \<Longrightarrow> s' = s"
  by (auto simp: pu_claim_def split: if_splits)
lemma emit_eq: "emit e s = (b, s') \<Longrightarrow> v2_session s' = v2_session s"
  by (auto simp: emit_def split: if_splits)
lemma cancel_pending_slot:
  "cancel_pending ip i s = (b, s') \<Longrightarrow> v2_session s' = v2_session s"
  by (auto simp: cancel_pending_def split: option.splits session_state.splits if_splits)
lemma cancel_active_slot:
  "cancel_active ip i s = (b, s') \<Longrightarrow> v2_session s' = (if b then None else v2_session s) \<and> (b \<longrightarrow> (\<exists>us. v2_session s = Some (Active us) \<and> us_session_id us = i))"
  by (auto simp: cancel_active_def split: option.splits session_state.splits if_splits)
lemma cancel_v2_slot:
  "cancel_v2_session i s = (b, s') \<Longrightarrow> v2_session s' = (if b then None else v2_session s) \<and> (b \<longrightarrow> (\<exists>us. v2_session s = Some (Active us) \<and> us_session_id us = i))"
  by (auto simp: cancel_v2_session_def split: option.splits session_state.splits if_splits)
lemma finalize_slot_pending: "finalize_slot slot sid fid r = (b, slot') \<Longrightarrow> slot = Some (Pending p) \<Longrightarrow> slot' = slot"
  by (auto simp: finalize_slot_def)
lemma finalize_slot_pending': "finalize_slot slot sid fid r = (b, slot') \<Longrightarrow> slot' = Some (Pending p) \<longleftrightarrow> slot = Some (Pending p)"
  by (auto simp: finalize_slot_def Let_def split: option.splits session_state.splits if_splits)

section \<open>The pending slot\<close>

text \<open>
  Three shapes of a step: it leaves a pending slot and its owner alone, it claims the free
  slot for a new owner, or it takes the slot's owner away together with the slot.
\<close>

lemma inv_pending_intro:
  assumes "inv_pending m"
    and "\<And>p. slot_of m = Some (Pending p) \<Longrightarrow> slot_of m' = slot_of m"
    and "\<And>t k. task_at m' t = Some k \<Longrightarrow> pu_sid k \<noteq> None \<Longrightarrow> \<exists>k'. task_at m t = Some k' \<and> pu_sid k' = pu_sid k"
  shows "inv_pending m'"
  unfolding inv_pending_def
proof (intro conjI allI impI; (elim conjE)?)
  fix t k sid assume a: "task_at m' t = Some k" "pu_sid k = Some sid"
  then obtain k' where k': "task_at m t = Some k'" "pu_sid k' = Some sid" using assms(3) by force
  then obtain p where "slot_of m = Some (Pending p)" "ps_session_id p = sid" using assms(1) unfolding inv_pending_def by blast
  then show "\<exists>p. slot_of m' = Some (Pending p) \<and> ps_session_id p = sid" using assms(2) by auto
next
  fix t t' k k' assume "task_at m' t = Some k" "task_at m' t' = Some k'" "pu_sid k \<noteq> None" "pu_sid k' \<noteq> None"
  then show "t = t'" using assms(3)[of t k] assms(3)[of t' k'] assms(1) unfolding inv_pending_def by metis
qed

lemma inv_pending_claim:
  assumes "inv_pending m" "slot_of m = None"
    and "slot_of m' = Some (Pending p)" "ps_session_id p = sid" "pu_sid k0 = Some sid"
   "m_tasks m' = hm_put t0 k0 (m_tasks m)"
  shows "inv_pending m'"
proof -
  have no: "pu_sid k = None" if "task_at m t = Some k" for t k
    using assms(1,2) that unfolding inv_pending_def by (cases "pu_sid k") auto
  show ?thesis unfolding inv_pending_def using assms no by (auto split: if_splits)
qed

lemma inv_pending_release:
  assumes "inv_pending m" "task_at m t0 = Some k0" "pu_sid k0 = Some sid"
    and "\<And>t k. task_at m' t = Some k \<Longrightarrow> t = t0 \<and> pu_sid k = None \<or> t \<noteq> t0 \<and> task_at m t = Some k"
  shows "inv_pending m'"
proof -
  have no: "pu_sid k = None" if "task_at m t = Some k" "t \<noteq> t0" for t k
    using assms(1,2,3) that unfolding inv_pending_def by blast
  have "pu_sid k = None" if "task_at m' t = Some k" for t k using assms(4)[OF that] no by auto
  then show ?thesis unfolding inv_pending_def by force
qed

lemma inv_pending_step:
  assumes "mstep ops lib d m m'" "inv_pending m"
  shows "inv_pending m'"
  using assms(1)
proof cases
  case (prepare_claim t ci body payload sid s)
  then show ?thesis by (intro inv_pending_claim[OF assms(2), where ?k0.0 = "Pu_Announce sid ci payload"]) (auto simp: pu_claim_ok)
next
  case (prepare_activate t sid ci files)
  then show ?thesis by (intro inv_pending_release[OF assms(2)]) (auto split: if_splits)
next
  case (prepare_clear t sid)
  then show ?thesis by (intro inv_pending_release[OF assms(2)]) (auto split: if_splits)
next
  case (pending_cleanup t sid)
  then show ?thesis by (intro inv_pending_release[OF assms(2)]) (auto split: if_splits)
qed (rule inv_pending_intro[OF assms(2)]; auto dest: pu_check_pin_frame emit_eq pu_claim_err cancel_pending_slot cancel_active_slot cancel_v2_slot finalize_slot_pending dropped_task_pu simp: upload_begin_ok_iff split: if_splits)+

end
