(* ===== verification/Upload_Invariants.thy ===== *)
theory Upload_Invariants
  imports Upload_Machine
begin

text \<open>
  What every reachable state of the interleaved upload endpoints satisfies: the files of an active
  session, who owns a pending slot, who writes a file. One invariant per concern, each preserved
  by every rule of \<open>mstep\<close>.
\<close>

section \<open>The active session\<close>

definition fresh_files :: "(string, session_file) hmap \<Rightarrow> bool" where
  "fresh_files files \<longleftrightarrow> hm_wf files \<and> files \<noteq> [] \<and>
     (\<forall>fid f. hm_get files fid = Some f \<longrightarrow> sf_status f = File_Pending \<and> sf_attempts f = 0)"

definition attempts_ok :: "session_file \<Rightarrow> bool" where
  "attempts_ok f \<longleftrightarrow> unat (sf_attempts f) \<le> 3 \<and> (sf_status f = File_Pending \<longrightarrow> unat (sf_attempts f) < 3)"

definition session_ok :: "upload_session \<Rightarrow> bool" where
  "session_ok us \<longleftrightarrow> hm_wf (us_files us) \<and> \<not> is_complete us \<and>
     (\<forall>fid f. hm_get (us_files us) fid = Some f \<longrightarrow> attempts_ok f)"

fun task_ok :: "task \<Rightarrow> bool" where
  "task_ok (Pu_Announce sid ci p) = hm_wf (pr_files p)"
| "task_ok (Pu_Deciding sid ci p) = hm_wf (pr_files p)"
| "task_ok (Pu_Activating sid ci files) = fresh_files files"
| "task_ok _ = True"

definition inv_session :: "'c machine \<Rightarrow> bool" where
  "inv_session m \<longleftrightarrow> (\<forall>us. slot_of m = Some (Active us) \<longrightarrow> session_ok us) \<and>
     (\<forall>t k. task_at m t = Some k \<longrightarrow> task_ok k)"

lemma pu_files_fresh: "hm_wf (pr_files p) \<Longrightarrow> pu_files p ids tok \<noteq> [] \<Longrightarrow> fresh_files (pu_files p ids tok)"
  by (auto simp: fresh_files_def pu_files_wf pu_files_get split: if_splits)

lemma fresh_files_session_ok:
  assumes "fresh_files files" shows "session_ok \<lparr>us_session_id = sid, us_sender_ip = ip, us_files = files\<rparr>"
proof -
  obtain fid f rest where "files = (fid, f) # rest" using assms by (cases files) (auto simp: fresh_files_def)
  then have "hm_get files fid = Some f" by simp
  then show ?thesis using assms by (force simp: session_ok_def fresh_files_def is_complete_iff is_final_def attempts_ok_def)
qed

lemma upload_begin_session_ok:
  assumes "upload_begin (Some (Active us)) ip sid fid tok = (Inr dto, Some (Active us'))" and "session_ok us"
  shows "session_ok us'"
proof -
  obtain f where f: "hm_get (us_files us) fid = Some f" "sf_status f = File_Pending"
    and us': "us' = us\<lparr>us_files := hm_upd fid (\<lambda>_. f\<lparr>sf_status := File_InProgress, sf_attempts := saturating_inc (sf_attempts f)\<rparr>) (us_files us)\<rparr>"
    using assms(1) by (auto simp: upload_begin_ok_iff)
  have "unat (sf_attempts f) < 3"
    using assms(2) f unfolding session_ok_def attempts_ok_def by blast
  then have "unat (saturating_inc (sf_attempts f)) \<le> 3" by (simp add: unat_saturating_inc)
  moreover have wf: "hm_wf (us_files us')" using assms(2) us' by (simp add: session_ok_def)
  moreover have "\<not> is_complete us'"
    unfolding is_complete_iff [OF wf] using f us' by (auto simp: is_final_def)
  ultimately show ?thesis
    using assms(2) f us' by (auto simp: session_ok_def attempts_ok_def)
qed

lemma finalize_slot_session_ok:
  assumes "finalize_slot slot sid fid r = (b, Some (Active us'))" and "\<And>us. slot = Some (Active us) \<Longrightarrow> session_ok us"
  shows "session_ok us'"
proof (cases "\<exists>us. slot = Some (Active us) \<and> us_session_id us = sid")
  case False
  then show ?thesis using finalize_slot_other[OF assms(1)] assms(2) by auto
next
  case True
  then obtain us where us: "slot = Some (Active us)" "us_session_id us = sid" by blast
  have "us' = us\<lparr>us_files := finalized_files fid r (us_files us)\<rparr>" "\<not> is_complete us'"
    using assms(1) us by (auto simp: finalize_slot_own Let_def split: if_splits)
  moreover have "attempts_ok f" if "hm_get (finalized_files fid r (us_files us)) k = Some f" for k f
    using that assms(2) [OF us(1)]
    by (auto simp: hm_get_finalized session_ok_def attempts_ok_def final_status_def MAX_UPLOAD_ATTEMPTS_def
         word_less_nat_alt split: if_splits save_result.splits)
  ultimately show ?thesis using assms(2) [OF us(1)] by (auto simp: session_ok_def)
qed

lemma dropped_task_ok [simp]: "dropped_task k = Some k' \<Longrightarrow> task_ok k'"
  by (cases k) auto

lemma inv_session_intro:
  assumes "inv_session m" and "\<And>us. slot_of m' = Some (Active us) \<Longrightarrow> slot_of m = Some (Active us) \<or> session_ok us"
   and "\<And>t k. task_at m' t = Some k \<Longrightarrow> task_at m t = Some k \<or> task_ok k"
  shows "inv_session m'"
  using assms unfolding inv_session_def by blast

lemma inv_session_step:
  assumes "mstep ops lib d m m'" and "inv_session m"
  shows "inv_session m'"
proof -
  have ok: "\<And>us. slot_of m = Some (Active us) \<Longrightarrow> session_ok us" "\<And>t k. task_at m t = Some k \<Longrightarrow> task_ok k"
    using assms(2) by (auto simp: inv_session_def)
  show ?thesis using assms(1)
proof cases
  case (upload_start t ip sid fid token dto slot)
  have "session_ok us" if "slot = Some (Active us)" for us
  proof -
    obtain us0 where "slot_of m = Some (Active us0)" using upload_start by (auto simp: upload_begin_ok_iff)
    then show ?thesis using upload_begin_session_ok[of us0 ip sid fid token dto us] upload_start that ok by simp
  qed
  then show ?thesis using upload_start by (intro inv_session_intro[OF assms(2)]) (auto split: if_splits)
next
  case (prepare_activate t sid ci files)
  then have "fresh_files files" using ok(2) by force
  with prepare_activate show ?thesis
    by (intro inv_session_intro[OF assms(2)]) (auto simp: pu_activate_def fresh_files_session_ok split: if_splits)
next
  case (decision_accept t sid ci payload ids tok)
  then have "hm_wf (pr_files payload)" using ok(2) by force
  with decision_accept show ?thesis
    by (intro inv_session_intro[OF assms(2)]) (auto simp: pu_files_fresh split: if_splits)
next
  case (prepare_announce t sid ci payload sent s)
  then have "hm_wf (pr_files payload)" using ok(2) by force
  with prepare_announce show ?thesis
    by (intro inv_session_intro[OF assms(2)]) (auto dest: emit_eq split: if_splits)
qed (rule inv_session_intro[OF assms(2)]; auto dest: pu_check_pin_frame emit_eq pu_claim_err cancel_pending_slot cancel_active_slot cancel_v2_slot finalize_slot_session_ok [OF _ ok(1)]
    simp: pu_claim_ok clear_pending_session_slot split: if_splits option.splits session_state.splits)+
qed

type_synonym key_set = "(nat \<times> string \<times> string) set"

definition up_inv :: "session_state option \<Rightarrow> string set \<Rightarrow> key_set \<Rightarrow> bool" where
  "up_inv slot used K \<longleftrightarrow>
     (\<forall>p. slot = Some (Pending p) \<longrightarrow> ps_session_id p \<in> used) \<and>
     (\<forall>us. slot = Some (Active us) \<longrightarrow> us_session_id us \<in> used) \<and>
     (\<forall>t sid fid. (t, sid, fid) \<in> K \<longrightarrow>
        sid \<in> used \<and>
        (\<forall>p. slot = Some (Pending p) \<longrightarrow> ps_session_id p \<noteq> sid) \<and>
        (\<forall>us. slot = Some (Active us) \<and> us_session_id us = sid \<longrightarrow>
           (\<exists>f. hm_get (us_files us) fid = Some f \<and> sf_status f = File_InProgress) \<and>
           (\<forall>t'. (t', sid, fid) \<in> K \<longrightarrow> t' = t)))"

definition up_keys :: "'c machine \<Rightarrow> key_set" where
  "up_keys m = {(t, sid, fid). \<exists>k. task_at m t = Some k \<and> up_key k = Some (sid, fid)}"

abbreviation inv_upload :: "'c machine \<Rightarrow> bool" where
  "inv_upload m \<equiv> up_inv (slot_of m) (set (m_used m)) (up_keys m)"

lemma up_inv_mono:
  assumes "up_inv slot used K" and "slot' = slot \<or> slot' = None" and "used \<subseteq> used'"
    and "K' \<subseteq> K"
  shows "up_inv slot' used' K'"
  using assms(2)
proof
  assume "slot' = None" then show ?thesis using assms(1,3,4) unfolding up_inv_def by blast
next
  assume "slot' = slot"
  then show ?thesis using assms(1,3,4) unfolding up_inv_def by blast
qed

lemma up_inv_claim:
  assumes "up_inv None used K" and "sid \<notin> used" and "ps_session_id p = sid" and "K' \<subseteq> K"
  shows "up_inv (Some (Pending p)) (insert sid used) K'"
  using assms unfolding up_inv_def by blast

lemma up_inv_activate:
  assumes "up_inv (Some (Pending p)) used K" and "us_session_id us = ps_session_id p" and "K' \<subseteq> K"
  shows "up_inv (Some (Active us)) used K'"
proof -
  have "(t, ps_session_id p, fid) \<notin> K" for t fid using assms(1) unfolding up_inv_def by blast
  then show ?thesis using assms unfolding up_inv_def by auto blast
qed

lemma up_inv_start:
  assumes inv: "up_inv slot used K" and b: "upload_begin slot ip sid fid tok = (Inr dto, slot')" 
  shows "up_inv slot' used (insert (t, sid, fid) K)"
proof -
  obtain us f where us: "slot = Some (Active us)" "us_session_id us = sid" "hm_get (us_files us) fid = Some f" "sf_status f = File_Pending"
   and slot': "slot' = Some (Active (us\<lparr>us_files := hm_upd fid
          (\<lambda>_. f\<lparr>sf_status := File_InProgress, sf_attempts := saturating_inc (sf_attempts f)\<rparr>)
          (us_files us)\<rparr>))"
    using b by (auto simp: upload_begin_ok_iff)
  have no: "(t', sid, fid) \<notin> K" for t'
    using inv us unfolding up_inv_def by force
  show ?thesis unfolding slot' using inv us no unfolding up_inv_def by auto
qed

lemma up_inv_finish:
  assumes inv: "up_inv slot used K" and "finalize_slot slot sid fid r = (b, slot')" and "(t, sid, fid) \<in> K"
    and K': "K' \<subseteq> K - {(t, sid, fid)}"
  shows "up_inv slot' used K'"
proof (cases "\<exists>us. slot = Some (Active us) \<and> us_session_id us = sid")
  case False
  then have "slot' = slot" using finalize_slot_other [OF assms(2)] by blast
  then show ?thesis using up_inv_mono[OF inv, of slot' used K'] K' by auto
next
  case True
  then obtain us where us: "slot = Some (Active us)" "us_session_id us = sid" by blast
  show ?thesis
  proof (cases b)
    case True
    then have "slot' = None" using assms(2) us by (auto simp: finalize_slot_own Let_def split: if_splits)
    then show ?thesis using up_inv_mono[OF inv, of slot' used K'] K' by auto
  next
    case False
    then have slot': "slot' = Some (Active (us\<lparr>us_files := finalized_files fid r (us_files us)\<rparr>))"
      using assms(2) us by (auto simp: finalize_slot_own Let_def split: if_splits)
    have "(t', sid, fid) \<notin> K'" for t'
      using inv us assms(3) K' unfolding up_inv_def by blast
    moreover have "up_inv slot used K'" using up_inv_mono[OF inv, of slot used K'] K' by auto
    ultimately show ?thesis unfolding slot' using us unfolding up_inv_def
      by (auto simp: hm_get_finalized) 
  qed
qed

lemma up_keys_at: "task_at m t = Some k \<Longrightarrow> up_key k = Some (sid, fid) \<Longrightarrow> (t, sid, fid) \<in> up_keys m"
  by (auto simp: up_keys_def)

lemma inv_upload_step:
  assumes "mstep ops lib d m m'" and "inv_pending m" and inv: "inv_upload m"
  shows "inv_upload m'"
  using assms(1)
proof cases
  case (prepare_claim t ci body payload sid s)
  moreover have "up_keys m' \<subseteq> up_keys m" using prepare_claim by (auto simp: up_keys_def split: if_splits)
  ultimately show ?thesis using inv
    by (auto simp: pu_claim_ok intro!: up_inv_claim)
next
  case (prepare_activate t sid ci files)
  then obtain p where "slot_of m = Some (Pending p)" "ps_session_id p = sid" using assms(2) unfolding inv_pending_def by force
  moreover have "up_keys m' \<subseteq> up_keys m" using prepare_activate by (auto simp: up_keys_def split: if_splits)
  ultimately show ?thesis using prepare_activate inv
    by (auto simp: pu_activate_def intro!: up_inv_activate[of p _ "up_keys m"])
next
  case (upload_start t ip sid fid token dto slot)
  then have "up_keys m' = insert (t, sid, fid) (up_keys m)" by (auto simp: up_keys_def split: if_splits)
  then show ?thesis using up_inv_start[OF inv] upload_start by simp
next
  case (upload_finish_ended t sid fid result slot)
  moreover have "up_keys m' \<subseteq> up_keys m - {(t, sid, fid)}" using upload_finish_ended by (auto simp: up_keys_def split: if_splits)
  ultimately show ?thesis using up_inv_finish[OF inv upload_finish_ended(4) up_keys_at] by simp
next
  case (upload_finish t sid fid result slot)
  moreover have "up_keys m' \<subseteq> up_keys m - {(t, sid, fid)}" using upload_finish by (auto simp: up_keys_def split: if_splits)
  ultimately show ?thesis using up_inv_finish[OF inv upload_finish(4) up_keys_at] by simp
next
  case (upload_cleanup_ended t sid fid slot)
  moreover have "up_keys m' \<subseteq> up_keys m - {(t, sid, fid)}" using upload_cleanup_ended by (auto simp: up_keys_def split: if_splits)
  ultimately show ?thesis using up_inv_finish[OF inv upload_cleanup_ended(4) up_keys_at] by simp
next
  case (upload_cleanup t sid fid slot)
  moreover have "up_keys m' \<subseteq> up_keys m - {(t, sid, fid)}" using upload_cleanup by (auto simp: up_keys_def split: if_splits)
  ultimately show ?thesis using up_inv_finish[OF inv upload_cleanup(4) up_keys_at] by simp
qed (rule up_inv_mono[OF inv]; auto dest: pu_check_pin_frame emit_eq pu_claim_err cancel_pending_slot cancel_active_slot cancel_v2_slot dropped_task_up simp: up_keys_def clear_pending_session_slot split: if_splits option.splits session_state.splits)+


lemma reach_invariants:
  "reach ops lib leaky m \<Longrightarrow> inv_session m \<and> inv_pending m \<and> inv_upload m"
proof (induction rule: reach.induct)
  case (reach_start s)
  then show ?case
    by (simp add: v2_fresh_def machine_start_def inv_session_def inv_pending_def up_inv_def up_keys_def)
next
  case (reach_step m d m')
  then show ?case using inv_session_step inv_pending_step inv_upload_step by blast
qed

section \<open>Owners\<close>

text \<open>
  When no handler is dropped between disarming its guard and cleaning up, a pending slot and
  every file in progress still have the task that will release them.
\<close>

definition inv_owned :: "'c machine \<Rightarrow> bool" where
  "inv_owned m \<longleftrightarrow>
     (\<forall>p. slot_of m = Some (Pending p) \<longrightarrow>
        (\<exists>t k. task_at m t = Some k \<and> pu_sid k = Some (ps_session_id p))) \<and>
     (\<forall>us fid f. slot_of m = Some (Active us) \<and> hm_get (us_files us) fid = Some f \<and>
        sf_status f = File_InProgress \<longrightarrow>
        (\<exists>t k. task_at m t = Some k \<and> up_key k = Some (us_session_id us, fid)))"

lemma inv_owned_intro:
  assumes "inv_owned m"
   and "\<And>p. slot_of m' = Some (Pending p) \<Longrightarrow> slot_of m = slot_of m'"
   and "\<And>us fid f. slot_of m' = Some (Active us) \<Longrightarrow> hm_get (us_files us) fid = Some f \<Longrightarrow>
        sf_status f = File_InProgress \<Longrightarrow> slot_of m = slot_of m'"
   and "\<And>t k. task_at m t = Some k \<Longrightarrow> pu_sid k \<noteq> None \<or> up_key k \<noteq> None \<Longrightarrow> 
     \<exists>k'. task_at m' t = Some k' \<and> pu_sid k' = pu_sid k \<and> up_key k' = up_key k"
  shows "inv_owned m'"
  unfolding inv_owned_def
proof (intro conjI allI impI; (elim conjE)?)
  fix p assume "slot_of m' = Some (Pending p)"
  then obtain t k where "task_at m t = Some k" "pu_sid k = Some (ps_session_id p)" 
    using assms(1,2) unfolding inv_owned_def by metis
  then show "\<exists>t k. task_at m' t = Some k \<and> pu_sid k = Some (ps_session_id p)" using assms(4) by force
next
  fix us fid f
  assume a: "slot_of m' = Some (Active us)" "hm_get (us_files us) fid = Some f" "sf_status f = File_InProgress"
  then have "slot_of m = Some (Active us)" using assms(3) by simp
  then obtain t k where "task_at m t = Some k" "up_key k = Some (us_session_id us, fid)" 
    using assms(1) a unfolding inv_owned_def by blast
  then show "\<exists>t k. task_at m' t = Some k \<and> up_key k = Some (us_session_id us, fid)" using assms(4) by force
qed


lemma inv_owned_release:
  assumes "inv_owned m" and "inv_pending m" and "slot_of m' = None \<or> (\<exists>us. slot_of m' = Some (Active us) \<and> fresh_files (us_files us))"
  shows "inv_owned m'"
  using assms(3) by (auto simp: inv_owned_def fresh_files_def)

lemma finalize_slot_active:
  assumes "finalize_slot slot sid fid r = (b, Some (Active us'))" and "hm_get (us_files us') k = Some f" and "sf_status f = File_InProgress"
  shows "\<exists>us. slot = Some (Active us) \<and> us_session_id us = us_session_id us' \<and> hm_get (us_files us) k = Some f \<and> (us_session_id us, k) \<noteq> (sid, fid)"
proof (cases "\<exists>us. slot = Some (Active us) \<and> us_session_id us = sid")
  case False
  then show ?thesis using finalize_slot_other[OF assms(1)] assms(2,3) by auto
next
  case True
  then obtain us where us: "slot = Some (Active us)" "us_session_id us = sid" by blast
  have "us' = us\<lparr>us_files := finalized_files fid r (us_files us)\<rparr>"
    using assms(1) us by (auto simp: finalize_slot_own Let_def split: if_splits)
  then show ?thesis using assms(2,3) us
    by (auto simp: hm_get_finalized dest: arg_cong [where f = sf_status] split: if_splits)
qed

lemma inv_owned_finish:
  assumes inv: "inv_owned m" and fin: "finalize_slot (slot_of m) sid fid r = (b, slot_of m')"
    and "task_at m t0 = Some k0" "up_key k0 = Some (sid, fid)" "pu_sid k0 = None"
    and others: "\<And>t. t \<noteq> t0 \<Longrightarrow> task_at m' t = task_at m t"
  shows "inv_owned m'"
  unfolding inv_owned_def
proof (intro conjI allI impI; (elim conjE)?)
  fix p assume "slot_of m' = Some (Pending p)"
  then have "slot_of m = Some (Pending p)" using fin finalize_slot_pending' by metis
  then obtain t k where tk: "task_at m t = Some k" "pu_sid k = Some (ps_session_id p)" 
    using inv unfolding inv_owned_def by blast
  then have "t \<noteq> t0" using assms(3,5) by auto
  then show "\<exists>t k. task_at m' t = Some k \<and> pu_sid k = Some (ps_session_id p)" using others tk by metis
next
  fix us fid' f
  assume a: "slot_of m' = Some (Active us)" "hm_get (us_files us) fid' = Some f" "sf_status f = File_InProgress"
  then obtain us0 where us0: "slot_of m = Some (Active us0)" "us_session_id us0 = us_session_id us"
    "hm_get (us_files us0) fid' = Some f" "(us_session_id us0, fid') \<noteq> (sid, fid)"
    using finalize_slot_active fin by metis
  then obtain t k where tk: "task_at m t = Some k" "up_key k = Some (us_session_id us, fid')" 
    using inv a(3) unfolding inv_owned_def by metis
  then have "t \<noteq> t0" using assms(3,4) us0 by auto
  then show "\<exists>t k. task_at m' t = Some k \<and> up_key k = Some (us_session_id us, fid')" using others tk by metis
qed

lemma inv_owned_start:
  assumes inv: "inv_owned m" and "upload_begin (slot_of m) ip sid fid tok = (Inr dto, slot_of m')"
    and "task_at m t0 = None" "m_tasks m' = hm_put t0 (Up_Announce sid fid dto) (m_tasks m)"
  shows "inv_owned m'"
proof -
  obtain us f where us: "slot_of m = Some (Active us)" "us_session_id us = sid" "hm_get (us_files us) fid = Some f" 
   and slot': "slot_of m' = Some (Active (us\<lparr>us_files := hm_upd fid
          (\<lambda>_. f\<lparr>sf_status := File_InProgress, sf_attempts := saturating_inc (sf_attempts f)\<rparr>)
          (us_files us)\<rparr>))"
    using assms(2) by (auto simp: upload_begin_ok_iff)
  have old: "\<exists>t k. task_at m' t = Some k \<and> up_key k = Some (sid, k0)"
    if g: "hm_get (us_files us) k0 = Some g" "sf_status g = File_InProgress" for k0 g
  proof -
    obtain t k where tk: "task_at m t = Some k" "up_key k = Some (sid, k0)"
      using inv us g unfolding inv_owned_def by blast
    then have "task_at m' t = Some k" using assms(3,4) by auto
    then show ?thesis using tk by blast
  qed
  have "\<exists>t k. task_at m' t = Some k \<and> up_key k = Some (sid, fid)" using assms(4) by force
  then show ?thesis unfolding inv_owned_def slot' using us old by (auto split: if_splits)
qed

lemma inv_owned_step:
  assumes "mstep ops lib False m m'" and "inv_owned m" and "inv_session m" and "inv_pending m"
  shows "inv_owned m'"
  using assms(1)
proof cases
  case (prepare_claim t ci body payload sid s)
  then show ?thesis by (auto simp: inv_owned_def pu_claim_ok intro!: exI[of _ t])
next
  case (prepare_activate t sid ci files)
  then have "fresh_files files" using assms(3) unfolding inv_session_def by force
  then show ?thesis using prepare_activate by (intro inv_owned_release[OF assms(2,4)]) (auto simp: pu_activate_def)
next
  case (prepare_clear t sid)
  then have "slot_of m' = None" using assms(4) unfolding inv_pending_def by (force simp: clear_pending_session_slot)
  then show ?thesis by (intro inv_owned_release[OF assms(2,4)]) auto
next
  case (pending_cleanup t sid)
  then have "slot_of m' = None" using assms(4) unfolding inv_pending_def by (force simp: clear_pending_session_slot)
  then show ?thesis by (intro inv_owned_release[OF assms(2,4)]) auto
next
  case (upload_start t ip sid fid token dto slot)
  then show ?thesis by (intro inv_owned_start[OF assms(2)]) auto
next
  case (upload_finish_ended t sid fid result slot)
  then show ?thesis by (intro inv_owned_finish[OF assms(2), where ?t0.0=t]) auto
next
  case (upload_finish t sid fid result slot)
  then show ?thesis by (intro inv_owned_finish[OF assms(2), where ?t0.0=t]) auto
next
  case (upload_cleanup_ended t sid fid slot)
  then show ?thesis by (intro inv_owned_finish[OF assms(2), where ?t0.0=t]) auto
next
  case (upload_cleanup t sid fid slot)
  then show ?thesis by (intro inv_owned_finish[OF assms(2), where ?t0.0=t]) auto
qed (rule inv_owned_intro[OF assms(2)]; auto dest: pu_check_pin_frame emit_eq pu_claim_err cancel_pending_slot cancel_active_slot cancel_v2_slot dropped_task_pu dropped_task_up split: if_splits)+

lemma reach_owned:
  "reach ops lib leaky m \<Longrightarrow> \<not> leaky \<Longrightarrow> inv_owned m"
proof (induction rule: reach.induct)
  case (reach_start s)
  then show ?case by (simp add: v2_fresh_def machine_start_def inv_owned_def)
next
  case (reach_step m d m')
  then have "\<not> d" by blast
  then show ?case using inv_owned_step reach_invariants[OF reach_step.hyps(1)] reach_step by metis
qed

end
