(* ===== verification/Upload_Safety.thy ===== *)
theory Upload_Safety
  imports Upload_Invariants
begin

text \<open>
  What the interleaved upload endpoints guarantee, and where they do not: a run of the sample
  client, the fate of an orphaned pending slot, the reports of a session's end, and the
  properties that follow from the invariants of \<open>Upload_Invariants\<close>.
\<close>


section \<open>A run\<close>

text \<open>One prepare-upload request of the sample client, up to the decision.\<close>

definition pending_run :: "task \<Rightarrow> (ip_addr, u32) hmap machine" where
  "pending_run k = \<lparr>m_v2 = sample_v2\<lparr>
       v2_session := Some (Pending \<lparr>ps_session_id = ''s'', ps_sender_ip = sample_peer\<rparr>),
       v2_events := [pu_event sample_lib ''s'' sample_client sample_payload]\<rparr>,
     m_tasks = [(0, k)], m_used = [''s'']\<rparr>"

abbreviation sample_deciding :: task where
  "sample_deciding \<equiv> Pu_Deciding ''s'' sample_client sample_payload"

lemma pending_run_reached: "reach list_lru sample_lib leaky (pending_run sample_deciding)"
proof -
  let ?ops = list_lru and ?lib = sample_lib
  let ?m0 = "machine_start sample_v2"
  let ?m1 = "m_put 0 (Pu_Body sample_client) sample_v2 ?m0"
  let ?s = "sample_v2\<lparr>v2_session := Some (Pending \<lparr>ps_session_id = ''s'', ps_sender_ip = sample_peer\<rparr>)\<rparr>"
  let ?m2 = "m_put 0 (Pu_Announce ''s'' sample_client sample_payload) ?s (?m1\<lparr>m_used := [''s'']\<rparr>)"
  have 0: "reach ?ops ?lib leaky ?m0" by (rule reach_start) (simp add: v2_fresh_def sample_v2_def)
  have "mstep ?ops ?lib False ?m0 ?m1"
    by (rule prepare_pin_ok[where q = "[]"]) (simp_all add: machine_start_def pu_check_pin_def check_pin_def sample_v2_def)
  from reach_step[OF 0 this] have 1: "reach ?ops ?lib leaky ?m1" by simp
  have "mstep ?ops ?lib False ?m1 (m_put 0 (Pu_Announce ''s'' sample_client sample_payload) ?s (?m1\<lparr>m_used := ''s'' # m_used ?m1\<rparr>))"
    by (rule prepare_claim[where body = "Body_Json sample_payload"])
      (simp_all add: machine_start_def pu_parse_def pu_claim_def sample_v2_def sample_payload_def sample_client_def)
  from reach_step[OF 1 this] have 2: "reach ?ops ?lib leaky ?m2" by (simp add: machine_start_def)
  have "mstep ?ops ?lib False ?m2 (m_put 0 (if True then sample_deciding else Pu_Cleanup ''s'') (?s\<lparr>v2_events := [pu_event sample_lib ''s'' sample_client sample_payload]\<rparr>) ?m2)"
    by (rule prepare_announce) (simp_all add: machine_start_def sample_v2_def emit_def)
  from reach_step[OF 2 this] show ?thesis by (simp add: machine_start_def pending_run_def sample_v2_def)
qed

lemma pending_run_slot [simp]: "slot_of (pending_run k) = Some (Pending \<lparr>ps_session_id = ''s'', ps_sender_ip = sample_peer\<rparr>)"
  by (simp add: pending_run_def)

definition activated_run :: "string list \<Rightarrow> (ip_addr, u32) hmap machine" where
  "activated_run cancelled = \<lparr>m_v2 = sample_v2\<lparr>
       v2_session := Some (Active \<lparr>us_session_id = ''s'', us_sender_ip = sample_peer, us_files = pu_files sample_payload [''a''] (\<lambda>fid. fid)\<rparr>),
       v2_cancelled := cancelled,
       v2_events := [pu_event sample_lib ''s'' sample_client sample_payload]\<rparr>,
     m_tasks = [], m_used = [''s'']\<rparr>"

lemma sample_accepted: "pu_files sample_payload [''a''] (\<lambda>fid. fid) \<noteq> []"
  by (simp add: pu_files_def sample_payload_def)

text \<open>The application accepts one file; before the handler locks the session again, the sender may cancel.\<close>

lemma activated_run_reached: "reach list_lru sample_lib leaky (activated_run (if c then [''s''] else []))"
proof -
  let ?ops = list_lru and ?lib = sample_lib
  let ?files = "pu_files sample_payload [''a''] (\<lambda>fid. fid)"
  let ?m0 = "pending_run sample_deciding"
  let ?m1 = "m_put 0 (Pu_Activating ''s'' sample_client ?files) (m_v2 ?m0) ?m0"
  let ?m2 = "?m1\<lparr>m_v2 := (m_v2 ?m1)\<lparr>v2_cancelled := if c then [''s''] else []\<rparr>\<rparr>"
  have "mstep ?ops ?lib False ?m0 ?m1"
    by (rule decision_accept[OF _ sample_accepted]) (simp add: pending_run_def)
  from reach_step[OF pending_run_reached this] have 1: "reach ?ops ?lib leaky ?m1" by simp
  have 2: "reach ?ops ?lib leaky ?m2"
  proof (cases c)
    case True
    have "mstep ?ops ?lib False ?m1 ?m2"
      by (rule cancel_first_pending[where ip = sample_peer and session_id = None])
        (simp add: True cancel_pending_def pending_run_def sample_v2_def)
    from reach_step[OF 1 this] show ?thesis by simp
  next
    case False
    then show ?thesis using 1 by (simp add: pending_run_def sample_v2_def)
  qed
  have "mstep ?ops ?lib False ?m2 (m_end 0 (pu_activate ''s'' sample_client ?files (m_v2 ?m2)) ?m2)"
    by (rule prepare_activate) simp
  from reach_step[OF 2 this] show ?thesis
    by (simp add: pu_activate_def activated_run_def pending_run_def sample_client_def sample_v2_def)
qed


text \<open>Then the accepted file's upload starts.\<close>

definition uploading_run :: "(ip_addr, u32) hmap machine" where
  "uploading_run =
     (let m = activated_run [] in
      m_put 0 (Up_Announce ''s'' ''a'' (sample_file ''a'' 1))
        ((m_v2 m)\<lparr>v2_session := Some (Active \<lparr>us_session_id = ''s'', us_sender_ip = sample_peer,
           us_files = [(''a'', \<lparr>sf_dto = sample_file ''a'' 1, sf_token = ''a'',
                                 sf_status = File_InProgress, sf_attempts = 1\<rparr>)]\<rparr>)\<rparr>) m)"

lemma uploading_run_reached: "reach list_lru sample_lib leaky uploading_run"
proof -
  have "mstep list_lru sample_lib False (activated_run []) uploading_run"
    unfolding uploading_run_def Let_def
    by (rule upload_start [where ip = sample_peer and token = "''a''"])
      (simp_all add: activated_run_def upload_begin_def pu_files_def sample_payload_def Let_def
        saturating_inc_def)
  from reach_step [OF activated_run_reached [of leaky False, simplified] this] show ?thesis by simp
qed

section \<open>An orphaned slot\<close>

text \<open>Runs from a given state.\<close>

inductive mrun ::
  "('c, ip_addr, u32) lru_ops \<Rightarrow> ('sk, 'ek, 'rk) crypto_lib \<Rightarrow> 'c machine \<Rightarrow> 'c machine \<Rightarrow> bool"
  for ops :: "('c, ip_addr, u32) lru_ops" and lib :: "('sk, 'ek, 'rk) crypto_lib" and m0 :: "'c machine" where
  mrun_refl: "mrun ops lib m0 m0"
| mrun_step: "mrun ops lib m0 m \<Longrightarrow> mstep ops lib d m m' \<Longrightarrow> mrun ops lib m0 m'"

definition orphaned :: "'c machine \<Rightarrow> bool" where
  "orphaned m \<longleftrightarrow> (\<forall>t k. task_at m t = Some k \<longrightarrow> pu_sid k = None)"

lemma orphaned_step:
  assumes "mstep ops lib d m m'" and "slot_of m = Some (Pending p)" and "orphaned m"
  shows "slot_of m' = Some (Pending p) \<and> orphaned m'"
proof -
  have no: "pu_sid k = None" if "task_at m t = Some k" for t k using assms(3) that unfolding orphaned_def by blast
  have intro: ?thesis if "\<And>q. slot_of m = Some (Pending q) \<Longrightarrow> slot_of m' = slot_of m"
    and "\<And>t k. task_at m' t = Some k \<Longrightarrow> pu_sid k \<noteq> None \<Longrightarrow> \<exists>k'. task_at m t = Some k' \<and> pu_sid k' = pu_sid k"
    using that assms(2) no unfolding orphaned_def by metis
  show ?thesis using assms(1)
  proof cases
    case (prepare_clear t sid)
    then show ?thesis using no by force
  next
    case (prepare_activate t sid ci files)
    then show ?thesis using no by force
  next
    case (pending_cleanup t sid)
    then show ?thesis using no by force
  next
    case (prepare_claim t ci body payload sid s)
    then show ?thesis using assms(2) by (simp add: pu_claim_ok)
  next
    case (upload_start t ip sid fid token dto slot)
    then show ?thesis using assms(2) by (auto simp: upload_begin_ok_iff)
  qed (rule intro; auto dest: pu_check_pin_frame emit_eq pu_claim_err cancel_pending_slot
      cancel_active_slot cancel_v2_slot finalize_slot_pending dropped_task_pu split: if_splits)+
qed

lemma orphaned_forever:
  "mrun ops lib m m' \<Longrightarrow> slot_of m = Some (Pending p) \<Longrightarrow> orphaned m \<Longrightarrow> slot_of m' = Some (Pending p) \<and> orphaned m'"
  by (induction rule: mrun.induct) (use orphaned_step in blast)+

lemma orphaned_slots:
  assumes "slot_of m = Some (Pending p)" and "orphaned m"
  shows "slot_of ` {m'. mrun ops lib m m'} = {Some (Pending p)}"
proof -
  have "slot_of m' = Some (Pending p)" if "mrun ops lib m m'" for m'
    using orphaned_forever [OF that assms] by simp
  moreover have "mrun ops lib m m" by (rule mrun_refl)
  ultimately show ?thesis using assms(1) by force
qed

section \<open>The end of a session\<close>

fun end_of :: "server_event \<Rightarrow> string option" where
  "end_of (Ev_Session_End sid reason) = Some sid"
| "end_of _ = None"

definition end_count :: "server_event list \<Rightarrow> string \<Rightarrow> nat" where
  "end_count es sid = count_list (map end_of es) (Some sid)"

fun slot_id :: "session_state option \<Rightarrow> string option" where
  "slot_id None = None"
| "slot_id (Some (Pending p)) = Some (ps_session_id p)"
| "slot_id (Some (Active us)) = Some (us_session_id us)"

fun end_sid :: "task \<Rightarrow> string option" where
  "end_sid (End_Event spawned sid reason) = Some sid"
| "end_sid _ = None"

definition end_tasks :: "'c machine \<Rightarrow> (nat \<times> string) set" where
  "end_tasks m = {(t, sid). \<exists>k. task_at m t = Some k \<and> end_sid k = Some sid}"

definition end_inv :: "string option \<Rightarrow> string set \<Rightarrow> (nat \<times> string) set \<Rightarrow> (string \<Rightarrow> nat) \<Rightarrow> bool" where
  "end_inv i used T n \<longleftrightarrow> (\<forall>sid. i = Some sid \<longrightarrow> sid \<in> used \<and> n sid = 0) \<and>
     (\<forall>t sid. (t, sid) \<in> T \<longrightarrow> sid \<in> used \<and> i \<noteq> Some sid \<and> n sid = 0 \<and> (\<forall>t'. (t', sid) \<in> T \<longrightarrow> t' = t)) \<and>
     (\<forall>sid. n sid \<le> 1 \<and> (n sid \<noteq> 0 \<longrightarrow> sid \<in> used))"

abbreviation inv_end :: "'c machine \<Rightarrow> bool" where
  "inv_end m \<equiv> end_inv (slot_id (slot_of m)) (set (m_used m)) (end_tasks m) (end_count (v2_events (m_v2 m)))"

lemma end_inv_mono:
  assumes "end_inv i used T n" and "i' = i \<or> i' = None" and "T' \<subseteq> T" and "used' = used" and "n' = n"
  shows "end_inv i' used' T' n'"
proof -
  have T: "s \<in> used \<and> i' \<noteq> Some s \<and> n s = 0" if "(t, s) \<in> T'" for t s
    using assms(1,2) subsetD [OF assms(3) that] unfolding end_inv_def by auto
  have U: "t' = t" if "(t, s) \<in> T'" "(t', s) \<in> T'" for t t' s
    using assms(1) subsetD [OF assms(3) that(1)] subsetD [OF assms(3) that(2)] unfolding end_inv_def by blast
  have I: "s \<in> used \<and> n s = 0" if "i' = Some s" for s
    using assms(1,2) that unfolding end_inv_def by auto
  have N: "n s \<le> 1 \<and> (n s \<noteq> 0 \<longrightarrow> s \<in> used)" for s using assms(1) unfolding end_inv_def by blast
  show ?thesis unfolding end_inv_def assms(4,5) using T U I N by simp
qed

lemma end_inv_claim:
  assumes "end_inv None used T n" and "sid \<notin> used" and "T' \<subseteq> T"
  shows "end_inv (Some sid) (insert sid used) T' n"
proof -
  have "end_inv None used T' n" by (rule end_inv_mono[OF assms(1) _ assms(3)]) simp_all
  then show ?thesis using assms(2) unfolding end_inv_def by auto
qed

lemma end_inv_end:
  assumes "end_inv (Some sid) used T n" 
  shows "end_inv None used (insert (t, sid) T) n"
proof -
  have inv: "sid \<in> used \<and> n sid = 0"
      "\<forall>t s. (t, s) \<in> T \<longrightarrow> s \<in> used \<and> sid \<noteq> s \<and> n s = 0 \<and> (\<forall>t'. (t', s) \<in> T \<longrightarrow> t' = t)"
      "\<forall>s. n s \<le> 1 \<and> (n s \<noteq> 0 \<longrightarrow> s \<in> used)"
    using assms unfolding end_inv_def by (simp_all del: not_None_eq)
  have own: "sid \<in> used" "n sid = 0" using inv(1) by simp_all
  have T: "s \<in> used \<and> sid \<noteq> s \<and> n s = 0" if "(t', s) \<in> T" for t' s
    using inv(2) that by simp
  have U: "t'' = t'" if "(t', s) \<in> T" "(t'', s) \<in> T" for t' t'' s
    using inv(2) that by (metis (no_types))
  note N = inv(3)
  have P: "s \<in> used \<and> None \<noteq> Some s \<and> n s = 0" if "(t', s) \<in> insert (t, sid) T" for t' s
    using that own T by auto
  have Q: "t'' = t'" if "(t', s) \<in> insert (t, sid) T" "(t'', s) \<in> insert (t, sid) T" for t' t'' s
  proof (cases "s = sid")
    case True
    then show ?thesis using that T by fastforce
  next
    case False
    then show ?thesis using that by (intro U [of t' s t'']) simp_all
  qed
  have E: "\<forall>s. None = Some s \<longrightarrow> s \<in> used \<and> n s = 0" by simp
  have F: "\<forall>t' s. (t', s) \<in> insert (t, sid) T \<longrightarrow> s \<in> used \<and> None \<noteq> Some s \<and> n s = 0 \<and>
      (\<forall>t''. (t'', s) \<in> insert (t, sid) T \<longrightarrow> t'' = t')"
    by (intro allI impI conjI) (rule P [THEN conjunct1], assumption, simp, rule P [THEN conjunct2, THEN conjunct2],
        assumption, rule Q)
  show ?thesis unfolding end_inv_def by (intro conjI E F N)
qed

lemma end_inv_report:
  assumes "end_inv i used T n" and "(t, sid) \<in> T" and "T' \<subseteq> T - {(t, sid)}" and "n' = n \<or> n' = n(sid := Suc (n sid))"
  shows "end_inv i used T' n'"
  using assms(4)
proof
  assume "n' = n" 
  then show ?thesis using end_inv_mono[OF assms(1), of i T'] assms(3) by auto
next
  assume n': "n' = n(sid := Suc (n sid))"
  have inv: "end_inv i used T' n" using end_inv_mono[OF assms(1), of i T'] assms(3) by auto
  have "(t', sid) \<notin> T'" for t' using assms(1,2,3) unfolding end_inv_def by blast
  moreover have "i \<noteq> Some sid" "n sid = 0" "sid \<in> used" using assms(1,2) unfolding end_inv_def by blast+
  ultimately show ?thesis using inv unfolding n' end_inv_def by (auto split: if_splits)
qed

lemma emit_count:
  assumes "emit e s = (b, s')" shows "end_count (v2_events s') = (if b \<and> end_of e \<noteq> None 
    then (end_count (v2_events s))(the (end_of e) := Suc (end_count (v2_events s) (the (end_of e)))) else end_count (v2_events s))"
  using assms by (auto simp: emit_def end_count_def fun_eq_iff split: if_splits)

lemma cancel_pending_events:
  "cancel_pending ip i s = (b, s') \<Longrightarrow> v2_events s' = v2_events s"
  by (auto simp: cancel_pending_def split: option.splits session_state.splits if_splits)

lemma cancel_active_events:
  "cancel_active ip i s = (b, s') \<Longrightarrow> v2_events s' = v2_events s"
  by (auto simp: cancel_active_def split: option.splits session_state.splits if_splits)

lemma cancel_v2_events:
  "cancel_v2_session i s = (b, s') \<Longrightarrow> v2_events s' = v2_events s"
  by (auto simp: cancel_v2_session_def split: option.splits session_state.splits if_splits)

lemma finalize_slot_id:
  "finalize_slot slot sid fid r = (b, slot') \<Longrightarrow> slot_id slot' = (if b then None else slot_id slot) \<and> (b \<longrightarrow> slot_id slot = Some sid)"
  by (auto simp: finalize_slot_def Let_def split: option.splits session_state.splits if_splits)

lemma upload_begin_slot_id:
  "upload_begin slot ip sid fid tok = (Inr dto, slot') \<Longrightarrow> slot_id slot' = slot_id slot"
  by (auto simp: upload_begin_ok_iff)

lemma clear_pending_slot_id: "slot_id (v2_session (clear_pending_session s)) \<in> {slot_id (v2_session s), None}"
  by (auto simp: clear_pending_session_slot split: option.splits session_state.splits)

lemma dropped_task_end: "dropped_task k = Some k' \<Longrightarrow> end_sid k' = None"
  by (cases k) auto

lemma inv_end_step:
  assumes "mstep ops lib d m m'" and "inv_pending m" and inv: "inv_end m"
  shows "inv_end m'"
  using assms(1)
proof cases
  case (prepare_claim t ci body payload sid s)
  moreover have "end_tasks m' \<subseteq> end_tasks m" using prepare_claim by (auto simp: end_tasks_def split: if_splits)
  ultimately show ?thesis using inv by (auto simp: pu_claim_ok intro!: end_inv_claim)
next
  case (prepare_announce t sid ci payload sent s)
  moreover have "end_tasks m' \<subseteq> end_tasks m" using prepare_announce by (auto simp: end_tasks_def split: if_splits)
  ultimately show ?thesis using emit_count[OF prepare_announce(4)] emit_eq[OF prepare_announce(4)] by (intro end_inv_mono[OF inv]) (auto simp: pu_event_def)
next
  case (prepare_activate t sid ci files)
  moreover obtain p where "slot_of m = Some (Pending p)" "ps_session_id p = sid" using prepare_activate assms(2) unfolding inv_pending_def by force
  moreover have "end_tasks m' \<subseteq> end_tasks m" using prepare_activate by (auto simp: end_tasks_def split: if_splits)
  ultimately show ?thesis by (intro end_inv_mono[OF inv]) (auto simp: pu_activate_def)
next
  case (prepare_clear t sid)
  moreover have "end_tasks m' \<subseteq> end_tasks m" using prepare_clear by (auto simp: end_tasks_def split: if_splits)
  ultimately show ?thesis using clear_pending_slot_id[of "m_v2 m"] by (intro end_inv_mono[OF inv]) auto
next
  case (pending_cleanup t sid)
  moreover have "end_tasks m' \<subseteq> end_tasks m" using pending_cleanup by (auto simp: end_tasks_def split: if_splits)
  ultimately show ?thesis using clear_pending_slot_id[of "m_v2 m"] by (intro end_inv_mono[OF inv]) auto
next
  case (upload_start t ip sid fid token dto slot)
  moreover have "end_tasks m' \<subseteq> end_tasks m" using upload_start by (auto simp: end_tasks_def split: if_splits)
  ultimately show ?thesis using upload_begin_slot_id by (intro end_inv_mono[OF inv]) auto
next
  case (upload_announce t sid fid dto sent s)
  moreover have "end_tasks m' \<subseteq> end_tasks m" using upload_announce by (auto simp: end_tasks_def split: if_splits)
  ultimately show ?thesis using emit_count[OF upload_announce(4)] emit_eq[OF upload_announce(4)] by (intro end_inv_mono[OF inv]) auto
next
  case (upload_finish_ended t sid fid result slot)
  moreover have "end_tasks m' = insert (t, sid) (end_tasks m)" using upload_finish_ended by (auto simp: end_tasks_def split: if_splits)
  ultimately show ?thesis using inv finalize_slot_id[OF upload_finish_ended(4)] by (auto intro: end_inv_end)
next
  case (upload_finish t sid fid result slot)
  moreover have "end_tasks m' \<subseteq> end_tasks m" using upload_finish by (auto simp: end_tasks_def split: if_splits)
  ultimately show ?thesis using finalize_slot_id[OF upload_finish(4)] by (intro end_inv_mono[OF inv]) auto
next
  case (upload_cleanup_ended t sid fid slot)
  moreover have "end_tasks m' = insert (t, sid) (end_tasks m)" using upload_cleanup_ended by (auto simp: end_tasks_def split: if_splits)
  ultimately show ?thesis using inv finalize_slot_id[OF upload_cleanup_ended(4)] by (auto intro: end_inv_end)
next
  case (upload_cleanup t sid fid slot)
  moreover have "end_tasks m' \<subseteq> end_tasks m" using upload_cleanup by (auto simp: end_tasks_def split: if_splits)
  ultimately show ?thesis using finalize_slot_id[OF upload_cleanup(4)] by (intro end_inv_mono[OF inv]) auto
next
  case (end_event t spawned sid reason)
  moreover have "(t, sid) \<in> end_tasks m" "end_tasks m' \<subseteq> end_tasks m - {(t, sid)}" using end_event by (auto simp: end_tasks_def split: if_splits)
  moreover obtain b s where "emit (Ev_Session_End sid reason) (m_v2 m) = (b, s)" by fastforce
  ultimately show ?thesis using emit_count[of "Ev_Session_End sid reason" "m_v2 m" b s] emit_eq[of "Ev_Session_End sid reason" "m_v2 m" b s]
    by (auto intro!: end_inv_report[OF inv, of t sid] split: if_splits)
next
  case (cancel_second_ended t ip sid s)
  moreover have "end_tasks m' = insert (t, sid) (end_tasks m)" using cancel_second_ended by (auto simp: end_tasks_def split: if_splits)
  ultimately show ?thesis using inv cancel_active_events[OF cancel_second_ended(4)] cancel_active_slot[OF cancel_second_ended(4)] by (auto intro: end_inv_end)
next
  case (abort_event t sid)
  moreover have "end_tasks m' \<subseteq> end_tasks m" using abort_event by (auto simp: end_tasks_def split: if_splits)
  ultimately show ?thesis by (intro end_inv_mono[OF inv]) (auto simp: emit_def end_count_def)
next
  case (cancel_event t ip sid)
  moreover have "end_tasks m' \<subseteq> end_tasks m" using cancel_event by (auto simp: end_tasks_def split: if_splits)
  ultimately show ?thesis by (intro end_inv_mono[OF inv]) (auto simp: emit_def end_count_def)
qed (rule end_inv_mono[OF inv]; auto dest: pu_check_pin_frame pu_claim_err cancel_pending_slot cancel_active_slot cancel_v2_slot
    cancel_pending_events cancel_active_events cancel_v2_events dropped_task_end simp: end_tasks_def split: if_splits)+

lemma reach_end: "reach ops lib leaky m \<Longrightarrow> inv_end m"
proof (induction rule: reach.induct)
  case (reach_start s)
  then show ?case by (simp add: v2_fresh_def machine_start_def end_inv_def end_tasks_def end_count_def)
next
  case (reach_step m d m')
  then show ?case using inv_end_step reach_invariants[OF reach_step.hyps(1)] by blast
qed

section \<open>Properties\<close>

text \<open>The tasks that have claimed the slot and not released it yet, each with its session id.\<close>

definition slot_owners :: "'c machine \<Rightarrow> (nat \<times> string) set" where
  "slot_owners m = {(t, sid). \<exists>k. task_at m t = Some k \<and> pu_sid k = Some sid}"

text \<open>
  C4: Whatever is interleaved, a slot that is pending has exactly one owner under way, the prepare-upload request that
  claimed it or the cleanup of that request, under the session id that is in the slot, and a slot that is not pending has
  none: the guards, which clear whatever pending session they find, can only clear their own. The one exception is a handler
  that was dropped right after it disarmed its guard: then a pending slot may have no owner, but never two.
\<close>

theorem pending_request_unique:
  assumes "reach ops lib leaky m"
  shows "case slot_of m of
      Some (Pending p) \<Rightarrow> (\<exists>t. slot_owners m = {(t, ps_session_id p)}) \<or> leaky \<and> slot_owners m = {}
    | _ \<Rightarrow> slot_owners m = {}"
proof -
  have inv: "inv_pending m" using reach_invariants [OF assms] by simp
  have own: "(\<exists>p. slot_of m = Some (Pending p) \<and> sid = ps_session_id p)" if "(t, sid) \<in> slot_owners m" for t sid
    using inv that unfolding inv_pending_def slot_owners_def by blast
  have same: "t' = t" if "(t, sid) \<in> slot_owners m" "(t', sid') \<in> slot_owners m" for t t' sid sid'
  proof -
    from that obtain k k' where "task_at m t = Some k" "pu_sid k = Some sid" "task_at m t' = Some k'" "pu_sid k' = Some sid'"
      unfolding slot_owners_def by blast
    then show ?thesis using inv unfolding inv_pending_def by (metis option.distinct(1))
  qed
  show ?thesis
  proof (cases "\<exists>p. slot_of m = Some (Pending p)")
    case True
    then obtain p where p: "slot_of m = Some (Pending p)" by blast
    have all: "slot_owners m = {(t, ps_session_id p)}" if "(t, sid) \<in> slot_owners m" for t sid
    proof -
      have "x = (t, ps_session_id p)" if x: "x \<in> slot_owners m" for x
      proof -
        obtain t' sid' where x': "x = (t', sid')" by (cases x)
        then have "sid' = ps_session_id p" using own [of t' sid'] x p by simp
        moreover have "t' = t" using same [OF \<open>(t, sid) \<in> slot_owners m\<close>, of t' sid'] x x' by simp
        ultimately show ?thesis using x' by simp
      qed
      moreover have "sid = ps_session_id p" using own [OF that] p by simp
      ultimately show ?thesis using that by blast
    qed
    have "slot_owners m \<noteq> {}" if "\<not> leaky"
    proof -
      have "reach ops lib False m" using assms that by simp
      from reach_owned [OF this] p show ?thesis unfolding inv_owned_def slot_owners_def by blast
    qed
    then show ?thesis using p all by (cases "slot_owners m = {}") auto
  next
    case False
    then have "slot_owners m = {}" using own by auto
    then show ?thesis using False by (auto split: option.split session_state.split)
  qed
qed

theorem pending_request_unique_witness:
  "slot_owners (pending_run sample_deciding) = {(0, ''s'')}"
proof -
  obtain t where "slot_owners (pending_run sample_deciding) = {(t, ''s'')}"
    using pending_request_unique [OF pending_run_reached [of False]] by auto
  moreover have "(0, ''s'') \<in> slot_owners (pending_run sample_deciding)"
    by (simp add: slot_owners_def pending_run_def)
  ultimately show ?thesis by simp
qed

text \<open>
  An active session always has a file that is not final, no file was attempted more than
  three times, and a file that may still be retried fewer.
\<close>

theorem active_session_open:
  assumes "reach ops lib leaky m" and "slot_of m = Some (Active us)"
  shows "(\<exists>fid f. hm_get (us_files us) fid = Some f \<and> \<not> is_final (sf_status f)) \<and>
    {(fid, f). hm_get (us_files us) fid = Some f} \<subseteq>
    {(fid, f). sf_attempts f \<le> MAX_UPLOAD_ATTEMPTS} \<inter> {(fid, f). sf_status f = File_Pending \<longrightarrow> sf_attempts f < MAX_UPLOAD_ATTEMPTS}"
proof -
  have ok: "session_ok us" using reach_invariants[OF assms(1)] assms(2) by (simp add: inv_session_def)
  then have "attempts_ok f" if "hm_get (us_files us) fid = Some f" for fid f
    using that by (auto simp: session_ok_def)
  with ok show ?thesis
    by (auto simp: session_ok_def is_complete_iff attempts_ok_def MAX_UPLOAD_ATTEMPTS_def word_le_nat_alt word_less_nat_alt)
qed

theorem active_session_open_witness:
  "\<exists>us fid f. slot_of (activated_run []) = Some (Active us) \<and> hm_get (us_files us) fid = Some f \<and> \<not> is_final (sf_status f)"
  using active_session_open[OF activated_run_reached[of _ False]] by (simp add: activated_run_def)

text \<open>
  C5: While the session of an upload is active, its file is in progress and no other upload
  request is writing the same file.
\<close>

theorem one_writer_per_file:
  assumes "reach ops lib leaky m" and "slot_of m = Some (Active us)"
    and "task_at m t = Some k" and "up_key k = Some (us_session_id us, fid)"
  shows "(\<exists>f. hm_get (us_files us) fid = Some f \<and> sf_status f = File_InProgress) \<and>
    {t'. \<exists>k'. task_at m t' = Some k' \<and> up_key k' = Some (us_session_id us, fid)} = {t}"
proof -
  have inv: "inv_upload m" using reach_invariants[OF assms(1)] by simp
  have "(t, us_session_id us, fid) \<in> up_keys m" using assms(3,4) by (rule up_keys_at)
  then have "(\<exists>f. hm_get (us_files us) fid = Some f \<and> sf_status f = File_InProgress) \<and>
           (\<forall>t'. (t', us_session_id us, fid) \<in> up_keys m \<longrightarrow> t' = t)"
    using inv assms(2) unfolding up_inv_def by blast
  then show ?thesis using assms(3,4) by (auto simp: up_keys_def)
qed

theorem one_writer_per_file_witness:
  "{t'. \<exists>k'. task_at uploading_run t' = Some k' \<and> up_key k' = Some (''s'', ''a'')} = {0}"
  using one_writer_per_file [OF uploading_run_reached [of False], of _ 0 _ "''a''"]
  by (simp add: uploading_run_def activated_run_def)

text \<open>
  C7: If no handler is dropped between disarming its guard and cleaning up, then once every request
  is done the slot is free or holds an incomplete session without a file in progress: neither
  a pending claim nor an upload slot is left behind.
\<close>

theorem idle_server_holds_nothing:
  assumes "reach ops lib False m" and "m_tasks m = []"
  shows "case slot_of m of
      None \<Rightarrow> True
    | Some (Pending p) \<Rightarrow> False
    | Some (Active us) \<Rightarrow> \<not> is_complete us \<and> File_InProgress \<notin> sf_status ` ran (hm_get (us_files us))"
proof -
  have "inv_owned m" using reach_owned[OF assms(1)] by simp
  moreover have "inv_session m" using reach_invariants[OF assms(1)] by simp
  moreover have "File_InProgress \<notin> sf_status ` ran (hm_get (us_files us))"
    if "slot_of m = Some (Active us)" for us
    using calculation(1) that assms(2) unfolding inv_owned_def ran_def by fastforce
  ultimately show ?thesis using assms(2)
    by (auto simp: inv_owned_def inv_session_def session_ok_def split: option.split session_state.split)
qed


theorem idle_server_holds_nothing_witness:
  "case slot_of (activated_run []) of
      Some (Active us) \<Rightarrow> \<not> is_complete us \<and> File_InProgress \<notin> sf_status ` ran (hm_get (us_files us))
    | _ \<Rightarrow> False"
  using idle_server_holds_nothing[OF activated_run_reached[of False False, simplified]] by (simp add: activated_run_def)

text \<open>
  A cancellation that arrives after the application has accepted, but before the handler locks
  the slot again, is lost: the sender is answered 200, its token is cancelled, and the session
  becomes active nevertheless.
\<close>

theorem cancelled_session_activated:
  "\<exists>us. slot_of (activated_run [''s'']) = Some (Active us) \<and> us_session_id us \<in> set (v2_cancelled (m_v2 (activated_run [''s''])))
     \<and> reach list_lru sample_lib False (activated_run [''s''])"
  using activated_run_reached[of False True] by (simp add: activated_run_def)

text \<open>
  \<open>PendingSessionGuard::clear\<close> disarms the guard before it awaits the lock. A connection
  dropped there leaves the slot pending without a request, and no later step frees it: every
  later prepare-upload request is refused as blocked.
\<close>

theorem disarmed_drop_leaks_slot:
  "\<exists>m p. reach list_lru sample_lib True m \<and> m_tasks m = [] \<and>
     slot_of ` {m'. mrun list_lru sample_lib m m'} = {Some (Pending p)}"
proof -
  let ?m0 = "pending_run sample_deciding"
  let ?m1 = "m_put 0 (Pu_Clearing ''s'') (m_v2 ?m0) ?m0"
  let ?mx = "m_end 0 (m_v2 ?m1) ?m1"
  have "mstep list_lru sample_lib False ?m0 ?m1" 
    by (rule decision_decline[where ci = sample_client and payload = sample_payload]) (simp add: pending_run_def)
  from reach_step[OF pending_run_reached this] have 1: "reach list_lru sample_lib True ?m1" by simp
  have "mstep list_lru sample_lib True ?m1 ?mx" by (rule drop_disarmed[where k = "Pu_Clearing ''s''"]) simp_all
  from reach_step[OF 1 this] have 2: "reach list_lru sample_lib True ?mx" by simp
  have none: "m_tasks ?mx = []" by (simp add: pending_run_def)
  then have "orphaned ?mx" by (simp add: orphaned_def)
  moreover have "slot_of ?mx = Some (Pending \<lparr>ps_session_id = ''s'', ps_sender_ip = sample_peer\<rparr>)" by simp
  ultimately show ?thesis using 2 none orphaned_slots by blast
qed

text \<open>
  C6: The end of a session is reported to the application at most once, and never while the
  session still holds the slot: events sent, tasks about to send one and the slot itself
  together count each session id at most once.
\<close>

theorem session_end_once:
  assumes "reach ops lib leaky m"
  shows "count_list (map end_of (v2_events (m_v2 m))) (Some sid) + card {t. (t, sid) \<in> end_tasks m}
    + (if slot_id (slot_of m) = Some sid then 1 else 0) \<le> 1"
proof -
  have inv: "inv_end m" by (rule reach_end[OF assms])
  show ?thesis
  proof (cases "\<exists>t. (t, sid) \<in> end_tasks m")
    case True
    then obtain t where t: "(t, sid) \<in> end_tasks m" by blast
    then have "{t. (t, sid) \<in> end_tasks m} = {t}" using inv unfolding end_inv_def by blast
    then show ?thesis using t inv unfolding end_inv_def end_count_def by auto
  next
    case False
    then show ?thesis using inv unfolding end_inv_def end_count_def by auto
  qed
qed


theorem session_end_once_witness:
  "card {t. (t, ''s'') \<in> end_tasks (activated_run [])} = 0 \<and>
   ''s'' \<notin> {sid. Ev_Session_End sid End_Finished \<in> set (v2_events (m_v2 (activated_run [])))}"
  using session_end_once [OF activated_run_reached [of False False, simplified], of "''s''"]
  by (auto simp: activated_run_def pu_event_def)

end
