(* ===== verification/Rtc_Channel.thy ===== *)
theory Rtc_Channel
  imports Token Http_Types
begin

text \<open>
  The data channel of a WebRTC transfer (\<open>webrtc/webrtc.rs\<close>): its messages, the splitting of
  data into chunks and their reassembly, and the PIN challenge.

  The channel delivers messages in order. A routine is a function from the messages it will
  receive to its result; the end of the list is the closed channel. JSON is printed and
  parsed by \<open>serde_json\<close>, whose functions for the message types are the fields of \<open>rtc_codec\<close>.
\<close>

section \<open>Messages\<close>

record channel_message =
  cm_is_string :: bool
  cm_data :: bytes

definition text_message :: "bytes \<Rightarrow> channel_message" where
  "text_message d = \<lparr>cm_is_string = True, cm_data = d\<rparr>"

definition binary_message :: "bytes \<Rightarrow> channel_message" where
  "binary_message d = \<lparr>cm_is_string = False, cm_data = d\<rparr>"

lemma message_simps [simp]:
  "cm_is_string (text_message d)" "\<not> cm_is_string (binary_message d)"
  "cm_data (text_message d) = d" "cm_data (binary_message d) = d"
  by (simp_all add: text_message_def binary_message_def)

text \<open>The delimiter is the text \<open>0\<close>.\<close>

definition delimiter :: channel_message where
  "delimiter = text_message [48]"

definition is_delimiter :: "channel_message \<Rightarrow> bool" where
  "is_delimiter msg \<longleftrightarrow> cm_is_string msg \<and> length (cm_data msg) \<le> 1"

lemma is_delimiter_delimiter [simp]: "is_delimiter delimiter" "cm_is_string delimiter"
  by (simp_all add: is_delimiter_def delimiter_def)

text \<open>The JSON messages; a codec is the printer and the parser of one type.\<close>

datatype rtc_token_response =
    Token_Ok string
  | Token_Pin_Required string
  | Token_Invalid_Signature

datatype rtc_pin_receiving_response = Receiving_Ok | Receiving_Pin_Required | Receiving_Too_Many

datatype rtc_pin_sending_response =
    Sending_Ok "file_dto list"
  | Sending_Pin_Required
  | Sending_Too_Many

datatype rtc_file_list_response =
    Files_Ok "(string, string) hmap"
  | Files_Pair string
  | Files_Declined
  | Files_Invalid_Signature

datatype rtc_pair_response = Pair_Ok string | Pair_Declined | Pair_Invalid_Signature

record rtc_send_file_header =
  hd_id :: string
  hd_token :: string

record rtc_send_file_response =
  fr_id :: string
  fr_success :: bool
  fr_error :: "string option"

record 'a codec =
  co_enc :: "'a \<Rightarrow> bytes"
  co_dec :: "bytes \<Rightarrow> 'a option"

definition codec_ok :: "'a codec \<Rightarrow> bool" where
  "codec_ok c \<longleftrightarrow> (\<forall>x. co_dec c (co_enc c x) = Some x)"

record rtc_codec =
  jx_nonce :: "string codec"
  jx_token_request :: "string codec"
  jx_token_response :: "rtc_token_response codec"
  jx_pin :: "string codec"
  jx_receiving :: "rtc_pin_receiving_response codec"
  jx_sending :: "rtc_pin_sending_response codec"
  jx_file_list :: "rtc_file_list_response codec"
  jx_pair :: "rtc_pair_response codec"
  jx_header :: "rtc_send_file_header codec"
  jx_file_response :: "rtc_send_file_response codec"

definition send_json :: "'a codec \<Rightarrow> 'a \<Rightarrow> channel_message" where
  "send_json c x = text_message (co_enc c x)"

lemma send_json_simps [simp]:
  "cm_is_string (send_json c x)" "cm_data (send_json c x) = co_enc c x"
  by (simp_all add: send_json_def)

section \<open>Chunks\<close>

definition CHUNK_SIZE :: nat where
  "CHUNK_SIZE = 16 * 1024"

lemma CHUNK_SIZE_pos [simp]: "0 < CHUNK_SIZE" "CHUNK_SIZE \<noteq> 0"
  by (simp_all add: CHUNK_SIZE_def)

text \<open>
  The callback hands the channel on, or fails; the inner loop sends full chunks while the
  buffer holds one.
\<close>

function drain_buffer ::
  "('t \<Rightarrow> bytes \<Rightarrow> 'e + 't) \<Rightarrow> 't \<Rightarrow> bytes \<Rightarrow> 'e + 't \<times> bytes" where
  "drain_buffer callback channel buffer =
     (if length buffer \<ge> CHUNK_SIZE then
        (case callback channel (take CHUNK_SIZE buffer) of
           Inl e \<Rightarrow> Inl e
         | Inr channel \<Rightarrow> drain_buffer callback channel (drop CHUNK_SIZE buffer))
      else Inr (channel, buffer))"
  by pat_completeness auto
termination
  by (relation "measure (\<lambda>(callback, channel, buffer). length buffer)") (auto simp: CHUNK_SIZE_def)

declare drain_buffer.simps [simp del]

fun process_in_chunks ::
  "('t \<Rightarrow> bytes \<Rightarrow> 'e + 't) \<Rightarrow> 't \<Rightarrow> bytes \<Rightarrow> bytes list \<Rightarrow> 'e + 't" where
  "process_in_chunks callback channel buffer [] =
     (if buffer \<noteq> [] then callback channel buffer else Inr channel)"
| "process_in_chunks callback channel buffer (data # rx) =
     (case drain_buffer callback channel (buffer @ data) of
        Inl e \<Rightarrow> Inl e
      | Inr (channel, buffer) \<Rightarrow> process_in_chunks callback channel buffer rx)"

definition send_string_in_chunks ::
  "('t \<Rightarrow> bytes \<Rightarrow> 'e + 't) \<Rightarrow> 't \<Rightarrow> bytes \<Rightarrow> 'e + 't" where
  "send_string_in_chunks callback channel text = process_in_chunks callback channel [] [text]"

text \<open>The bytes up to the next text message, and the messages after it.\<close>

fun receive_string_from_chunks :: "channel_message list \<Rightarrow> bytes \<times> channel_message list" where
  "receive_string_from_chunks [] = ([], [])"
| "receive_string_from_chunks (msg # rx) =
     (if cm_is_string msg then ([], rx)
      else (let (d, rest) = receive_string_from_chunks rx in (cm_data msg @ d, rest)))"

subsection \<open>What the chunks are\<close>

text \<open>Cutting a byte string every \<open>CHUNK_SIZE\<close> bytes.\<close>

function chunks_of :: "bytes \<Rightarrow> bytes list" where
  "chunks_of d = (if d = [] then [] else take CHUNK_SIZE d # chunks_of (drop CHUNK_SIZE d))"
  by pat_completeness auto
termination
  by (relation "measure length") (auto simp: CHUNK_SIZE_def)

declare chunks_of.simps [simp del]

lemma chunks_of_Nil [simp]: "chunks_of [] = []"
  by (simp add: chunks_of.simps)

lemma chunks_of_short: "d \<noteq> [] \<Longrightarrow> length d \<le> CHUNK_SIZE \<Longrightarrow> chunks_of d = [d]"
  by (subst chunks_of.simps) simp

lemma chunks_of_long: "length d \<ge> CHUNK_SIZE \<Longrightarrow> chunks_of d = take CHUNK_SIZE d # chunks_of (drop CHUNK_SIZE d)"
  by (subst chunks_of.simps) (auto simp: CHUNK_SIZE_def)

lemma chunks_of_not_Nil: "d \<noteq> [] \<Longrightarrow> chunks_of d \<noteq> []"
  by (subst chunks_of.simps) simp

lemma concat_chunks_of [simp]: "concat (chunks_of d) = d"
proof (induction d rule: chunks_of.induct)
  case (1 d)
  then show ?case by (cases "d = []") (simp_all add: chunks_of.simps [of d])
qed

lemma chunks_of_sizes: "c \<in> set (chunks_of d) \<Longrightarrow> c \<noteq> [] \<and> length c \<le> CHUNK_SIZE"
proof (induction d rule: chunks_of.induct)
  case (1 d)
  then show ?case by (cases "d = []") (auto simp: chunks_of.simps [of d])
qed

text \<open>A callback run over a list of chunks.\<close>

fun each_chunk :: "('t \<Rightarrow> bytes \<Rightarrow> 'e + 't) \<Rightarrow> 't \<Rightarrow> bytes list \<Rightarrow> 'e + 't" where
  "each_chunk callback channel [] = Inr channel"
| "each_chunk callback channel (c # cs) =
     (case callback channel c of Inl e \<Rightarrow> Inl e | Inr channel \<Rightarrow> each_chunk callback channel cs)"

lemma drain_then_rest:
  "(case drain_buffer callback channel buffer of
      Inl e \<Rightarrow> Inl e
    | Inr (channel', rest) \<Rightarrow> each_chunk callback channel' (chunks_of (rest @ later))) =
   each_chunk callback channel (chunks_of (buffer @ later))"
proof (induction callback channel buffer rule: drain_buffer.induct)
  case (1 callback channel buffer)
  show ?case
  proof (cases "length buffer \<ge> CHUNK_SIZE")
    case True
    then have "chunks_of (buffer @ later) =
        take CHUNK_SIZE buffer # chunks_of (drop CHUNK_SIZE buffer @ later)"
      by (subst chunks_of_long) simp_all
    then show ?thesis
      using True 1 by (subst drain_buffer.simps) (auto split: sum.split)
  next
    case False
    then show ?thesis by (subst drain_buffer.simps) simp
  qed
qed

lemma drain_rest_short:
  "drain_buffer callback channel buffer = Inr (channel', rest) \<Longrightarrow> length rest < CHUNK_SIZE"
proof (induction callback channel buffer rule: drain_buffer.induct)
  case (1 callback channel buffer)
  then show ?case
    by (subst (asm) (2) drain_buffer.simps) (auto split: if_splits sum.splits)
qed

lemma process_in_chunks_eq:
  assumes "length buffer < CHUNK_SIZE"
  shows "process_in_chunks callback channel buffer rx =
    each_chunk callback channel (chunks_of (buffer @ concat rx))"
  using assms
proof (induction rx arbitrary: channel buffer)
  case Nil
  then show ?case by (cases "buffer = []") (auto simp: chunks_of_short split: sum.split)
next
  case (Cons data rx)
  have "process_in_chunks callback channel buffer (data # rx) =
      (case drain_buffer callback channel (buffer @ data) of
         Inl e \<Rightarrow> Inl e
       | Inr (channel', rest) \<Rightarrow> each_chunk callback channel' (chunks_of (rest @ concat rx)))"
  proof (cases "drain_buffer callback channel (buffer @ data)")
    case (Inr x)
    obtain channel' rest where x: "x = (channel', rest)" by fastforce
    with Inr have "drain_buffer callback channel (buffer @ data) = Inr (channel', rest)" by simp
    then have "length rest < CHUNK_SIZE" by (rule drain_rest_short)
    then show ?thesis using Cons.IH Inr x by simp
  qed simp
  then show ?case using drain_then_rest [where buffer = "buffer @ data" and later = "concat rx"] by simp
qed

text \<open>The callback that sends a chunk as a binary message.\<close>

definition send_binary :: "channel_message list \<Rightarrow> bytes \<Rightarrow> unit + channel_message list" where
  "send_binary sent chunk = Inr (sent @ [binary_message chunk])"

lemma each_chunk_send: "each_chunk send_binary sent cs = Inr (sent @ map binary_message cs)"
  by (induction cs arbitrary: sent) (simp_all add: send_binary_def)

lemma receive_chunks:
  "cm_is_string end_mark \<Longrightarrow>
     receive_string_from_chunks (map binary_message cs @ end_mark # rest) = (concat cs, rest)"
  by (induction cs) simp_all

section \<open>The PIN challenge\<close>

record pin_config =
  pc_pin :: string
  pc_max_tries :: u8

datatype verify_pin_result = Vp_Pin_Required | Vp_Too_Many_Attempts

text \<open>How the challenge ends, for either side.\<close>

datatype 'a pin_end =
    Pin_Ok 'a
  | Pin_Too_Many
  | Pin_Channel_Closed
  | Pin_Parse_Error
  | Pin_Not_Provided
  | Pin_Not_Text

text \<open>
  The verifying side. \<open>dec\<close> parses a PIN message (of either kind); \<open>notice\<close> is
  \<open>send_initial_notice\<close>. The result comes with the notices sent and the messages left.
\<close>

fun verify_pin_loop ::
  "(bytes \<Rightarrow> string option) \<Rightarrow> pin_config \<Rightarrow> bool \<Rightarrow> u8 \<Rightarrow> string \<Rightarrow> channel_message list
     \<Rightarrow> unit pin_end \<times> verify_pin_result list \<times> channel_message list" where
  "verify_pin_loop dec config notice pin_try remote_pin rx =
     (if remote_pin = pc_pin config then (Pin_Ok (), [], rx)
      else if pin_try \<ge> pc_max_tries config then (Pin_Too_Many, [Vp_Too_Many_Attempts], rx)
      else
        (let notices = (if notice \<or> pin_try > 0 then [Vp_Pin_Required] else []) in
         case rx of
           [] \<Rightarrow> (Pin_Channel_Closed, notices, [])
         | msg # rx \<Rightarrow>
             (case dec (cm_data msg) of
                None \<Rightarrow> (Pin_Parse_Error, notices, rx)
              | Some pin \<Rightarrow>
                  (let (r, sent, rest) = verify_pin_loop dec config False (pin_try + 1) pin rx
                   in (r, notices @ sent, rest)))))"

declare verify_pin_loop.simps [simp del]

definition verify_pin ::
  "(bytes \<Rightarrow> string option) \<Rightarrow> pin_config \<Rightarrow> bool \<Rightarrow> channel_message list
     \<Rightarrow> unit pin_end \<times> verify_pin_result list \<times> channel_message list" where
  "verify_pin dec config send_initial_notice rx =
     verify_pin_loop dec config send_initial_notice 0 [] rx"

text \<open>
  The proving side: it asks the user for a PIN, sends it and reads the answer, in chunks or as
  one text message. \<open>pins\<close> are the answers of the user; the result comes with the PINs sent and
  the messages left.
\<close>

datatype 'a challenge_result =
  Ch_Ok 'a | Ch_Pin_Required | Ch_Too_Many_Attempts | Ch_Parse_Error

definition receive_pin_response ::
  "bool \<Rightarrow> channel_message list \<Rightarrow> ('e pin_end + bytes) \<times> channel_message list" where
  "receive_pin_response receive_in_chunks rx =
     (if receive_in_chunks
      then (let (d, rest) = receive_string_from_chunks rx in (Inr d, rest))
      else
        (case rx of
           [] \<Rightarrow> (Inl Pin_Channel_Closed, [])
         | msg # rx \<Rightarrow>
             if \<not> cm_is_string msg then (Inl Pin_Not_Text, rx) else (Inr (cm_data msg), rx)))"

fun handle_pin ::
  "bool \<Rightarrow> (bytes \<Rightarrow> 'a challenge_result) \<Rightarrow> string list \<Rightarrow> channel_message list
     \<Rightarrow> 'a pin_end \<times> string list \<times> channel_message list" where
  "handle_pin in_chunks parse_response [] rx = (Pin_Not_Provided, [], rx)"
| "handle_pin in_chunks parse_response (pin # pins) rx =
     (case receive_pin_response in_chunks rx of
        (Inl e, rx) \<Rightarrow> (e, [pin], rx)
      | (Inr d, rx) \<Rightarrow>
          (case parse_response d of
             Ch_Ok x \<Rightarrow> (Pin_Ok x, [pin], rx)
           | Ch_Pin_Required \<Rightarrow>
               (let (r, sent, rest) = handle_pin in_chunks parse_response pins rx
                in (r, pin # sent, rest))
           | Ch_Too_Many_Attempts \<Rightarrow> (Pin_Too_Many, [pin], rx)
           | Ch_Parse_Error \<Rightarrow> (Pin_Parse_Error, [pin], rx)))"

text \<open>The parsers the two peers pass, and the notices they send.\<close>

definition receiving_to_challenge ::
  "rtc_codec \<Rightarrow> bytes \<Rightarrow> unit challenge_result" where
  "receiving_to_challenge jx d =
     (case co_dec (jx_receiving jx) d of
        None \<Rightarrow> Ch_Parse_Error
      | Some Receiving_Ok \<Rightarrow> Ch_Ok ()
      | Some Receiving_Pin_Required \<Rightarrow> Ch_Pin_Required
      | Some Receiving_Too_Many \<Rightarrow> Ch_Too_Many_Attempts)"

definition sending_to_challenge ::
  "rtc_codec \<Rightarrow> bytes \<Rightarrow> file_dto list challenge_result" where
  "sending_to_challenge jx d =
     (case co_dec (jx_sending jx) d of
        None \<Rightarrow> Ch_Parse_Error
      | Some (Sending_Ok files) \<Rightarrow> Ch_Ok files
      | Some Sending_Pin_Required \<Rightarrow> Ch_Pin_Required
      | Some Sending_Too_Many \<Rightarrow> Ch_Too_Many_Attempts)"

fun receiving_notice :: "verify_pin_result \<Rightarrow> rtc_pin_receiving_response" where
  "receiving_notice Vp_Pin_Required = Receiving_Pin_Required"
| "receiving_notice Vp_Too_Many_Attempts = Receiving_Too_Many"

text \<open>What the receiving peer sends in its challenge: the notices, and \<open>Ok\<close> when it passed.\<close>

definition receiver_challenge_replies ::
  "rtc_codec \<Rightarrow> unit pin_end \<times> verify_pin_result list \<times> channel_message list
     \<Rightarrow> channel_message list" where
  "receiver_challenge_replies jx out =
     (case out of (r, notices, rest) \<Rightarrow>
        map (\<lambda>n. send_json (jx_receiving jx) (receiving_notice n)) notices @
        (if r = Pin_Ok () then [send_json (jx_receiving jx) Receiving_Ok] else []))"

subsection \<open>The verifier\<close>

lemma verify_pin_loop_pass:
  "verify_pin_loop dec config notice n (pc_pin config) rx = (Pin_Ok (), [], rx)"
  by (subst verify_pin_loop.simps) simp

text \<open>Its outcome and the messages it reads, for messages that all parse.\<close>

lemma verify_pin_loop_outcome:
  assumes "map (dec \<circ> cm_data) ms = map Some pins"
  shows "\<exists>sent rest. verify_pin_loop dec config notice n remote ms =
      ((if remote = pc_pin config \<or> pc_pin config \<in> set (take (unat (pc_max_tries config) - unat n) pins)
        then Pin_Ok ()
        else if unat (pc_max_tries config) \<le> unat n + length pins then Pin_Too_Many
        else Pin_Channel_Closed), sent, rest) \<and>
    length ms \<le> length rest + (unat (pc_max_tries config) - unat n)"
  using assms
proof (induction pins arbitrary: ms notice n remote)
  case Nil
  then show ?case by (subst verify_pin_loop.simps) (auto simp: word_le_nat_alt Let_def)
next
  case (Cons p pins)
  then obtain m ms' where ms: "ms = m # ms'" "dec (cm_data m) = Some p"
    and tail: "map (dec \<circ> cm_data) ms' = map Some pins"
    by (cases ms) (auto simp: comp_def)
  show ?case
  proof (cases "remote = pc_pin config \<or> pc_max_tries config \<le> n")
    case True
    then show ?thesis by (subst verify_pin_loop.simps) (auto simp: word_le_nat_alt)
  next
    case False
    then have less: "unat n < unat (pc_max_tries config)" by (simp add: word_le_nat_alt)
    then have inc: "unat (n + 1) = unat n + 1"
      using unsigned_less [of "pc_max_tries config", where 'a = nat]
      by (intro u8_saturating_bound) simp
    obtain k where k: "unat (pc_max_tries config) - unat n = Suc k" using less by (metis Suc_diff_Suc)
    then have k': "unat (pc_max_tries config) - unat (n + 1) = k" using inc by simp
    show ?thesis
      using Cons.IH [OF tail, of False "n + 1" p] False ms less inc k k'
      by (subst verify_pin_loop.simps) (auto simp: Let_def split: prod.splits)
  qed
qed

subsection \<open>Both sides of a challenge\<close>

definition receiver_outcome :: "unit pin_end \<Rightarrow> unit pin_end" where
  "receiver_outcome r = (if r = Pin_Channel_Closed then Pin_Not_Provided else r)"

lemma challenge_step:
  assumes "codec_ok (jx_pin jx)" and "codec_ok (jx_receiving jx)" and "0 < unat n"
    and "r = verify_pin_loop (co_dec (jx_pin jx)) config False n p (map (send_json (jx_pin jx)) pins)"
  shows "fst (handle_pin False (receiving_to_challenge jx) (p # pins) (receiver_challenge_replies jx r)) =
    receiver_outcome (fst r)"
  using assms(3,4)
proof (induction pins arbitrary: n p r)
  case Nil
  then show ?case
    using assms(1,2)
    by (subst (asm) verify_pin_loop.simps)
      (auto simp: receiver_challenge_replies_def receive_pin_response_def receiving_to_challenge_def
        receiver_outcome_def codec_ok_def word_less_nat_alt)
next
  case (Cons q pins)
  let ?loop = "verify_pin_loop (co_dec (jx_pin jx)) config False"
  show ?case
  proof (cases "p = pc_pin config \<or> pc_max_tries config \<le> n")
    case True
    then show ?thesis
      using Cons.prems assms(1,2)
      by (subst (asm) verify_pin_loop.simps)
        (auto simp: receiver_challenge_replies_def receive_pin_response_def receiving_to_challenge_def
          receiver_outcome_def codec_ok_def)
  next
    case False
    then have less: "unat n < unat (pc_max_tries config)" by (simp add: word_le_nat_alt)
    then have inc: "unat (n + 1) = unat n + 1"
      using unsigned_less [of "pc_max_tries config", where 'a = nat] by (intro u8_saturating_bound) simp
    obtain e ns rest where loop: "?loop (n + 1) q (map (send_json (jx_pin jx)) pins) = (e, ns, rest)"
      by (metis prod_cases3)
    have "r = (e, Vp_Pin_Required # ns, rest)"
      using Cons.prems False loop assms(1) unfolding codec_ok_def
      by (subst (asm) verify_pin_loop.simps) (simp add: word_less_nat_alt Let_def)
    then have "fst (handle_pin False (receiving_to_challenge jx) (p # q # pins) (receiver_challenge_replies jx r)) =
        fst (handle_pin False (receiving_to_challenge jx) (q # pins) (receiver_challenge_replies jx (e, ns, rest)))"
      using assms(2) unfolding codec_ok_def
      by (simp add: receiver_challenge_replies_def receive_pin_response_def receiving_to_challenge_def
          split: prod.splits del: handle_pin.simps(2) add: handle_pin.simps(2) [of False _ p])
    also have "\<dots> = receiver_outcome e"
      using Cons.IH [of "n + 1" "(e, ns, rest)" q] loop inc by simp
    finally show ?thesis using \<open>r = (e, Vp_Pin_Required # ns, rest)\<close> by simp
  qed
qed

section \<open>A concrete codec\<close>

text \<open>
  Strings are their bytes; the other types that are used get a tag byte, and a header its two
  strings with the first one escaped.
\<close>

definition string_codec :: "string codec" where
  "string_codec = \<lparr>co_enc = map (\<lambda>c. of_nat (of_char c)),
     co_dec = (\<lambda>d. Some (map (\<lambda>b. char_of (unat b)) d))\<rparr>"

lemma byte_char [simp]: "char_of (unat (of_nat (of_char c) :: u8)) = (c :: char)"
  by (simp add: unat_of_nat)

lemma string_codec_ok: "codec_ok string_codec"
  by (simp add: codec_ok_def string_codec_def comp_def)

definition receiving_codec :: "rtc_pin_receiving_response codec" where
  "receiving_codec = \<lparr>
     co_enc = (\<lambda>x. case x of Receiving_Ok \<Rightarrow> [0] | Receiving_Pin_Required \<Rightarrow> [1] | Receiving_Too_Many \<Rightarrow> [2]),
     co_dec = (\<lambda>d. if d = [0] then Some Receiving_Ok else if d = [1] then Some Receiving_Pin_Required
                    else if d = [2] then Some Receiving_Too_Many else None)\<rparr>"

lemma receiving_codec_ok: "codec_ok receiving_codec"
  by (simp add: codec_ok_def receiving_codec_def split: rtc_pin_receiving_response.split)

fun split_escaped :: "bytes \<Rightarrow> (bytes \<times> bytes) option" where
  "split_escaped [] = None"
| "split_escaped (b # d) =
     (if b = 0 then Some ([], d)
      else (case d of
              [] \<Rightarrow> None
            | c # d \<Rightarrow> map_option (\<lambda>(x, y). (c # x, y)) (split_escaped d)))"

lemma split_escaped_concat: "split_escaped (concat (map (\<lambda>b. [1, b]) x) @ 0 # y) = Some (x, y)"
  by (induction x) simp_all

definition header_codec :: "rtc_send_file_header codec" where
  "header_codec = \<lparr>
     co_enc = (\<lambda>h. concat (map (\<lambda>b. [1, b]) (co_enc string_codec (hd_id h))) @
       0 # 0 # co_enc string_codec (hd_token h)),
     co_dec = (\<lambda>d. case split_escaped d of
        Some (i, _ # t) \<Rightarrow> (case (co_dec string_codec i, co_dec string_codec t) of
          (Some i, Some t) \<Rightarrow> Some \<lparr>hd_id = i, hd_token = t\<rparr> | _ \<Rightarrow> None)
      | _ \<Rightarrow> None)\<rparr>"

lemma header_codec_ok: "codec_ok header_codec"
  using string_codec_ok by (simp add: codec_ok_def header_codec_def split_escaped_concat)

lemma header_codec_delimiter: "co_dec header_codec [48] = None"
  by (simp add: header_codec_def)

definition no_codec :: "'a codec" where
  "no_codec = \<lparr>co_enc = (\<lambda>_. []), co_dec = (\<lambda>_. None)\<rparr>"

definition sample_codec :: rtc_codec where
  "sample_codec = \<lparr>jx_nonce = string_codec, jx_token_request = string_codec,
     jx_token_response = no_codec, jx_pin = string_codec, jx_receiving = receiving_codec,
     jx_sending = no_codec, jx_file_list = no_codec, jx_pair = no_codec, jx_header = header_codec,
     jx_file_response = no_codec\<rparr>"

section \<open>Properties\<close>

text \<open>
  The chunks that are sent do not depend on how the data arrives: the callback gets the
  data cut every 16 KiB, no chunk is empty or too long, only the last may be short, and
  together they are the data.
\<close>

theorem chunks_rebuffered:
  "process_in_chunks callback channel [] rx = each_chunk callback channel (chunks_of (concat rx)) \<and>
   concat (chunks_of (concat rx)) = concat rx \<and>
   set (chunks_of (concat rx)) \<subseteq> {c. c \<noteq> [] \<and> length c \<le> CHUNK_SIZE} \<and>
   set (butlast (chunks_of (concat rx))) \<subseteq> {c. length c = CHUNK_SIZE}"
proof -
  have "set (butlast (chunks_of d)) \<subseteq> {c. length c = CHUNK_SIZE}" for d
  proof (induction d rule: chunks_of.induct)
    case (1 d)
    show ?case
    proof (cases "length d \<le> CHUNK_SIZE")
      case True
      then show ?thesis by (cases "d = []") (simp_all add: chunks_of_short)
    next
      case False
      then show ?thesis using 1 by (cases "d = []") (auto simp: chunks_of_long chunks_of_not_Nil)
    qed
  qed
  moreover have "set (chunks_of d) \<subseteq> {c. c \<noteq> [] \<and> length c \<le> CHUNK_SIZE}" for d
    using chunks_of_sizes by blast
  ultimately show ?thesis by (simp add: process_in_chunks_eq [of "[]"])
qed

text \<open>
  A string sent in chunks and closed by the delimiter is received unchanged, and nothing
  beyond the delimiter is consumed.
\<close>

theorem chunked_string_roundtrip:
  "(case send_string_in_chunks send_binary [] text of
      Inl e \<Rightarrow> False
    | Inr sent \<Rightarrow> receive_string_from_chunks (sent @ delimiter # rest) = (text, rest))"
  unfolding send_string_in_chunks_def
  by (simp add: process_in_chunks_eq [of "[]"] each_chunk_send receive_chunks del: process_in_chunks.simps)

text \<open>
  The verifier of a PIN accepts exactly when the PIN is empty or among the first
  \<open>max_tries\<close> PINs it is sent, reads no more than that many messages, and refuses for good when
  they are used up.
\<close>

theorem verify_pin_outcome:
  assumes "map (dec \<circ> cm_data) rx = map Some pins"
  shows "fst (verify_pin dec config notice rx) =
      (if pc_pin config = [] \<or> pc_pin config \<in> set (take (unat (pc_max_tries config)) pins) then Pin_Ok ()
       else if unat (pc_max_tries config) \<le> length pins then Pin_Too_Many
       else Pin_Channel_Closed) \<and>
    length rx \<le> length (snd (snd (verify_pin dec config notice rx))) + unat (pc_max_tries config)"
  using verify_pin_loop_outcome [OF assms, of config notice 0 "[]"]
  by (auto simp: verify_pin_def split: if_splits)

theorem verify_pin_outcome_witness:
  "fst (verify_pin (co_dec string_codec) \<lparr>pc_pin = ''42'', pc_max_tries = 3\<rparr> True
      (map (send_json string_codec) [''1'', ''2'', ''3'', ''42''])) = Pin_Too_Many"
proof -
  let ?pins = "[''1'', ''2'', ''3'', ''42'']"
  have "map (co_dec string_codec \<circ> cm_data) (map (send_json string_codec) ?pins) = map Some ?pins"
    using string_codec_ok by (simp add: codec_ok_def)
  from verify_pin_outcome [OF this, of "\<lparr>pc_pin = ''42'', pc_max_tries = 3\<rparr>" True]
  show ?thesis by simp
qed

text \<open>
  The two sides of the receiver's challenge agree: whatever PINs the sending peer's user
  enters, it ends with the outcome the receiver reached (out of PINs where the receiver still
  waits for one), provided the PIN is not empty.
\<close>

theorem pin_challenge_agrees:
  assumes "codec_ok (jx_pin jx)" and "codec_ok (jx_receiving jx)"
    and "pc_pin config \<noteq> []" and "0 < pc_max_tries config"
  shows "fst (handle_pin False (receiving_to_challenge jx) (p # pins)
      (receiver_challenge_replies jx
        (verify_pin (co_dec (jx_pin jx)) config False (map (send_json (jx_pin jx)) (p # pins))))) =
    receiver_outcome
      (fst (verify_pin (co_dec (jx_pin jx)) config False (map (send_json (jx_pin jx)) (p # pins))))"
proof -
  have "verify_pin (co_dec (jx_pin jx)) config False (map (send_json (jx_pin jx)) (p # pins)) =
      verify_pin_loop (co_dec (jx_pin jx)) config False 1 p (map (send_json (jx_pin jx)) pins)"
    using assms unfolding verify_pin_def codec_ok_def
    by (subst verify_pin_loop.simps) (auto simp: word_less_nat_alt word_le_nat_alt split: prod.split)
  then show ?thesis
    using challenge_step [OF assms(1,2), of 1] by simp
qed

theorem pin_challenge_agrees_witness:
  "fst (handle_pin False (receiving_to_challenge sample_codec) [''1'', ''42'']
      (receiver_challenge_replies sample_codec
        (verify_pin (co_dec string_codec) \<lparr>pc_pin = ''42'', pc_max_tries = 3\<rparr> False
          (map (send_json string_codec) [''1'', ''42''])))) = Pin_Ok ()"
proof -
  let ?config = "\<lparr>pc_pin = ''42'', pc_max_tries = 3\<rparr>" and ?pins = "[''1'', ''42'']"
  have pin: "jx_pin sample_codec = string_codec" and recv: "jx_receiving sample_codec = receiving_codec"
    by (simp_all add: sample_codec_def)
  have "map (co_dec string_codec \<circ> cm_data) (map (send_json string_codec) ?pins) = map Some ?pins"
    using string_codec_ok by (simp add: codec_ok_def)
  from verify_pin_loop_outcome [OF this, of ?config False 0 "[]"]
  have "fst (verify_pin (co_dec string_codec) ?config False (map (send_json string_codec) ?pins)) = Pin_Ok ()"
    by (auto simp: verify_pin_def)
  then show ?thesis
    using pin_challenge_agrees [of sample_codec ?config "''1''" "[''42'']"] string_codec_ok receiving_codec_ok
    by (simp add: pin recv receiver_outcome_def)
qed

end
