(* ===== verification/Rtc_Handshake.thy ===== *)
theory Rtc_Handshake
  imports Rtc_Channel
begin

text \<open>
  The handshake of a WebRTC transfer up to the selection of files (\<open>webrtc/webrtc.rs\<close>), for the
  sending peer (\<open>send_offer\<close>) and the receiving peer (\<open>accept_offer\<close>): exchange of nonces and
  tokens, the PIN challenges, the file list and the answer to it.

  A task is a function of what it will receive; it returns a result and what it has sent and
  reported. An early \<open>return Ok(())\<close>, an error and a panic of the task are results of their own.
\<close>

section \<open>Tasks\<close>

datatype rtc_status =
    St_Sdp_Exchanged
  | St_Connected
  | St_Pin_Required
  | St_Too_Many_Attempts
  | St_Declined
  | St_Sending
  | St_Finished
  | St_Error string

text \<open>\<open>io_net k\<close> tells whether the \<open>k\<close>-th message can be sent.\<close>

record rtc_io =
  io_rx :: "channel_message list"
  io_tx :: "channel_message list"
  io_status :: "rtc_status list"
  io_net :: "nat \<Rightarrow> bool"

datatype 'a rtc_result = Rtc_Ok 'a | Rtc_Returned | Rtc_Err string | Rtc_Panicked

type_synonym 'a rtc = "rtc_io \<Rightarrow> 'a rtc_result \<times> rtc_io"

definition rtc_return :: "'a \<Rightarrow> 'a rtc" where
  "rtc_return x io = (Rtc_Ok x, io)"

definition rtc_fail :: "string \<Rightarrow> 'a rtc" where
  "rtc_fail e io = (Rtc_Err e, io)"

definition rtc_end :: "'a rtc" where
  "rtc_end io = (Rtc_Returned, io)"

definition rtc_bind :: "'a rtc \<Rightarrow> ('a \<Rightarrow> 'b rtc) \<Rightarrow> 'b rtc" where
  "rtc_bind m f io =
     (case m io of
        (Rtc_Ok x, io) \<Rightarrow> f x io
      | (Rtc_Returned, io) \<Rightarrow> (Rtc_Returned, io)
      | (Rtc_Err e, io) \<Rightarrow> (Rtc_Err e, io)
      | (Rtc_Panicked, io) \<Rightarrow> (Rtc_Panicked, io))"

definition rtc_send :: "channel_message \<Rightarrow> unit rtc" where
  "rtc_send msg io =
     (if io_net io (length (io_tx io)) then (Rtc_Ok (), io\<lparr>io_tx := io_tx io @ [msg]\<rparr>)
      else (Rtc_Err ''Failed to send'', io))"

definition rtc_recv :: "channel_message option rtc" where
  "rtc_recv io =
     (case io_rx io of
        [] \<Rightarrow> (Rtc_Ok None, io)
      | msg # rx \<Rightarrow> (Rtc_Ok (Some msg), io\<lparr>io_rx := rx\<rparr>))"

definition rtc_report :: "rtc_status \<Rightarrow> unit rtc" where
  "rtc_report st io = (Rtc_Ok (), io\<lparr>io_status := io_status io @ [st]\<rparr>)"

definition rtc_run :: "'a run \<Rightarrow> 'a rtc" where
  "rtc_run r io = (case r of Done x \<Rightarrow> (Rtc_Ok x, io) | Panicked \<Rightarrow> (Rtc_Panicked, io))"

text \<open>A text message, parsed; anything else is an error.\<close>

definition rtc_recv_json :: "'a codec \<Rightarrow> string \<Rightarrow> 'a rtc" where
  "rtc_recv_json c closed =
     rtc_bind rtc_recv (\<lambda>m. case m of
        None \<Rightarrow> rtc_fail closed
      | Some msg \<Rightarrow>
          if \<not> cm_is_string msg then rtc_fail ''Expected string message''
          else (case co_dec c (cm_data msg) of
                  None \<Rightarrow> rtc_fail ''Failed to parse''
                | Some x \<Rightarrow> rtc_return x))"

text \<open>A JSON text sent in chunks and closed by the delimiter, and its reception.\<close>

definition send_rtc_chunk :: "rtc_io \<Rightarrow> bytes \<Rightarrow> rtc_io + rtc_io" where
  "send_rtc_chunk io chunk =
     (case rtc_send (binary_message chunk) io of
        (Rtc_Ok _, io) \<Rightarrow> Inr io
      | (_, io) \<Rightarrow> Inl io)"

definition rtc_send_chunks :: "bytes \<Rightarrow> unit rtc" where
  "rtc_send_chunks text io =
     (case send_string_in_chunks send_rtc_chunk io text of
        Inl io \<Rightarrow> (Rtc_Err ''Failed to send'', io)
      | Inr io \<Rightarrow> (Rtc_Ok (), io))"

definition rtc_send_chunked :: "'a codec \<Rightarrow> 'a \<Rightarrow> unit rtc" where
  "rtc_send_chunked c x = rtc_bind (rtc_send_chunks (co_enc c x)) (\<lambda>_. rtc_send delimiter)"

definition rtc_recv_chunked :: "bytes rtc" where
  "rtc_recv_chunked io =
     (let (d, rest) = receive_string_from_chunks (io_rx io) in (Rtc_Ok d, io\<lparr>io_rx := rest\<rparr>))"

definition rtc_recv_chunked_json :: "'a codec \<Rightarrow> 'a rtc" where
  "rtc_recv_chunked_json c =
     rtc_bind rtc_recv_chunked (\<lambda>d. case co_dec c d of
        None \<Rightarrow> rtc_fail ''Failed to deserialize file list response''
      | Some x \<Rightarrow> rtc_return x)"

section \<open>Nonces\<close>

definition receive_nonce ::
  "rtc_codec \<Rightarrow> ('sk, 'ek, 'rk, 'z) crypto_lib_scheme \<Rightarrow> bytes rtc" where
  "receive_nonce jx lib =
     rtc_bind (rtc_recv_json (jx_nonce jx) ''Failed to receive nonce'') (\<lambda>nonce_msg.
       case cl_b64_decode lib nonce_msg of
         None \<Rightarrow> rtc_fail ''Failed to decode remote nonce''
       | Some remote_nonce \<Rightarrow>
           if \<not> validate_nonce remote_nonce then rtc_fail ''Invalid remote nonce''
           else rtc_return remote_nonce)"

definition sender_nonce ::
  "rtc_codec \<Rightarrow> ('sk, 'ek, 'rk, 'z) crypto_lib_scheme \<Rightarrow> (nat \<Rightarrow> u8) \<Rightarrow> bytes rtc" where
  "sender_nonce jx lib random =
     (let local_nonce = generate_nonce random in
      rtc_bind (rtc_send (send_json (jx_nonce jx) (cl_b64_encode lib local_nonce))) (\<lambda>_.
      rtc_bind (receive_nonce jx lib) (\<lambda>remote_nonce.
      rtc_return (local_nonce @ remote_nonce))))"

definition receiver_nonce ::
  "rtc_codec \<Rightarrow> ('sk, 'ek, 'rk, 'z) crypto_lib_scheme \<Rightarrow> (nat \<Rightarrow> u8) \<Rightarrow> bytes rtc" where
  "receiver_nonce jx lib random =
     rtc_bind (receive_nonce jx lib) (\<lambda>remote_nonce.
     (let local_nonce = generate_nonce random in
      rtc_bind (rtc_send (send_json (jx_nonce jx) (cl_b64_encode lib local_nonce))) (\<lambda>_.
      rtc_return (remote_nonce @ local_nonce))))"

section \<open>Tokens\<close>

definition local_token ::
  "('sk, 'ek, 'rk, 'z) crypto_lib_scheme \<Rightarrow> 'sk signing_key \<Rightarrow> bytes \<Rightarrow> string rtc" where
  "local_token lib key nonce =
     (case generate_token_nonce lib key nonce of
        None \<Rightarrow> rtc_fail ''Failed to generate token''
      | Some token \<Rightarrow> rtc_return token)"

text \<open>Checking the remote token against the expected key, if one is expected.\<close>

definition check_remote_token ::
  "('sk, 'ek, 'rk, 'z) crypto_lib_scheme \<Rightarrow> ('ek, 'rk) verifying_key option \<Rightarrow> string \<Rightarrow> bytes
     \<Rightarrow> bool rtc" where
  "check_remote_token lib expecting token nonce =
     (case expecting of
        None \<Rightarrow> rtc_return True
      | Some key \<Rightarrow> rtc_run (verify_token_nonce lib key token nonce))"

text \<open>The sending peer: the remote token, and whether the receiver asks for a PIN.\<close>

definition sender_token ::
  "rtc_codec \<Rightarrow> ('sk, 'ek, 'rk, 'z) crypto_lib_scheme \<Rightarrow> 'sk signing_key
     \<Rightarrow> ('ek, 'rk) verifying_key option \<Rightarrow> bytes \<Rightarrow> (string \<times> bool) rtc" where
  "sender_token jx lib key expecting nonce =
     rtc_bind (local_token lib key nonce) (\<lambda>token.
     rtc_bind (rtc_send (send_json (jx_token_request jx) token)) (\<lambda>_.
     rtc_bind (rtc_recv_json (jx_token_response jx) ''Failed to receive token response'') (\<lambda>response.
       (case response of
          Token_Invalid_Signature \<Rightarrow> rtc_fail ''Invalid token signature from receiving peer''
        | Token_Ok remote \<Rightarrow>
            rtc_bind (check_remote_token lib expecting remote nonce) (\<lambda>ok.
              if \<not> ok then rtc_fail ''Invalid token signature or nonce''
              else rtc_return (remote, False))
        | Token_Pin_Required remote \<Rightarrow>
            rtc_bind (check_remote_token lib expecting remote nonce) (\<lambda>ok.
              if \<not> ok then rtc_fail ''Invalid token signature or nonce''
              else rtc_return (remote, True))))))"

definition receiver_token ::
  "rtc_codec \<Rightarrow> ('sk, 'ek, 'rk, 'z) crypto_lib_scheme \<Rightarrow> 'sk signing_key
     \<Rightarrow> ('ek, 'rk) verifying_key option \<Rightarrow> pin_config option \<Rightarrow> bytes \<Rightarrow> string rtc" where
  "receiver_token jx lib key expecting pin nonce =
     rtc_bind (rtc_recv_json (jx_token_request jx) ''Failed to receive token'') (\<lambda>remote.
     rtc_bind (check_remote_token lib expecting remote nonce) (\<lambda>ok.
       if \<not> ok then
         rtc_bind (rtc_send (send_json (jx_token_response jx) Token_Invalid_Signature)) (\<lambda>_.
           rtc_fail ''Invalid token signature or nonce'')
       else
         rtc_bind (local_token lib key nonce) (\<lambda>token.
         rtc_bind (rtc_send (send_json (jx_token_response jx)
             (case pin of Some _ \<Rightarrow> Token_Pin_Required token | None \<Rightarrow> Token_Ok token))) (\<lambda>_.
         rtc_return remote))))"

section \<open>PIN challenges\<close>

text \<open>
  The verifying side, in the order of the program: the notice is sent before the answer is
  read, and a failure to send the last notice is ignored. \<open>notify\<close> sends a notice.
\<close>

definition rtc_ignore_error :: "unit rtc \<Rightarrow> unit rtc" where
  "rtc_ignore_error m io =
     (case m io of (Rtc_Err e, io) \<Rightarrow> (Rtc_Ok (), io) | r \<Rightarrow> r)"

function rtc_verify_pin_loop ::
  "rtc_codec \<Rightarrow> (verify_pin_result \<Rightarrow> unit rtc) \<Rightarrow> pin_config \<Rightarrow> bool \<Rightarrow> u8 \<Rightarrow> string \<Rightarrow> unit rtc" where
  "rtc_verify_pin_loop jx notify config notice pin_try remote_pin =
     (if remote_pin = pc_pin config then rtc_return ()
      else if pin_try \<ge> pc_max_tries config then
        rtc_bind (rtc_ignore_error (notify Vp_Too_Many_Attempts)) (\<lambda>_.
        rtc_bind (rtc_report St_Too_Many_Attempts) (\<lambda>_.
        rtc_fail ''Too many requests''))
      else
        rtc_bind (if notice \<or> pin_try > 0 then notify Vp_Pin_Required else rtc_return ()) (\<lambda>_.
        rtc_bind rtc_recv (\<lambda>m.
          (case m of
             None \<Rightarrow> rtc_fail ''Failed to receive pin''
           | Some msg \<Rightarrow>
               (case co_dec (jx_pin jx) (cm_data msg) of
                  None \<Rightarrow> rtc_fail ''Failed to parse''
                | Some pin \<Rightarrow> rtc_verify_pin_loop jx notify config False (pin_try + 1) pin)))))"
  by pat_completeness auto
termination
proof (relation "measure (\<lambda>(jx, notify, config, notice, pin_try, remote_pin).
    unat (pc_max_tries config) - unat pin_try)", goal_cases)
  case (2 jx notify config notice pin_try remote_pin)
  then have "unat pin_try < unat (pc_max_tries config)" by (simp add: word_le_nat_alt)
  moreover from this have "unat (pin_try + 1) = unat pin_try + 1"
    using unsigned_less [of "pc_max_tries config", where 'a = nat]
    by (intro u8_saturating_bound) simp
  ultimately show ?case by simp
qed simp

declare rtc_verify_pin_loop.simps [simp del]

definition rtc_verify_pin ::
  "rtc_codec \<Rightarrow> (verify_pin_result \<Rightarrow> unit rtc) \<Rightarrow> pin_config \<Rightarrow> bool \<Rightarrow> unit rtc" where
  "rtc_verify_pin jx notify config send_initial_notice =
     rtc_bind (rtc_report St_Pin_Required) (\<lambda>_.
       rtc_verify_pin_loop jx notify config send_initial_notice 0 [])"

text \<open>The proving side; \<open>pins\<close> are the answers of the user.\<close>

definition rtc_pin_response :: "bool \<Rightarrow> bytes rtc" where
  "rtc_pin_response receive_in_chunks =
     (if receive_in_chunks then rtc_recv_chunked
      else rtc_bind rtc_recv (\<lambda>m.
        case m of
          None \<Rightarrow> rtc_fail ''Failed to receive initial message''
        | Some init_status \<Rightarrow>
            if \<not> cm_is_string init_status then rtc_fail ''Expected string message''
            else rtc_return (cm_data init_status)))"

fun rtc_handle_pin ::
  "rtc_codec \<Rightarrow> bool \<Rightarrow> (bytes \<Rightarrow> 'a challenge_result) \<Rightarrow> string list \<Rightarrow> 'a rtc" where
  "rtc_handle_pin jx in_chunks parse_response [] =
     rtc_bind (rtc_report St_Pin_Required) (\<lambda>_. rtc_fail ''PIN required but not provided'')"
| "rtc_handle_pin jx in_chunks parse_response (pin # pins) =
     rtc_bind (rtc_report St_Pin_Required) (\<lambda>_.
     rtc_bind (rtc_send (send_json (jx_pin jx) pin)) (\<lambda>_.
     rtc_bind (rtc_pin_response in_chunks) (\<lambda>d.
       (case parse_response d of
          Ch_Ok x \<Rightarrow> rtc_return x
        | Ch_Pin_Required \<Rightarrow> rtc_handle_pin jx in_chunks parse_response pins
        | Ch_Too_Many_Attempts \<Rightarrow>
            rtc_bind (rtc_report St_Too_Many_Attempts) (\<lambda>_. rtc_fail ''Too many requests'')
        | Ch_Parse_Error \<Rightarrow> rtc_fail ''Failed to parse pin response''))))"

fun sending_notice :: "verify_pin_result \<Rightarrow> rtc_pin_sending_response" where
  "sending_notice Vp_Pin_Required = Sending_Pin_Required"
| "sending_notice Vp_Too_Many_Attempts = Sending_Too_Many"

section \<open>The sending peer\<close>

text \<open>The report of an error that ends the task.\<close>

definition rtc_report_error :: "string \<Rightarrow> 'a rtc" where
  "rtc_report_error e = rtc_bind (rtc_report (St_Error e)) (\<lambda>_. rtc_fail e)"

definition send_file_list :: "rtc_codec \<Rightarrow> file_dto list \<Rightarrow> unit rtc" where
  "send_file_list jx files io =
     (case rtc_send_chunked (jx_sending jx) (Sending_Ok files) io of
        (Rtc_Err e, io) \<Rightarrow>
          (Rtc_Err e,
           io\<lparr>io_status := io_status io @ [St_Error (''Failed to send file list message: '' @ e)]\<rparr>)
      | r \<Rightarrow> r)"

text \<open>
  A pairing request: the key sent by the receiver must have signed its token. \<open>answer\<close> is what
  the user says, or nothing when the application drops the question.
\<close>

definition handle_pair ::
  "rtc_codec \<Rightarrow> ('sk, 'ek, 'rk, 'z) crypto_lib_scheme \<Rightarrow> bool option \<Rightarrow> string \<Rightarrow> bytes \<Rightarrow> string
     \<Rightarrow> unit rtc" where
  "handle_pair jx lib answer remote_token nonce public_key =
     (case extract_signature_identifier remote_token of
        None \<Rightarrow> rtc_fail ''Failed to extract signature identifier''
      | Some identifier \<Rightarrow>
     (case parse_public_key lib public_key identifier of
        None \<Rightarrow> rtc_fail ''Unsupported key type''
      | Some parsed_key \<Rightarrow>
          rtc_bind (rtc_run (verify_token_nonce lib parsed_key remote_token nonce)) (\<lambda>ok.
            if \<not> ok then
              rtc_bind (rtc_send (send_json (jx_pair jx) Pair_Invalid_Signature)) (\<lambda>_.
                rtc_fail ''Invalid token signature or nonce'')
            else
              (case answer of
                 None \<Rightarrow> rtc_fail ''Failed to send pair response''
               | Some yes \<Rightarrow>
                   rtc_send (send_json (jx_pair jx) (if yes then Pair_Ok public_key else Pair_Declined))))))"

text \<open>The answer to the file list, when no pairing is expected any more.\<close>

definition selection_answer ::
  "rtc_file_list_response \<Rightarrow> (string, string) hmap rtc" where
  "selection_answer response =
     (case response of
        Files_Ok files \<Rightarrow> rtc_return files
      | Files_Declined \<Rightarrow> rtc_bind (rtc_report St_Declined) (\<lambda>_. rtc_end)
      | Files_Invalid_Signature \<Rightarrow> rtc_report_error ''Invalid signature (not expected)''
      | Files_Pair _ \<Rightarrow> rtc_report_error ''Unexpected pair response'')"

definition sender_selection ::
  "rtc_codec \<Rightarrow> ('sk, 'ek, 'rk, 'z) crypto_lib_scheme \<Rightarrow> bool option \<Rightarrow> string \<Rightarrow> bytes
     \<Rightarrow> (string, string) hmap rtc" where
  "sender_selection jx lib answer remote_token nonce =
     rtc_bind (rtc_recv_chunked_json (jx_file_list jx)) (\<lambda>response.
       (case response of
          Files_Pair public_key \<Rightarrow>
            rtc_bind (handle_pair jx lib answer remote_token nonce public_key) (\<lambda>_.
            rtc_bind (rtc_recv_chunked_json (jx_file_list jx)) selection_answer)
        | _ \<Rightarrow> selection_answer response))"

text \<open>Reporting the connection fails, and with it the task, when the application no longer takes statuses.\<close>

definition rtc_connected :: "bool \<Rightarrow> unit rtc" where
  "rtc_connected listens = (if listens then rtc_report St_Connected else rtc_fail ''channel closed'')"

record ('sk, 'ek, 'rk) sender_config =
  so_key :: "'sk signing_key"
  so_expecting :: "('ek, 'rk) verifying_key option"
  so_pin :: "pin_config option"
  so_files :: "file_dto list"
  so_pins :: "string list"
  so_pair :: "bool option"
  so_listens :: bool

definition sender_pins ::
  "rtc_codec \<Rightarrow> ('sk, 'ek, 'rk, 'y) sender_config_scheme \<Rightarrow> bool \<Rightarrow> unit rtc" where
  "sender_pins jx cfg pin_required =
     rtc_bind (if pin_required then rtc_handle_pin jx False (receiving_to_challenge jx) (so_pins cfg)
               else rtc_return ()) (\<lambda>_.
       (case so_pin cfg of
          None \<Rightarrow> rtc_return ()
        | Some pin \<Rightarrow>
            rtc_verify_pin jx (\<lambda>n. rtc_send_chunked (jx_sending jx) (sending_notice n)) pin True))"

definition sender_handshake ::
  "rtc_codec \<Rightarrow> ('sk, 'ek, 'rk, 'z) crypto_lib_scheme \<Rightarrow> (nat \<Rightarrow> u8)
     \<Rightarrow> ('sk, 'ek, 'rk, 'y) sender_config_scheme \<Rightarrow> (string, string) hmap rtc" where
  "sender_handshake jx lib random cfg =
     rtc_bind (sender_nonce jx lib random) (\<lambda>nonce.
     rtc_bind (sender_token jx lib (so_key cfg) (so_expecting cfg) nonce) (\<lambda>(remote, pin_required).
     rtc_bind (sender_pins jx cfg pin_required) (\<lambda>_.
     rtc_bind (rtc_connected (so_listens cfg)) (\<lambda>_.
     rtc_bind (send_file_list jx (so_files cfg)) (\<lambda>_.
     sender_selection jx lib (so_pair cfg) remote nonce)))))"

section \<open>The receiving peer\<close>

text \<open>
  \<open>ro_selection\<close> is what the application answers: nothing when it drops the question,
  \<open>Some None\<close> when the user declines; \<open>ro_uuid\<close> gives the fresh tokens. \<open>ro_listens\<close> and \<open>ro_takes_files\<close> tell
  whether it still takes statuses and the file list.
\<close>

record ('sk, 'ek, 'rk) receiver_config =
  ro_key :: "'sk signing_key"
  ro_expecting :: "('ek, 'rk) verifying_key option"
  ro_pin :: "pin_config option"
  ro_pins :: "string list"
  ro_selection :: "string list option option"
  ro_uuid :: "nat \<Rightarrow> string"
  ro_listens :: bool
  ro_takes_files :: bool

definition receiver_pin ::
  "rtc_codec \<Rightarrow> pin_config option \<Rightarrow> unit rtc" where
  "receiver_pin jx pin =
     (case pin of
        None \<Rightarrow> rtc_return ()
      | Some config \<Rightarrow>
          rtc_bind (rtc_verify_pin jx
              (\<lambda>n. rtc_send (send_json (jx_receiving jx) (receiving_notice n))) config False) (\<lambda>_.
            rtc_send (send_json (jx_receiving jx) Receiving_Ok)))"

definition receive_file_list :: "rtc_codec \<Rightarrow> string list \<Rightarrow> file_dto list rtc" where
  "receive_file_list jx pins =
     rtc_bind (rtc_recv_chunked_json (jx_sending jx)) (\<lambda>response.
       (case response of
          Sending_Ok files \<Rightarrow> rtc_return files
        | Sending_Pin_Required \<Rightarrow> rtc_handle_pin jx True (sending_to_challenge jx) pins
        | Sending_Too_Many \<Rightarrow> rtc_report_error ''Unexpected TooManyAttempts response''))"

definition publish_files :: "bool \<Rightarrow> unit rtc" where
  "publish_files takes = (if takes then rtc_return () else rtc_fail ''Failed to send file list'')"

text \<open>The selected files, each with a fresh token.\<close>

definition selection_tokens :: "(nat \<Rightarrow> string) \<Rightarrow> string list \<Rightarrow> (string, string) hmap" where
  "selection_tokens uuid selected =
     fold (\<lambda>(i, file_id) m. hm_put file_id (uuid i) m) (enumerate 0 selected) []"

definition receiver_selection ::
  "rtc_codec \<Rightarrow> string list option option \<Rightarrow> (nat \<Rightarrow> string) \<Rightarrow> (string, string) hmap rtc" where
  "receiver_selection jx selection uuid =
     (case selection of
        None \<Rightarrow> rtc_end
      | Some None \<Rightarrow> rtc_bind (rtc_send_chunked (jx_file_list jx) Files_Declined) (\<lambda>_. rtc_end)
      | Some (Some selected) \<Rightarrow>
          (let file_tokens = selection_tokens uuid selected
           in rtc_bind (rtc_send_chunked (jx_file_list jx) (Files_Ok file_tokens)) (\<lambda>_.
                rtc_return file_tokens)))"

definition receiver_handshake ::
  "rtc_codec \<Rightarrow> ('sk, 'ek, 'rk, 'z) crypto_lib_scheme \<Rightarrow> (nat \<Rightarrow> u8)
     \<Rightarrow> ('sk, 'ek, 'rk, 'y) receiver_config_scheme
     \<Rightarrow> ((string, string) hmap \<times> file_dto list) rtc" where
  "receiver_handshake jx lib random cfg =
     rtc_bind (receiver_nonce jx lib random) (\<lambda>nonce.
     rtc_bind (receiver_token jx lib (ro_key cfg) (ro_expecting cfg) (ro_pin cfg) nonce) (\<lambda>_.
     rtc_bind (receiver_pin jx (ro_pin cfg)) (\<lambda>_.
     rtc_bind (receive_file_list jx (ro_pins cfg)) (\<lambda>file_list.
     rtc_bind (rtc_connected (ro_listens cfg)) (\<lambda>_.
     rtc_bind (publish_files (ro_takes_files cfg)) (\<lambda>_.
     rtc_bind (receiver_selection jx (ro_selection cfg) (ro_uuid cfg)) (\<lambda>file_tokens.
     rtc_return (file_tokens, file_list))))))))"


section \<open>Lemmas\<close>

subsection \<open>Tasks that do not report the connection\<close>

abbreviation is_connected :: "rtc_io \<Rightarrow> bool" where
  "is_connected io \<equiv> St_Connected \<in> set (io_status io)"

definition quiet :: "'a rtc \<Rightarrow> bool" where
  "quiet m \<longleftrightarrow> (\<forall>io. is_connected (snd (m io)) \<longrightarrow> is_connected io)"

lemma quiet_basic [simp]:
  "quiet (rtc_return x)" "quiet (rtc_fail e)" "quiet rtc_end" "quiet (rtc_send msg)" "quiet rtc_recv"
  "quiet (rtc_run r)" "quiet rtc_recv_chunked"
  by (simp_all add: quiet_def rtc_return_def rtc_fail_def rtc_end_def rtc_send_def rtc_recv_def
      rtc_run_def rtc_recv_chunked_def split: list.split run.split prod.split)

lemma quiet_report [simp]: "quiet (rtc_report st) \<longleftrightarrow> st \<noteq> St_Connected"
proof
  assume "quiet (rtc_report st)"
  then have "is_connected (snd (rtc_report st \<lparr>io_rx = [], io_tx = [], io_status = [], io_net = \<lambda>_. True\<rparr>)) \<longrightarrow>
      is_connected \<lparr>io_rx = [], io_tx = [], io_status = [], io_net = \<lambda>_. True\<rparr>"
    unfolding quiet_def by blast
  then show "st \<noteq> St_Connected" by (auto simp: rtc_report_def)
qed (simp add: quiet_def rtc_report_def)

lemma quietD: "quiet m \<Longrightarrow> m io = (r, io') \<Longrightarrow> is_connected io' \<Longrightarrow> is_connected io"
  unfolding quiet_def by (metis snd_conv)

lemma quiet_bind [simp]:
  assumes "quiet m" and "\<And>x. quiet (f x)"
  shows "quiet (rtc_bind m f)"
  unfolding quiet_def
proof (intro allI impI)
  fix io
  assume end_connected: "is_connected (snd (rtc_bind m f io))"
  obtain r io1 where m: "m io = (r, io1)" by fastforce
  have "is_connected io1"
  proof (cases r)
    case (Rtc_Ok x)
    with end_connected m have "is_connected (snd (f x io1))" by (simp add: rtc_bind_def)
    then show ?thesis using assms(2) [of x] unfolding quiet_def by blast
  qed (use end_connected m in \<open>simp_all add: rtc_bind_def\<close>)
  with assms(1) m show "is_connected io" by (rule quietD)
qed

lemma quiet_ignore_error [simp]:
  assumes "quiet m"
  shows "quiet (rtc_ignore_error m)"
  unfolding quiet_def
proof (intro allI impI)
  fix io
  assume end_connected: "is_connected (snd (rtc_ignore_error m io))"
  obtain r io1 where m: "m io = (r, io1)" by fastforce
  then have "is_connected io1" using end_connected by (cases r) (simp_all add: rtc_ignore_error_def)
  with assms m show "is_connected io" by (rule quietD)
qed

text \<open>A chunk as a binary message, and the chunks of a text.\<close>

lemma send_rtc_chunk_eq:
  "send_rtc_chunk io chunk =
     (if io_net io (length (io_tx io)) then Inr (io\<lparr>io_tx := io_tx io @ [binary_message chunk]\<rparr>)
      else Inl io)"
  by (simp add: send_rtc_chunk_def rtc_send_def)

lemma quiet_send_each:
  "(each_chunk send_rtc_chunk io cs = Inl io' \<longrightarrow> io_status io' = io_status io) \<and>
   (each_chunk send_rtc_chunk io cs = Inr io' \<longrightarrow> io_status io' = io_status io)"
  by (induction cs arbitrary: io) (simp_all add: send_rtc_chunk_eq)

lemma quiet_send_chunks [simp]: "quiet (rtc_send_chunks d)"
  unfolding quiet_def
proof
  fix io
  show "is_connected (snd (rtc_send_chunks d io)) \<longrightarrow> is_connected io"
    using quiet_send_each [of io "chunks_of d"]
    by (simp add: rtc_send_chunks_def send_string_in_chunks_def process_in_chunks_eq [of "[]"]
        del: process_in_chunks.simps split: sum.split)
qed

lemma quiet_send_chunked [simp]: "quiet (rtc_send_chunked c x)"
  by (simp add: rtc_send_chunked_def)

lemma quiet_recv_json [simp]: "quiet (rtc_recv_json c e)"
  unfolding rtc_recv_json_def by (auto split: option.split)

lemma quiet_recv_chunked_json [simp]: "quiet (rtc_recv_chunked_json c)"
  unfolding rtc_recv_chunked_json_def by (auto split: option.split)

lemma quiet_nonces [simp]:
  "quiet (receive_nonce jx lib)" "quiet (sender_nonce jx lib random)" "quiet (receiver_nonce jx lib random)"
  unfolding sender_nonce_def receiver_nonce_def receive_nonce_def Let_def
  by (auto split: option.split)

lemma quiet_check [simp]: "quiet (check_remote_token lib expecting token nonce)"
  by (simp add: check_remote_token_def split: option.split)

lemma quiet_local_token [simp]: "quiet (local_token lib key nonce)"
  by (simp add: local_token_def split: option.split)

lemma quiet_tokens [simp]:
  "quiet (sender_token jx lib key expecting nonce)"
  "quiet (receiver_token jx lib key expecting pin nonce)"
  unfolding sender_token_def receiver_token_def
  by (auto split: rtc_token_response.split)

lemma quiet_verify_pin_loop:
  "(\<And>n. quiet (notify n)) \<Longrightarrow> quiet (rtc_verify_pin_loop jx notify config notice k remote)"
proof (induction jx notify config notice k remote rule: rtc_verify_pin_loop.induct)
  case (1 jx notify config notice pin_try remote_pin)
  show ?case
    using 1
    by (subst rtc_verify_pin_loop.simps) (auto split: option.split)
qed

lemma quiet_verify_pin [simp]: "(\<And>n. quiet (notify n)) \<Longrightarrow> quiet (rtc_verify_pin jx notify config notice)"
  unfolding rtc_verify_pin_def by (simp add: quiet_verify_pin_loop)

lemma quiet_handle_pin [simp]: "quiet (rtc_handle_pin jx in_chunks parse pins)"
  by (induction pins)
    (auto simp: rtc_pin_response_def split: challenge_result.split option.split)

lemma quiet_pins [simp]: "quiet (sender_pins jx cfg required)" "quiet (receiver_pin jx pin)"
  unfolding sender_pins_def receiver_pin_def
  by (auto split: option.split)

lemma quiet_file_list [simp]: "quiet (receive_file_list jx pins)"
  unfolding receive_file_list_def rtc_report_error_def
  by (auto split: rtc_pin_sending_response.split)

text \<open>A quiet step before the report has succeeded.\<close>

lemma connected_bindD:
  assumes "is_connected (snd (rtc_bind m f io))" and "\<not> is_connected io" and "quiet m"
  shows "\<exists>x io1. m io = (Rtc_Ok x, io1) \<and> \<not> is_connected io1 \<and> is_connected (snd (f x io1))"
proof -
  obtain r io1 where m: "m io = (r, io1)" by fastforce
  have "\<not> is_connected io1" using assms(2,3) m unfolding quiet_def by (metis snd_conv)
  with assms(1) m show ?thesis by (cases r) (auto simp: rtc_bind_def)
qed

lemma rtc_bind_OkD:
  "rtc_bind m f io = (Rtc_Ok y, io2) \<Longrightarrow> \<exists>x io1. m io = (Rtc_Ok x, io1) \<and> f x io1 = (Rtc_Ok y, io2)"
  by (auto simp: rtc_bind_def split: prod.splits rtc_result.splits)

end
