(* ===== verification/Rtc_Handshake_Safety.thy ===== *)
theory Rtc_Handshake_Safety
  imports Rtc_Handshake
begin

text \<open>
  What a peer has verified when its handshake goes on: lemmas on what each part of a task reads and
  sends, and from them that neither peer continues with one that has not proved its identity,
  and that the file list is kept back until then.
\<close>

subsection \<open>What a task reads\<close>

text \<open>\<open>reads n m\<close>: when \<open>m\<close> succeeds, it has taken \<open>n\<close> messages.\<close>

definition reads :: "nat \<Rightarrow> 'a rtc \<Rightarrow> bool" where
  "reads n m \<longleftrightarrow> (\<forall>io x io'. m io = (Rtc_Ok x, io') \<longrightarrow>
     n \<le> length (io_rx io) \<and> io_rx io' = drop n (io_rx io))"

lemma readsD:
  "reads n m \<Longrightarrow> m io = (Rtc_Ok x, io') \<Longrightarrow> n \<le> length (io_rx io) \<and> io_rx io' = drop n (io_rx io)"
  unfolding reads_def by blast

lemma reads_basic [simp]:
  "reads 0 (rtc_return x)" "reads n (rtc_fail e)" "reads n rtc_end" "reads 0 (rtc_send msg)"
  "reads 0 (rtc_report st)" "reads 0 (rtc_run r)"
  by (auto simp: reads_def rtc_return_def rtc_fail_def rtc_end_def rtc_send_def rtc_report_def
      rtc_run_def split: if_splits run.splits)

lemma reads_bind:
  assumes "reads n m" and "\<And>x. reads k (f x)"
  shows "reads (n + k) (rtc_bind m f)"
  unfolding reads_def
proof (intro allI impI)
  fix io y io'
  assume bind: "rtc_bind m f io = (Rtc_Ok y, io')"
  obtain x io1 where "m io = (Rtc_Ok x, io1)" "f x io1 = (Rtc_Ok y, io')"
    using rtc_bind_OkD [OF bind] by (elim exE conjE)
  with assms show "n + k \<le> length (io_rx io) \<and> io_rx io' = drop (n + k) (io_rx io)"
    unfolding reads_def by (metis add.commute drop_drop length_drop le_diff_conv2 add_leD1)
qed

lemma reads_bind0 [simp]: "reads 0 m \<Longrightarrow> (\<And>x. reads n (f x)) \<Longrightarrow> reads n (rtc_bind m f)"
  using reads_bind [of 0 m n f] by simp

lemma reads_bind_all [simp]: "reads n m \<Longrightarrow> (\<And>x. reads 0 (f x)) \<Longrightarrow> reads n (rtc_bind m f)"
  using reads_bind [of n m 0 f] by simp

lemma reads_recv_json [simp]: "reads (Suc 0) (rtc_recv_json c e)"
  unfolding reads_def rtc_recv_json_def rtc_bind_def rtc_recv_def
  by (auto simp: rtc_fail_def rtc_return_def split: list.splits if_splits option.splits)

text \<open>A challenge that is passed: the PIN is among the guesses.\<close>

lemma verify_pin_loop_step:
  assumes "reads 0 (notify Vp_Pin_Required)" and "reads 0 (notify Vp_Too_Many_Attempts)"
    and "rtc_verify_pin_loop jx notify config notice k remote io = (Rtc_Ok x, io')"
    and "remote \<noteq> pc_pin config"
  obtains msg pin io2 where "\<not> pc_max_tries config \<le> k" and "io_rx io = msg # io_rx io2"
    and "co_dec (jx_pin jx) (cm_data msg) = Some pin"
    and "rtc_verify_pin_loop jx notify config False (k + 1) pin io2 = (Rtc_Ok x, io')"
proof -
  have more_tries: "\<not> pc_max_tries config \<le> k"
    using assms(3,4)
    by (subst (asm) rtc_verify_pin_loop.simps) (auto simp: rtc_fail_def dest!: rtc_bind_OkD split: if_splits)
  with assms(3,4) obtain io1 m io2 where first: "(if notice \<or> k > 0 then notify Vp_Pin_Required else rtc_return ()) io = (Rtc_Ok (), io1)"
    and recv: "rtc_recv io1 = (Rtc_Ok m, io2)"
    and go_on: "(case m of None \<Rightarrow> rtc_fail ''Failed to receive pin''
        | Some msg \<Rightarrow> (case co_dec (jx_pin jx) (cm_data msg) of
              None \<Rightarrow> rtc_fail ''Failed to parse''
            | Some pin \<Rightarrow> rtc_verify_pin_loop jx notify config False (k + 1) pin)) io2 = (Rtc_Ok x, io')"
    by (subst (asm) rtc_verify_pin_loop.simps) (auto dest!: rtc_bind_OkD split: if_splits)
  have "reads 0 (if notice \<or> k > 0 then notify Vp_Pin_Required else rtc_return ())"
    using assms(1) by simp
  with first have same: "io_rx io1 = io_rx io" unfolding reads_def by (metis drop_0)
  from go_on obtain msg pin where m: "m = Some msg" "co_dec (jx_pin jx) (cm_data msg) = Some pin"
    and loop: "rtc_verify_pin_loop jx notify config False (k + 1) pin io2 = (Rtc_Ok x, io')"
    by (auto simp: rtc_fail_def split: option.splits)
  have "io_rx io = msg # io_rx io2"
    using recv m same by (auto simp: rtc_recv_def split: list.splits)
  with that more_tries m(2) loop show ?thesis by blast
qed

lemma verify_pin_loop_ok:
  assumes "\<And>n. reads 0 (notify n)"
    and "rtc_verify_pin_loop jx notify config notice k remote io = (Rtc_Ok x, io')"
  shows "(remote = pc_pin config \<and> io_rx io' = io_rx io) \<or>
    (\<exists>guesses. io_rx io = guesses @ io_rx io' \<and> guesses \<noteq> [] \<and>
       length guesses \<le> unat (pc_max_tries config) - unat k \<and>
       co_dec (jx_pin jx) (cm_data (last guesses)) = Some (pc_pin config))"
  using assms(2)
proof (induction "unat (pc_max_tries config) - unat k" arbitrary: notice k remote io rule: less_induct)
  case less
  show ?case
  proof (cases "remote = pc_pin config")
    case True
    then show ?thesis using less.prems
      by (subst (asm) rtc_verify_pin_loop.simps) (simp add: rtc_return_def)
  next
    case False
    then obtain msg pin io2 where tries: "\<not> pc_max_tries config \<le> k" and rx: "io_rx io = msg # io_rx io2"
      and dec: "co_dec (jx_pin jx) (cm_data msg) = Some pin"
      and loop: "rtc_verify_pin_loop jx notify config False (k + 1) pin io2 = (Rtc_Ok x, io')"
      using verify_pin_loop_step [OF assms(1) assms(1) less.prems] by blast
    from tries have k: "unat k < unat (pc_max_tries config)" by (simp add: word_le_nat_alt)
    then have inc: "unat (k + 1) = unat k + 1"
      using unsigned_less [of "pc_max_tries config", where 'a = nat]
      by (intro u8_saturating_bound) simp
    from k inc less.hyps [OF _ loop] have "pin = pc_pin config \<and> io_rx io' = io_rx io2 \<or>
      (\<exists>guesses. io_rx io2 = guesses @ io_rx io' \<and> guesses \<noteq> [] \<and>
         length guesses \<le> unat (pc_max_tries config) - unat (k + 1) \<and>
         co_dec (jx_pin jx) (cm_data (last guesses)) = Some (pc_pin config))"
      by simp
    then consider "pin = pc_pin config" "io_rx io' = io_rx io2"
      | guesses where "io_rx io2 = guesses @ io_rx io'" "guesses \<noteq> []"
        "length guesses \<le> unat (pc_max_tries config) - unat (k + 1)"
        "co_dec (jx_pin jx) (cm_data (last guesses)) = Some (pc_pin config)"
      by blast
    then show ?thesis
    proof cases
      case 1
      then show ?thesis using rx dec k by (intro disjI2 exI [of _ "[msg]"]) simp
    next
      case 2
      then show ?thesis using rx k inc by (intro disjI2 exI [of _ "msg # guesses"]) simp
    qed
  qed
qed


subsection \<open>What a task that goes on has checked\<close>

lemma rtc_recv_json_ok:
  assumes "rtc_recv_json c e io = (Rtc_Ok x, io')"
  obtains msg where "io_rx io = msg # io_rx io'" and "cm_is_string msg" and "co_dec c (cm_data msg) = Some x"
  using assms
  by (auto simp: rtc_recv_json_def rtc_bind_def rtc_recv_def rtc_fail_def rtc_return_def
      split: list.splits if_splits option.splits)

text \<open>What a message says: the nonce it carries, the token it carries.\<close>

definition nonce_in ::
  "rtc_codec \<Rightarrow> ('sk, 'ek, 'rk, 'z) crypto_lib_scheme \<Rightarrow> channel_message \<Rightarrow> bytes option" where
  "nonce_in jx lib msg =
     (case co_dec (jx_nonce jx) (cm_data msg) of None \<Rightarrow> None | Some text \<Rightarrow> cl_b64_decode lib text)"

definition response_token_in :: "rtc_codec \<Rightarrow> channel_message \<Rightarrow> string option" where
  "response_token_in jx msg =
     (case co_dec (jx_token_response jx) (cm_data msg) of
        Some (Token_Ok token) \<Rightarrow> Some token
      | Some (Token_Pin_Required token) \<Rightarrow> Some token
      | _ \<Rightarrow> None)"

definition request_token_in :: "rtc_codec \<Rightarrow> channel_message \<Rightarrow> string option" where
  "request_token_in jx msg = co_dec (jx_token_request jx) (cm_data msg)"

lemma receive_nonce_ok:
  assumes "receive_nonce jx lib io = (Rtc_Ok n, io')"
  shows "\<exists>msg. io_rx io = msg # io_rx io' \<and> nonce_in jx lib msg = Some n \<and> validate_nonce n"
proof -
  from assms obtain said io1 where "rtc_recv_json (jx_nonce jx) ''Failed to receive nonce'' io = (Rtc_Ok said, io1)"
    and "cl_b64_decode lib said = Some n" "validate_nonce n" "io' = io1"
    by (auto simp: receive_nonce_def rtc_fail_def rtc_return_def dest!: rtc_bind_OkD
        split: option.splits if_splits)
  then show ?thesis by (elim rtc_recv_json_ok) (simp add: nonce_in_def)
qed

lemma rtc_send_rx: "rtc_send msg io = (Rtc_Ok u, io') \<Longrightarrow> io_rx io' = io_rx io"
  by (auto simp: rtc_send_def split: if_splits)

lemma sender_nonce_ok:
  assumes "sender_nonce jx lib random io = (Rtc_Ok n, io')"
  shows "\<exists>msg remote. io_rx io = msg # io_rx io' \<and> nonce_in jx lib msg = Some remote \<and>
    validate_nonce remote \<and> n = generate_nonce random @ remote"
proof -
  from assms obtain v io1 remote where
      sent: "rtc_send (send_json (jx_nonce jx) (cl_b64_encode lib (generate_nonce random))) io = (Rtc_Ok v, io1)"
    and recv: "receive_nonce jx lib io1 = (Rtc_Ok remote, io')" and "n = generate_nonce random @ remote"
    by (auto simp: sender_nonce_def Let_def rtc_return_def dest!: rtc_bind_OkD)
  with receive_nonce_ok [OF recv] rtc_send_rx [OF sent] show ?thesis by simp
qed

lemma receiver_nonce_ok:
  assumes "receiver_nonce jx lib random io = (Rtc_Ok n, io')"
  shows "\<exists>msg remote. io_rx io = msg # io_rx io' \<and> nonce_in jx lib msg = Some remote \<and>
    validate_nonce remote \<and> n = remote @ generate_nonce random"
proof -
  from assms obtain v io1 remote where recv: "receive_nonce jx lib io = (Rtc_Ok remote, io1)"
    and sent: "rtc_send (send_json (jx_nonce jx) (cl_b64_encode lib (generate_nonce random))) io1 = (Rtc_Ok v, io')"
    and "n = remote @ generate_nonce random"
    by (auto simp: receiver_nonce_def Let_def rtc_return_def dest!: rtc_bind_OkD)
  with receive_nonce_ok [OF recv] rtc_send_rx [OF sent] show ?thesis by simp
qed

lemma check_remote_token_ok:
  "check_remote_token lib expecting token nonce io = (Rtc_Ok True, io') \<Longrightarrow>
     io' = io \<and> (\<forall>key. expecting = Some key \<longrightarrow> verify_token_nonce lib key token nonce = Done True)"
  by (auto simp: check_remote_token_def rtc_run_def rtc_return_def split: run.splits option.splits)

lemma local_token_rx: "local_token lib key nonce io = (Rtc_Ok token, io') \<Longrightarrow> io' = io"
  by (auto simp: local_token_def rtc_fail_def rtc_return_def split: option.splits)

lemma sender_token_ok:
  assumes "sender_token jx lib sk expecting nonce io = (Rtc_Ok (token, required), io')"
  shows "\<exists>msg. io_rx io = msg # io_rx io' \<and> response_token_in jx msg = Some token \<and>
    (\<forall>key. expecting = Some key \<longrightarrow> verify_token_nonce lib key token nonce = Done True)"
proof -
  from assms obtain own io1 v io2 response io3 where own: "local_token lib sk nonce io = (Rtc_Ok own, io1)"
    and sent: "rtc_send (send_json (jx_token_request jx) own) io1 = (Rtc_Ok v, io2)"
    and recv: "rtc_recv_json (jx_token_response jx) ''Failed to receive token response'' io2 = (Rtc_Ok response, io3)"
    and "response = Token_Ok token \<or> response = Token_Pin_Required token"
    and "check_remote_token lib expecting token nonce io3 = (Rtc_Ok True, io')"
    by (fastforce simp: sender_token_def rtc_return_def rtc_fail_def dest!: rtc_bind_OkD
        split: rtc_token_response.splits if_splits)
  moreover from recv obtain msg where "io_rx io2 = msg # io_rx io3"
    and "co_dec (jx_token_response jx) (cm_data msg) = Some response"
    by (rule rtc_recv_json_ok)
  ultimately show ?thesis
    using local_token_rx [OF own] rtc_send_rx [OF sent]
    by (auto simp: response_token_in_def dest!: check_remote_token_ok)
qed

lemma receiver_token_ok:
  assumes "receiver_token jx lib sk expecting pin nonce io = (Rtc_Ok token, io')"
  shows "\<exists>msg. io_rx io = msg # io_rx io' \<and> request_token_in jx msg = Some token \<and>
    (\<forall>key. expecting = Some key \<longrightarrow> verify_token_nonce lib key token nonce = Done True)"
proof -
  from assms obtain io1 io2 own io3 v where
      recv: "rtc_recv_json (jx_token_request jx) ''Failed to receive token'' io = (Rtc_Ok token, io1)"
    and ok: "check_remote_token lib expecting token nonce io1 = (Rtc_Ok True, io2)"
    and own: "local_token lib sk nonce io2 = (Rtc_Ok own, io3)"
    and sent: "rtc_send (send_json (jx_token_response jx)
        (case pin of Some _ \<Rightarrow> Token_Pin_Required own | None \<Rightarrow> Token_Ok own)) io3 = (Rtc_Ok v, io')"
    by (fastforce simp: receiver_token_def rtc_return_def rtc_fail_def dest!: rtc_bind_OkD split: if_splits)
  from recv obtain msg where "io_rx io = msg # io_rx io1" "co_dec (jx_token_request jx) (cm_data msg) = Some token"
    by (rule rtc_recv_json_ok)
  then show ?thesis
    using check_remote_token_ok [OF ok] local_token_rx [OF own] rtc_send_rx [OF sent]
    by (simp add: request_token_in_def)
qed

lemma receiver_pin_ok:
  assumes "receiver_pin jx (Some config) io = (Rtc_Ok u, io')" and "pc_pin config \<noteq> []"
  shows "\<exists>guesses rest. io_rx io = guesses @ rest \<and> guesses \<noteq> [] \<and>
    length guesses \<le> unat (pc_max_tries config) \<and>
    co_dec (jx_pin jx) (cm_data (last guesses)) = Some (pc_pin config)"
proof -
  let ?notify = "\<lambda>n. rtc_send (send_json (jx_receiving jx) (receiving_notice n))"
  from assms(1) obtain v io1 io2 where report: "rtc_report St_Pin_Required io = (Rtc_Ok v, io1)"
    and loop: "rtc_verify_pin_loop jx ?notify config False 0 [] io1 = (Rtc_Ok v, io2)"
    by (auto simp: receiver_pin_def rtc_verify_pin_def dest!: rtc_bind_OkD)
  have "io_rx io1 = io_rx io" using report by (auto simp: rtc_report_def)
  with verify_pin_loop_ok [OF _ loop] assms(2) show ?thesis by auto
qed

subsection \<open>Reports are kept\<close>

definition grows :: "'a rtc \<Rightarrow> bool" where
  "grows m \<longleftrightarrow> (\<forall>io. is_connected io \<longrightarrow> is_connected (snd (m io)))"

lemma grows_basic [simp]:
  "grows (rtc_return x)" "grows (rtc_fail e)" "grows rtc_end" "grows (rtc_send msg)" "grows (rtc_report st)"
  "grows (rtc_run r)" "grows rtc_recv" "grows rtc_recv_chunked"
  by (simp_all add: grows_def rtc_return_def rtc_fail_def rtc_end_def rtc_send_def rtc_report_def
      rtc_run_def rtc_recv_def rtc_recv_chunked_def split: list.split run.split prod.split)

lemma grows_bind [simp]:
  assumes "grows m" and "\<And>x. grows (f x)"
  shows "grows (rtc_bind m f)"
  unfolding grows_def
proof (intro allI impI)
  fix io
  assume start: "is_connected io"
  obtain r io1 where m: "m io = (r, io1)" by fastforce
  with assms(1) start have "is_connected io1" unfolding grows_def by (metis snd_conv)
  with m assms(2) show "is_connected (snd (rtc_bind m f io))"
    unfolding grows_def by (cases r) (simp_all add: rtc_bind_def)
qed

lemma grows_send_chunks [simp]: "grows (rtc_send_chunks d)"
  unfolding grows_def
proof
  fix io
  show "is_connected io \<longrightarrow> is_connected (snd (rtc_send_chunks d io))"
    using quiet_send_each [of io "chunks_of d"]
    by (simp add: rtc_send_chunks_def send_string_in_chunks_def process_in_chunks_eq [of "[]"]
        del: process_in_chunks.simps split: sum.split)
qed

lemma grows_send_chunked [simp]: "grows (rtc_send_chunked c x)"
  by (simp add: rtc_send_chunked_def)

lemma grows_send_file_list [simp]: "grows (send_file_list jx files)"
  unfolding grows_def
proof (intro allI impI)
  fix io
  assume "is_connected io"
  obtain r io1 where r: "rtc_send_chunked (jx_sending jx) (Sending_Ok files) io = (r, io1)" by fastforce
  then have "is_connected io1"
    using \<open>is_connected io\<close> grows_send_chunked unfolding grows_def by (metis snd_conv)
  with r show "is_connected (snd (send_file_list jx files io))"
    by (cases r) (simp_all add: send_file_list_def)
qed

lemma grows_selection [simp]: "grows (sender_selection jx lib answer remote nonce)"
  unfolding sender_selection_def selection_answer_def handle_pair_def rtc_report_error_def
    rtc_recv_chunked_json_def
  by (auto intro!: grows_bind split: rtc_file_list_response.split option.split)

text \<open>Two runs that agree unless the connection is reported.\<close>

lemma withheld_bind:
  assumes "\<not> is_connected (snd (rtc_bind m f io))"
    and "\<And>x io1. m io = (Rtc_Ok x, io1) \<Longrightarrow> \<not> is_connected (snd (f x io1)) \<Longrightarrow> g x io1 = f x io1"
  shows "rtc_bind m g io = rtc_bind m f io"
proof -
  obtain r io1 where m: "m io = (r, io1)" by fastforce
  then show ?thesis
  proof (cases r)
    case (Rtc_Ok x)
    with assms(1) m have "\<not> is_connected (snd (f x io1))" by (simp add: rtc_bind_def)
    with assms(2) m Rtc_Ok have "g x io1 = f x io1" by simp
    with m Rtc_Ok show ?thesis by (simp add: rtc_bind_def)
  qed (simp_all add: rtc_bind_def)
qed

text \<open>A run that never reports the connection does not depend on what follows the report.\<close>

lemma unconnected_bind:
  assumes "\<not> is_connected (snd (rtc_bind (rtc_connected listens) f io))"
    and "\<And>x. grows (f x)"
  shows "rtc_bind (rtc_connected listens) g io = rtc_bind (rtc_connected listens) f io"
  using assms(1) assms(2) [of "()"] unfolding grows_def
  by (cases listens) (auto simp: rtc_bind_def rtc_report_def rtc_connected_def rtc_fail_def)

section \<open>Properties\<close>

text \<open>
  C20: When the sending peer reports the connection, after which it discloses its file list, the
  first message it received carried a valid nonce of the receiver and the second one a token of the
  receiver, and, if a key of the receiver is expected, this very token was verified with that
  key over the sender's own fresh nonce followed by the nonce received.
\<close>

theorem sender_authenticates:
  assumes "is_connected (snd (sender_handshake jx lib random cfg io))" and "\<not> is_connected io"
  shows "\<exists>nonce_msg token_msg rest remote token. io_rx io = nonce_msg # token_msg # rest \<and>
    nonce_in jx lib nonce_msg = Some remote \<and> validate_nonce remote \<and>
    response_token_in jx token_msg = Some token \<and>
    (\<forall>key. so_expecting cfg = Some key \<longrightarrow>
       verify_token_nonce lib key token (generate_nonce random @ remote) = Done True)"
proof -
  from connected_bindD [OF assms(1) [unfolded sender_handshake_def] assms(2)]
  obtain nonce io1 where n: "sender_nonce jx lib random io = (Rtc_Ok nonce, io1)" "\<not> is_connected io1"
    and rest: "is_connected (snd (rtc_bind (sender_token jx lib (so_key cfg) (so_expecting cfg) nonce)
      (\<lambda>(remote, pin_required). rtc_bind (sender_pins jx cfg pin_required) (\<lambda>_.
         rtc_bind (rtc_connected (so_listens cfg)) (\<lambda>_. rtc_bind (send_file_list jx (so_files cfg)) (\<lambda>_.
           sender_selection jx lib (so_pair cfg) remote nonce)))) io1))"
    by auto
  from connected_bindD [OF rest n(2)] obtain t io2
    where t: "sender_token jx lib (so_key cfg) (so_expecting cfg) nonce io1 = (Rtc_Ok t, io2)"
    by auto
  from t have "sender_token jx lib (so_key cfg) (so_expecting cfg) nonce io1 = (Rtc_Ok (fst t, snd t), io2)"
    by simp
  from sender_nonce_ok [OF n(1)] sender_token_ok [OF this] show ?thesis by auto
qed

text \<open>
  The file list of the sending peer has no influence on the run before the connection: a
  run that ends without it is the same for every file list.
\<close>

theorem file_list_withheld:
  assumes "\<not> is_connected (snd (sender_handshake jx lib random cfg io))"
  shows "sender_handshake jx lib random (cfg\<lparr>so_files := other\<rparr>) io = sender_handshake jx lib random cfg io"
proof -
  have pins: "sender_pins jx (cfg\<lparr>so_files := other\<rparr>) required = sender_pins jx cfg required" for required
    by (cases required) (simp_all add: sender_pins_def)
  have connecting: "rtc_bind (rtc_connected (so_listens cfg)) g io2 = rtc_bind (rtc_connected (so_listens cfg))
      (\<lambda>_. rtc_bind (send_file_list jx (so_files cfg)) (\<lambda>_. sender_selection jx lib (so_pair cfg) remote nonce)) io2"
    if "\<not> is_connected (snd (rtc_bind (rtc_connected (so_listens cfg))
      (\<lambda>_. rtc_bind (send_file_list jx (so_files cfg)) (\<lambda>_. sender_selection jx lib (so_pair cfg) remote nonce)) io2))"
    for g remote nonce io2
    by (rule unconnected_bind [OF that]) simp
  show ?thesis
    using assms unfolding sender_handshake_def pins sender_config.simps
    by (elim withheld_bind) (auto simp: split_def intro!: withheld_bind connecting)
qed

text \<open>
  C19: When the receiving peer gets as far as the file list and the question to its user, the
  first message it received carried a valid nonce of the sender and the second one a token of the
  sender; if a key of the sender is expected, this very token was verified with that key over the
  nonce received followed by the receiver's own fresh one; and if a PIN that is not empty is
  set, the PIN was the last of at most \<open>max_tries\<close> messages that came next.
\<close>

theorem receiver_authenticates:
  assumes "is_connected (snd (receiver_handshake jx lib random cfg io))" and "\<not> is_connected io"
  shows "\<exists>nonce_msg token_msg rest remote token. io_rx io = nonce_msg # token_msg # rest \<and>
    nonce_in jx lib nonce_msg = Some remote \<and> validate_nonce remote \<and>
    request_token_in jx token_msg = Some token \<and>
    (\<forall>key. ro_expecting cfg = Some key \<longrightarrow>
       verify_token_nonce lib key token (remote @ generate_nonce random) = Done True) \<and>
    (\<forall>config. ro_pin cfg = Some config \<and> pc_pin config \<noteq> [] \<longrightarrow>
      (\<exists>guesses later. rest = guesses @ later \<and> guesses \<noteq> [] \<and>
         length guesses \<le> unat (pc_max_tries config) \<and>
         co_dec (jx_pin jx) (cm_data (last guesses)) = Some (pc_pin config)))"
proof -
  let ?rest = "rtc_bind (receiver_pin jx (ro_pin cfg)) (\<lambda>_.
     rtc_bind (receive_file_list jx (ro_pins cfg)) (\<lambda>file_list.
     rtc_bind (rtc_connected (ro_listens cfg)) (\<lambda>_.
     rtc_bind (publish_files (ro_takes_files cfg)) (\<lambda>_.
     rtc_bind (receiver_selection jx (ro_selection cfg) (ro_uuid cfg)) (\<lambda>file_tokens.
     rtc_return (file_tokens, file_list))))))"
  from connected_bindD [OF assms(1) [unfolded receiver_handshake_def] assms(2)]
  obtain nonce io1 where n: "receiver_nonce jx lib random io = (Rtc_Ok nonce, io1)" "\<not> is_connected io1"
    and rest: "is_connected (snd (rtc_bind
      (receiver_token jx lib (ro_key cfg) (ro_expecting cfg) (ro_pin cfg) nonce) (\<lambda>_. ?rest) io1))"
    by auto
  from connected_bindD [OF rest n(2)] obtain token io2
    where t: "receiver_token jx lib (ro_key cfg) (ro_expecting cfg) (ro_pin cfg) nonce io1 = (Rtc_Ok token, io2)"
      "\<not> is_connected io2" "is_connected (snd (?rest io2))"
    by auto
  from connected_bindD [OF t(3,2)] obtain u io3 where p: "receiver_pin jx (ro_pin cfg) io2 = (Rtc_Ok u, io3)"
    by auto
  have "\<exists>guesses later. io_rx io2 = guesses @ later \<and> guesses \<noteq> [] \<and>
      length guesses \<le> unat (pc_max_tries config) \<and>
      co_dec (jx_pin jx) (cm_data (last guesses)) = Some (pc_pin config)"
    if "ro_pin cfg = Some config" "pc_pin config \<noteq> []" for config
    using receiver_pin_ok [of jx config io2 u io3] that p by simp
  with receiver_nonce_ok [OF n(1)] receiver_token_ok [OF t(1)] show ?thesis by auto
qed

end
