(* ===== verification/Rtc_Agreement.thy ===== *)
theory Rtc_Agreement
  imports Rtc_Handshake_Safety "HOL-Library.Countable"
begin

text \<open>
  The two tasks of a handshake, run against each other: with honest users, matching keys and a
  channel that delivers, each ends with the files and the tokens of the other.
\<close>

section \<open>Runs on a channel that delivers\<close>

text \<open>A task that has \<open>rx\<close> to receive, has sent \<open>tx\<close> and reported \<open>st\<close>.\<close>

definition rtc_at :: "channel_message list \<Rightarrow> channel_message list \<Rightarrow> rtc_status list \<Rightarrow> rtc_io" where
  "rtc_at rx tx st = \<lparr>io_rx = rx, io_tx = tx, io_status = st, io_net = (\<lambda>_. True)\<rparr>"

definition chunked :: "'a codec \<Rightarrow> 'a \<Rightarrow> channel_message list" where
  "chunked c x = map binary_message (chunks_of (co_enc c x)) @ [delimiter]"

definition rtc_codec_ok :: "rtc_codec \<Rightarrow> bool" where
  "rtc_codec_ok jx \<longleftrightarrow> codec_ok (jx_nonce jx) \<and> codec_ok (jx_token_request jx) \<and>
     codec_ok (jx_token_response jx) \<and> codec_ok (jx_pin jx) \<and> codec_ok (jx_receiving jx) \<and>
     codec_ok (jx_sending jx) \<and> codec_ok (jx_file_list jx) \<and> codec_ok (jx_pair jx) \<and>
     codec_ok (jx_header jx) \<and> codec_ok (jx_file_response jx)"

named_theorems run_simps \<open>the steps of a task on a channel that delivers\<close>

declare rtc_bind_def [run_simps]

lemma rtc_at_simps [run_simps]:
  "io_rx (rtc_at rx tx st) = rx" "io_tx (rtc_at rx tx st) = tx" "io_status (rtc_at rx tx st) = st"
  by (simp_all add: rtc_at_def)

lemma rtc_at_inject [run_simps]:
  "rtc_at rx tx st = rtc_at rx' tx' st' \<longleftrightarrow> rx = rx' \<and> tx = tx' \<and> st = st'"
  by (simp add: rtc_at_def)

lemma rtc_steps_run [run_simps]:
  "rtc_return x io = (Rtc_Ok x, io)"
  "rtc_report s (rtc_at rx tx st) = (Rtc_Ok (), rtc_at rx tx (st @ [s]))"
  "rtc_connected True = rtc_report St_Connected" "publish_files True = rtc_return ()"
  "rtc_send msg (rtc_at rx tx st) = (Rtc_Ok (), rtc_at rx (tx @ [msg]) st)"
  "rtc_recv (rtc_at (msg # rx) tx st) = (Rtc_Ok (Some msg), rtc_at rx tx st)"
  by (simp_all add: rtc_return_def rtc_report_def rtc_connected_def publish_files_def rtc_send_def rtc_recv_def rtc_at_def fun_eq_iff)

lemma each_chunk_run:
  "each_chunk send_rtc_chunk (rtc_at rx tx st) cs = Inr (rtc_at rx (tx @ map binary_message cs) st)"
  by (induction cs arbitrary: tx) (simp_all add: send_rtc_chunk_eq rtc_at_def)

lemma rtc_send_chunked_run [run_simps]:
  "rtc_send_chunked c x (rtc_at rx tx st) = (Rtc_Ok (), rtc_at rx (tx @ chunked c x) st)"
  by (simp add: rtc_send_chunked_def rtc_send_chunks_def send_string_in_chunks_def
      process_in_chunks_eq [of "[]"] each_chunk_run run_simps chunked_def del: process_in_chunks.simps)

lemma rtc_recv_json_run [run_simps]:
  "codec_ok c \<Longrightarrow> rtc_recv_json c e (rtc_at (send_json c x # rx) tx st) = (Rtc_Ok x, rtc_at rx tx st)"
  by (simp add: rtc_recv_json_def run_simps codec_ok_def)

lemma rtc_recv_chunked_run [run_simps]:
  "rtc_recv_chunked (rtc_at (chunked c x @ rx) tx st) = (Rtc_Ok (co_enc c x), rtc_at rx tx st)"
  by (simp add: rtc_recv_chunked_def chunked_def receive_chunks rtc_at_def)

lemma rtc_recv_chunked_json_run [run_simps]:
  "codec_ok c \<Longrightarrow>
     rtc_recv_chunked_json c (rtc_at (chunked c x @ rx) tx st) = (Rtc_Ok x, rtc_at rx tx st)"
  by (simp add: rtc_recv_chunked_json_def run_simps codec_ok_def)

lemma receive_nonce_run [run_simps]:
  assumes "codec_ok (jx_nonce jx)" and "crypto_laws lib"
  shows "receive_nonce jx lib
      (rtc_at (send_json (jx_nonce jx) (cl_b64_encode lib (generate_nonce random)) # rx) tx st) =
    (Rtc_Ok (generate_nonce random), rtc_at rx tx st)"
  using assms by (simp add: receive_nonce_def run_simps crypto_laws_def)

text \<open>A token passes the check of the peer that expects the key it was made with.\<close>

definition expects ::
  "('sk, 'ek, 'rk, 'z) crypto_lib_scheme \<Rightarrow> ('ek, 'rk) verifying_key option \<Rightarrow> 'sk signing_key \<Rightarrow> bool" where
  "expects lib expecting key \<longleftrightarrow> expecting = None \<or> expecting = Some (to_verifying_key lib key)"

lemma check_remote_token_run:
  assumes "crypto_laws lib" and "expects lib expecting key"
    and "generate_token_nonce lib key nonce = Some token"
  shows "check_remote_token lib expecting token nonce io = (Rtc_Ok True, io)"
proof -
  have "verify_token_nonce lib (to_verifying_key lib key) token nonce = Done True"
    using generate_then_verify [OF assms(1,3)] by (simp add: verify_token_nonce_def nonce_salt_check_def)
  with assms(2) show ?thesis
    by (auto simp: expects_def check_remote_token_def rtc_return_def rtc_run_def)
qed

subsection \<open>Challenges that are met at once\<close>

definition knows_pin :: "pin_config option \<Rightarrow> string list \<Rightarrow> bool" where
  "knows_pin config pins \<longleftrightarrow>
     (case config of None \<Rightarrow> True
      | Some config \<Rightarrow> pc_pin config \<noteq> [] \<and> 0 < pc_max_tries config \<and> pins \<noteq> [] \<and> hd pins = pc_pin config)"

lemma verify_pin_run:
  assumes "codec_ok (jx_pin jx)" and "pc_pin config \<noteq> []" and "0 < pc_max_tries config"
    and "\<And>rx tx st. notify Vp_Pin_Required (rtc_at rx tx st) = (Rtc_Ok (), rtc_at rx (tx @ ms) st)"
  shows "rtc_verify_pin jx notify config notice
      (rtc_at (send_json (jx_pin jx) (pc_pin config) # rx) tx st) =
    (Rtc_Ok (), rtc_at rx (tx @ (if notice then ms else [])) (st @ [St_Pin_Required]))"
proof -
  have pass: "rtc_verify_pin_loop jx notify config False k (pc_pin config) io = (Rtc_Ok (), io)" for k io
    by (subst rtc_verify_pin_loop.simps) (simp add: rtc_return_def)
  have "rtc_verify_pin_loop jx notify config notice 0 []
      (rtc_at (send_json (jx_pin jx) (pc_pin config) # rx) tx st') =
    (Rtc_Ok (), rtc_at rx (tx @ (if notice then ms else [])) st')" for st'
    using assms
    by (subst rtc_verify_pin_loop.simps)
      (cases notice; simp add: run_simps codec_ok_def word_less_nat_alt word_le_nat_alt pass)
  then show ?thesis by (simp add: rtc_verify_pin_def run_simps)
qed

lemma handle_pin_run:
  assumes "parse (co_enc c y) = Ch_Ok x" and "pins \<noteq> []"
  shows "rtc_handle_pin jx False parse pins (rtc_at (send_json c y # rx) tx st) =
      (Rtc_Ok x, rtc_at rx (tx @ [send_json (jx_pin jx) (hd pins)]) (st @ [St_Pin_Required]))"
    and "rtc_handle_pin jx True parse pins (rtc_at (chunked c y @ rx) tx st) =
      (Rtc_Ok x, rtc_at rx (tx @ [send_json (jx_pin jx) (hd pins)]) (st @ [St_Pin_Required]))"
  using assms by (cases pins; simp add: run_simps rtc_pin_response_def)+

section \<open>The two scripts\<close>

text \<open>What each peer sends in the challenge of the receiver and in the challenge of the sender.\<close>

definition pin_messages :: "rtc_codec \<Rightarrow> pin_config option \<Rightarrow> channel_message list" where
  "pin_messages jx config =
     (case config of None \<Rightarrow> [] | Some config \<Rightarrow> [send_json (jx_pin jx) (pc_pin config)])"

definition receiver_pin_replies :: "rtc_codec \<Rightarrow> pin_config option \<Rightarrow> channel_message list" where
  "receiver_pin_replies jx config =
     (case config of None \<Rightarrow> [] | Some _ \<Rightarrow> [send_json (jx_receiving jx) Receiving_Ok])"

definition sender_pin_notices :: "rtc_codec \<Rightarrow> pin_config option \<Rightarrow> channel_message list" where
  "sender_pin_notices jx config =
     (case config of None \<Rightarrow> [] | Some _ \<Rightarrow> chunked (jx_sending jx) Sending_Pin_Required)"

definition receiver_token_message :: "pin_config option \<Rightarrow> string \<Rightarrow> rtc_token_response" where
  "receiver_token_message config token =
     (case config of None \<Rightarrow> Token_Ok token | Some _ \<Rightarrow> Token_Pin_Required token)"

definition nonce_message ::
  "rtc_codec \<Rightarrow> ('sk, 'ek, 'rk, 'z) crypto_lib_scheme \<Rightarrow> (nat \<Rightarrow> u8) \<Rightarrow> channel_message" where
  "nonce_message jx lib random = send_json (jx_nonce jx) (cl_b64_encode lib (generate_nonce random))"

lemma sender_pins_run:
  assumes "rtc_codec_ok jx" and "knows_pin config (so_pins cfg)" and "knows_pin (so_pin cfg) pins"
  shows "\<exists>st'. sender_pins jx cfg (config \<noteq> None)
      (rtc_at (receiver_pin_replies jx config @ pin_messages jx (so_pin cfg) @ rx) tx st) =
    (Rtc_Ok (), rtc_at rx (tx @ pin_messages jx config @ sender_pin_notices jx (so_pin cfg)) st')"
proof -
  have dec: "receiving_to_challenge jx (co_enc (jx_receiving jx) Receiving_Ok) = Ch_Ok ()"
    and pin: "codec_ok (jx_pin jx)"
    using assms(1) by (simp_all add: receiving_to_challenge_def rtc_codec_ok_def codec_ok_def)
  note run = verify_pin_run [OF pin, where notify = "\<lambda>n. rtc_send_chunked (jx_sending jx) (sending_notice n)"]
    handle_pin_run(1) [where parse = "receiving_to_challenge jx", OF dec]
  show ?thesis
    using assms(2,3)
    by (cases config; cases "so_pin cfg")
      (simp_all add: sender_pins_def knows_pin_def receiver_pin_replies_def pin_messages_def
        sender_pin_notices_def run_simps run)
qed

lemma receiver_pin_run:
  assumes "rtc_codec_ok jx" and "knows_pin config pins"
  shows "\<exists>st'. receiver_pin jx config (rtc_at (pin_messages jx config @ rx) tx st) =
    (Rtc_Ok (), rtc_at rx (tx @ receiver_pin_replies jx config) st')"
proof -
  have pin: "codec_ok (jx_pin jx)" using assms(1) by (simp add: rtc_codec_ok_def)
  note run = verify_pin_run [OF pin, where notify = "\<lambda>n. rtc_send (send_json (jx_receiving jx) (receiving_notice n))"]
  show ?thesis
    using assms(2)
    by (cases config)
      (simp_all add: receiver_pin_def knows_pin_def receiver_pin_replies_def pin_messages_def run_simps run)
qed

lemma receive_file_list_run:
  assumes "rtc_codec_ok jx" and "knows_pin config pins"
  shows "\<exists>st'. receive_file_list jx pins
      (rtc_at (sender_pin_notices jx config @ chunked (jx_sending jx) (Sending_Ok files) @ rx) tx st) =
    (Rtc_Ok files, rtc_at rx (tx @ pin_messages jx config) st')"
proof -
  have dec: "sending_to_challenge jx (co_enc (jx_sending jx) (Sending_Ok files)) = Ch_Ok files"
    and sending: "codec_ok (jx_sending jx)"
    using assms(1) by (simp_all add: sending_to_challenge_def rtc_codec_ok_def codec_ok_def)
  show ?thesis
    using assms(2) sending
    by (cases config)
      (simp_all add: receive_file_list_def knows_pin_def sender_pin_notices_def pin_messages_def
        run_simps handle_pin_run(2) [where parse = "sending_to_challenge jx", OF dec])
qed

lemma nonces_run:
  assumes "rtc_codec_ok jx" and "crypto_laws lib"
  shows "sender_nonce jx lib random (rtc_at (nonce_message jx lib random' # rx) tx st) =
      (Rtc_Ok (generate_nonce random @ generate_nonce random'), rtc_at rx (tx @ [nonce_message jx lib random]) st)"
    and "receiver_nonce jx lib random' (rtc_at (nonce_message jx lib random # rx) tx st) =
      (Rtc_Ok (generate_nonce random @ generate_nonce random'), rtc_at rx (tx @ [nonce_message jx lib random']) st)"
  using assms
  by (simp_all add: sender_nonce_def receiver_nonce_def Let_def nonce_message_def rtc_codec_ok_def run_simps)

lemma sender_token_run:
  assumes "rtc_codec_ok jx" and "crypto_laws lib" and "expects lib expecting key'"
    and "generate_token_nonce lib key nonce = Some token"
    and "generate_token_nonce lib key' nonce = Some token'"
  shows "sender_token jx lib key expecting nonce
      (rtc_at (send_json (jx_token_response jx) (receiver_token_message config token') # rx) tx st) =
    (Rtc_Ok (token', config \<noteq> None), rtc_at rx (tx @ [send_json (jx_token_request jx) token]) st)"
  using assms(1,4) check_remote_token_run [OF assms(2,3,5)]
  by (cases config)
    (simp_all add: sender_token_def local_token_def receiver_token_message_def rtc_codec_ok_def run_simps)

lemma receiver_token_run:
  assumes "rtc_codec_ok jx" and "crypto_laws lib" and "expects lib expecting key"
    and "generate_token_nonce lib key nonce = Some token"
    and "generate_token_nonce lib key' nonce = Some token'"
  shows "receiver_token jx lib key' expecting config nonce
      (rtc_at (send_json (jx_token_request jx) token # rx) tx st) =
    (Rtc_Ok token, rtc_at rx (tx @ [send_json (jx_token_response jx) (receiver_token_message config token')]) st)"
  using assms(1,5) check_remote_token_run [OF assms(2,3,4)]
  by (cases config)
    (simp_all add: receiver_token_def local_token_def receiver_token_message_def rtc_codec_ok_def run_simps)

section \<open>Concrete codecs\<close>

text \<open>A value as that many bytes, and one more.\<close>

definition unary_codec :: "('a \<Rightarrow> 'b :: countable) \<Rightarrow> ('b \<Rightarrow> 'a) \<Rightarrow> 'a codec" where
  "unary_codec f g = \<lparr>co_enc = (\<lambda>x. replicate (Suc (to_nat (f x))) 0),
     co_dec = (\<lambda>d. if d = [] then None else Some (g (from_nat (length d - 1))))\<rparr>"

lemma unary_codec_ok: "(\<And>x. g (f x) = x) \<Longrightarrow> codec_ok (unary_codec f g)"
  by (simp add: codec_ok_def unary_codec_def)

text \<open>Messages as tuples.\<close>

definition token_response_to ::
  "rtc_token_response \<Rightarrow> string option \<times> string option" where
  "token_response_to r = (case r of Token_Ok t \<Rightarrow> (Some t, None) | Token_Pin_Required t \<Rightarrow> (None, Some t)
     | Token_Invalid_Signature \<Rightarrow> (None, None))"

definition token_response_from ::
  "string option \<times> string option \<Rightarrow> rtc_token_response" where
  "token_response_from r = (case r of (Some t, _) \<Rightarrow> Token_Ok t | (None, Some t) \<Rightarrow> Token_Pin_Required t
     | _ \<Rightarrow> Token_Invalid_Signature)"

definition file_to where
  "file_to f = (fd_id f, fd_file_name f, unat (fd_size f), fd_file_type f, fd_sha256 f, fd_preview f,
     map_option (\<lambda>m. (fm_modified m, fm_accessed m)) (fd_metadata f))"

definition file_from :: "string \<times> string \<times> nat \<times> string \<times> string option \<times> string option \<times>
    (string option \<times> string option) option \<Rightarrow> file_dto" where
  "file_from t = (case t of (i, n, s, ty, h, p, m) \<Rightarrow>
     \<lparr>fd_id = i, fd_file_name = n, fd_size = of_nat s, fd_file_type = ty, fd_sha256 = h, fd_preview = p,
      fd_metadata = map_option (\<lambda>(a, b). \<lparr>fm_modified = a, fm_accessed = b\<rparr>) m\<rparr>)"

definition sending_to :: "rtc_pin_sending_response \<Rightarrow> _" where
  "sending_to r = (case r of Sending_Ok fs \<Rightarrow> Inl (map file_to fs) | Sending_Pin_Required \<Rightarrow> Inr True
     | Sending_Too_Many \<Rightarrow> Inr False)"

definition sending_from where
  "sending_from r = (case r of Inl fs \<Rightarrow> Sending_Ok (map file_from fs)
     | Inr b \<Rightarrow> if b then Sending_Pin_Required else Sending_Too_Many)"

definition file_list_to :: "rtc_file_list_response \<Rightarrow> _" where
  "file_list_to r = (case r of Files_Ok m \<Rightarrow> Inl m | Files_Pair k \<Rightarrow> Inr (Inl k)
     | Files_Declined \<Rightarrow> Inr (Inr True) | Files_Invalid_Signature \<Rightarrow> Inr (Inr False))"

definition file_list_from where
  "file_list_from r = (case r of Inl m \<Rightarrow> Files_Ok m | Inr (Inl k) \<Rightarrow> Files_Pair k
     | Inr (Inr b) \<Rightarrow> if b then Files_Declined else Files_Invalid_Signature)"

definition pair_to :: "rtc_pair_response \<Rightarrow> string + bool" where
  "pair_to r = (case r of Pair_Ok k \<Rightarrow> Inl k | Pair_Declined \<Rightarrow> Inr True | Pair_Invalid_Signature \<Rightarrow> Inr False)"

definition pair_from :: "string + bool \<Rightarrow> rtc_pair_response" where
  "pair_from r = (case r of Inl k \<Rightarrow> Pair_Ok k | Inr b \<Rightarrow> if b then Pair_Declined else Pair_Invalid_Signature)"

definition response_to :: "rtc_send_file_response \<Rightarrow> _" where
  "response_to r = (fr_id r, fr_success r, fr_error r)"

definition response_from where
  "response_from = (\<lambda>(i, s, e). \<lparr>fr_id = i, fr_success = s, fr_error = e\<rparr>)"

definition full_codec :: rtc_codec where
  "full_codec = \<lparr>jx_nonce = string_codec, jx_token_request = string_codec,
     jx_token_response = unary_codec token_response_to token_response_from, jx_pin = string_codec,
     jx_receiving = receiving_codec, jx_sending = unary_codec sending_to sending_from,
     jx_file_list = unary_codec file_list_to file_list_from, jx_pair = unary_codec pair_to pair_from,
     jx_header = header_codec, jx_file_response = unary_codec response_to response_from\<rparr>"

lemma file_from_to: "file_from (file_to f) = f"
  by (cases "fd_metadata f") (simp_all add: file_from_def file_to_def)

lemma full_codec_ok: "rtc_codec_ok full_codec"
proof -
  have "codec_ok (unary_codec token_response_to token_response_from)"
    "codec_ok (unary_codec sending_to sending_from)"
    "codec_ok (unary_codec file_list_to file_list_from)"
    "codec_ok (unary_codec pair_to pair_from)" "codec_ok (unary_codec response_to response_from)"
    by (rule unary_codec_ok,
      simp add: token_response_to_def token_response_from_def sending_to_def sending_from_def
        file_list_to_def file_list_from_def pair_to_def pair_from_def response_to_def response_from_def
        file_from_to comp_def
        split: rtc_token_response.split rtc_pin_sending_response.split rtc_file_list_response.split
          rtc_pair_response.split)+
  then show ?thesis
    by (simp add: rtc_codec_ok_def full_codec_def string_codec_ok receiving_codec_ok header_codec_ok)
qed

subsection \<open>Two devices\<close>

definition alice :: "(unit, unit, unit) sender_config" where
  "alice = \<lparr>so_key = Signing_Key (), so_expecting = Some (Ed25519_Key ()),
     so_pin = Some \<lparr>pc_pin = ''12'', pc_max_tries = 3\<rparr>,
     so_files = [\<lparr>fd_id = ''f'', fd_file_name = ''a.txt'', fd_size = 5, fd_file_type = ''text/plain'',
       fd_sha256 = None, fd_preview = None, fd_metadata = None\<rparr>],
     so_pins = [''34''], so_pair = None, so_listens = True\<rparr>"

definition bob :: "(unit, unit, unit) receiver_config" where
  "bob = \<lparr>ro_key = Signing_Key (), ro_expecting = Some (Ed25519_Key ()),
     ro_pin = Some \<lparr>pc_pin = ''34'', pc_max_tries = 3\<rparr>, ro_pins = [''12''],
     ro_selection = Some (Some [''f'']), ro_uuid = (\<lambda>_. ''t''), ro_listens = True, ro_takes_files = True\<rparr>"

lemma alice_bob_ready:
  "cl_ed_der sample_lib (cl_ed_key sample_lib (inner_key (so_key alice))) \<noteq> None"
  "cl_ed_der sample_lib (cl_ed_key sample_lib (inner_key (ro_key bob))) \<noteq> None"
  "expects sample_lib (so_expecting alice) (ro_key bob)" "expects sample_lib (ro_expecting bob) (so_key alice)"
  "knows_pin (so_pin alice) (ro_pins bob)" "knows_pin (ro_pin bob) (so_pins alice)"
  "so_listens alice" "ro_listens bob" "ro_takes_files bob"
  "ro_selection bob = Some (Some [''f''])"
  by (simp_all add: alice_def bob_def sample_lib_def expects_def to_verifying_key_def knows_pin_def)

lemma handshake_run:
  assumes "rtc_codec_ok jx" and "crypto_laws lib"
    and "cl_ed_der lib (cl_ed_key lib (inner_key (so_key snd_cfg))) \<noteq> None"
    and "cl_ed_der lib (cl_ed_key lib (inner_key (ro_key rcv_cfg))) \<noteq> None"
    and "expects lib (so_expecting snd_cfg) (ro_key rcv_cfg)"
    and "expects lib (ro_expecting rcv_cfg) (so_key snd_cfg)"
    and "knows_pin (so_pin snd_cfg) (ro_pins rcv_cfg)" and "knows_pin (ro_pin rcv_cfg) (so_pins snd_cfg)"
    and "so_listens snd_cfg" and "ro_listens rcv_cfg" and "ro_takes_files rcv_cfg"
    and "ro_selection rcv_cfg = Some (Some selected)"
  shows "\<exists>from_sender from_receiver.
    (\<forall>rest. \<exists>st. sender_handshake jx lib random snd_cfg (rtc_at (from_receiver @ rest) [] []) =
      (Rtc_Ok (selection_tokens (ro_uuid rcv_cfg) selected), rtc_at rest from_sender st)) \<and>
    (\<forall>rest. \<exists>st. receiver_handshake jx lib random' rcv_cfg (rtc_at (from_sender @ rest) [] []) =
      (Rtc_Ok (selection_tokens (ro_uuid rcv_cfg) selected, so_files snd_cfg), rtc_at rest from_receiver st))"
proof -
  let ?nonce = "generate_nonce random @ generate_nonce random'"
  have codec: "codec_ok (jx_file_list jx)"
    using assms(1) by (simp add: rtc_codec_ok_def)
  obtain token where token: "generate_token_nonce lib (so_key snd_cfg) ?nonce = Some token"
    using assms(3) by (auto simp: generate_token_nonce_def Let_def)
  obtain token' where token': "generate_token_nonce lib (ro_key rcv_cfg) ?nonce = Some token'"
    using assms(4) by (auto simp: generate_token_nonce_def Let_def)
  let ?tokens = "selection_tokens (ro_uuid rcv_cfg) selected"
  let ?after_tokens = "receiver_pin_replies jx (ro_pin rcv_cfg) @ pin_messages jx (so_pin snd_cfg) @
    chunked (jx_file_list jx) (Files_Ok ?tokens)"
  let ?from_receiver = "nonce_message jx lib random' #
    send_json (jx_token_response jx) (receiver_token_message (ro_pin rcv_cfg) token') # ?after_tokens"
  let ?files = "chunked (jx_sending jx) (Sending_Ok (so_files snd_cfg))"
  let ?from_sender = "nonce_message jx lib random # send_json (jx_token_request jx) token #
    pin_messages jx (ro_pin rcv_cfg) @ sender_pin_notices jx (so_pin snd_cfg) @ ?files"
  have "\<exists>st. sender_handshake jx lib random snd_cfg (rtc_at (?from_receiver @ rest) [] []) =
      (Rtc_Ok ?tokens, rtc_at rest ?from_sender st)" for rest
    using sender_pins_run [OF assms(1,8,7),
        of "chunked (jx_file_list jx) (Files_Ok ?tokens) @ rest"
          "[nonce_message jx lib random, send_json (jx_token_request jx) token]" "[]"]
      rtc_recv_chunked_json_run [OF codec, of "Files_Ok ?tokens" rest] assms(9)
    by (auto simp: sender_handshake_def nonces_run [OF assms(1,2)] sender_token_run [OF assms(1,2,5) token token']
        send_file_list_def sender_selection_def selection_answer_def run_simps)
  moreover have "\<exists>st. receiver_handshake jx lib random' rcv_cfg (rtc_at (?from_sender @ rest) [] []) =
      (Rtc_Ok (?tokens, so_files snd_cfg), rtc_at rest ?from_receiver st)" for rest
  proof -
    let ?sent = "[nonce_message jx lib random',
      send_json (jx_token_response jx) (receiver_token_message (ro_pin rcv_cfg) token')]"
    obtain st1 where pin: "receiver_pin jx (ro_pin rcv_cfg)
        (rtc_at (pin_messages jx (ro_pin rcv_cfg) @ sender_pin_notices jx (so_pin snd_cfg) @ ?files @ rest) ?sent []) =
      (Rtc_Ok (), rtc_at (sender_pin_notices jx (so_pin snd_cfg) @ ?files @ rest)
        (?sent @ receiver_pin_replies jx (ro_pin rcv_cfg)) st1)"
      using receiver_pin_run [OF assms(1,8)] by blast
    obtain st2 where list: "receive_file_list jx (ro_pins rcv_cfg)
        (rtc_at (sender_pin_notices jx (so_pin snd_cfg) @ ?files @ rest)
          (?sent @ receiver_pin_replies jx (ro_pin rcv_cfg)) st1) =
      (Rtc_Ok (so_files snd_cfg), rtc_at rest
        ((?sent @ receiver_pin_replies jx (ro_pin rcv_cfg)) @ pin_messages jx (so_pin snd_cfg)) st2)"
      using receive_file_list_run [OF assms(1,7), where rx = rest] by blast
    show ?thesis
      using pin list assms(9-)
      by (simp add: receiver_handshake_def nonces_run [OF assms(1,2)]
          receiver_token_run [OF assms(1,2,6) token token'] receiver_selection_def Let_def run_simps)
  qed
  ultimately show ?thesis by (intro exI [of _ ?from_sender] exI [of _ ?from_receiver] conjI allI)
qed

text \<open>A handshake that succeeds has reported the connection.\<close>

definition marks :: "'a rtc \<Rightarrow> bool" where
  "marks m \<longleftrightarrow> (\<forall>io x io'. m io = (Rtc_Ok x, io') \<longrightarrow> is_connected io')"

lemma marks_bind: "(\<And>x. marks (f x)) \<Longrightarrow> marks (rtc_bind m f)"
  unfolding marks_def by (auto dest!: rtc_bind_OkD)

lemma marks_report: 
  assumes "\<And>x. grows (f x)"
  shows "marks (rtc_bind (rtc_connected listens) f)"
  unfolding marks_def
proof (intro allI impI)
  fix io x io'
  assume "rtc_bind (rtc_connected listens) f io = (Rtc_Ok x, io')"
  then have "f () (io\<lparr>io_status := io_status io @ [St_Connected]\<rparr>) = (Rtc_Ok x, io')"
    by (cases listens) (simp_all add: rtc_bind_def rtc_report_def rtc_connected_def rtc_fail_def)
  moreover have "is_connected (io\<lparr>io_status := io_status io @ [St_Connected]\<rparr>)" by simp
  ultimately show "is_connected io'"
    using assms [of "()"] unfolding grows_def by (metis snd_conv)
qed

lemma marks_handshakes:
  "marks (sender_handshake jx lib random cfg)" "marks (receiver_handshake jx lib random' cfg')"
proof -
  have "grows (receiver_selection jx selection uuid)" for selection uuid
    by (simp add: receiver_selection_def Let_def split: option.split)
  then have "marks (rtc_bind (rtc_connected listens) (\<lambda>_. rtc_bind (publish_files takes) (\<lambda>_.
      rtc_bind (receiver_selection jx selection uuid) (\<lambda>file_tokens. rtc_return (file_tokens, file_list)))))"
    for listens takes selection uuid file_list
    by (intro marks_report) (simp add: publish_files_def)
  then show "marks (receiver_handshake jx lib random' cfg')"
    unfolding receiver_handshake_def by - (rule marks_bind, rule marks_bind, rule marks_bind, rule marks_bind, assumption)
  show "marks (sender_handshake jx lib random cfg)"
    unfolding sender_handshake_def split_def by (intro marks_bind marks_report) simp
qed

section \<open>Properties\<close>

text \<open>
  The peers agree: when each expects the other's key or none, the users enter the PINs they
  are asked for and the receiver selects files, there is an exchange of messages in which each task
  sends exactly what the other reads, none is left, and both end with the receiver's tokens.
\<close>

theorem handshake_agrees:
  assumes "rtc_codec_ok jx" and "crypto_laws lib"
    and "cl_ed_der lib (cl_ed_key lib (inner_key (so_key snd_cfg))) \<noteq> None"
    and "cl_ed_der lib (cl_ed_key lib (inner_key (ro_key rcv_cfg))) \<noteq> None"
    and "expects lib (so_expecting snd_cfg) (ro_key rcv_cfg)"
    and "expects lib (ro_expecting rcv_cfg) (so_key snd_cfg)"
    and "knows_pin (so_pin snd_cfg) (ro_pins rcv_cfg)" and "knows_pin (ro_pin rcv_cfg) (so_pins snd_cfg)"
    and "so_listens snd_cfg" and "ro_listens rcv_cfg" and "ro_takes_files rcv_cfg"
    and "ro_selection rcv_cfg = Some (Some selected)"
  shows "\<exists>from_sender from_receiver st st'.
    sender_handshake jx lib random snd_cfg (rtc_at from_receiver [] []) =
      (Rtc_Ok (selection_tokens (ro_uuid rcv_cfg) selected), rtc_at [] from_sender st) \<and>
    receiver_handshake jx lib random' rcv_cfg (rtc_at from_sender [] []) =
      (Rtc_Ok (selection_tokens (ro_uuid rcv_cfg) selected, so_files snd_cfg), rtc_at [] from_receiver st')"
  using handshake_run [OF assms, of random random'] by (metis append_Nil2)

theorem handshake_agrees_witness:
  "\<exists>from_sender from_receiver st.
     sender_handshake full_codec sample_lib (\<lambda>_. 1) alice (rtc_at from_receiver [] []) =
       (Rtc_Ok [(''f'', ''t'')], rtc_at [] from_sender st)"
proof -
  have "selection_tokens (ro_uuid bob) [''f''] = [(''f'', ''t'')]"
    by (simp add: selection_tokens_def bob_def)
  with handshake_agrees [OF full_codec_ok sample_lib_laws alice_bob_ready, of "\<lambda>_. 1" "\<lambda>_. 2"]
  show ?thesis by auto
qed

text \<open>
  A receiver with an empty PIN tells the sender that a PIN is required, but does not read one;
  whatever the sender's user then enters, the receiver takes that message for the end of an empty
  file list and ends with an error.
\<close>

theorem empty_pin_desync:
  assumes "rtc_codec_ok jx" and "crypto_laws lib" and "expects lib (ro_expecting cfg) key"
    and "generate_token_nonce lib key (generate_nonce random @ generate_nonce random') = Some token"
    and "generate_token_nonce lib (ro_key cfg) (generate_nonce random @ generate_nonce random') = Some token'"
    and "ro_pin cfg = Some config" and "pc_pin config = []"
    and "co_dec (jx_sending jx) [] = None"
  shows "receiver_handshake jx lib random' cfg
      (rtc_at (nonce_message jx lib random # send_json (jx_token_request jx) token #
        send_json (jx_pin jx) pin # rx) [] []) =
    (Rtc_Err ''Failed to deserialize file list response'',
     rtc_at rx [nonce_message jx lib random', send_json (jx_token_response jx) (Token_Pin_Required token'),
       send_json (jx_receiving jx) Receiving_Ok] [St_Pin_Required])"
proof -
  have pass: "rtc_verify_pin_loop jx notify config False 0 [] io = (Rtc_Ok (), io)" for notify io
    using assms(7) by (subst rtc_verify_pin_loop.simps) (simp add: rtc_return_def)
  have empty: "rtc_recv_chunked (rtc_at (send_json (jx_pin jx) pin # rx) tx st) = (Rtc_Ok [], rtc_at rx tx st)"
    for tx st by (simp add: rtc_recv_chunked_def rtc_at_def)
  show ?thesis
    using assms(6,8)
    by (simp add: receiver_handshake_def nonces_run [OF assms(1,2)]
        receiver_token_run [OF assms(1,2,3,4,5)] receiver_pin_def rtc_verify_pin_def pass
        receive_file_list_def rtc_recv_chunked_json_def empty rtc_fail_def receiver_token_message_def run_simps)
qed

theorem empty_pin_desync_witness:
  "\<exists>rx io. receiver_handshake full_codec sample_lib (\<lambda>_. 2)
      (bob\<lparr>ro_pin := Some \<lparr>pc_pin = [], pc_max_tries = 3\<rparr>\<rparr>) (rtc_at rx [] []) =
    (Rtc_Err ''Failed to deserialize file list response'', io)"
proof -
  let ?cfg = "bob\<lparr>ro_pin := Some \<lparr>pc_pin = [], pc_max_tries = 3\<rparr>\<rparr>"
  obtain t where t: "generate_token_nonce sample_lib (Signing_Key ())
      (generate_nonce (\<lambda>_. 1) @ generate_nonce (\<lambda>_. 2)) = Some t"
    by (simp add: generate_token_nonce_def sample_lib_def Let_def)
  have key: "ro_key ?cfg = Signing_Key ()" and "expects sample_lib (ro_expecting ?cfg) (Signing_Key ())"
    and "co_dec (jx_sending full_codec) [] = None"
    by (simp_all add: bob_def expects_def to_verifying_key_def sample_lib_def full_codec_def unary_codec_def)
  with empty_pin_desync [OF full_codec_ok sample_lib_laws _ t t [folded key], of _ "''1''" "[]"]
  show ?thesis by simp blast
qed

theorem sender_authenticates_witness:
  "\<exists>nonce_msg token_msg rest remote token io.
     sender_handshake full_codec sample_lib (\<lambda>_. 1) alice (rtc_at (nonce_msg # token_msg # rest) [] []) =
       (Rtc_Ok [(''f'', ''t'')], io) \<and>
     nonce_in full_codec sample_lib nonce_msg = Some remote \<and>
     response_token_in full_codec token_msg = Some token \<and>
     verify_token_nonce sample_lib (Ed25519_Key ()) token (generate_nonce (\<lambda>_. 1) @ remote) = Done True"
proof -
  obtain ms io where run: "sender_handshake full_codec sample_lib (\<lambda>_. 1) alice (rtc_at ms [] []) =
      (Rtc_Ok (selection_tokens (ro_uuid bob) [''f'']), io)"
    using handshake_run [OF full_codec_ok sample_lib_laws alice_bob_ready] by blast
  moreover have "selection_tokens (ro_uuid bob) [''f''] = [(''f'', ''t'')]"
    by (simp add: selection_tokens_def bob_def)
  moreover from run have "is_connected (snd (sender_handshake full_codec sample_lib (\<lambda>_. 1) alice (rtc_at ms [] [])))"
    using marks_handshakes(1) unfolding marks_def by (metis snd_conv)
  moreover have "so_expecting alice = Some (Ed25519_Key ())" by (simp add: alice_def)
  moreover have "\<not> is_connected (rtc_at ms [] [])" by (simp add: rtc_at_def)
  ultimately show ?thesis
    using sender_authenticates [of full_codec sample_lib "\<lambda>_. 1" alice "rtc_at ms [] []"]
    by (simp add: rtc_at_simps) blast
qed

theorem file_list_withheld_witness:
  "sender_handshake full_codec sample_lib (\<lambda>_. 1) (alice\<lparr>so_files := []\<rparr>) (rtc_at [] [] []) =
   sender_handshake full_codec sample_lib (\<lambda>_. 1) alice (rtc_at [] [] [])"
proof -
  have "\<not> is_connected (snd (sender_handshake full_codec sample_lib (\<lambda>_. 1) alice (rtc_at [] [] [])))"
    by (simp add: sender_handshake_def sender_nonce_def receive_nonce_def rtc_recv_json_def rtc_recv_def
        rtc_fail_def Let_def run_simps)
  then show ?thesis by (rule file_list_withheld)
qed

theorem receiver_authenticates_witness:
  "\<exists>nonce_msg token_msg guesses later remote token io.
     receiver_handshake full_codec sample_lib (\<lambda>_. 2) bob
         (rtc_at (nonce_msg # token_msg # guesses @ later) [] []) =
       (Rtc_Ok ([(''f'', ''t'')], so_files alice), io) \<and>
     nonce_in full_codec sample_lib nonce_msg = Some remote \<and>
     request_token_in full_codec token_msg = Some token \<and>
     verify_token_nonce sample_lib (Ed25519_Key ()) token (remote @ generate_nonce (\<lambda>_. 2)) = Done True \<and>
     guesses \<noteq> [] \<and> length guesses \<le> 3 \<and>
     co_dec (jx_pin full_codec) (cm_data (last guesses)) = Some ''34''"
proof -
  obtain ms io where run: "receiver_handshake full_codec sample_lib (\<lambda>_. 2) bob (rtc_at ms [] []) =
      (Rtc_Ok (selection_tokens (ro_uuid bob) [''f''], so_files alice), io)"
    using handshake_run [OF full_codec_ok sample_lib_laws alice_bob_ready] by blast
  moreover have "selection_tokens (ro_uuid bob) [''f''] = [(''f'', ''t'')]"
    by (simp add: selection_tokens_def bob_def)
  moreover from run have "is_connected (snd (receiver_handshake full_codec sample_lib (\<lambda>_. 2) bob (rtc_at ms [] [])))"
    using marks_handshakes(2) unfolding marks_def by (metis snd_conv)
  moreover have "\<not> is_connected (rtc_at ms [] [])" by (simp add: rtc_at_def)
  moreover have "ro_pin bob = Some \<lparr>pc_pin = ''34'', pc_max_tries = 3\<rparr>"
    and "ro_expecting bob = Some (Ed25519_Key ())" by (simp_all add: bob_def)
  ultimately show ?thesis
    using receiver_authenticates [of full_codec sample_lib "\<lambda>_. 2" bob "rtc_at ms [] []"]
    by (simp add: rtc_at_simps) blast
qed

end
