(* ===== verification/Rtc_Files.thy ===== *)
theory Rtc_Files
  imports Rtc_Channel Upload_Contract
begin

text \<open>
  The transfer of the files over the data channel (\<open>webrtc/webrtc.rs\<close>): the sending loop of
  \<open>send_offer\<close> and the receiving loop of \<open>accept_offer\<close>.

  Inputs are the messages that arrive, whether the application takes a chunk, whether a message
  can be sent, and the results the application reports, in the order in which the receiver
  asks for them. What happens to the application is a log.
\<close>

section \<open>Sending\<close>

text \<open>\<open>net k\<close> tells whether the \<open>k\<close>-th message can be sent.\<close>

definition net_send ::
  "(nat \<Rightarrow> bool) \<Rightarrow> channel_message list \<Rightarrow> channel_message
     \<Rightarrow> channel_message list + channel_message list" where
  "net_send net sent msg = (if net (length sent) then Inr (sent @ [msg]) else Inl sent)"

text \<open>The files the application provides, each with the chunks of its stream.\<close>

fun send_files ::
  "rtc_codec \<Rightarrow> (nat \<Rightarrow> bool) \<Rightarrow> (string, string) hmap \<Rightarrow> (string \<times> bytes list) list
     \<Rightarrow> channel_message list \<Rightarrow> string list \<Rightarrow> channel_message list \<times> string list" where
  "send_files jx net file_map [] sent errors = (sent, errors)"
| "send_files jx net file_map ((file_id, binary_rx) # files) sent errors =
     (case hm_get file_map file_id of
        None \<Rightarrow> send_files jx net file_map files sent (errors @ [file_id])
      | Some file_token \<Rightarrow>
          (case net_send net sent
                  (send_json (jx_header jx) \<lparr>hd_id = file_id, hd_token = file_token\<rparr>) of
             Inl sent \<Rightarrow> send_files jx net file_map files sent (errors @ [file_id])
           | Inr sent \<Rightarrow>
               (case process_in_chunks (\<lambda>sent chunk. net_send net sent (binary_message chunk))
                       sent [] binary_rx of
                  Inl sent \<Rightarrow> send_files jx net file_map files sent (errors @ [file_id])
                | Inr sent \<Rightarrow> send_files jx net file_map files sent errors)))"

text \<open>The loop and the closing delimiter; an error when that cannot be sent.\<close>

definition send_all_files ::
  "rtc_codec \<Rightarrow> (nat \<Rightarrow> bool) \<Rightarrow> (string, string) hmap \<Rightarrow> (string \<times> bytes list) list
     \<Rightarrow> (channel_message list + channel_message list) \<times> string list" where
  "send_all_files jx net file_map files =
     (let (sent, errors) = send_files jx net file_map files [] []
      in (net_send net sent delimiter, errors))"

section \<open>Receiving\<close>

record rtc_file_state =
  fs_file_id :: string
  fs_size :: u64
  fs_received :: u64

datatype receiver_event =
    Ev_File string
  | Ev_Data string bytes
  | Ev_File_Error string string

record receiver_state =
  rv_file :: "rtc_file_state option"
  rv_results :: "rtc_send_file_response list"
  rv_log :: "receiver_event list"
  rv_replies :: "rtc_send_file_response list"

datatype receiver_end = Receiver_Done | Receiver_Failed

datatype receiver_step = Step_Continue | Step_End receiver_end

definition rv_report :: "receiver_event \<Rightarrow> receiver_state \<Rightarrow> receiver_state" where
  "rv_report e s = s\<lparr>rv_log := rv_log s @ [e]\<rparr>"

text \<open>The result of the last file, as the application reports it.\<close>

definition file_result ::
  "rtc_send_file_response list \<Rightarrow> string option \<times> rtc_send_file_response list" where
  "file_result results =
     (case results of
        [] \<Rightarrow> (Some ''Failed to receive file result'', [])
      | r # rs \<Rightarrow>
          ((if fr_success r then None
            else Some (case fr_error r of None \<Rightarrow> ''Unknown error'' | Some e \<Rightarrow> e)), rs))"

text \<open>The header of a file.\<close>

definition receive_header ::
  "rtc_codec \<Rightarrow> (string, string) hmap \<Rightarrow> file_dto list \<Rightarrow> channel_message \<Rightarrow> receiver_state
     \<Rightarrow> receiver_step \<times> receiver_state" where
  "receive_header jx file_tokens file_list msg s =
     (case co_dec (jx_header jx) (cm_data msg) of
        None \<Rightarrow> (Step_End Receiver_Failed, s)
      | Some header \<Rightarrow>
     (case hm_get file_tokens (hd_id header) of
        None \<Rightarrow> (Step_Continue, rv_report (Ev_File_Error (hd_id header) ''File not found'') s)
      | Some entry \<Rightarrow>
          if hd_token header \<noteq> entry
          then (Step_Continue, rv_report (Ev_File_Error (hd_id header) ''Invalid token'') s)
          else
     (case find (\<lambda>f. fd_id f = hd_id header) file_list of
        None \<Rightarrow>
          (Step_Continue,
           rv_report (Ev_File_Error (hd_id header) ''Expected size to be available'') s)
      | Some file \<Rightarrow>
          (Step_Continue,
           rv_report (Ev_File (hd_id header))
             (s\<lparr>rv_file := Some \<lparr>fs_file_id = hd_id header, fs_size = fd_size file,
                                 fs_received = 0\<rparr>\<rparr>)))))"

text \<open>A text message ends the file that is being received, if there is one.\<close>

definition receive_text ::
  "rtc_codec \<Rightarrow> (nat \<Rightarrow> bool) \<Rightarrow> (string, string) hmap \<Rightarrow> file_dto list \<Rightarrow> channel_message
     \<Rightarrow> receiver_state \<Rightarrow> receiver_step \<times> receiver_state" where
  "receive_text jx net file_tokens file_list msg s =
     (let last_file_id = map_option fs_file_id (rv_file s);
          s = s\<lparr>rv_file := None\<rparr>
      in case last_file_id of
           None \<Rightarrow> receive_header jx file_tokens file_list msg s
         | Some last_file_id \<Rightarrow>
             (let (error, results) = file_result (rv_results s);
                  s = s\<lparr>rv_results := results\<rparr>
              in if \<not> net (length (rv_replies s)) then (Step_End Receiver_Failed, s)
                 else
                   (let s = s\<lparr>rv_replies := rv_replies s @
                         [\<lparr>fr_id = last_file_id, fr_success = error = None, fr_error = error\<rparr>]\<rparr>
                    in if is_delimiter msg then (Step_End Receiver_Done, s)
                       else receive_header jx file_tokens file_list msg s)))"

definition too_many_bytes_message :: "u64 \<Rightarrow> u64 \<Rightarrow> string" where
  "too_many_bytes_message expected received =
     ''Received more bytes than expected (expected '' @ nat_str 10 (unat expected) @ '', got '' @
     nat_str 10 (unat received) @ '')''"

definition receive_binary ::
  "(string \<Rightarrow> u64 \<Rightarrow> bool) \<Rightarrow> channel_message \<Rightarrow> receiver_state \<Rightarrow> receiver_step \<times> receiver_state" where
  "receive_binary takes msg s =
     (case rv_file s of
        None \<Rightarrow>
          (Step_Continue,
           rv_report (Ev_File_Error ''unknown'' ''Received binary data without a header'') s)
      | Some state \<Rightarrow>
          (let received = fs_received state + of_nat (length (cm_data msg)) in
           if received > fs_size state then
             (Step_Continue,
              (rv_report (Ev_File_Error (fs_file_id state)
                 (too_many_bytes_message (fs_size state) received)) s)\<lparr>rv_file := None\<rparr>)
           else
             (let s = s\<lparr>rv_file := Some (state\<lparr>fs_received := received\<rparr>)\<rparr> in
              if takes (fs_file_id state) received
              then (Step_Continue, rv_report (Ev_Data (fs_file_id state) (cm_data msg)) s)
              else (Step_End Receiver_Failed, s))))"

text \<open>The loop; a closed channel ends it without an error.\<close>

fun receive_files ::
  "rtc_codec \<Rightarrow> (nat \<Rightarrow> bool) \<Rightarrow> (string \<Rightarrow> u64 \<Rightarrow> bool) \<Rightarrow> (string, string) hmap
     \<Rightarrow> file_dto list \<Rightarrow> channel_message list \<Rightarrow> receiver_state \<Rightarrow> receiver_end \<times> receiver_state" where
  "receive_files jx net takes file_tokens file_list [] s = (Receiver_Done, s)"
| "receive_files jx net takes file_tokens file_list (msg # rx) s =
     (case (if cm_is_string msg then receive_text jx net file_tokens file_list msg s
            else receive_binary takes msg s) of
        (Step_End e, s) \<Rightarrow> (e, s)
      | (Step_Continue, s) \<Rightarrow> receive_files jx net takes file_tokens file_list rx s)"

definition receiver_start :: "rtc_send_file_response list \<Rightarrow> receiver_state" where
  "receiver_start results = \<lparr>rv_file = None, rv_results = results, rv_log = [], rv_replies = []\<rparr>"

section \<open>What reaches the application\<close>

text \<open>
  The log read as files: a file is opened, then gets data. The scan fails when data comes
  without its file or beyond its size, or a file is opened that was not selected and offered;
  its result is the open file and the bytes it got.
\<close>

fun scan_log ::
  "(string, string) hmap \<Rightarrow> file_dto list \<Rightarrow> receiver_event list \<Rightarrow> (string \<times> nat) option
     \<Rightarrow> (string \<times> nat) option option" where
  "scan_log tokens files [] current = Some current"
| "scan_log tokens files (Ev_File fid # es) current =
     (if hm_get tokens fid \<noteq> None \<and> find (\<lambda>f. fd_id f = fid) files \<noteq> None
      then scan_log tokens files es (Some (fid, 0)) else None)"
| "scan_log tokens files (Ev_File_Error fid e # es) current = scan_log tokens files es current"
| "scan_log tokens files (Ev_Data fid d # es) current =
     (case current of
        None \<Rightarrow> None
      | Some (fid', n) \<Rightarrow>
          if fid = fid' \<and>
             n + length d \<le> (case find (\<lambda>f. fd_id f = fid) files of None \<Rightarrow> 0 | Some f \<Rightarrow> unat (fd_size f))
          then scan_log tokens files es (Some (fid', n + length d)) else None)"

lemma scan_log_snoc:
  "scan_log tokens files (es @ [e]) current =
     (case scan_log tokens files es current of
        None \<Rightarrow> None | Some current' \<Rightarrow> scan_log tokens files [e] current')"
  by (induction tokens files es current rule: scan_log.induct) (auto split: option.split)

text \<open>
  The invariant of the loop, with the number of bytes still to come: the log is well formed and
  the open file's counter is what the application got for it.
\<close>

definition inv_receiver :: "(string, string) hmap \<Rightarrow> file_dto list \<Rightarrow> nat \<Rightarrow> receiver_state \<Rightarrow> bool" where
  "inv_receiver tokens files to_come s \<longleftrightarrow>
     (\<exists>current. scan_log tokens files (rv_log s) None = Some current \<and>
       (\<forall>st. rv_file s = Some st \<longrightarrow>
          (\<exists>f. find (\<lambda>f. fd_id f = fs_file_id st) files = Some f \<and> fd_size f = fs_size st) \<and>
          current = Some (fs_file_id st, unat (fs_received st)) \<and>
          unat (fs_received st) + to_come < 2 ^ 64))"

lemma inv_receiver_error [simp]:
  "inv_receiver tokens files n (rv_report (Ev_File_Error fid e) s) = inv_receiver tokens files n s"
  unfolding inv_receiver_def rv_report_def by (auto simp: scan_log_snoc split: option.split)

lemma inv_receiver_closed:
  "inv_receiver tokens files n s \<Longrightarrow> rv_log s' = rv_log s \<Longrightarrow> rv_file s' = None \<Longrightarrow>
     inv_receiver tokens files n' s'"
  unfolding inv_receiver_def by auto

lemma inv_receiver_less:
  "inv_receiver tokens files n s \<Longrightarrow> n' \<le> n \<Longrightarrow> inv_receiver tokens files n' s"
  unfolding inv_receiver_def by fastforce

lemma receive_header_inv:
  assumes "receive_header jx tokens files msg s = (r, s')" and "rv_file s = None"
    and "inv_receiver tokens files n s" and "n < 2 ^ 64"
  shows "inv_receiver tokens files n s'"
proof -
  have open_file: "inv_receiver tokens files n (rv_report (Ev_File fid)
      (s\<lparr>rv_file := Some \<lparr>fs_file_id = fid, fs_size = fd_size f, fs_received = 0\<rparr>\<rparr>))"
    if "hm_get tokens fid = Some t" and "find (\<lambda>f. fd_id f = fid) files = Some f" for fid t f
    using assms(3,4) that unfolding inv_receiver_def rv_report_def
    by (auto simp: scan_log_snoc)
  show ?thesis
    using assms(1,3) open_file
    by (auto simp: receive_header_def split: option.splits if_splits)
qed

lemma receive_text_inv:
  assumes "receive_text jx net tokens files msg s = (r, s')"
    and "inv_receiver tokens files n s" and "n < 2 ^ 64"
  shows "inv_receiver tokens files n s'"
proof -
  have closed: "inv_receiver tokens files n t" if "rv_log t = rv_log s" and "rv_file t = None" for t
    using inv_receiver_closed [OF assms(2)] that by blast
  have header: "inv_receiver tokens files n t'"
    if "receive_header jx tokens files msg t = (r, t')" and "rv_log t = rv_log s" and "rv_file t = None" for t t'
    using receive_header_inv [OF that(1,3) closed [OF that(2,3)] assms(3)] .
  show ?thesis
    using assms(1)
    by (auto simp: receive_text_def Let_def intro: closed elim: header split: option.splits prod.splits if_splits)
qed

lemma receive_binary_inv:
  assumes "receive_binary takes msg s = (r, s')"
    and "inv_receiver tokens files (length (cm_data msg) + n) s"
  shows "scan_log tokens files (rv_log s') None \<noteq> None \<and> (r = Step_Continue \<longrightarrow> inv_receiver tokens files n s')"
proof (cases "rv_file s")
  case None
  then have "inv_receiver tokens files n s'" using assms inv_receiver_less [OF assms(2), of n]
    by (auto simp: receive_binary_def)
  then show ?thesis by (auto simp: inv_receiver_def)
next
  case (Some st)
  let ?received = "fs_received st + of_nat (length (cm_data msg))"
  obtain f where f: "find (\<lambda>f. fd_id f = fs_file_id st) files = Some f" "fd_size f = fs_size st"
    and scan: "scan_log tokens files (rv_log s) None = Some (Some (fs_file_id st, unat (fs_received st)))"
    and bound: "unat (fs_received st) + (length (cm_data msg) + n) < 2 ^ 64"
    using assms(2) Some unfolding inv_receiver_def by auto
  have received: "unat ?received = unat (fs_received st) + length (cm_data msg)"
    using bound by (intro unat_u64_add) simp
  show ?thesis
  proof (cases "?received > fs_size st")
    case True
    then have "s' = (rv_report (Ev_File_Error (fs_file_id st) (too_many_bytes_message (fs_size st) ?received)) s)
        \<lparr>rv_file := None\<rparr>"
      using assms(1) Some by (simp add: receive_binary_def Let_def)
    then show ?thesis using scan by (simp add: inv_receiver_def rv_report_def scan_log_snoc)
  next
    case False
    then have "unat (fs_received st) + length (cm_data msg) \<le> unat (fs_size st)"
      using received by (simp add: word_less_nat_alt)
    then show ?thesis
      using assms(1) Some False f scan bound received
      by (auto simp: receive_binary_def Let_def inv_receiver_def rv_report_def scan_log_snoc split: if_splits)
  qed
qed

lemma receive_files_inv:
  "inv_receiver tokens files (length (concat (map cm_data rx))) s \<Longrightarrow>
     length (concat (map cm_data rx)) < 2 ^ 64 \<Longrightarrow>
     scan_log tokens files (rv_log (snd (receive_files jx net takes tokens files rx s))) None \<noteq> None"
proof (induction rx arbitrary: s)
  case Nil
  then show ?case by (auto simp: inv_receiver_def)
next
  case (Cons msg rx)
  let ?n = "length (concat (map cm_data rx))"
  obtain r s' where step: "(if cm_is_string msg then receive_text jx net tokens files msg s
      else receive_binary takes msg s) = (r, s')" by fastforce
  have "scan_log tokens files (rv_log s') None \<noteq> None \<and> (r = Step_Continue \<longrightarrow> inv_receiver tokens files ?n s')"
  proof (cases "cm_is_string msg")
    case True
    then have "inv_receiver tokens files ?n s'"
      using step receive_text_inv [of jx net tokens files msg s r s' ?n] Cons.prems
        inv_receiver_less [OF Cons.prems(1), of ?n] by simp
    then show ?thesis by (auto simp: inv_receiver_def)
  next
    case False
    then show ?thesis using step receive_binary_inv [of takes msg s r s' tokens files ?n] Cons.prems by simp
  qed
  then show ?case using step Cons by (cases r) auto
qed

text \<open>A scanned log read backwards: the open file, and what it got since it was opened.\<close>

fun data_of :: "receiver_event \<Rightarrow> bytes" where
  "data_of (Ev_Data fid d) = d"
| "data_of _ = []"

definition opens_a_file :: "receiver_event \<Rightarrow> bool" where
  "opens_a_file e \<longleftrightarrow> (\<exists>fid. e = Ev_File fid)"

definition belongs_to :: "string \<Rightarrow> receiver_event \<Rightarrow> bool" where
  "belongs_to fid e \<longleftrightarrow> (\<forall>fid' d. e = Ev_Data fid' d \<longrightarrow> fid' = fid)"

lemma scan_log_opened:
  assumes "scan_log tokens files es None = Some (Some (fid, n))"
  shows "\<exists>earlier since. es = earlier @ Ev_File fid # since \<and> list_all (Not \<circ> opens_a_file) since \<and>
    list_all (belongs_to fid) since \<and> length (concat (map data_of since)) = n \<and>
    hm_get tokens fid \<noteq> None \<and> find (\<lambda>f. fd_id f = fid) files \<noteq> None"
  using assms
proof (induction es arbitrary: n rule: rev_induct)
  case (snoc e es)
  have grow: ?case if "\<exists>earlier since. es = earlier @ Ev_File fid # since \<and> list_all (Not \<circ> opens_a_file) since \<and>
      list_all (belongs_to fid) since \<and> length (concat (map data_of since)) = m \<and>
      hm_get tokens fid \<noteq> None \<and> find (\<lambda>f. fd_id f = fid) files \<noteq> None"
    and "\<not> opens_a_file e" and "belongs_to fid e" and "m + length (data_of e) = n" for m
  proof -
    from that(1) obtain earlier since where split: "es = earlier @ Ev_File fid # since"
      and "list_all (Not \<circ> opens_a_file) since" "list_all (belongs_to fid) since"
      "length (concat (map data_of since)) = m"
      "hm_get tokens fid \<noteq> None" "find (\<lambda>f. fd_id f = fid) files \<noteq> None"
      by blast
    with that(2-4) have "es @ [e] = earlier @ Ev_File fid # since @ [e] \<and>
        list_all (Not \<circ> opens_a_file) (since @ [e]) \<and> list_all (belongs_to fid) (since @ [e]) \<and>
        length (concat (map data_of (since @ [e]))) = n \<and>
        hm_get tokens fid \<noteq> None \<and> find (\<lambda>f. fd_id f = fid) files \<noteq> None"
      by simp
    then show ?thesis by blast
  qed
  from snoc.prems obtain current where es: "scan_log tokens files es None = Some current"
    and e: "scan_log tokens files [e] current = Some (Some (fid, n))"
    by (auto simp: scan_log_snoc split: option.splits)
  show ?case
  proof (cases e)
    case (Ev_File fid')
    with e show ?thesis by (intro exI [of _ es] exI [of _ "[]"]) (auto split: if_splits)
  next
    case (Ev_Data fid' d)
    with e obtain m where "current = Some (fid, m)" "fid' = fid" and n: "m + length d = n"
      by (auto split: option.splits if_splits)
    with es have "scan_log tokens files es None = Some (Some (fid, m))" by simp
    moreover have "\<not> opens_a_file e" "belongs_to fid e" "m + length (data_of e) = n"
      using Ev_Data \<open>fid' = fid\<close> n by (simp_all add: opens_a_file_def belongs_to_def)
    ultimately show ?thesis using grow [OF snoc.IH] by blast
  next
    case (Ev_File_Error fid' msg)
    with e es have "scan_log tokens files es None = Some (Some (fid, n))" by simp
    moreover have "\<not> opens_a_file e" "belongs_to fid e" "n + length (data_of e) = n"
      using Ev_File_Error by (simp_all add: opens_a_file_def belongs_to_def)
    ultimately show ?thesis using grow [OF snoc.IH] by blast
  qed
qed simp

lemma scan_log_prefix:
  "scan_log tokens files (es @ es') current \<noteq> None \<Longrightarrow> scan_log tokens files es current \<noteq> None"
  by (induction tokens files es current rule: scan_log.induct) (auto split: if_splits option.splits)

lemma scan_log_data:
  assumes "scan_log tokens files (before @ Ev_Data fid d # after) None \<noteq> None"
  shows "\<exists>earlier since f. before = earlier @ Ev_File fid # since \<and> list_all (Not \<circ> opens_a_file) since \<and>
    list_all (belongs_to fid) since \<and> hm_get tokens fid \<noteq> None \<and>
    find (\<lambda>f. fd_id f = fid) files = Some f \<and>
    length (concat (map data_of since)) + length d \<le> unat (fd_size f)"
proof -
  have "scan_log tokens files (before @ [Ev_Data fid d]) None \<noteq> None"
    using assms scan_log_prefix [of tokens files "before @ [Ev_Data fid d]" after None] by simp
  then obtain n where scan: "scan_log tokens files before None = Some (Some (fid, n))"
    and "n + length d \<le> (case find (\<lambda>f. fd_id f = fid) files of None \<Rightarrow> 0 | Some f \<Rightarrow> unat (fd_size f))"
    by (auto simp: scan_log_snoc split: option.splits if_splits)
  with scan_log_opened [OF scan] show ?thesis by fastforce
qed

section \<open>A whole transfer\<close>

text \<open>The messages of one file, and what the application sees of it.\<close>

definition file_messages ::
  "rtc_codec \<Rightarrow> (string, string) hmap \<Rightarrow> string \<times> bytes list \<Rightarrow> channel_message list" where
  "file_messages jx tokens item =
     send_json (jx_header jx) \<lparr>hd_id = fst item, hd_token = the (hm_get tokens (fst item))\<rparr> #
     map binary_message (chunks_of (concat (snd item)))"

definition file_events :: "string \<times> bytes list \<Rightarrow> receiver_event list" where
  "file_events item = Ev_File (fst item) # map (Ev_Data (fst item)) (chunks_of (concat (snd item)))"

lemma net_send_reliable [simp]: "net_send (\<lambda>_. True) sent msg = Inr (sent @ [msg])"
  by (simp add: net_send_def)

lemma each_chunk_append [simp]:
  "each_chunk (\<lambda>sent chunk. Inr (sent @ [binary_message chunk])) sent cs = Inr (sent @ map binary_message cs)"
  by (induction cs arbitrary: sent) simp_all

lemma send_files_reliable:
  assumes "fst ` set items \<subseteq> dom (hm_get tokens)"
  shows "send_files jx (\<lambda>_. True) tokens items sent errors =
    (sent @ concat (map (file_messages jx tokens) items), errors)"
  using assms
proof (induction items arbitrary: sent)
  case (Cons item items)
  obtain fid rx where item: "item = (fid, rx)" by fastforce
  with Cons.prems obtain tok where "hm_get tokens fid = Some tok" by auto
  then show ?case using Cons item
    by (simp add: process_in_chunks_eq [of "[]"] file_messages_def del: process_in_chunks.simps)
qed simp

text \<open>An offered, selected file whose content has the declared size.\<close>

definition item_ok :: "(string, string) hmap \<Rightarrow> file_dto list \<Rightarrow> string \<times> bytes list \<Rightarrow> bool" where
  "item_ok tokens files item \<longleftrightarrow>
     hm_get tokens (fst item) \<noteq> None \<and>
     (\<exists>f. find (\<lambda>f. fd_id f = fst item) files = Some f \<and>
        unat (fd_size f) = length (concat (snd item)))"

text \<open>Data for the open file, up to its size.\<close>

lemma receive_chunks_of_file:
  assumes "rv_file s = Some \<lparr>fs_file_id = fid, fs_size = sz, fs_received = of_nat n\<rparr>"
    and "n + length (concat cs) \<le> unat sz"
  shows "receive_files jx net (\<lambda>_ _. True) tokens files (map binary_message cs @ rest) s =
    receive_files jx net (\<lambda>_ _. True) tokens files rest
      (s\<lparr>rv_file := Some \<lparr>fs_file_id = fid, fs_size = sz, fs_received = of_nat (n + length (concat cs))\<rparr>,
         rv_log := rv_log s @ map (Ev_Data fid) cs\<rparr>)"
  using assms
proof (induction cs arbitrary: n s)
  case Nil
  then show ?case by (cases s) simp
next
  case (Cons c cs)
  have less: "unat sz < 2 ^ 64" using unsigned_less [of sz, where 'a = nat] by simp
  let ?s = "s\<lparr>rv_file := Some \<lparr>fs_file_id = fid, fs_size = sz, fs_received = of_nat (n + length c)\<rparr>,
      rv_log := rv_log s @ [Ev_Data fid c]\<rparr>"
  have "\<not> sz < of_nat n + of_nat (length c)"
    using Cons.prems(2) less by (simp add: word_less_nat_alt unat_of_nat flip: of_nat_add)
  then have "receive_files jx net (\<lambda>_ _. True) tokens files (map binary_message (c # cs) @ rest) s =
      receive_files jx net (\<lambda>_ _. True) tokens files (map binary_message cs @ rest) ?s"
    using Cons.prems(1) by (simp add: receive_binary_def rv_report_def Let_def)
  also have "\<dots> = receive_files jx net (\<lambda>_ _. True) tokens files rest
      (?s\<lparr>rv_file := Some \<lparr>fs_file_id = fid, fs_size = sz, fs_received = of_nat (n + length c + length (concat cs))\<rparr>,
         rv_log := rv_log ?s @ map (Ev_Data fid) cs\<rparr>)"
    using Cons.prems(2) by (intro Cons.IH) simp_all
  finally show ?case by (simp add: add.assoc)
qed

text \<open>What the protocol relies on: a header is read back, and is not taken for a delimiter.\<close>

definition header_codec_laws :: "rtc_codec \<Rightarrow> bool" where
  "header_codec_laws jx \<longleftrightarrow> codec_ok (jx_header jx) \<and> (\<forall>h. 1 < length (co_enc (jx_header jx) h)) \<and>
     co_dec (jx_header jx) (cm_data delimiter) = None"

definition reply_ok :: "string \<Rightarrow> rtc_send_file_response" where
  "reply_ok fid = \<lparr>fr_id = fid, fr_success = True, fr_error = None\<rparr>"

abbreviation all_success :: "rtc_send_file_response list \<Rightarrow> bool" where
  "all_success results \<equiv> list_all fr_success results"

text \<open>The end of an open file, by a header or by the delimiter.\<close>

lemma receive_text_closes:
  assumes "rv_file s = Some st" and "rv_results s = r # rs" and "fr_success r"
  shows "receive_text jx (\<lambda>_. True) tokens files msg s =
    (let s' = s\<lparr>rv_file := None, rv_results := rs, rv_replies := rv_replies s @ [reply_ok (fs_file_id st)]\<rparr>
     in if is_delimiter msg then (Step_End Receiver_Done, s')
        else receive_header jx tokens files msg s')"
  using assms by (simp add: receive_text_def file_result_def reply_ok_def Let_def)

lemma receive_text_first:
  "rv_file s = None \<Longrightarrow> receive_text jx net tokens files msg s = receive_header jx tokens files msg s"
  by (cases s) (simp add: receive_text_def)

lemma receive_header_ok:
  assumes "header_codec_laws jx" and "item_ok tokens files item"
  shows "\<exists>sz. unat sz = length (concat (snd item)) \<and>
    receive_header jx tokens files
      (send_json (jx_header jx) \<lparr>hd_id = fst item, hd_token = the (hm_get tokens (fst item))\<rparr>) s =
    (Step_Continue, s\<lparr>rv_file := Some \<lparr>fs_file_id = fst item, fs_size = sz, fs_received = of_nat 0\<rparr>,
                      rv_log := rv_log s @ [Ev_File (fst item)]\<rparr>)"
proof -
  obtain f where "find (\<lambda>f. fd_id f = fst item) files = Some f" "unat (fd_size f) = length (concat (snd item))"
    using assms(2) unfolding item_ok_def by blast
  then show ?thesis
    using assms by (intro exI [of _ "fd_size f"])
      (auto simp: receive_header_def header_codec_laws_def codec_ok_def item_ok_def rv_report_def)
qed

text \<open>From an open file on: it is closed, the remaining files follow, and the delimiter.\<close>

lemma receive_remaining_files:
  assumes laws: "header_codec_laws jx" and "list_all (item_ok tokens files) items"
    and "rv_file s = Some st" and "all_success (rv_results s)" and "length items < length (rv_results s)"
  shows "\<exists>s'. receive_files jx (\<lambda>_. True) (\<lambda>_ _. True) tokens files
      (concat (map (file_messages jx tokens) items) @ [delimiter]) s = (Receiver_Done, s') \<and>
    rv_log s' = rv_log s @ concat (map file_events items) \<and>
    rv_replies s' = rv_replies s @ map reply_ok (fs_file_id st # map fst items)"
  using assms(2-)
proof (induction items arbitrary: s st)
  case Nil
  then obtain r rs where "rv_results s = r # rs" "fr_success r" by (cases "rv_results s") auto
  then show ?case using Nil receive_text_closes [of s st r rs] by (simp add: Let_def)
next
  case (Cons item items)
  obtain r rs where results: "rv_results s = r # rs" "fr_success r" "all_success rs" "length items < length rs"
    using Cons.prems(3,4) by (cases "rv_results s") auto
  let ?closed = "s\<lparr>rv_file := None, rv_results := rs, rv_replies := rv_replies s @ [reply_ok (fs_file_id st)]\<rparr>"
  let ?header = "send_json (jx_header jx) \<lparr>hd_id = fst item, hd_token = the (hm_get tokens (fst item))\<rparr>"
  obtain sz where sz: "unat sz = length (concat (snd item))"
    and hd: "receive_header jx tokens files ?header ?closed =
      (Step_Continue, ?closed\<lparr>rv_file := Some \<lparr>fs_file_id = fst item, fs_size = sz, fs_received = of_nat 0\<rparr>,
                              rv_log := rv_log ?closed @ [Ev_File (fst item)]\<rparr>)"
    using receive_header_ok [OF laws, of tokens files item ?closed] Cons.prems(1) by auto
  let ?opened = "?closed\<lparr>rv_file := Some \<lparr>fs_file_id = fst item, fs_size = sz, fs_received = of_nat 0\<rparr>,
                         rv_log := rv_log ?closed @ [Ev_File (fst item)]\<rparr>"
  let ?rest = "concat (map (file_messages jx tokens) items) @ [delimiter]"
  let ?run = "receive_files jx (\<lambda>_. True) (\<lambda>_ _. True) tokens files"
  have "\<not> is_delimiter ?header"
    using laws by (simp add: header_codec_laws_def is_delimiter_def not_le)
  then have "?run (concat (map (file_messages jx tokens) (item # items)) @ [delimiter]) s =
      ?run (map binary_message (chunks_of (concat (snd item))) @ ?rest) ?opened"
    using receive_text_closes [OF Cons.prems(2) results(1,2), of jx tokens files ?header] hd
    by (simp add: file_messages_def)
  also have "\<dots> = ?run ?rest
      (?opened\<lparr>rv_file := Some \<lparr>fs_file_id = fst item, fs_size = sz,
          fs_received = of_nat (0 + length (concat (chunks_of (concat (snd item)))))\<rparr>,
         rv_log := rv_log ?opened @ map (Ev_Data (fst item)) (chunks_of (concat (snd item)))\<rparr>)"
    using sz by (intro receive_chunks_of_file) simp_all
  finally show ?case
    using Cons.IH [of "?opened\<lparr>rv_file := Some \<lparr>fs_file_id = fst item, fs_size = sz,
          fs_received = of_nat (0 + length (concat (chunks_of (concat (snd item)))))\<rparr>,
         rv_log := rv_log ?opened @ map (Ev_Data (fst item)) (chunks_of (concat (snd item)))\<rparr>"]
      Cons.prems(1) results by (simp add: file_events_def)
qed

text \<open>A whole transfer: the first file is opened, its data follow, then the other files.\<close>

lemma transfer_run:
  assumes "header_codec_laws jx" and "list_all (item_ok tokens files) items" and "items \<noteq> []"
    and "all_success results" and "length items \<le> length results"
  shows "\<exists>s'. receive_files jx (\<lambda>_. True) (\<lambda>_ _. True) tokens files
      (concat (map (file_messages jx tokens) items) @ [delimiter]) (receiver_start results) = (Receiver_Done, s') \<and>
    rv_log s' = concat (map file_events items) \<and> rv_replies s' = map reply_ok (map fst items)"
proof -
  obtain item items' where items: "items = item # items'" using assms(3) by (cases items) auto
  let ?sent = "concat (map (file_messages jx tokens) items) @ [delimiter]"
  let ?header = "send_json (jx_header jx) \<lparr>hd_id = fst item, hd_token = the (hm_get tokens (fst item))\<rparr>"
  let ?start = "receiver_start results"
  obtain sz where sz: "unat sz = length (concat (snd item))"
    and hd: "receive_header jx tokens files ?header ?start =
      (Step_Continue, ?start\<lparr>rv_file := Some \<lparr>fs_file_id = fst item, fs_size = sz, fs_received = of_nat 0\<rparr>,
                             rv_log := rv_log ?start @ [Ev_File (fst item)]\<rparr>)"
    using receive_header_ok [OF assms(1), of tokens files item ?start] assms(2) items by auto
  let ?opened = "?start\<lparr>rv_file := Some \<lparr>fs_file_id = fst item, fs_size = sz, fs_received = of_nat 0\<rparr>,
                        rv_log := rv_log ?start @ [Ev_File (fst item)]\<rparr>"
  let ?data = "chunks_of (concat (snd item))"
  let ?s = "?opened\<lparr>rv_file := Some \<lparr>fs_file_id = fst item, fs_size = sz,
        fs_received = of_nat (0 + length (concat ?data))\<rparr>,
      rv_log := rv_log ?opened @ map (Ev_Data (fst item)) ?data\<rparr>"
  let ?run = "receive_files jx (\<lambda>_. True) (\<lambda>_ _. True) tokens files"
  have "?run ?sent ?start = ?run (map binary_message ?data @
      concat (map (file_messages jx tokens) items') @ [delimiter]) ?opened"
    using hd items by (simp add: file_messages_def receive_text_first receiver_start_def)
  also have "\<dots> = ?run (concat (map (file_messages jx tokens) items') @ [delimiter]) ?s"
    using sz by (intro receive_chunks_of_file) simp_all
  finally have run: "?run ?sent ?start = \<dots>" .
  obtain s' where "?run (concat (map (file_messages jx tokens) items') @ [delimiter]) ?s = (Receiver_Done, s')"
    and "rv_log s' = rv_log ?s @ concat (map file_events items')"
    and "rv_replies s' = map reply_ok (fst item # map fst items')"
    using receive_remaining_files [OF assms(1), of tokens files items' ?s] assms(2,4,5) items
    by (auto simp: receiver_start_def)
  then show ?thesis using run items by (auto simp: receiver_start_def file_events_def)
qed

section \<open>Properties\<close>

text \<open>
  C21: Whatever messages arrive, every chunk the application gets follows a header that opened its
  file, with no header in between; the file is one the receiver selected and the peer offered; and
  what the application got since that header, this chunk included, is no more than the
  declared size. The bound is per header: a header that is repeated starts the count anew.
\<close>

theorem receiver_never_overruns:
  assumes "length (concat (map cm_data rx)) < 2 ^ 64"
    and "rv_log (snd (receive_files jx net takes tokens files rx (receiver_start results))) =
      before @ Ev_Data fid d # after"
  shows "\<exists>earlier since f. before = earlier @ Ev_File fid # since \<and> list_all (Not \<circ> opens_a_file) since \<and>
    list_all (belongs_to fid) since \<and> hm_get tokens fid \<noteq> None \<and>
    find (\<lambda>f. fd_id f = fid) files = Some f \<and>
    length (concat (map data_of since)) + length d \<le> unat (fd_size f)"
proof (rule scan_log_data)
  show "scan_log tokens files (before @ Ev_Data fid d # after) None \<noteq> None"
    unfolding assms(2) [symmetric]
    using assms(1) by (intro receive_files_inv) (simp_all add: inv_receiver_def receiver_start_def)
qed

text \<open>A receiver that gets four bytes of a file of two, in two openings and after a chunk that is refused.\<close>

definition reopening_peer :: "channel_message list" where
  "reopening_peer =
     (let header = send_json (jx_header sample_codec) \<lparr>hd_id = ''a'', hd_token = ''t''\<rparr>
      in [header, binary_message [1, 2], header, binary_message [3], binary_message [4],
          binary_message [5], delimiter])"

lemma repeated_header_forwards_again:
  "\<exists>message. rv_log (snd (receive_files sample_codec (\<lambda>_. True) (\<lambda>_ _. True) [(''a'', ''t'')]
     [sample_file ''a'' 2] reopening_peer (receiver_start [reply_ok ''a'']))) =
   [Ev_File ''a'', Ev_Data ''a'' [1, 2], Ev_File ''a'', Ev_Data ''a'' [3], Ev_Data ''a'' [4],
    Ev_File_Error ''a'' message]"
proof -
  have codec: "co_dec header_codec (co_enc header_codec h) = Some h" for h
    using header_codec_ok by (simp add: codec_ok_def)
  have "\<not> length (co_enc header_codec h) \<le> 1" for h by (simp add: header_codec_def)
  then show ?thesis
    using header_codec_delimiter codec
    by (simp add: reopening_peer_def sample_codec_def receive_text_def receive_header_def receive_binary_def
        file_result_def rv_report_def receiver_start_def sample_file_def reply_ok_def is_delimiter_def
        delimiter_def Let_def)
qed

theorem receiver_never_overruns_witness:
  "\<exists>before after earlier since f.
     rv_log (snd (receive_files sample_codec (\<lambda>_. True) (\<lambda>_ _. True) [(''a'', ''t'')]
       [sample_file ''a'' 2] reopening_peer (receiver_start [reply_ok ''a'']))) =
     before @ Ev_Data ''a'' [4] # after \<and>
     before = earlier @ Ev_File ''a'' # since \<and> list_all (belongs_to ''a'') since \<and>
     find (\<lambda>f. fd_id f = ''a'') [sample_file ''a'' 2] = Some f \<and>
     length (concat (map data_of since)) + length ([4] :: bytes) \<le> unat (fd_size f)"
proof -
  obtain before after where log: "rv_log (snd (receive_files sample_codec (\<lambda>_. True) (\<lambda>_ _. True)
      [(''a'', ''t'')] [sample_file ''a'' 2] reopening_peer (receiver_start [reply_ok ''a'']))) =
    before @ Ev_Data ''a'' [4] # after"
    using repeated_header_forwards_again by (metis append_Cons append_Nil)
  have "length (concat (map cm_data reopening_peer)) < 2 ^ 64"
    by (simp add: reopening_peer_def sample_codec_def header_codec_def string_codec_def Let_def delimiter_def)
  from receiver_never_overruns [OF this log] log show ?thesis by blast
qed

text \<open>
  A whole transfer over a reliable channel: for at least one file, each selected, offered
  and of its declared size, the receiver ends without an error, the application gets exactly
  the content of every file, in order, and every file is acknowledged.
\<close>

theorem transfer_correct:
  assumes "header_codec_laws jx" and "list_all (item_ok tokens files) items" and "items \<noteq> []"
    and "all_success results" and "length items \<le> length results"
    and "send_all_files jx (\<lambda>_. True) tokens items = (Inr sent, errors)"
  shows "\<exists>s'. receive_files jx (\<lambda>_. True) (\<lambda>_ _. True) tokens files sent (receiver_start results) =
      (Receiver_Done, s') \<and>
    rv_log s' = concat (map (\<lambda>(fid, rx). Ev_File fid # map (Ev_Data fid) (chunks_of (concat rx))) items) \<and>
    rv_replies s' = map (\<lambda>(fid, _). \<lparr>fr_id = fid, fr_success = True, fr_error = None\<rparr>) items \<and>
    errors = []"
proof -
  have "fst ` set items \<subseteq> dom (hm_get tokens)"
    using assms(2) by (auto simp: list_all_iff item_ok_def)
  then have sent: "sent = concat (map (file_messages jx tokens) items) @ [delimiter]" and "errors = []"
    using assms(6) by (auto simp: send_all_files_def send_files_reliable)
  have eta: "file_events = (\<lambda>(fid, rx). Ev_File fid # map (Ev_Data fid) (chunks_of (concat rx)))"
    by (auto simp: fun_eq_iff file_events_def)
  show ?thesis using transfer_run [OF assms(1-5)] sent \<open>errors = []\<close>
    unfolding eta [symmetric] by (auto simp: reply_ok_def case_prod_beta comp_def)
qed

theorem transfer_correct_witness:
  "\<exists>sent s'. send_all_files sample_codec (\<lambda>_. True) [(''a'', ''t''), (''b'', ''u'')]
      [(''b'', [[1], [2]]), (''a'', [])] = (Inr sent, []) \<and>
    receive_files sample_codec (\<lambda>_. True) (\<lambda>_ _. True) [(''a'', ''t''), (''b'', ''u'')]
      [sample_file ''a'' 0, sample_file ''b'' 2] sent (receiver_start (map reply_ok [''b'', ''a''])) =
      (Receiver_Done, s') \<and>
    rv_log s' = [Ev_File ''b'', Ev_Data ''b'' [1, 2], Ev_File ''a'']"
proof -
  let ?tokens = "[(''a'', ''t''), (''b'', ''u'')]" and ?files = "[sample_file ''a'' 0, sample_file ''b'' 2]"
  let ?items = "[(''b'', [[1], [2]]), (''a'', [])] :: (string \<times> bytes list) list"
  have laws: "header_codec_laws sample_codec"
    using header_codec_ok header_codec_delimiter
    by (simp add: header_codec_laws_def sample_codec_def delimiter_def header_codec_def)
  have ok: "list_all (item_ok ?tokens ?files) ?items"
    by (simp add: item_ok_def sample_file_def)
  let ?sent = "concat (map (file_messages sample_codec ?tokens) ?items) @ [delimiter]"
  have "fst ` set ?items \<subseteq> dom (hm_get ?tokens)" by simp
  from send_files_reliable [OF this, of sample_codec "[]" "[]"]
  have sent: "send_all_files sample_codec (\<lambda>_. True) ?tokens ?items = (Inr ?sent, [])"
    unfolding send_all_files_def by (simp only: append_Nil Let_def prod.case net_send_reliable)
  have "[1, 2] \<noteq> ([] :: bytes)" and "length ([1, 2] :: bytes) \<le> CHUNK_SIZE" by (simp_all add: CHUNK_SIZE_def)
  then have data: "chunks_of [1, 2] = [[1, 2]]" by (rule chunks_of_short)
  have succ: "all_success (map reply_ok [''b'', ''a''])" by (simp add: reply_ok_def)
  have len: "length ?items \<le> length (map reply_ok [''b'', ''a''])" by simp
  obtain s' where "receive_files sample_codec (\<lambda>_. True) (\<lambda>_ _. True) ?tokens ?files ?sent
      (receiver_start (map reply_ok [''b'', ''a''])) = (Receiver_Done, s')"
    and "rv_log s' = concat (map (\<lambda>(fid, rx). Ev_File fid # map (Ev_Data fid) (chunks_of (concat rx))) ?items)"
    using transfer_correct [OF laws ok list.distinct(2) succ len sent] by blast
  then show ?thesis using sent data by simp
qed

text \<open>
  A transfer without files fails at the receiver: the delimiter that ends it arrives while
  no file is open, is read as a header and does not parse, so the receiver ends with an error
  although the sender did what the protocol asks.
\<close>

theorem empty_transfer_fails:
  assumes "co_dec (jx_header jx) (cm_data delimiter) = None"
  shows "(case send_all_files jx (\<lambda>_. True) tokens [] of
      (Inr sent, _) \<Rightarrow> fst (receive_files jx net takes tokens files sent (receiver_start results)) = Receiver_Failed
    | _ \<Rightarrow> False)"
  using assms by (simp add: send_all_files_def receive_text_first receiver_start_def receive_header_def)

theorem empty_transfer_fails_witness:
  "(case send_all_files sample_codec (\<lambda>_. True) [] [] of
      (Inr sent, _) \<Rightarrow> fst (receive_files sample_codec (\<lambda>_. True) (\<lambda>_ _. True) [] [] sent (receiver_start [])) = Receiver_Failed
    | _ \<Rightarrow> False)"
  by (rule empty_transfer_fails) (simp add: sample_codec_def delimiter_def header_codec_delimiter)

end
