(* ===== verification/Ip_Text.thy ===== *)
theory Ip_Text
  imports Http_Types
begin

text \<open>
  Addresses as text: the parser of \<open>core::net\<close> and \<open>u32::from_str\<close> as the program uses them
  through \<open>parse\<close>, and that parsing inverts printing.
\<close>

section \<open>Readers\<close>

text \<open>\<open>char::to_digit\<close>.\<close>

definition to_digit :: "nat \<Rightarrow> char \<Rightarrow> nat option" where
  "to_digit radix c =
     (let n = of_char c :: nat;
          d = (if 48 \<le> n \<and> n \<le> 57 then n - 48
               else if 97 \<le> n \<and> n \<le> 122 then n - 87
               else if 65 \<le> n \<and> n \<le> 90 then n - 55 else radix)
      in if d < radix then Some d else None)"

abbreviation is_digit :: "nat \<Rightarrow> char \<Rightarrow> bool" where
  "is_digit radix c \<equiv> to_digit radix c \<noteq> None"

definition digits_value :: "nat \<Rightarrow> string \<Rightarrow> nat" where
  "digits_value radix ds = foldl (\<lambda>r c. r * radix + the (to_digit radix c)) 0 ds"

text \<open>
  \<open>read_number\<close>: all the digits that follow, at most \<open>max_digits\<close> of them, with a value below
  \<open>bound\<close>.
\<close>

definition read_number ::
  "nat \<Rightarrow> nat \<Rightarrow> bool \<Rightarrow> nat \<Rightarrow> string \<Rightarrow> (nat \<times> string) option" where
  "read_number radix max_digits allow_zero_prefix bound s =
     (let ds = takeWhile (is_digit radix) s; value = digits_value radix ds
      in if ds = [] \<or> length ds > max_digits \<or>
            (\<not> allow_zero_prefix \<and> hd ds = CHR ''0'' \<and> length ds > 1) \<or> value \<ge> bound
         then None else Some (value, dropWhile (is_digit radix) s))"

definition read_separator ::
  "char \<Rightarrow> nat \<Rightarrow> (string \<Rightarrow> ('a \<times> string) option) \<Rightarrow> string \<Rightarrow> ('a \<times> string) option" where
  "read_separator sep index inner s =
     (if index = 0 then inner s
      else (case s of [] \<Rightarrow> None | c # s \<Rightarrow> if c = sep then inner s else None))"

abbreviation read_octet :: "nat \<Rightarrow> string \<Rightarrow> (nat \<times> string) option" where
  "read_octet i \<equiv> read_separator CHR ''.'' i (read_number 10 3 False 256)"

definition read_ipv4_addr :: "string \<Rightarrow> ((u8 \<times> u8 \<times> u8 \<times> u8) \<times> string) option" where
  "read_ipv4_addr s =
     (case read_octet 0 s of None \<Rightarrow> None | Some (a, s) \<Rightarrow>
      (case read_octet 1 s of None \<Rightarrow> None | Some (b, s) \<Rightarrow>
       (case read_octet 2 s of None \<Rightarrow> None | Some (c, s) \<Rightarrow>
        (case read_octet 3 s of None \<Rightarrow> None | Some (d, s) \<Rightarrow>
           Some ((of_nat a, of_nat b, of_nat c, of_nat d), s)))))"

definition octets_group :: "u8 \<Rightarrow> u8 \<Rightarrow> u16" where
  "octets_group hi lo = of_nat (unat hi * 256 + unat lo)"

text \<open>
  \<open>read_groups\<close>, with \<open>n\<close> groups left to fill, the next one of index \<open>i\<close>: the groups read, whether
  the last two were an IPv4 address, and the rest.
\<close>

fun read_groups :: "nat \<Rightarrow> nat \<Rightarrow> string \<Rightarrow> u16 list \<times> bool \<times> string" where
  "read_groups 0 i s = ([], False, s)"
| "read_groups (Suc n) i s =
     (case (if 0 < n then read_separator CHR '':'' i read_ipv4_addr s else None) of
        Some ((one, two, three, four), s') \<Rightarrow>
          ([octets_group one two, octets_group three four], True, s')
      | None \<Rightarrow>
          (case read_separator CHR '':'' i (read_number 16 4 True 65536) s of
             Some (g, s') \<Rightarrow>
               (let (gs, v4, rest) = read_groups n (Suc i) s' in (of_nat g # gs, v4, rest))
           | None \<Rightarrow> ([], False, s)))"

fun v6_of :: "u16 list \<Rightarrow> ip_addr option" where
  "v6_of [a, b, c, d, e, f, g, h] = Some (V6 a b c d e f g h)"
| "v6_of _ = None"

definition read_ipv6_addr :: "string \<Rightarrow> (u16 list \<times> string) option" where
  "read_ipv6_addr s =
     (let (head, v4, s) = read_groups 8 0 s in
      if length head = 8 then Some (head, s)
      else if v4 then None
      else
        (case s of
           CHR '':'' # CHR '':'' # s \<Rightarrow>
             (let (tail, _, s) = read_groups (8 - (length head + 1)) 0 s
              in Some (head @ replicate (8 - length head - length tail) 0 @ tail, s))
         | _ \<Rightarrow> None))"

text \<open>\<open>Ipv6Addr::from_str\<close>: the whole text is the address.\<close>

definition parse_ipv6 :: "string \<Rightarrow> ip_addr option" where
  "parse_ipv6 s = (case read_ipv6_addr s of Some (gs, []) \<Rightarrow> v6_of gs | _ \<Rightarrow> None)"

text \<open>\<open>IpAddr::from_str\<close>: an IPv4 address if the text starts with one, else an IPv6 address.\<close>

definition parse_ip :: "string \<Rightarrow> ip_addr option" where
  "parse_ip s =
     (case read_ipv4_addr s of
        Some ((a, b, c, d), rest) \<Rightarrow> if rest = [] then Some (V4 a b c d) else None
      | None \<Rightarrow> parse_ipv6 s)"

text \<open>\<open>u32::from_str\<close>.\<close>

definition parse_u32 :: "string \<Rightarrow> u32 option" where
  "parse_u32 s =
     (let ds = (case s of CHR ''+'' # d # ds \<Rightarrow> d # ds | _ \<Rightarrow> s)
      in if ds = [] \<or> \<not> list_all (is_digit 10) ds \<or> digits_value 10 ds \<ge> 2 ^ 32 then None
         else Some (of_nat (digits_value 10 ds)))"

section \<open>Numbers\<close>

lemma to_digit_hex_digit [simp]: "n < b \<Longrightarrow> b \<le> 16 \<Longrightarrow> to_digit b (hex_digit n) = Some n"
  using less_16_cases [of n] by (auto simp: hex_digit_def to_digit_def)

lemma nat_str_nonempty [simp]: "nat_str b n \<noteq> []"
  by (induction b n rule: nat_str.induct) (subst nat_str.simps, simp)

lemma digits_value_snoc: "digits_value b (ds @ [d]) = digits_value b ds * b + the (to_digit b d)"
  by (simp add: digits_value_def)

lemma digits_value_nat_str: "2 \<le> b \<Longrightarrow> b \<le> 16 \<Longrightarrow> digits_value b (nat_str b n) = n"
proof (induction b n rule: nat_str.induct)
  case (1 b n)
  show ?case
  proof (cases "n < b")
    case True
    then show ?thesis using 1 by (subst nat_str.simps) (simp add: digits_value_def)
  next
    case False
    then have "nat_str b n = nat_str b (n div b) @ [hex_digit (n mod b)]"
      using 1 by (subst nat_str.simps) simp
    then show ?thesis using False 1 by (simp add: digits_value_snoc)
  qed
qed

lemma nat_str_digits: "2 \<le> b \<Longrightarrow> b \<le> 16 \<Longrightarrow> list_all (is_digit b) (nat_str b n)"
proof (induction b n rule: nat_str.induct)
  case (1 b n)
  then show ?case by (subst nat_str.simps) (auto simp del: nat_str.simps)
qed

lemma length_nat_str: "2 \<le> b \<Longrightarrow> n < b ^ k \<Longrightarrow> 0 < k \<Longrightarrow> length (nat_str b n) \<le> k"
proof (induction b n arbitrary: k rule: nat_str.induct)
  case (1 b n)
  show ?case
  proof (cases "n < b")
    case True
    then show ?thesis using 1 by (subst nat_str.simps) simp
  next
    case False
    obtain k' where k: "k = Suc k'" using 1 by (cases k) auto
    have "0 < k'" using False 1 k by (cases k') auto
    moreover have "n div b < b ^ k'" using 1 k by (simp add: less_mult_imp_div_less mult.commute)
    ultimately have "length (nat_str b (n div b)) \<le> k'" using 1 False by simp
    then show ?thesis using False 1 k by (subst nat_str.simps) simp
  qed
qed

lemma u16_less: "unat (g :: u16) < 65536"
  using unsigned_less [of g, where 'a = nat] by simp

lemma read_group:
  assumes "rest = [] \<or> hd rest = CHR '':''"
  shows "read_number 16 4 True 65536 (nat_str 16 (unat (g :: u16)) @ rest) = Some (unat g, rest)"
proof -
  have colon: "\<not> is_digit 16 CHR '':''" by (simp add: to_digit_def)
  have "takeWhile (is_digit 16) (nat_str 16 (unat g) @ rest) = nat_str 16 (unat g)"
    "dropWhile (is_digit 16) (nat_str 16 (unat g) @ rest) = rest"
    using nat_str_digits [of 16 "unat g"] assms colon
    by (cases rest; auto simp: takeWhile_append dropWhile_append list_all_iff)+
  then show ?thesis
    using length_nat_str [of 16 "unat g" 4] u16_less [of g]
    by (simp add: read_number_def Let_def digits_value_nat_str)
qed

lemma read_number_none: "s = [] \<or> \<not> is_digit b (hd s) \<Longrightarrow> read_number b m z bound s = None"
  by (cases s) (auto simp: read_number_def)

lemma parse_u32_print [simp]: "parse_u32 (nat_str 10 (unat w)) = Some w"
proof -
  have no_plus: "c \<noteq> CHR ''+''" if "nat_str 10 (unat w) = c # cs" for c cs
    using nat_str_digits [of 10 "unat w"] that by (auto simp: to_digit_def)
  have "(case nat_str 10 (unat w) of CHR ''+'' # d # ds \<Rightarrow> d # ds | _ \<Rightarrow> nat_str 10 (unat w)) = nat_str 10 (unat w)"
    using no_plus by (auto split: list.splits char.splits bool.splits)
  moreover have "unat w < 2 ^ 32" using unsigned_less [of w, where 'a = nat] by simp
  ultimately show ?thesis
    using nat_str_digits [of 10 "unat w"]
    by (simp add: parse_u32_def Let_def digits_value_nat_str)
qed

section \<open>IPv6 addresses\<close>

text \<open>The groups as the reader sees them: each but the first after a colon.\<close>

fun fmt_from :: "nat \<Rightarrow> u16 list \<Rightarrow> string" where
  "fmt_from i [] = []"
| "fmt_from i (g # gs) = (if i = 0 then [] else '':'') @ nat_str 16 (unat g) @ fmt_from (Suc i) gs"

lemma fmt_from_Suc: "gs \<noteq> [] \<Longrightarrow> fmt_from (Suc i) gs = CHR '':'' # fmt_subslice gs"
proof (induction gs arbitrary: i rule: fmt_subslice.induct)
  case (3 s s' ss)
  then show ?case by simp
qed simp_all

lemma fmt_subslice_from: "fmt_subslice gs = fmt_from 0 gs"
proof (cases gs rule: fmt_subslice.cases)
  case (3 s v va)
  then show ?thesis using fmt_from_Suc [of "v # va" 0] by simp
qed simp_all

lemma hex_char_safe: "is_digit 16 c \<Longrightarrow> c \<noteq> CHR ''.'' \<and> c \<noteq> CHR ''-'' \<and> c \<noteq> CHR ''s'' \<and> c \<noteq> CHR ''%''"
  by (auto simp: to_digit_def)

definition address_char :: "char \<Rightarrow> bool" where
  "address_char c \<longleftrightarrow> is_digit 16 c \<or> c = CHR '':''"

lemma address_char_safe:
  "address_char c \<Longrightarrow> c \<noteq> CHR ''.'' \<and> c \<noteq> CHR ''-'' \<and> c \<noteq> CHR ''s'' \<and> c \<noteq> CHR ''%''"
  using hex_char_safe by (auto simp: address_char_def)

lemma fmt_from_chars: "list_all address_char (fmt_from i gs)"
proof (induction gs arbitrary: i)
  case (Cons g gs)
  then show ?case using nat_str_digits [of 16 "unat g"] by (auto simp: address_char_def list_all_iff)
qed simp

text \<open>Text without a full stop holds no IPv4 address.\<close>

lemma read_octet_rest: "read_octet i s = Some (v, s') \<Longrightarrow> set s' \<subseteq> set s"
  by (auto simp: read_separator_def read_number_def Let_def split: if_splits list.splits
      dest: set_dropWhileD)

lemma read_ipv4_no_dot: "CHR ''.'' \<notin> set s \<Longrightarrow> read_ipv4_addr s = None"
proof -
  assume no_dot: "CHR ''.'' \<notin> set s"
  have "read_octet 1 s' = None" if "read_octet 0 s = Some (a, s')" for a s'
    using read_octet_rest [OF that] no_dot by (cases s') (auto simp: read_separator_def)
  then show ?thesis by (auto simp: read_ipv4_addr_def split: option.split)
qed

lemma read_separator_no_dot:
  "CHR ''.'' \<notin> set s \<Longrightarrow> read_separator CHR '':'' i read_ipv4_addr s = None"
  by (cases s) (auto simp: read_separator_def read_ipv4_no_dot)

lemma fmt_from_head: "fmt_from (Suc i) gs = [] \<or> hd (fmt_from (Suc i) gs) = CHR '':''"
  by (cases gs) simp_all

text \<open>What follows the groups: nothing, or the two colons.\<close>

lemma read_groups_stop:
  "CHR ''.'' \<notin> set rest \<Longrightarrow> rest = [] \<or> (\<exists>t. rest = CHR '':'' # CHR '':'' # t) \<Longrightarrow>
     read_groups n i rest = ([], False, rest)"
proof -
  assume a: "CHR ''.'' \<notin> set rest" "rest = [] \<or> (\<exists>t. rest = CHR '':'' # CHR '':'' # t)"
  have "\<not> is_digit 16 CHR '':''" by (simp add: to_digit_def)
  then have "read_separator CHR '':'' i (read_number 16 4 True 65536) rest = None"
    using a(2) by (auto simp: read_separator_def read_number_none)
  then show ?thesis using a(1) by (cases n) (simp_all add: read_separator_no_dot)
qed

lemma read_groups_fmt:
  assumes "CHR ''.'' \<notin> set rest" and "rest = [] \<or> (\<exists>t. rest = CHR '':'' # CHR '':'' # t)"
  shows "length gs \<le> n \<Longrightarrow> read_groups n i (fmt_from i gs @ rest) = (gs, False, rest)"
proof (induction gs arbitrary: n i)
  case Nil
  then show ?case using read_groups_stop [OF assms] by simp
next
  case (Cons g gs)
  then obtain n' where n: "n = Suc n'" "length gs \<le> n'" by (cases n) auto
  let ?s = "fmt_from i (g # gs) @ rest" and ?s' = "fmt_from (Suc i) gs @ rest"
  have no_dot: "CHR ''.'' \<notin> set ?s"
    using fmt_from_chars [of i "g # gs"] assms(1) address_char_safe
    unfolding list_all_iff set_append by blast
  have "?s' = [] \<or> hd ?s' = CHR '':''"
    using fmt_from_head [of i gs] assms(2) by (cases "fmt_from (Suc i) gs") auto
  then have "read_separator CHR '':'' i (read_number 16 4 True 65536) ?s = Some (unat g, ?s')"
    using read_group [of ?s' g] by (cases "i = 0") (simp_all add: read_separator_def)
  then show ?case
    using read_separator_no_dot [OF no_dot, of i] Cons.IH [OF n(2), of "Suc i"] n
    by (cases gs) (simp_all del: fmt_from.simps(2))
qed

text \<open>The run of zeros that the printer leaves out.\<close>

definition zero_run :: "u16 list \<Rightarrow> nat \<times> nat \<Rightarrow> bool" where
  "zero_run gs r \<longleftrightarrow> fst r + snd r \<le> length gs \<and> (\<forall>j < snd r. gs ! (fst r + j) = 0)"

lemma zero_run_append: "zero_run pre r \<Longrightarrow> zero_run (pre @ gs) r"
  by (auto simp: zero_run_def nth_append)

lemma longest_zero_run_run:
  assumes "zero_run pre current" and "snd current = 0 \<or> fst current + snd current = length pre"
    and "zero_run pre longest"
  shows "zero_run (pre @ gs) (longest_zero_run (length pre) current longest gs)"
  using assms
proof (induction gs arbitrary: pre current longest)
  case Nil
  then show ?case by simp
next
  case (Cons g gs)
  obtain st len where cur: "current = (st, len)" by fastforce
  show ?case
  proof (cases "g = 0")
    case True
    let ?c = "(if len = 0 then length pre else st, Suc len)"
    have c: "zero_run (pre @ [g]) ?c"
      using Cons.prems(1,2) cur True by (auto simp: zero_run_def nth_append less_Suc_eq)
    have "zero_run (pre @ [g]) (if snd ?c > snd longest then ?c else longest)"
      using c zero_run_append [OF Cons.prems(3)] by presburger
    then show ?thesis
      using Cons.IH [of "pre @ [g]" ?c] c Cons.prems(2) cur True by (cases longest) (auto simp: Let_def)
  next
    case False
    have "zero_run (pre @ [g]) (0, 0)" by (simp add: zero_run_def)
    then show ?thesis
      using Cons.IH [of "pre @ [g]" "(0, 0)"] zero_run_append [OF Cons.prems(3)] cur False by simp
  qed
qed

lemma zero_run_split:
  assumes "zero_run gs (st, len)"
  shows "gs = take st gs @ replicate len 0 @ drop (st + len) gs"
proof -
  have "take len (drop st gs) = replicate len 0"
    using assms by (intro nth_equalityI) (auto simp: zero_run_def)
  then show ?thesis
    by (metis append_take_drop_id drop_drop add.commute)
qed

text \<open>\<open>Ipv6Addr::to_ipv4_mapped\<close>: these addresses are printed with their IPv4 part.\<close>

fun ipv4_mapped :: "ip_addr \<Rightarrow> bool" where
  "ipv4_mapped (V6 a b c d e f g h) \<longleftrightarrow> [a, b, c, d, e] = [0, 0, 0, 0, 0] \<and> f = 0xFFFF"
| "ipv4_mapped (V4 a b c d) \<longleftrightarrow> False"

definition ipv6_text :: "u16 list \<Rightarrow> string" where
  "ipv6_text gs =
     (let (start, len) = longest_zero_run 0 (0, 0) (0, 0) gs
      in if len > 1 then fmt_subslice (take start gs) @ ''::'' @ fmt_subslice (drop (start + len) gs)
         else fmt_subslice gs)"

lemma ip_to_string_v6:
  "\<not> ipv4_mapped (V6 a b c d e f g h) \<Longrightarrow>
     ip_to_string (V6 a b c d e f g h) = ipv6_text [a, b, c, d, e, f, g, h]"
  by (auto simp: ipv6_to_string_def ipv6_text_def)

lemma ipv6_text_chars: "list_all address_char (ipv6_text gs)"
  using fmt_from_chars
  by (auto simp: ipv6_text_def fmt_subslice_from Let_def address_char_def split: prod.split)

lemma read_ipv6_text:
  assumes "length gs = 8"
  shows "read_ipv6_addr (ipv6_text gs) = Some (gs, [])"
proof -
  obtain st len where run: "longest_zero_run 0 (0, 0) (0, 0) gs = (st, len)" by fastforce
  have "zero_run gs (st, len)"
    using longest_zero_run_run [of "[]" "(0, 0)" "(0, 0)" gs] run by (simp add: zero_run_def)
  note zeros = zero_run_split [OF this] and bound = this [unfolded zero_run_def]
  have no_dot: "CHR ''.'' \<notin> set (ipv6_text gs)"
    using ipv6_text_chars [of gs] address_char_safe by (auto simp: list_all_iff)
  show ?thesis
  proof (cases "len > 1")
    case True
    let ?head = "take st gs" and ?tail = "drop (st + len) gs"
    have shown: "ipv6_text gs = fmt_from 0 ?head @ (CHR '':'' # CHR '':'' # fmt_from 0 ?tail)"
      using run True by (simp add: ipv6_text_def fmt_subslice_from)
    have head: "read_groups 8 0 (ipv6_text gs) = (?head, False, CHR '':'' # CHR '':'' # fmt_from 0 ?tail)"
      unfolding shown using no_dot shown assms by (intro read_groups_fmt) auto
    have tail: "read_groups (7 - st) 0 (fmt_from 0 ?tail) = (?tail, False, [])"
      using read_groups_fmt [of "[]" ?tail "7 - st" 0] assms bound True by simp
    have "length ?head = st" "8 - st - length ?tail = len"
      using assms bound True by auto
    then show ?thesis
      using head tail zeros True bound assms
      by (simp add: read_ipv6_addr_def Let_def)
  next
    case False
    then have "ipv6_text gs = fmt_from 0 gs" using run by (simp add: ipv6_text_def fmt_subslice_from)
    then show ?thesis
      using read_groups_fmt [of "[]" gs 8 0] assms by (simp add: read_ipv6_addr_def)
  qed
qed

lemma parse_print_ipv6:
  "ip = V6 a b c d e f g h \<Longrightarrow> \<not> ipv4_mapped ip \<Longrightarrow> parse_ipv6 (ip_to_string ip) = Some ip"
  using ip_to_string_v6 [of a b c d e f g h] read_ipv6_text [of "[a, b, c, d, e, f, g, h]"]
  by (simp add: parse_ipv6_def del: ip_to_string.simps ipv4_mapped.simps)

lemma print_ipv6_chars:
  "ip = V6 a b c d e f g h \<Longrightarrow> \<not> ipv4_mapped ip \<Longrightarrow> list_all address_char (ip_to_string ip)"
  using ip_to_string_v6 [of a b c d e f g h] ipv6_text_chars [of "[a, b, c, d, e, f, g, h]"]
  by (simp del: ip_to_string.simps ipv4_mapped.simps)

lemma print_mapped:
  "ip = V6 a b c d e f g h \<Longrightarrow> ipv4_mapped ip \<Longrightarrow> CHR ''.'' \<in> set (ip_to_string ip)"
  by (simp add: ipv6_to_string_def ipv4_to_string_def Let_def)

section \<open>IPv4 addresses\<close>

lemma nat_str_leading: "2 \<le> b \<Longrightarrow> b \<le> 16 \<Longrightarrow> b \<le> n \<Longrightarrow> hd (nat_str b n) \<noteq> CHR ''0''"
proof (induction b n rule: nat_str.induct)
  case (1 b n)
  have more: "nat_str b n = nat_str b (n div b) @ [hex_digit (n mod b)]"
    using 1 by (subst nat_str.simps) simp
  show ?case
  proof (cases "b \<le> n div b")
    case True
    then show ?thesis using 1 more by simp
  next
    case False
    then have "nat_str b (n div b) = [hex_digit (n div b)]" by (subst nat_str.simps) simp
    moreover have "0 < n div b" "n div b < 16" using False 1 by (auto simp: div_greater_zero_iff)
    ultimately show ?thesis
      using more less_16_cases [of "n div b"] by (auto simp: hex_digit_def)
  qed
qed

lemma nat_str_short: "n < b \<Longrightarrow> nat_str b n = [hex_digit n]"
  by (subst nat_str.simps) simp

lemma read_octet_print:
  assumes "rest = [] \<or> hd rest = CHR ''.''"
  shows "read_number 10 3 False 256 (nat_str 10 (unat (w :: u8)) @ rest) = Some (unat w, rest)"
proof -
  have dot: "\<not> is_digit 10 CHR ''.''" by (simp add: to_digit_def)
  have "takeWhile (is_digit 10) (nat_str 10 (unat w) @ rest) = nat_str 10 (unat w)"
    "dropWhile (is_digit 10) (nat_str 10 (unat w) @ rest) = rest"
    using nat_str_digits [of 10 "unat w"] assms dot
    by (cases rest; auto simp: takeWhile_append dropWhile_append list_all_iff)+
  moreover have "hd (nat_str 10 (unat w)) = CHR ''0'' \<Longrightarrow> length (nat_str 10 (unat w)) = 1"
    using nat_str_leading [of 10 "unat w"] nat_str_short [of "unat w" 10] by fastforce
  moreover have "unat w < 256" using unsigned_less [of w, where 'a = nat] by simp
  ultimately show ?thesis
    using length_nat_str [of 10 "unat w" 3] by (auto simp: read_number_def Let_def digits_value_nat_str)
qed

lemma read_ipv4_print: "read_ipv4_addr (ipv4_to_string a b c d) = Some ((a, b, c, d), [])"
  by (simp add: read_ipv4_addr_def ipv4_to_string_def read_separator_def read_octet_print)
    (use read_octet_print [of "[]" d] in simp)

lemma print_ip_chars: "list_all (\<lambda>c. address_char c \<or> c = CHR ''.'') (ip_to_string ip)"
proof -
  have dec: "list_all (\<lambda>c. address_char c \<or> c = CHR ''.'') (nat_str 10 n)" for n
    using nat_str_digits [of 10 n] by (auto simp: list_all_iff address_char_def to_digit_def Let_def split: if_splits)
  then have v4: "list_all (\<lambda>c. address_char c \<or> c = CHR ''.'') (ipv4_to_string a b c d)" for a b c d
    by (simp add: ipv4_to_string_def)
  show ?thesis
  proof (cases ip)
    case (V6 a b c d e f g h)
    show ?thesis
    proof (cases "ipv4_mapped ip")
      case True
      then show ?thesis using V6 v4
        by (simp add: ipv6_to_string_def Let_def) (simp add: address_char_def to_digit_def)
    next
      case False
      then show ?thesis using print_ipv6_chars [OF V6] by (auto simp: list_all_iff)
    qed
  qed (use v4 in simp)
qed

text \<open>Every address but an IPv4-mapped one is parsed back from what it is printed as.\<close>

lemma parse_print_ip: "\<not> ipv4_mapped ip \<Longrightarrow> parse_ip (ip_to_string ip) = Some ip"
proof (cases ip)
  case (V6 a b c d e f g h)
  assume plain: "\<not> ipv4_mapped ip"
  have "CHR ''.'' \<notin> set (ip_to_string ip)"
    using print_ipv6_chars [OF V6 plain] address_char_safe unfolding list_all_iff by blast
  then show ?thesis
    using parse_print_ipv6 [OF V6 plain] by (simp add: parse_ip_def read_ipv4_no_dot)
qed (simp add: parse_ip_def read_ipv4_print)

end
