(* ===== verification/Signaling.thy ===== *)
theory Signaling
  imports Ip_Text
begin

text \<open>
  The signaling server (\<open>src/server\<close>): peers of one IP group find each other and exchange SDP
  messages over WebSockets. This theory has the data of the protocol (\<open>webrtc/signaling.rs\<close>),
  the grouping of addresses (\<open>util/ip.rs\<close>) and the sections of the WebSocket handler that run
  under the server's lock (\<open>controller/ws_controller.rs\<close>).

  A connection is named by its peer id, and so is the channel to its client.
\<close>

section \<open>Messages\<close>

type_synonym uuid = "128 word"

record ws_info =
  wi_alias :: string
  wi_version :: string
  wi_device_model :: "string option"
  wi_device_type :: "device_type option"
  wi_token :: string

record ws_client =
  wc_id :: uuid
  wc_alias :: string
  wc_version :: string
  wc_device_model :: "string option"
  wc_device_type :: "device_type option"
  wc_token :: string

definition ws_client_from :: "ws_info \<Rightarrow> uuid \<Rightarrow> ws_client" where
  "ws_client_from info i =
     \<lparr>wc_id = i, wc_alias = wi_alias info, wc_version = wi_version info,
      wc_device_model = wi_device_model info, wc_device_type = wi_device_type info,
      wc_token = wi_token info\<rparr>"

definition ws_info_from :: "ws_client \<Rightarrow> ws_info" where
  "ws_info_from client =
     \<lparr>wi_alias = wc_alias client, wi_version = wc_version client,
      wi_device_model = wc_device_model client, wi_device_type = wc_device_type client,
      wi_token = wc_token client\<rparr>"

lemma ws_client_from_id [simp]: "wc_id (ws_client_from info i) = i"
  by (simp add: ws_client_from_def)

lemma ws_info_roundtrip [simp]:
  "ws_info_from (ws_client_from info i) = info"
  "ws_client_from (ws_info_from c) (wc_id c) = c"
  by (simp_all add: ws_client_from_def ws_info_from_def)

record ws_client_sdp =
  cs_session_id :: string
  cs_target :: uuid
  cs_sdp :: string

record ws_server_sdp =
  ss_peer :: ws_client
  ss_session_id :: string
  ss_sdp :: string

datatype ws_client_message =
    Wc_Update ws_info
  | Wc_Offer ws_client_sdp
  | Wc_Answer ws_client_sdp

datatype ws_server_message =
    Ws_Hello ws_client "ws_client list"
  | Ws_Join ws_client
  | Ws_Update ws_client
  | Ws_Left uuid
  | Ws_Offer ws_server_sdp
  | Ws_Answer ws_server_sdp
  | Ws_Error u16

section \<open>Groups of addresses\<close>

fun get_ip_group :: "ip_addr \<Rightarrow> string" where
  "get_ip_group (V4 a b c d) = ip_to_string (V4 a b c d)"
| "get_ip_group (V6 a b c d e f g h) =
     nat_str 16 (unat a) @ '':'' @ nat_str 16 (unat b) @ '':'' @
     nat_str 16 (unat c) @ '':'' @ nat_str 16 (unat d)"

text \<open>
  The address of a request: the last component of \<open>x-forwarded-for\<close> when it is one, else that
  of the peer. A header that is not text is no header; \<open>to_str\<close> gives visible ASCII characters,
  spaces and tabs, so that \<open>trim\<close> removes only the latter two.
\<close>

definition trim :: "string \<Rightarrow> string" where
  "trim s = (let blank = (\<lambda>c. c = CHR '' '' \<or> c = CHR 0x09)
             in rev (dropWhile blank (rev (dropWhile blank s))))"

definition request_ip :: "string option \<Rightarrow> ip_addr \<Rightarrow> ip_addr" where
  "request_ip forwarded addr =
     (case forwarded of
        None \<Rightarrow> addr
      | Some v \<Rightarrow>
          (case parse_ip (trim (last (split_on CHR '','' v))) of
             None \<Rightarrow> addr
           | Some ip \<Rightarrow> ip))"

text \<open>
  What the upgrade of a request hands to its task: the group of the address and the peer, which
  gets the new id. \<open>decode\<close>, \<open>from_utf8\<close> and \<open>from_json\<close> read the query parameter \<open>d\<close>.
\<close>

definition ws_handler ::
  "(string \<Rightarrow> bytes option) \<Rightarrow> (bytes \<Rightarrow> string option) \<Rightarrow> (string \<Rightarrow> ws_info option)
     \<Rightarrow> string \<Rightarrow> uuid \<Rightarrow> string option \<Rightarrow> ip_addr \<Rightarrow> u16 + string \<times> ws_client" where
  "ws_handler decode from_utf8 from_json d new_id forwarded addr =
     (case decode d of
        None \<Rightarrow> Inl 400
      | Some bytes \<Rightarrow>
          (case from_utf8 bytes of
             None \<Rightarrow> Inl 400
           | Some json \<Rightarrow>
               (case from_json json of
                  None \<Rightarrow> Inl 400
                | Some register_dto \<Rightarrow>
                    Inr (get_ip_group (request_ip forwarded addr),
                         ws_client_from register_dto new_id))))"

section \<open>State and critical sections\<close>

text \<open>\<open>sg_max_connections\<close> and \<open>sg_max_requests\<close> are the two settings of the environment.\<close>

record sig_limits =
  sg_max_connections :: nat
  sg_max_requests :: u32

record sig_state =
  sg_map :: "(string, (uuid, ws_info) hmap) hmap"
  sg_counts :: "(string, u32) hmap"

definition sig_empty :: sig_state where
  "sig_empty = \<lparr>sg_map = [], sg_counts = []\<rparr>"

text \<open>\<open>HashMap::entry(k).or_insert(v)\<close>: the value of the key, which is present afterwards.\<close>

definition hm_or_insert :: "'k \<Rightarrow> 'v \<Rightarrow> ('k, 'v) hmap \<Rightarrow> 'v \<times> ('k, 'v) hmap" where
  "hm_or_insert k v m = (case hm_get m k of Some v' \<Rightarrow> (v', m) | None \<Rightarrow> (v, hm_put k v m))"

definition protect_ddos_request_count ::
  "sig_limits \<Rightarrow> string \<Rightarrow> sig_state \<Rightarrow> bool \<times> sig_state" where
  "protect_ddos_request_count lim ip_group s =
     (let (count, counts) = hm_or_insert ip_group 0 (sg_counts s)
      in if count \<ge> sg_max_requests lim then (False, s\<lparr>sg_counts := counts\<rparr>)
         else (True, s\<lparr>sg_counts := hm_put ip_group (count + 1) counts\<rparr>))"

text \<open>The job that runs every hour.\<close>

definition clear_request_counts :: "sig_state \<Rightarrow> sig_state" where
  "clear_request_counts s = s\<lparr>sg_counts := []\<rparr>"

text \<open>
  Registration: nothing when a limit is reached, else the channels of the other peers and the
  peers they stand for.
\<close>

definition register_peer ::
  "sig_limits \<Rightarrow> string \<Rightarrow> ws_client \<Rightarrow> sig_state
     \<Rightarrow> (uuid list \<times> ws_client list) option \<times> sig_state" where
  "register_peer lim ip_group peer s =
     (let (local_map, tx_map) = hm_or_insert ip_group [] (sg_map s);
          s = s\<lparr>sg_map := tx_map\<rparr>
      in if length local_map \<ge> sg_max_connections lim then (None, s)
         else
           (case protect_ddos_request_count lim ip_group s of
              (False, s) \<Rightarrow> (None, s)
            | (True, s) \<Rightarrow>
                (Some (map fst local_map, map (\<lambda>(k, v). ws_client_from v k) local_map),
                 s\<lparr>sg_map := hm_put ip_group (hm_put (wc_id peer) (ws_info_from peer) local_map)
                              (sg_map s)\<rparr>)))"

text \<open>New information about a peer: the channels of the others in its group.\<close>

definition update_peer ::
  "string \<Rightarrow> uuid \<Rightarrow> ws_info \<Rightarrow> sig_state \<Rightarrow> uuid list \<times> sig_state" where
  "update_peer ip_group peer_id info s =
     (case hm_get (sg_map s) ip_group of
        None \<Rightarrow> ([], s)
      | Some local_map \<Rightarrow>
          (case hm_get local_map peer_id of
             None \<Rightarrow> ([], s)
           | Some _ \<Rightarrow>
               (let local_map = hm_put peer_id info local_map
                in (filter (\<lambda>k. k \<noteq> peer_id) (map fst local_map),
                    s\<lparr>sg_map := hm_put ip_group local_map (sg_map s)\<rparr>))))"

text \<open>The channel of the target of an offer or an answer.\<close>

definition find_target :: "string \<Rightarrow> uuid \<Rightarrow> sig_state \<Rightarrow> uuid option" where
  "find_target ip_group target s =
     (case hm_get (sg_map s) ip_group of
        None \<Rightarrow> None
      | Some local_map \<Rightarrow>
          (case hm_get local_map target of None \<Rightarrow> None | Some _ \<Rightarrow> Some target))"

text \<open>The end of a connection: the channels of the peers that remain.\<close>

definition unregister_peer :: "string \<Rightarrow> uuid \<Rightarrow> sig_state \<Rightarrow> uuid list \<times> sig_state" where
  "unregister_peer ip_group peer_id s =
     (case hm_get (sg_map s) ip_group of
        None \<Rightarrow> ([], s)
      | Some local_map \<Rightarrow>
          (let local_map = hm_del peer_id local_map
           in if local_map = [] then ([], s\<lparr>sg_map := hm_del ip_group (sg_map s)\<rparr>)
              else (map fst local_map, s\<lparr>sg_map := hm_put ip_group local_map (sg_map s)\<rparr>)))"

text \<open>What a client message makes the server send, to whom.\<close>

definition sdp_message :: "ws_client \<Rightarrow> ws_client_sdp \<Rightarrow> ws_server_sdp" where
  "sdp_message origin_peer sdp =
     \<lparr>ss_peer = origin_peer, ss_session_id = cs_session_id sdp, ss_sdp = cs_sdp sdp\<rparr>"

definition send_to_peer ::
  "string \<Rightarrow> uuid \<Rightarrow> ws_server_message \<Rightarrow> sig_state \<Rightarrow> (uuid \<times> ws_server_message) list" where
  "send_to_peer ip_group target msg s =
     (case find_target ip_group target s of None \<Rightarrow> [] | Some tx \<Rightarrow> [(tx, msg)])"

fun handle_client_message ::
  "string \<Rightarrow> ws_client \<Rightarrow> ws_client_message \<Rightarrow> sig_state
     \<Rightarrow> (uuid \<times> ws_server_message) list \<times> sig_state" where
  "handle_client_message ip_group peer (Wc_Update info) s =
     (let (peers_tx, s) = update_peer ip_group (wc_id peer) info s
      in (map (\<lambda>tx. (tx, Ws_Update (ws_client_from info (wc_id peer)))) peers_tx, s))"
| "handle_client_message ip_group peer (Wc_Offer sdp) s =
     (send_to_peer ip_group (cs_target sdp) (Ws_Offer (sdp_message peer sdp)) s, s)"
| "handle_client_message ip_group peer (Wc_Answer sdp) s =
     (send_to_peer ip_group (cs_target sdp) (Ws_Answer (sdp_message peer sdp)) s, s)"

section \<open>Lemmas\<close>

subsection \<open>Numbers as text\<close>

lemma nat_str_inj: "2 \<le> b \<Longrightarrow> b \<le> 16 \<Longrightarrow> nat_str b m = nat_str b n \<Longrightarrow> m = n"
  by (metis digits_value_nat_str)

lemma nat_str_no_sep [simp]:
  "CHR '':'' \<notin> set (nat_str 10 n)" "CHR '':'' \<notin> set (nat_str 16 n)"
  "CHR ''.'' \<notin> set (nat_str 10 n)" "CHR ''.'' \<notin> set (nat_str 16 n)" "CHR '','' \<notin> set (nat_str 10 n)"
  using nat_str_digits [of 10 n] nat_str_digits [of 16 n] by (auto simp: list_all_iff to_digit_def)

lemma split_on_after: "\<exists>ps. split_on c (s @ c # t) = ps @ split_on c t \<and> ps \<noteq> []"
proof (induction s)
  case (Cons a s)
  then obtain ps where ps: "split_on c (s @ c # t) = ps @ split_on c t" "ps \<noteq> []" by blast
  show ?case
  proof (cases "a = c")
    case True
    then show ?thesis using ps by (intro exI [of _ "[] # ps"]) simp
  next
    case False
    then show ?thesis
      using ps by (intro exI [of _ "(a # hd ps) # tl ps"]) (cases ps; simp split: list.split)
  qed
qed simp

lemma last_split_on: "c \<notin> set t \<Longrightarrow> last (split_on c (s @ c # t)) = t"
  using split_on_after [of c s t] by (auto simp: split_on_no_sep)

lemma ipv4_pieces:
  "split_on CHR ''.'' (ipv4_to_string a b c d) =
     [nat_str 10 (unat a), nat_str 10 (unat b), nat_str 10 (unat c), nat_str 10 (unat d)]"
  using split_on_sep [of "CHR ''.''"] by (simp add: ipv4_to_string_def split_on_no_sep)

lemma v6_group_pieces:
  "split_on CHR '':'' (get_ip_group (V6 a b c d e f g h)) =
     [nat_str 16 (unat a), nat_str 16 (unat b), nat_str 16 (unat c), nat_str 16 (unat d)]"
  using split_on_sep [of "CHR '':''"] by (simp add: split_on_no_sep)

lemma nat_str_word_eq:
  "nat_str 10 (unat (a :: 'a :: len word)) = nat_str 10 (unat b) \<longleftrightarrow> a = b"
  "nat_str 16 (unat a) = nat_str 16 (unat b) \<longleftrightarrow> a = b"
  using nat_str_inj [of 10 "unat a" "unat b"] nat_str_inj [of 16 "unat a" "unat b"]
  by (auto intro: unsigned_word_eqI)

lemma v4_not_v6: "get_ip_group (V4 a b c d) \<noteq> get_ip_group (V6 a' b' c' d' e f g h)"
proof -
  have "CHR ''.'' \<in> set (get_ip_group (V4 a b c d))"
    by (simp add: ipv4_to_string_def)
  moreover have "CHR ''.'' \<notin> set (get_ip_group (V6 a' b' c' d' e f g h))" by simp
  ultimately show ?thesis by metis
qed

text \<open>What a group stands for.\<close>

definition ip_prefix :: "ip_addr \<Rightarrow> u8 list + u16 list" where
  "ip_prefix ip = (case ip of V4 a b c d \<Rightarrow> Inl [a, b, c, d] | V6 a b c d _ _ _ _ \<Rightarrow> Inr [a, b, c, d])"

section \<open>Properties\<close>

text \<open>
  Two addresses are in the same group exactly when they are the same IPv4 address, or two
  IPv6 addresses with the same 64-bit prefix.
\<close>

theorem ip_groups_exact: "get_ip_group x = get_ip_group y \<longleftrightarrow> ip_prefix x = ip_prefix y"
proof (cases x; cases y)
  fix a b c d a' b' c' d'
  assume x: "x = V4 a b c d" and y: "y = V4 a' b' c' d'"
  have "get_ip_group x = get_ip_group y \<longleftrightarrow> [a, b, c, d] = [a', b', c', d']"
  proof
    assume "get_ip_group x = get_ip_group y"
    then have "split_on CHR ''.'' (ipv4_to_string a b c d) = split_on CHR ''.'' (ipv4_to_string a' b' c' d')"
      using x y by simp
    then show "[a, b, c, d] = [a', b', c', d']" by (simp only: ipv4_pieces list.inject nat_str_word_eq)
  qed (use x y in simp)
  then show ?thesis using x y by (simp add: ip_prefix_def)
next
  fix a b c d e f g h a' b' c' d' e' f' g' h'
  assume x: "x = V6 a b c d e f g h" and y: "y = V6 a' b' c' d' e' f' g' h'"
  have "get_ip_group x = get_ip_group y \<longleftrightarrow> [a, b, c, d] = [a', b', c', d']"
  proof
    assume "get_ip_group x = get_ip_group y"
    then have "split_on CHR '':'' (get_ip_group x) = split_on CHR '':'' (get_ip_group y)" by simp
    then show "[a, b, c, d] = [a', b', c', d']"
      unfolding x y by (simp only: v6_group_pieces list.inject nat_str_word_eq)
  qed (use x y in simp)
  then show ?thesis using x y by (simp add: ip_prefix_def)
qed (simp_all add: ip_prefix_def v4_not_v6 v4_not_v6 [symmetric] del: get_ip_group.simps)

text \<open>
  Behind a proxy that appends the address it sees, a client cannot choose its group: whatever
  it sends in the header, the group is that of the appended address.
\<close>

theorem forwarded_group_not_forgeable:
  assumes "\<not> ipv4_mapped ip"
  shows "get_ip_group (request_ip (Some (claimed @ '', '' @ ip_to_string ip)) addr) = get_ip_group ip"
proof -
  let ?t = "ip_to_string ip"
  have plain: "\<not> (c = CHR '' '' \<or> c = CHR 0x09 \<or> c = CHR '','')" if "c \<in> set ?t" for c
    using that print_ip_chars [of ip] by (auto simp: list_all_iff to_digit_def address_char_def)
  have "last (split_on CHR '','' (claimed @ '', '' @ ?t)) = '' '' @ ?t"
    using plain last_split_on [of "CHR '',''" "'' '' @ ?t" claimed] by auto
  moreover have "trim ('' '' @ ?t) = ?t"
  proof -
    have "dropWhile (\<lambda>c. c = CHR '' '' \<or> c = CHR 0x09) s = s" if "set s \<subseteq> set ?t" for s
      using that plain by (cases s) auto
    from this [of ?t] this [of "rev ?t"] show ?thesis by (simp add: trim_def Let_def)
  qed
  ultimately show ?thesis using parse_print_ip [OF assms] by (simp add: request_ip_def)
qed

end
