(* ===== verification/Signaling_Machine.thy ===== *)
theory Signaling_Machine
  imports Signaling
begin

text \<open>
  The connections of the signaling server, interleaved. A task stands where its handler awaits
  something: while it tells the others that a peer joined, before a message is handled, between
  two sends, and while it tells the others that the peer left. A step is one section under the
  server's lock, or one message put into a channel. A channel takes messages until its
  connection ends. A connection that ends stops its receiving task at that step: \<open>abort\<close> takes
  effect where the task awaits next, so a message it is handling at that moment may still be handled,
  which is not modelled.
\<close>

section \<open>Tasks\<close>

datatype sig_task =
    Joining string ws_client "uuid list" "ws_client list"
  | Running string ws_client "(uuid \<times> ws_server_message) list"
  | Handling string ws_client ws_client_message
  | Stopping string ws_client
  | Leaving "uuid list"

record sig_machine =
  mc_state :: sig_state
  mc_tasks :: "(uuid, sig_task) hmap"
  mc_inbox :: "uuid \<Rightarrow> ws_server_message list"
  mc_groups :: "(uuid, string) hmap"

fun task_group :: "sig_task \<Rightarrow> string option" where
  "task_group (Joining g _ _ _) = Some g"
| "task_group (Running g _ _) = Some g"
| "task_group (Handling g _ _) = Some g"
| "task_group (Stopping g _) = Some g"
| "task_group (Leaving _) = None"

abbreviation sig_at :: "sig_machine \<Rightarrow> uuid \<Rightarrow> sig_task option" where
  "sig_at m i \<equiv> hm_get (mc_tasks m) i"

text \<open>A registered connection, with its group.\<close>

definition live_task :: "(uuid, sig_task) hmap \<Rightarrow> uuid \<Rightarrow> string option" where
  "live_task ts i = Option.bind (hm_get ts i) task_group"

abbreviation live_in :: "sig_machine \<Rightarrow> uuid \<Rightarrow> string option" where
  "live_in m \<equiv> live_task (mc_tasks m)"

definition post :: "uuid \<Rightarrow> ws_server_message \<Rightarrow> sig_machine \<Rightarrow> sig_machine" where
  "post tx msg m =
     (if live_in m tx \<noteq> None
      then m\<lparr>mc_inbox := (mc_inbox m)(tx := mc_inbox m tx @ [msg])\<rparr> else m)"

abbreviation sig_put :: "uuid \<Rightarrow> sig_task \<Rightarrow> sig_machine \<Rightarrow> sig_machine" where
  "sig_put i t m \<equiv> m\<lparr>mc_tasks := hm_put i t (mc_tasks m)\<rparr>"

definition sig_init :: sig_machine where
  "sig_init = \<lparr>mc_state = sig_empty, mc_tasks = [], mc_inbox = (\<lambda>_. []), mc_groups = []\<rparr>"

section \<open>Steps\<close>

text \<open>The ids of new connections are fresh.\<close>

inductive sig_step :: "sig_limits \<Rightarrow> sig_machine \<Rightarrow> sig_machine \<Rightarrow> bool" for lim where
  connect_ok:
    "sig_step lim m
       (sig_put (wc_id peer) (Joining g peer txs peers)
          (m\<lparr>mc_state := s, mc_groups := hm_put (wc_id peer) g (mc_groups m)\<rparr>))"
  if "hm_get (mc_groups m) (wc_id peer) = None"
    and "register_peer lim g peer (mc_state m) = (Some (txs, peers), s)"
| connect_refused:
    "sig_step lim m (m\<lparr>mc_state := s\<rparr>)"
  if "register_peer lim g peer (mc_state m) = (None, s)"
| join_send:
    "sig_step lim m (sig_put i (Joining g peer txs peers) (post tx (Ws_Join peer) m))"
  if "sig_at m i = Some (Joining g peer (tx # txs) peers)"
| hello:
    "sig_step lim m (sig_put i (Running g peer []) (post i (Ws_Hello peer peers) m))"
  if "sig_at m i = Some (Joining g peer [] peers)"
| send_next:
    "sig_step lim m (sig_put i (Running g peer ms) (post tx msg m))"
  if "sig_at m i = Some (Running g peer ((tx, msg) # ms))"
| receive_message:
    "sig_step lim m (sig_put i (Handling g peer msg) (m\<lparr>mc_state := s\<rparr>))"
  if "sig_at m i = Some (Running g peer [])"
    and "protect_ddos_request_count lim g (mc_state m) = (True, s)"
| too_many_requests:
    "sig_step lim m (sig_put i (Stopping g peer) (post i (Ws_Error 429) (m\<lparr>mc_state := s\<rparr>)))"
  if "sig_at m i = Some (Running g peer [])"
    and "protect_ddos_request_count lim g (mc_state m) = (False, s)"
| handle_message:
    "sig_step lim m (sig_put i (Running g peer ms) (m\<lparr>mc_state := s\<rparr>))"
  if "sig_at m i = Some (Handling g peer msg)"
    and "handle_client_message g peer msg (mc_state m) = (ms, s)"
| disconnect:
    "sig_step lim m (sig_put i (Leaving txs) (m\<lparr>mc_state := s\<rparr>))"
  if "sig_at m i = Some t" and "task_group t = Some g" and "\<forall>p txs ps. t \<noteq> Joining g p txs ps"
    and "unregister_peer g i (mc_state m) = (txs, s)"
| left_send:
    "sig_step lim m (sig_put i (Leaving txs) (post tx (Ws_Left i) m))"
  if "sig_at m i = Some (Leaving (tx # txs))"
| left_done:
    "sig_step lim m (m\<lparr>mc_tasks := hm_del i (mc_tasks m)\<rparr>)"
  if "sig_at m i = Some (Leaving [])"
| next_hour:
    "sig_step lim m (m\<lparr>mc_state := clear_request_counts (mc_state m)\<rparr>)"

inductive sig_reach :: "sig_limits \<Rightarrow> sig_machine \<Rightarrow> bool" for lim where
  sig_start: "sig_reach lim sig_init"
| sig_more: "sig_reach lim m \<Longrightarrow> sig_step lim m m' \<Longrightarrow> sig_reach lim m'"

section \<open>What the sections do to the map\<close>

text \<open>The members of a group.\<close>

definition members :: "string \<Rightarrow> sig_state \<Rightarrow> (uuid, ws_info) hmap" where
  "members g s = (case hm_get (sg_map s) g of None \<Rightarrow> [] | Some local_map \<Rightarrow> local_map)"

definition sig_wf :: "sig_limits \<Rightarrow> sig_state \<Rightarrow> bool" where
  "sig_wf lim s \<longleftrightarrow>
     (\<forall>g. hm_wf (members g s) \<and> length (members g s) \<le> sg_max_connections lim) \<and>
     (\<forall>g n. hm_get (sg_counts s) g = Some n \<longrightarrow> n \<le> sg_max_requests lim)"

lemma hm_or_insert_eq:
  "hm_or_insert k v m = (case hm_get m k of None \<Rightarrow> v | Some x \<Rightarrow> x,
     case hm_get m k of None \<Rightarrow> hm_put k v m | Some _ \<Rightarrow> m)"
  by (simp add: hm_or_insert_def split: option.split)

lemma protect_state:
  assumes "protect_ddos_request_count lim g s = (ok, s')"
  shows "sg_map s' = sg_map s" and "members h s' = members h s"
    and "sig_wf lim s \<Longrightarrow> sig_wf lim s'"
proof -
  show map: "sg_map s' = sg_map s"
    using assms by (auto simp: protect_ddos_request_count_def hm_or_insert_eq Let_def split: if_splits)
  then show mem: "members h s' = members h s" for h by (simp add: members_def)
  show "sig_wf lim s'" if "sig_wf lim s"
    using that assms unfolding sig_wf_def mem
    by (auto simp: protect_ddos_request_count_def hm_or_insert_eq Let_def not_le inc_le inc_le [of 0, simplified]
        split: if_splits option.splits)
qed

lemma members_put [simp]:
  "members h (s\<lparr>sg_map := hm_put g v m\<rparr>) = (if h = g then v else members h (s\<lparr>sg_map := m\<rparr>))"
  by (simp add: members_def)

lemma members_same_map: "sg_map s' = sg_map s \<Longrightarrow> members h s' = members h s"
  by (simp add: members_def)

lemma register_inserted:
  "members h (s\<lparr>sg_map := snd (hm_or_insert g [] (sg_map s))\<rparr>) = members h s"
  by (auto simp: members_def hm_or_insert_eq split: option.splits)

lemma register_peer_cases:
  assumes "register_peer lim g peer s = (r, s')"
  obtains (full) "r = None" "s' = s\<lparr>sg_map := snd (hm_or_insert g [] (sg_map s))\<rparr>"
  | (busy) "r = None"
      "protect_ddos_request_count lim g (s\<lparr>sg_map := snd (hm_or_insert g [] (sg_map s))\<rparr>) = (False, s')"
  | (ok) s2 where "length (members g s) < sg_max_connections lim"
      "protect_ddos_request_count lim g (s\<lparr>sg_map := snd (hm_or_insert g [] (sg_map s))\<rparr>) = (True, s2)"
      "r = Some (map fst (members g s), map (\<lambda>(k, v). ws_client_from v k) (members g s))"
      "s' = s2\<lparr>sg_map := hm_put g (hm_put (wc_id peer) (ws_info_from peer) (members g s)) (sg_map s2)\<rparr>"
proof -
  have first: "fst (hm_or_insert g [] (sg_map s)) = members g s"
    by (simp add: hm_or_insert_eq members_def split: option.split)
  obtain ok s2 where protect: "protect_ddos_request_count lim g
      (s\<lparr>sg_map := snd (hm_or_insert g [] (sg_map s))\<rparr>) = (ok, s2)" by fastforce
  show ?thesis
    using assms that protect
    by (cases ok) (auto simp: register_peer_def Let_def first split_def split: if_splits)
qed

lemma register_refused:
  assumes "register_peer lim g peer s = (None, s')"
  shows "members h s' = members h s" and "sig_wf lim s \<Longrightarrow> sig_wf lim s'"
proof -
  let ?s1 = "s\<lparr>sg_map := snd (hm_or_insert g [] (sg_map s))\<rparr>"
  have wf: "sig_wf lim s \<Longrightarrow> sig_wf lim ?s1" by (simp add: sig_wf_def register_inserted)
  show "members h s' = members h s"
    by (rule register_peer_cases [OF assms]) (auto simp: register_inserted protect_state)
  show "sig_wf lim s'" if "sig_wf lim s"
    by (rule register_peer_cases [OF assms]) (auto simp: wf that dest: protect_state(3))
qed

lemma register_accepted:
  assumes "register_peer lim g peer s = (Some (txs, peers), s')"
  shows "txs = map fst (members g s)" and "peers = map (\<lambda>(k, v). ws_client_from v k) (members g s)"
    and "members h s' = (if h = g then hm_put (wc_id peer) (ws_info_from peer) (members g s) else members h s)"
    and "sig_wf lim s \<Longrightarrow> sig_wf lim s'"
proof -
  let ?s1 = "s\<lparr>sg_map := snd (hm_or_insert g [] (sg_map s))\<rparr>"
  from assms obtain s2 where room: "length (members g s) < sg_max_connections lim"
    and protect: "protect_ddos_request_count lim g ?s1 = (True, s2)"
    and r: "txs = map fst (members g s)" "peers = map (\<lambda>(k, v). ws_client_from v k) (members g s)"
    and s': "s' = s2\<lparr>sg_map := hm_put g (hm_put (wc_id peer) (ws_info_from peer) (members g s)) (sg_map s2)\<rparr>"
    by (rule register_peer_cases) auto
  show "txs = map fst (members g s)" "peers = map (\<lambda>(k, v). ws_client_from v k) (members g s)"
    using r by simp_all
  have mem: "members h s' =
      (if h = g then hm_put (wc_id peer) (ws_info_from peer) (members g s) else members h s)" for h
    using protect_state(2) [OF protect] by (simp add: s' register_inserted)
  then show "members h s' =
      (if h = g then hm_put (wc_id peer) (ws_info_from peer) (members g s) else members h s)" .
  show "sig_wf lim s'" if "sig_wf lim s"
  proof -
    have "sig_wf lim s2" using that protect_state(3) [OF protect] by (simp add: sig_wf_def register_inserted)
    then show ?thesis using that room mem by (auto simp: sig_wf_def s' hm_length_put)
  qed
qed

lemma hm_keys_iff: "k \<in> fst ` set m \<longleftrightarrow> hm_get m k \<noteq> None"
  by (force simp: map_of_eq_None_iff)

lemma update_peer_effect:
  assumes "update_peer g i info s = (txs, s')"
  shows "x \<in> set txs \<Longrightarrow> hm_get (members g s) x \<noteq> None"
    and "hm_get (members h s') j \<noteq> None \<longleftrightarrow> hm_get (members h s) j \<noteq> None"
    and "sig_wf lim s \<Longrightarrow> sig_wf lim s'"
proof -
  consider "txs = []" "s' = s"
    | "hm_get (members g s) i \<noteq> None" "txs = filter (\<lambda>k. k \<noteq> i) (map fst (hm_put i info (members g s)))"
      "s' = s\<lparr>sg_map := hm_put g (hm_put i info (members g s)) (sg_map s)\<rparr>"
    using assms by (auto simp: update_peer_def members_def Let_def split: option.splits)
  note cases = this
  show "hm_get (members g s) x \<noteq> None" if "x \<in> set txs"
    using cases that by cases (auto simp: hm_keys_iff split: if_splits)
  show "hm_get (members h s') j \<noteq> None \<longleftrightarrow> hm_get (members h s) j \<noteq> None"
    using cases by cases auto
  show "sig_wf lim s'" if "sig_wf lim s"
    using cases that by cases (auto simp: sig_wf_def hm_length_put)
qed

lemma unregister_effect:
  assumes "unregister_peer g i s = (txs, s')"
  shows "txs = map fst (members g s')"
    and "members h s' = (if h = g then hm_del i (members g s) else members h s)"
    and "sig_wf lim s \<Longrightarrow> sig_wf lim s'"
proof -
  have mem: "members h s' = (if h = g then hm_del i (members g s) else members h s)" for h
    using assms by (auto simp: unregister_peer_def members_def Let_def split: option.splits if_splits)
  then show "members h s' = (if h = g then hm_del i (members g s) else members h s)" .
  show "txs = map fst (members g s')"
    unfolding mem using assms
    by (auto simp: unregister_peer_def members_def Let_def split: option.splits if_splits)
  have counts: "sg_counts s' = sg_counts s"
    using assms by (auto simp: unregister_peer_def Let_def split: option.splits if_splits)
  show "sig_wf lim s'" if "sig_wf lim s"
    using that unfolding sig_wf_def mem counts
    by (auto intro: le_trans [OF hm_length_del_le])
qed


lemma handle_message_effect:
  assumes "handle_client_message g peer msg s = (ms, s')"
  shows "(tx, out) \<in> set ms \<Longrightarrow> hm_get (members g s) tx \<noteq> None"
    and "hm_get (members h s') j \<noteq> None \<longleftrightarrow> hm_get (members h s) j \<noteq> None"
    and "sig_wf lim s \<Longrightarrow> sig_wf lim s'"
proof -
  have target: "find_target g t s = Some tx \<Longrightarrow> hm_get (members g s) tx \<noteq> None" for t
    by (auto simp: find_target_def members_def split: option.splits)
  note update = update_peer_effect [where g = g and i = "wc_id peer" and s = s]
  show "hm_get (members g s) tx \<noteq> None" if "(tx, out) \<in> set ms"
  proof (cases msg)
    case (Wc_Update info)
    with that assms update(1) show ?thesis by (auto simp: Let_def split: prod.splits)
  qed (use that assms target in \<open>auto simp: send_to_peer_def split: option.splits\<close>)
  show "hm_get (members h s') j \<noteq> None \<longleftrightarrow> hm_get (members h s) j \<noteq> None"
    using assms update(2) by (cases msg) (auto simp: Let_def split: prod.splits)
  show "sig_wf lim s'" if "sig_wf lim s"
    using assms update(3) that by (cases msg) (auto simp: Let_def split: prod.splits)
qed

section \<open>Invariants\<close>

text \<open>The peers a message speaks of.\<close>

fun subjects :: "ws_server_message \<Rightarrow> uuid list" where
  "subjects (Ws_Hello client peers) = wc_id client # map wc_id peers"
| "subjects (Ws_Join peer) = [wc_id peer]"
| "subjects (Ws_Update peer) = [wc_id peer]"
| "subjects (Ws_Left peer_id) = [peer_id]"
| "subjects (Ws_Offer sdp) = [wc_id (ss_peer sdp)]"
| "subjects (Ws_Answer sdp) = [wc_id (ss_peer sdp)]"
| "subjects (Ws_Error code) = []"

abbreviation in_group :: "sig_machine \<Rightarrow> string \<Rightarrow> uuid list \<Rightarrow> bool" where
  "in_group m g xs \<equiv> \<forall>x \<in> set xs. hm_get (mc_groups m) x = Some g"

fun task_ok :: "sig_machine \<Rightarrow> uuid \<Rightarrow> string \<Rightarrow> sig_task \<Rightarrow> bool" where
  "task_ok m i h (Joining g peer txs peers) \<longleftrightarrow>
     g = h \<and> wc_id peer = i \<and> in_group m h (txs @ map wc_id peers)"
| "task_ok m i h (Running g peer ms) \<longleftrightarrow>
     g = h \<and> wc_id peer = i \<and> (\<forall>(tx, msg) \<in> set ms. in_group m h (tx # subjects msg))"
| "task_ok m i h (Handling g peer msg) \<longleftrightarrow> g = h \<and> wc_id peer = i"
| "task_ok m i h (Stopping g peer) \<longleftrightarrow> g = h \<and> wc_id peer = i"
| "task_ok m i h (Leaving txs) \<longleftrightarrow> in_group m h txs"

definition inv_registry :: "sig_machine \<Rightarrow> bool" where
  "inv_registry m \<longleftrightarrow>
     (\<forall>g i. hm_get (members g (mc_state m)) i \<noteq> None \<longleftrightarrow> live_in m i = Some g)"

definition inv_tasks :: "sig_machine \<Rightarrow> bool" where
  "inv_tasks m \<longleftrightarrow> (\<forall>i t. sig_at m i = Some t \<longrightarrow>
     (\<exists>h. hm_get (mc_groups m) i = Some h \<and> task_ok m i h t))"

definition inv_inbox :: "sig_machine \<Rightarrow> bool" where
  "inv_inbox m \<longleftrightarrow> (\<forall>i msg. msg \<in> set (mc_inbox m i) \<longrightarrow>
     (\<exists>h. hm_get (mc_groups m) i = Some h \<and> in_group m h (subjects msg)))"

lemma live_put [simp]:
  "live_task (hm_put i t ts) j = (if j = i then task_group t else live_task ts j)"
  by (simp add: live_task_def)

lemma live_at: "hm_get ts i = Some t \<Longrightarrow> live_task ts i = task_group t"
  by (simp add: live_task_def)

lemma post_simps [simp]:
  "mc_tasks (post tx msg m) = mc_tasks m" "mc_state (post tx msg m) = mc_state m"
  "mc_groups (post tx msg m) = mc_groups m"
  by (simp_all add: post_def)

lemma live_group: "inv_tasks m \<Longrightarrow> live_in m i = Some g \<Longrightarrow> hm_get (mc_groups m) i = Some g"
proof -
  assume inv: "inv_tasks m" and live: "live_in m i = Some g"
  from live obtain t where t: "sig_at m i = Some t" "task_group t = Some g"
    by (auto simp: live_task_def bind_eq_Some_conv)
  with inv obtain h where "hm_get (mc_groups m) i = Some h" "task_ok m i h t"
    unfolding inv_tasks_def by blast
  with t(2) show ?thesis by (cases t) auto
qed

lemma member_group:
  "inv_registry m \<Longrightarrow> inv_tasks m \<Longrightarrow> hm_get (members g (mc_state m)) x \<noteq> None \<Longrightarrow>
     hm_get (mc_groups m) x = Some g"
  unfolding inv_registry_def by (blast intro: live_group)


lemma clear_counts_wf [simp]: "sig_wf lim s \<Longrightarrow> sig_wf lim (clear_request_counts s)"
  by (simp add: sig_wf_def clear_request_counts_def members_def)

lemma clear_counts_members [simp]: "members g (clear_request_counts s) = members g s"
  by (simp add: clear_request_counts_def members_def)

lemma inv_wf_step: "sig_step lim m m' \<Longrightarrow> sig_wf lim (mc_state m) \<Longrightarrow> sig_wf lim (mc_state m')"
  by (induction rule: sig_step.induct)
    (auto dest: register_refused(2) register_accepted(4) protect_state(3) handle_message_effect(3)
        unregister_effect(3))

lemma inv_tasksD:
  assumes "inv_tasks m" and "sig_at m i = Some t"
  obtains h where "hm_get (mc_groups m) i = Some h" and "task_ok m i h t"
  using assms unfolding inv_tasks_def by blast

lemma fresh_no_task: "inv_tasks m \<Longrightarrow> hm_get (mc_groups m) i = None \<Longrightarrow> sig_at m i = None"
  by (cases "sig_at m i") (auto elim: inv_tasksD)

text \<open>A task that stays registered in its group, on an unchanged membership.\<close>

lemma inv_registry_same:
  assumes "inv_registry m" and "mc_tasks m' = hm_put i t (mc_tasks m)" and "task_group t = live_in m i"
    and "\<And>g j. hm_get (members g (mc_state m')) j \<noteq> None \<longleftrightarrow> hm_get (members g (mc_state m)) j \<noteq> None"
  shows "inv_registry m'"
  using assms unfolding inv_registry_def by auto

lemma inv_registry_step:
  assumes "sig_step lim m m'" and "inv_registry m" and "inv_tasks m"
  shows "inv_registry m'"
  using assms
proof (induction rule: sig_step.induct)
  case (connect_ok m peer g txs peers s)
  have "sig_at m (wc_id peer) = None"
    using connect_ok fresh_no_task by blast
  then have "live_in m (wc_id peer) = None" by (simp add: live_task_def)
  then show ?case
    using connect_ok by (auto simp: inv_registry_def register_accepted(3) [OF connect_ok(2)])
next
  case (connect_refused g peer m s)
  then show ?case by (simp add: inv_registry_def register_refused(1) [OF connect_refused(1)])
next
  case (disconnect m i t g txs s)
  have "live_in m i = Some g" using disconnect by (simp add: live_at)
  then show ?case
    using disconnect unregister_effect(2) [OF disconnect(4)] unfolding inv_registry_def by auto
next
  case (left_done m i)
  then have "live_in m i = None" by (simp add: live_at)
  with left_done show ?case by (auto simp: inv_registry_def live_task_def)
next
  case (handle_message m i g peer msg ms s)
  then show ?case
    by (intro inv_registry_same [OF handle_message.prems(1)]) (auto simp: live_at dest: handle_message_effect(2))
next
  case (next_hour m)
  then show ?case by (simp add: inv_registry_def)
qed ((erule inv_registry_same, simp, simp add: live_at, simp add: protect_state)+)

text \<open>Only fresh ids enter the groups.\<close>

lemma task_ok_mono:
  assumes "task_ok m i h t"
    and "\<And>x g. hm_get (mc_groups m) x = Some g \<Longrightarrow> hm_get (mc_groups m') x = Some g"
  shows "task_ok m' i h t"
  using assms by (cases t) fastforce+

lemma sig_step_groups:
  "sig_step lim m m' \<Longrightarrow> hm_get (mc_groups m) x = Some g \<Longrightarrow> hm_get (mc_groups m') x = Some g"
  by (induction rule: sig_step.induct) auto

lemma inv_tasks_put:
  assumes "inv_tasks m" and "mc_tasks m' = hm_put i t (mc_tasks m)"
    and "\<And>x g. hm_get (mc_groups m) x = Some g \<Longrightarrow> hm_get (mc_groups m') x = Some g"
    and "hm_get (mc_groups m') i = Some h" and "task_ok m' i h t"
  shows "inv_tasks m'"
  unfolding inv_tasks_def
proof (intro allI impI)
  fix j t'
  assume at: "sig_at m' j = Some t'"
  show "\<exists>h. hm_get (mc_groups m') j = Some h \<and> task_ok m' j h t'"
  proof (cases "j = i")
    case True
    then show ?thesis using at assms(2,4,5) by auto
  next
    case False
    then have "sig_at m j = Some t'" using at assms(2) by simp
    with assms(1) obtain g where "hm_get (mc_groups m) j = Some g" "task_ok m j g t'" by (rule inv_tasksD)
    then show ?thesis using assms(3) task_ok_mono by blast
  qed
qed

lemma inv_tasks_same:
  assumes "inv_tasks m" and "sig_at m i = Some t" and "mc_tasks m' = hm_put i t' (mc_tasks m)"
    and "mc_groups m' = mc_groups m" and "\<And>h. task_ok m i h t \<Longrightarrow> task_ok m' i h t'"
  shows "inv_tasks m'"
proof -
  obtain h where "hm_get (mc_groups m) i = Some h" "task_ok m i h t"
    using assms(1,2) by (rule inv_tasksD)
  with assms show ?thesis by (intro inv_tasks_put [of m m' i t' h]) simp_all
qed

lemma inv_inboxD:
  assumes "inv_inbox m" and "msg \<in> set (mc_inbox m i)"
  obtains h where "hm_get (mc_groups m) i = Some h" and "in_group m h (subjects msg)"
  using assms unfolding inv_inbox_def by blast

lemma inv_inbox_post:
  assumes "inv_inbox m" and "in_group m h (tx # subjects msg)"
  shows "inv_inbox (post tx msg m)"
  unfolding inv_inbox_def
proof (intro allI impI)
  fix i out
  assume out: "out \<in> set (mc_inbox (post tx msg m) i)"
  then consider "out \<in> set (mc_inbox m i)" | "i = tx" "out = msg"
    by (auto simp: post_def split: if_splits)
  then show "\<exists>h. hm_get (mc_groups (post tx msg m)) i = Some h \<and> in_group (post tx msg m) h (subjects out)"
  proof cases
    case 1
    with assms(1) show ?thesis by (auto elim: inv_inboxD)
  next
    case 2
    with assms(2) show ?thesis by auto
  qed
qed

lemma inv_inbox_mono:
  assumes "inv_inbox m" and "mc_inbox m' = mc_inbox m"
    and "\<And>x g. hm_get (mc_groups m) x = Some g \<Longrightarrow> hm_get (mc_groups m') x = Some g"
  shows "inv_inbox m'"
  using assms unfolding inv_inbox_def by metis

lemma inv_tasks_step:
  assumes "sig_step lim m m'" and "inv_tasks m" and "inv_registry m"
  shows "inv_tasks m'"
  using assms
proof (induction rule: sig_step.induct)
  case (connect_ok m peer g txs peers s)
  have in_g: "hm_get (mc_groups m) x = Some g" if "x \<in> fst ` set (members g (mc_state m))" for x
    using that member_group [OF connect_ok.prems(2,1)] by (simp add: hm_keys_iff)
  have "map wc_id peers = map fst (members g (mc_state m))"
    using register_accepted(2) [OF connect_ok(2)] by (simp add: split_def comp_def)
  then have "in_group m g (txs @ map wc_id peers)"
    using in_g register_accepted(1) [OF connect_ok(2)] by simp
  then show ?case
    using connect_ok by (intro inv_tasks_put [OF connect_ok.prems(1)]) (auto simp: split_def)
next
  case (handle_message m i g peer msg ms s)
  have "in_group m g (tx # subjects out)" if "(tx, out) \<in> set ms" "wc_id peer = i" for tx out
  proof -
    have "hm_get (mc_groups m) tx = Some g"
      using handle_message_effect(1) [OF handle_message(2)] that member_group handle_message.prems by blast
    moreover have "live_in m i = Some g" using handle_message(1) by (simp add: live_at)
    then have "hm_get (mc_groups m) i = Some g" using live_group handle_message.prems(1) by blast
    moreover have "subjects out = [i]"
      using handle_message(2) that
      by (cases msg) (auto simp: Let_def send_to_peer_def sdp_message_def split: prod.splits option.splits)
    ultimately show ?thesis by simp
  qed
  then show ?case
    by (intro inv_tasks_same [OF handle_message.prems(1) handle_message(1)]) auto
next
  case (disconnect m i t g txs s)
  have "hm_get (mc_groups m) x = Some g" if "x \<in> set txs" for x
    using that unregister_effect(1,2) [OF disconnect(4)] member_group [OF disconnect.prems(2,1), of g x]
    by (auto simp: hm_keys_iff split: if_splits)
  moreover have "task_ok m i h t \<Longrightarrow> h = g" for h using disconnect(2) by (cases t) auto
  ultimately show ?case
    by (intro inv_tasks_same [OF disconnect.prems(1) disconnect(1)]) auto
next
  case (left_done m i)
  have "sig_at m j = Some t \<Longrightarrow> \<exists>h. hm_get (mc_groups m) j = Some h \<and> task_ok m j h t" for j t
    using left_done.prems(1) by (blast elim: inv_tasksD)
  moreover have "task_ok (m\<lparr>mc_tasks := ts\<rparr>) j h t = task_ok m j h t" for j h t ts
    by (cases t) auto
  ultimately show ?case unfolding inv_tasks_def by (auto split: if_splits)
next
  case (connect_refused g peer m s)
  have "task_ok (m\<lparr>mc_state := s\<rparr>) j h t = task_ok m j h t" for j h t by (cases t) auto
  with connect_refused show ?case unfolding inv_tasks_def by auto
next
  case (next_hour m)
  have "task_ok (m\<lparr>mc_state := s\<rparr>) j h t = task_ok m j h t" for j h t s by (cases t) auto
  with next_hour show ?case unfolding inv_tasks_def by auto
qed ((erule inv_tasks_same, assumption, simp, simp, auto)+)


lemma inv_inbox_put:
  assumes "inv_inbox m" and "in_group m h (tx # subjects msg)"
  shows "inv_inbox (sig_put i t (post tx msg m))"
  using inv_inbox_post [OF assms] by (rule inv_inbox_mono) simp_all

lemma inv_inbox_step:
  assumes "sig_step lim m m'" and "inv_inbox m" and "inv_tasks m"
  shows "inv_inbox m'"
  using assms
proof (induction rule: sig_step.induct)
  case (join_send m i g peer tx txs peers)
  obtain h where "hm_get (mc_groups m) i = Some h" "task_ok m i h (Joining g peer (tx # txs) peers)"
    using join_send.prems(2) join_send(1) by (rule inv_tasksD)
  then show ?case using join_send.prems(1) by (intro inv_inbox_put [where h = h]) auto
next
  case (hello m i g peer peers)
  obtain h where "hm_get (mc_groups m) i = Some h" "task_ok m i h (Joining g peer [] peers)"
    using hello.prems(2) hello(1) by (rule inv_tasksD)
  then show ?case using hello.prems(1) by (intro inv_inbox_put [where h = h]) auto
next
  case (send_next m i g peer tx msg ms)
  obtain h where "hm_get (mc_groups m) i = Some h" "task_ok m i h (Running g peer ((tx, msg) # ms))"
    using send_next.prems(2) send_next(1) by (rule inv_tasksD)
  then show ?case using send_next.prems(1) by (intro inv_inbox_put [where h = h]) auto
next
  case (left_send m i tx txs)
  obtain h where "hm_get (mc_groups m) i = Some h" "task_ok m i h (Leaving (tx # txs))"
    using left_send.prems(2) left_send(1) by (rule inv_tasksD)
  then show ?case using left_send.prems(1) by (intro inv_inbox_put [where h = h]) auto
next
  case (too_many_requests m i g peer s)
  obtain h where h: "hm_get (mc_groups m) i = Some h"
    using too_many_requests.prems(2) too_many_requests(1) by (rule inv_tasksD)
  have "inv_inbox (m\<lparr>mc_state := s\<rparr>)"
    using too_many_requests.prems(1) by (rule inv_inbox_mono) simp_all
  then show ?case using h by (intro inv_inbox_put [where h = h]) auto
next
  case (connect_ok m peer g txs peers s)
  then show ?case by (intro inv_inbox_mono [OF connect_ok.prems(1)]) auto
qed (erule inv_inbox_mono; simp)+

lemma sig_reach_invariants:
  "sig_reach lim m \<Longrightarrow> sig_wf lim (mc_state m) \<and> inv_registry m \<and> inv_tasks m \<and> inv_inbox m"
proof (induction rule: sig_reach.induct)
  case sig_start
  then show ?case
    by (simp add: sig_init_def sig_empty_def sig_wf_def members_def inv_registry_def inv_tasks_def
        inv_inbox_def live_task_def)
next
  case (sig_more m m')
  then show ?case
    using inv_wf_step inv_registry_step inv_tasks_step inv_inbox_step by blast
qed

section \<open>Runs\<close>

definition anna :: ws_info where
  "anna = \<lparr>wi_alias = ''Anna'', wi_version = ''2.3'', wi_device_model = None, wi_device_type = None,
     wi_token = ''a''\<rparr>"

definition ben :: ws_info where
  "ben = \<lparr>wi_alias = ''Ben'', wi_version = ''2.3'', wi_device_model = None, wi_device_type = None,
     wi_token = ''b''\<rparr>"

definition default_limits :: sig_limits where
  "default_limits = \<lparr>sg_max_connections = 10, sg_max_requests = 1000\<rparr>"

lemma within_limit: "\<not> (1000 :: u32) \<le> 1"
  by (simp add: word_le_nat_alt)

lemmas sig_run_simps = within_limit sig_init_def sig_empty_def default_limits_def register_peer_def hm_or_insert_def
  protect_ddos_request_count_def members_def unregister_peer_def update_peer_def send_to_peer_def
  find_target_def sdp_message_def post_def live_task_def Let_def

lemma ghost_run:
  "\<exists>m. sig_reach default_limits m \<and>
     mc_inbox m 1 = [Ws_Left 2, Ws_Hello (ws_client_from anna 1) [ws_client_from ben 2]] \<and>
     mc_tasks m = [(1, Running ''g'' (ws_client_from anna 1) [])] \<and>
     members ''g'' (mc_state m) = [(1, anna)]"
proof -
  let ?a = "ws_client_from anna 1" and ?b = "ws_client_from ben 2" and ?lim = default_limits
  let ?s1 = "\<lparr>sg_map = [(''g'', [(2, ben)])], sg_counts = [(''g'', 1)]\<rparr>"
  let ?s2 = "\<lparr>sg_map = [(''g'', [(2, ben), (1, anna)])], sg_counts = [(''g'', 2)]\<rparr>"
  let ?s3 = "\<lparr>sg_map = [(''g'', [(1, anna)])], sg_counts = [(''g'', 2)]\<rparr>"
  let ?none = "\<lambda>_. [] :: ws_server_message list"
  let ?box1 = "?none(2 := [Ws_Hello ?b []])"
  let ?box2 = "?none(2 := [Ws_Hello ?b [], Ws_Join ?a])"
  let ?box3 = "?box2(1 := [Ws_Left 2])"
  let ?gs = "[(2, ''g''), (1, ''g'')]"
  let ?M1 = "\<lparr>mc_state = ?s1, mc_tasks = [(2, Joining ''g'' ?b [] [])], mc_inbox = ?none, mc_groups = [(2, ''g'')]\<rparr>"
  let ?M2 = "\<lparr>mc_state = ?s1, mc_tasks = [(2, Running ''g'' ?b [])], mc_inbox = ?box1, mc_groups = [(2, ''g'')]\<rparr>"
  let ?M3 = "\<lparr>mc_state = ?s2, mc_tasks = [(2, Running ''g'' ?b []), (1, Joining ''g'' ?a [2] [?b])],
    mc_inbox = ?box1, mc_groups = ?gs\<rparr>"
  let ?M4 = "\<lparr>mc_state = ?s2, mc_tasks = [(2, Running ''g'' ?b []), (1, Joining ''g'' ?a [] [?b])],
    mc_inbox = ?box2, mc_groups = ?gs\<rparr>"
  let ?M5 = "\<lparr>mc_state = ?s3, mc_tasks = [(2, Leaving [1]), (1, Joining ''g'' ?a [] [?b])],
    mc_inbox = ?box2, mc_groups = ?gs\<rparr>"
  let ?M6 = "\<lparr>mc_state = ?s3, mc_tasks = [(2, Leaving []), (1, Joining ''g'' ?a [] [?b])],
    mc_inbox = ?box3, mc_groups = ?gs\<rparr>"
  let ?M7 = "\<lparr>mc_state = ?s3, mc_tasks = [(1, Joining ''g'' ?a [] [?b])], mc_inbox = ?box3, mc_groups = ?gs\<rparr>"
  let ?M8 = "\<lparr>mc_state = ?s3, mc_tasks = [(1, Running ''g'' ?a [])],
    mc_inbox = ?box3(1 := [Ws_Left 2, Ws_Hello ?a [?b]]), mc_groups = ?gs\<rparr>"
  have "sig_reach ?lim sig_init" by (rule sig_start)
  moreover have "sig_step ?lim sig_init ?M1"
    using sig_step.connect_ok [of sig_init ?b ?lim "''g''" "[]" "[]" ?s1] by (simp add: sig_run_simps)
  moreover have "sig_step ?lim ?M1 ?M2"
    using sig_step.hello [of ?M1 2 "''g''" ?b "[]" ?lim] by (simp add: sig_run_simps)
  moreover have "sig_step ?lim ?M2 ?M3"
    using sig_step.connect_ok [of ?M2 ?a ?lim "''g''" "[2]" "[?b]" ?s2] by (simp add: sig_run_simps)
  moreover have "sig_step ?lim ?M3 ?M4"
    using sig_step.join_send [of ?M3 1 "''g''" ?a 2 "[]" "[?b]" ?lim] by (simp add: sig_run_simps)
  moreover have "sig_step ?lim ?M4 ?M5"
    using sig_step.disconnect [of ?M4 2 "Running ''g'' ?b []" "''g''" "[1]" ?s3 ?lim] by (simp add: sig_run_simps)
  moreover have "sig_step ?lim ?M5 ?M6"
    using sig_step.left_send [of ?M5 2 1 "[]" ?lim] by (simp add: sig_run_simps)
  moreover have "sig_step ?lim ?M6 ?M7"
    using sig_step.left_done [of ?M6 2 ?lim] by (simp add: sig_run_simps)
  moreover have "sig_step ?lim ?M7 ?M8"
    using sig_step.hello [of ?M7 1 "''g''" ?a "[?b]" ?lim] by (simp add: sig_run_simps)
  ultimately have "sig_reach ?lim ?M8" by (meson sig_more)
  then show ?thesis by (intro exI [of _ ?M8]) (simp add: members_def)
qed

section \<open>Properties\<close>

text \<open>
  C23: However the connections interleave, no client hears of a peer of another group: whatever
  is put into its channel, introductions, updates, departures, offers and answers, is about
  members of its own group, past or present.
\<close>

theorem rooms_isolated:
  assumes "sig_reach lim m" and "msg \<in> set (mc_inbox m i)" and "j \<in> set (subjects msg)"
  shows "\<exists>g. hm_get (mc_groups m) i = Some g \<and> hm_get (mc_groups m) j = Some g"
proof -
  have "inv_inbox m" using sig_reach_invariants [OF assms(1)] by blast
  then obtain g where "hm_get (mc_groups m) i = Some g" "in_group m g (subjects msg)"
    using assms(2) by (rule inv_inboxD)
  with assms(3) show ?thesis by blast
qed

text \<open>
  C24: The registry is exact: a peer is listed in a group exactly while its connection is in that
  group, no group is over the connection limit, and no counter is over the request limit.
\<close>

theorem registry_exact:
  assumes "sig_reach lim m"
  shows "(hm_get (members g (mc_state m)) i \<noteq> None \<longleftrightarrow> live_in m i = Some g) \<and>
    length (members g (mc_state m)) \<le> sg_max_connections lim \<and>
    (\<forall>n. hm_get (sg_counts (mc_state m)) h = Some n \<longrightarrow> n \<le> sg_max_requests lim)"
  using sig_reach_invariants [OF assms] unfolding inv_registry_def sig_wf_def by blast

text \<open>
  A peer can be shown for ever after it left: when it leaves between the registration of a
  new peer and the greeting of it, the departure reaches the new client first, and the greeting,
  which lists the peer, second.
\<close>

theorem ghost_peer:
  "\<exists>m. sig_reach default_limits m \<and>
     mc_inbox m 1 = [Ws_Left 2, Ws_Hello (ws_client_from anna 1) [ws_client_from ben 2]] \<and>
     mc_tasks m = [(1, Running ''g'' (ws_client_from anna 1) [])] \<and>
     members ''g'' (mc_state m) = [(1, anna)]"
  by (rule ghost_run)

theorem rooms_isolated_witness:
  "\<exists>m. sig_reach default_limits m \<and> hm_get (mc_groups m) 1 = hm_get (mc_groups m) 2 \<and>
     hm_get (mc_groups m) 1 \<noteq> None"
proof -
  obtain m where reach: "sig_reach default_limits m"
    and box: "mc_inbox m 1 = [Ws_Left 2, Ws_Hello (ws_client_from anna 1) [ws_client_from ben 2]]"
    using ghost_run by blast
  have "Ws_Left 2 \<in> set (mc_inbox m 1)" "2 \<in> set (subjects (Ws_Left 2))" using box by simp_all
  from rooms_isolated [OF reach this] obtain g where
    "hm_get (mc_groups m) 1 = Some g" "hm_get (mc_groups m) 2 = Some g" by blast
  with reach show ?thesis by auto
qed

theorem registry_exact_witness:
  "\<exists>m. sig_reach default_limits m \<and> live_in m 1 = Some ''g'' \<and> live_in m 2 \<noteq> Some ''g''"
proof -
  obtain m where reach: "sig_reach default_limits m" and mem: "members ''g'' (mc_state m) = [(1, anna)]"
    using ghost_run by blast
  have "live_in m 1 = Some ''g''" "live_in m 2 \<noteq> Some ''g''"
    using registry_exact [OF reach, of "''g''" 1] registry_exact [OF reach, of "''g''" 2] mem by simp_all
  with reach show ?thesis by blast
qed

text \<open>
  An offer carries what the peer registered with, whatever it has told the server since.
\<close>

theorem offer_is_stale:
  assumes "hm_get (members g s) (cs_target sdp) \<noteq> None"
    and "handle_client_message g peer (Wc_Update info) s = (ms, s')"
  shows "handle_client_message g peer (Wc_Offer sdp) s' =
    ([(cs_target sdp, Ws_Offer (sdp_message peer sdp))], s')"
proof -
  have "hm_get (members g s') (cs_target sdp) \<noteq> None"
    using handle_message_effect(2) [OF assms(2)] assms(1) by blast
  then have "find_target g (cs_target sdp) s' = Some (cs_target sdp)"
    by (auto simp: find_target_def members_def split: option.splits)
  then show ?thesis by (simp add: send_to_peer_def)
qed

text \<open>
  A refused connection leaves an empty group behind, which nothing removes while no peer of the
  group gets in.
\<close>

theorem refused_group_stays:
  assumes "hm_get (sg_map s) g = None" and "register_peer lim g peer s = (None, s')"
  shows "hm_get (sg_map s') g = Some []"
proof -
  have new: "hm_get (snd (hm_or_insert g [] (sg_map s))) g = Some []"
    using assms(1) by (simp add: hm_or_insert_def)
  from assms(2) show ?thesis
    by (rule register_peer_cases) (auto simp: new protect_state(1))
qed

end
