(* ===== verification/Signaling_Client.thy ===== *)
theory Signaling_Client
  imports Signaling_Machine
begin

text \<open>
  The client of the signaling server (\<open>webrtc/signaling.rs\<close>): waiting for the greeting, the
  messages it sends, and the callbacks for answers.
\<close>

section \<open>Connecting\<close>

text \<open>
  The reading task takes what the socket gives, in order: a text that parses, or something else,
  which it skips. It hands a greeting to the waiting caller and puts every message into a channel
  that nobody reads before \<open>connect\<close> has returned. The end of the list is the end of the socket.
\<close>

datatype socket_item = Item_Message ws_server_message | Item_Other

definition receive_capacity :: nat where
  "receive_capacity = 1"

datatype connect_result =
    Connected ws_client
  | Connect_Blocked
  | Connect_Panicked

fun await_hello :: "nat \<Rightarrow> socket_item list \<Rightarrow> connect_result" where
  "await_hello buffered [] = Connect_Panicked"
| "await_hello buffered (Item_Other # items) = await_hello buffered items"
| "await_hello buffered (Item_Message msg # items) =
     (case msg of
        Ws_Hello client peers \<Rightarrow> Connected client
      | _ \<Rightarrow>
          if buffered < receive_capacity then await_hello (Suc buffered) items
          else Connect_Blocked)"

definition signaling_connect :: "socket_item list \<Rightarrow> connect_result" where
  "signaling_connect items = await_hello 0 items"

section \<open>Sending\<close>

definition send_update :: "ws_info \<Rightarrow> ws_client_message" where
  "send_update info = Wc_Update info"

definition send_offer :: "string \<Rightarrow> uuid \<Rightarrow> string \<Rightarrow> ws_client_message" where
  "send_offer session_id target sdp =
     Wc_Offer \<lparr>cs_session_id = session_id, cs_target = target, cs_sdp = sdp\<rparr>"

definition send_answer :: "string \<Rightarrow> uuid \<Rightarrow> string \<Rightarrow> ws_client_message" where
  "send_answer session_id target sdp =
     Wc_Answer \<lparr>cs_session_id = session_id, cs_target = target, cs_sdp = sdp\<rparr>"

text \<open>
  The writing task. It waits for a message of the application, for two minutes at most; then it
  sends a ping. \<open>write_ok\<close> tells whether the \<open>k\<close>-th frame can be written; the task ends when one
  cannot, or when the application has closed the channel.
\<close>

datatype send_event = Se_Message ws_client_message | Se_Timeout | Se_Closed

datatype frame = Frame_Message ws_client_message | Frame_Ping

fun send_loop :: "(nat \<Rightarrow> bool) \<Rightarrow> send_event list \<Rightarrow> frame list \<Rightarrow> frame list" where
  "send_loop write_ok [] sent = sent"
| "send_loop write_ok (Se_Closed # es) sent = sent"
| "send_loop write_ok (Se_Message msg # es) sent =
     (if write_ok (length sent) then send_loop write_ok es (sent @ [Frame_Message msg]) else sent)"
| "send_loop write_ok (Se_Timeout # es) sent =
     (if write_ok (length sent) then send_loop write_ok es (sent @ [Frame_Ping]) else sent)"

section \<open>Listening\<close>

text \<open>
  Callbacks are numbers. The listener runs and removes the callback of the session an answer
  belongs to, and hands every message on. \<open>open_rx\<close> tells whether the application still listens
  to the \<open>k\<close>-th message; if not, the task panics.
\<close>

record listener =
  ls_callbacks :: "(string, nat) hmap"
  ls_called :: "(nat \<times> ws_server_sdp) list"
  ls_forwarded :: "ws_server_message list"

definition on_answer :: "string \<Rightarrow> nat \<Rightarrow> listener \<Rightarrow> listener" where
  "on_answer session_id callback l = l\<lparr>ls_callbacks := hm_put session_id callback (ls_callbacks l)\<rparr>"

definition listen_message ::
  "(nat \<Rightarrow> bool) \<Rightarrow> ws_server_message \<Rightarrow> listener \<Rightarrow> listener run" where
  "listen_message open_rx message l =
     (let l = (case message of
                 Ws_Answer sdp \<Rightarrow>
                   (case hm_get (ls_callbacks l) (ss_session_id sdp) of
                      None \<Rightarrow> l
                    | Some callback \<Rightarrow>
                        l\<lparr>ls_callbacks := hm_del (ss_session_id sdp) (ls_callbacks l),
                          ls_called := ls_called l @ [(callback, sdp)]\<rparr>)
               | _ \<Rightarrow> l)
      in if open_rx (length (ls_forwarded l))
         then Done (l\<lparr>ls_forwarded := ls_forwarded l @ [message]\<rparr>) else Panicked)"

datatype listener_event = Ls_Register string nat | Ls_Message ws_server_message

fun listen :: "(nat \<Rightarrow> bool) \<Rightarrow> listener_event list \<Rightarrow> listener \<Rightarrow> listener run" where
  "listen open_rx [] l = Done l"
| "listen open_rx (Ls_Register s c # es) l = listen open_rx es (on_answer s c l)"
| "listen open_rx (Ls_Message msg # es) l =
     run_bind (listen_message open_rx msg l) (listen open_rx es)"

definition new_listener :: listener where
  "new_listener = \<lparr>ls_callbacks = [], ls_called = [], ls_forwarded = []\<rparr>"

section \<open>Lemmas\<close>

fun is_hello :: "ws_server_message \<Rightarrow> bool" where
  "is_hello (Ws_Hello client peers) = True"
| "is_hello _ = False"

text \<open>The messages, and those before the greeting.\<close>

definition socket_messages :: "socket_item list \<Rightarrow> ws_server_message list" where
  "socket_messages items = concat (map (\<lambda>i. case i of Item_Message m \<Rightarrow> [m] | Item_Other \<Rightarrow> []) items)"

lemma socket_messages_simps [simp]:
  "socket_messages [] = []" "socket_messages (Item_Other # items) = socket_messages items"
  "socket_messages (Item_Message m # items) = m # socket_messages items"
  by (simp_all add: socket_messages_def)

lemma await_hello_outcome:
  "buffered \<le> 1 \<Longrightarrow> await_hello buffered items =
     (let early = takeWhile (\<lambda>m. \<not> is_hello m) (socket_messages items) in
      if 1 < buffered + length early then Connect_Blocked
      else (case dropWhile (\<lambda>m. \<not> is_hello m) (socket_messages items) of
              Ws_Hello client peers # _ \<Rightarrow> Connected client
            | _ \<Rightarrow> Connect_Panicked))"
proof (induction items arbitrary: buffered)
  case (Cons item items)
  show ?case
  proof (cases item)
    case (Item_Message msg)
    then show ?thesis
      using Cons.IH [of "Suc buffered"] Cons.prems
      by (cases msg; cases buffered) (auto simp: receive_capacity_def Let_def)
  qed (use Cons in simp)
qed simp

text \<open>The frames written are those of the first events, none twice and none out of order.\<close>

fun event_frame :: "send_event \<Rightarrow> frame option" where
  "event_frame (Se_Message msg) = Some (Frame_Message msg)"
| "event_frame Se_Timeout = Some Frame_Ping"
| "event_frame Se_Closed = None"

lemma send_loop_frames:
  "\<exists>n. map Some (send_loop write_ok es sent) = map Some sent @ map event_frame (take n es) \<and>
     (\<forall>k\<in>{length sent..<length (send_loop write_ok es sent)}. write_ok k)"
proof (induction es arbitrary: sent)
  case Nil
  then show ?case by simp
next
  case (Cons e es)
  show ?case
  proof (cases "e \<noteq> Se_Closed \<and> write_ok (length sent)")
    case True
    then obtain f where f: "event_frame e = Some f"
      and step: "send_loop write_ok (e # es) sent = send_loop write_ok es (sent @ [f])"
      by (cases e) auto
    from Cons.IH [of "sent @ [f]"] obtain n where
      "map Some (send_loop write_ok es (sent @ [f])) = map Some (sent @ [f]) @ map event_frame (take n es)"
      and "\<forall>k\<in>{Suc (length sent)..<length (send_loop write_ok es (sent @ [f]))}. write_ok k" by auto
    then show ?thesis
      using True f step by (intro exI [of _ "Suc n"]) (force simp: Suc_le_eq le_less)
  next
    case False
    then have "send_loop write_ok (e # es) sent = sent" by (cases e) auto
    then show ?thesis by (intro exI [of _ 0]) simp
  qed
qed

text \<open>Calls of callbacks are paid for by registrations.\<close>

definition calls_for :: "string \<Rightarrow> listener \<Rightarrow> nat" where
  "calls_for s l = length (filter (\<lambda>(c, sdp). ss_session_id sdp = s) (ls_called l))"

definition registrations :: "string \<Rightarrow> listener_event list \<Rightarrow> nat" where
  "registrations s es = length (filter (\<lambda>e. case e of Ls_Register s' c \<Rightarrow> s' = s | _ \<Rightarrow> False) es)"

definition pending_for :: "string \<Rightarrow> listener \<Rightarrow> nat" where
  "pending_for s l = (if hm_get (ls_callbacks l) s = None then 0 else 1)"

lemma listen_message_accounts:
  assumes "listen_message open_rx msg l = Done l'"
  shows "ls_forwarded l' = ls_forwarded l @ [msg]"
    and "calls_for s l' + pending_for s l' = calls_for s l + pending_for s l"
  using assms
  by (auto simp: listen_message_def Let_def calls_for_def pending_for_def
      split: if_splits ws_server_message.splits option.splits)

lemma listen_accounts:
  assumes "listen open_rx es l = Done l'"
  shows "ls_forwarded l' = ls_forwarded l @ concat (map (\<lambda>e. case e of Ls_Message m \<Rightarrow> [m] | _ \<Rightarrow> []) es)"
    and "calls_for s l' + pending_for s l' \<le> calls_for s l + pending_for s l + registrations s es"
proof -
  have "ls_forwarded l' = ls_forwarded l @ concat (map (\<lambda>e. case e of Ls_Message m \<Rightarrow> [m] | _ \<Rightarrow> []) es) \<and>
    calls_for s l' + pending_for s l' \<le> calls_for s l + pending_for s l + registrations s es"
    using assms
  proof (induction es arbitrary: l)
    case Nil
    then show ?case by (simp add: registrations_def)
  next
    case (Cons e es)
    show ?case
    proof (cases e)
      case (Ls_Register s' c)
      have "pending_for s (on_answer s' c l) \<le> pending_for s l + (if s' = s then 1 else 0)"
        "calls_for s (on_answer s' c l) = calls_for s l" "ls_forwarded (on_answer s' c l) = ls_forwarded l"
        by (auto simp: pending_for_def calls_for_def on_answer_def)
      then show ?thesis
        using Cons.IH [of "on_answer s' c l"] Cons.prems Ls_Register
        by (auto simp: registrations_def split: if_splits)
    next
      case (Ls_Message msg)
      then obtain l1 where step: "listen_message open_rx msg l = Done l1" and rest: "listen open_rx es l1 = Done l'"
        using Cons.prems by (auto simp: run_bind_Done_iff)
      show ?thesis
        using Cons.IH [OF rest] listen_message_accounts [OF step] Ls_Message
        by (simp add: registrations_def)
    qed
  qed
  then show "ls_forwarded l' = ls_forwarded l @ concat (map (\<lambda>e. case e of Ls_Message m \<Rightarrow> [m] | _ \<Rightarrow> []) es)"
    and "calls_for s l' + pending_for s l' \<le> calls_for s l + pending_for s l + registrations s es"
    by simp_all
qed

text \<open>
  A server run in which the greeting comes third: two peers join while the new client is still
  being introduced.
\<close>

lemma late_hello_run:
  "\<exists>m. sig_reach default_limits m \<and>
     mc_inbox m 1 = [Ws_Join (ws_client_from ben 2), Ws_Join (ws_client_from ben 3),
       Ws_Hello (ws_client_from anna 1) []]"
proof -
  let ?a = "ws_client_from anna 1" and ?b = "ws_client_from ben 2" and ?c = "ws_client_from ben 3"
    and ?lim = default_limits
  let ?s1 = "\<lparr>sg_map = [(''g'', [(1, anna)])], sg_counts = [(''g'', 1)]\<rparr>"
  let ?s2 = "\<lparr>sg_map = [(''g'', [(1, anna), (2, ben)])], sg_counts = [(''g'', 2)]\<rparr>"
  let ?s3 = "\<lparr>sg_map = [(''g'', [(1, anna), (2, ben), (3, ben)])], sg_counts = [(''g'', 3)]\<rparr>"
  let ?none = "\<lambda>_. [] :: ws_server_message list"
  let ?box1 = "?none(1 := [Ws_Join ?b])" and ?box2 = "?none(1 := [Ws_Join ?b, Ws_Join ?c])"
  let ?box3 = "?none(1 := [Ws_Join ?b, Ws_Join ?c, Ws_Hello ?a []])"
  let ?ja = "(1, Joining ''g'' ?a [] [])"
  let ?M1 = "\<lparr>mc_state = ?s1, mc_tasks = [?ja], mc_inbox = ?none, mc_groups = [(1, ''g'')]\<rparr>"
  let ?M2 = "\<lparr>mc_state = ?s2, mc_tasks = [?ja, (2, Joining ''g'' ?b [1] [?a])], mc_inbox = ?none,
    mc_groups = [(1, ''g''), (2, ''g'')]\<rparr>"
  let ?M3 = "\<lparr>mc_state = ?s2, mc_tasks = [?ja, (2, Joining ''g'' ?b [] [?a])], mc_inbox = ?box1,
    mc_groups = [(1, ''g''), (2, ''g'')]\<rparr>"
  let ?M4 = "\<lparr>mc_state = ?s3, mc_tasks = [?ja, (2, Joining ''g'' ?b [] [?a]),
      (3, Joining ''g'' ?c [1, 2] [?a, ?b])], mc_inbox = ?box1,
    mc_groups = [(1, ''g''), (2, ''g''), (3, ''g'')]\<rparr>"
  let ?M5 = "\<lparr>mc_state = ?s3, mc_tasks = [?ja, (2, Joining ''g'' ?b [] [?a]),
      (3, Joining ''g'' ?c [2] [?a, ?b])], mc_inbox = ?box2,
    mc_groups = [(1, ''g''), (2, ''g''), (3, ''g'')]\<rparr>"
  let ?M6 = "\<lparr>mc_state = ?s3, mc_tasks = [(1, Running ''g'' ?a []), (2, Joining ''g'' ?b [] [?a]),
      (3, Joining ''g'' ?c [2] [?a, ?b])], mc_inbox = ?box3,
    mc_groups = [(1, ''g''), (2, ''g''), (3, ''g'')]\<rparr>"
  have "sig_reach ?lim sig_init" by (rule sig_start)
  moreover have "sig_step ?lim sig_init ?M1"
    using sig_step.connect_ok [of sig_init ?a ?lim "''g''" "[]" "[]" ?s1] by (simp add: sig_run_simps)
  moreover have "sig_step ?lim ?M1 ?M2"
    using sig_step.connect_ok [of ?M1 ?b ?lim "''g''" "[1]" "[?a]" ?s2] by (simp add: sig_run_simps)
  moreover have "sig_step ?lim ?M2 ?M3"
    using sig_step.join_send [of ?M2 2 "''g''" ?b 1 "[]" "[?a]" ?lim] by (simp add: sig_run_simps)
  moreover have "sig_step ?lim ?M3 ?M4"
    using sig_step.connect_ok [of ?M3 ?c ?lim "''g''" "[1, 2]" "[?a, ?b]" ?s3] by (simp add: sig_run_simps word_le_nat_alt)
  moreover have "sig_step ?lim ?M4 ?M5"
    using sig_step.join_send [of ?M4 3 "''g''" ?c 1 "[2]" "[?a, ?b]" ?lim] by (simp add: sig_run_simps)
  moreover have "sig_step ?lim ?M5 ?M6"
    using sig_step.hello [of ?M5 1 "''g''" ?a "[]" ?lim] by (simp add: sig_run_simps)
  ultimately have "sig_reach ?lim ?M6" by (meson sig_more)
  then show ?thesis by (intro exI [of _ ?M6]) simp
qed

section \<open>Properties\<close>

text \<open>
  What comes of a connection attempt is decided by what precedes the greeting: with at most
  one message before it the client is connected, with two or more it waits for ever, and
  without a greeting it panics.
\<close>

theorem connect_outcome:
  "signaling_connect items =
     (let early = takeWhile (\<lambda>m. \<not> is_hello m) (socket_messages items) in
      if 1 < length early then Connect_Blocked
      else (case dropWhile (\<lambda>m. \<not> is_hello m) (socket_messages items) of
              Ws_Hello client peers # _ \<Rightarrow> Connected client
            | _ \<Rightarrow> Connect_Panicked))"
  using await_hello_outcome [of 0 items] by (simp add: signaling_connect_def)

text \<open>
  The server can keep a client waiting for ever: in a run of the server the introductions of
  two other peers reach the new client before its greeting, which it then never reads.
\<close>

theorem connect_can_hang:
  "\<exists>m. sig_reach default_limits m \<and>
     (\<exists>peers. Ws_Hello (ws_client_from anna 1) peers \<in> set (mc_inbox m 1)) \<and>
     signaling_connect (map Item_Message (mc_inbox m 1)) = Connect_Blocked"
proof -
  obtain m where "sig_reach default_limits m"
    and "mc_inbox m 1 = [Ws_Join (ws_client_from ben 2), Ws_Join (ws_client_from ben 3),
      Ws_Hello (ws_client_from anna 1) []]"
    using late_hello_run by blast
  then show ?thesis
    by (intro exI [of _ m]) (simp add: signaling_connect_def receive_capacity_def)
qed

text \<open>
  A client that is told that the limit is reached, which is no message of the protocol, panics.
\<close>

theorem refused_client_panics: "signaling_connect [Item_Other] = Connect_Panicked"
  by (simp add: signaling_connect_def)

text \<open>
  The listener hands on every message, in order, and calls the callbacks of a session at most
  as often as they were registered.
\<close>

theorem listener_accounts:
  assumes "listen open_rx es new_listener = Done l"
  shows "ls_forwarded l = concat (map (\<lambda>e. case e of Ls_Message m \<Rightarrow> [m] | _ \<Rightarrow> []) es) \<and>
    calls_for s l \<le> registrations s es"
  using listen_accounts [OF assms]
  by (auto simp: new_listener_def calls_for_def pending_for_def intro: order_trans [OF le_add1])

theorem listener_accounts_witness:
  "\<exists>l. listen (\<lambda>_. True) [Ls_Register ''s'' 7, Ls_Message (Ws_Left 1)] new_listener = Done l \<and>
     ls_forwarded l = [Ws_Left 1]"
proof -
  obtain l where l: "listen (\<lambda>_. True) [Ls_Register ''s'' 7, Ls_Message (Ws_Left 1)] new_listener = Done l"
    by (simp add: listen_message_def Let_def)
  from listener_accounts [OF l, of "''s''"] l show ?thesis by auto
qed

end
