(* ===== verification/Rtc_Peers.thy ===== *)
theory Rtc_Peers
  imports Rtc_Agreement Rtc_Files Signaling_Client
begin

text \<open>
  The two ends of a WebRTC transfer as a whole (\<open>send_offer\<close> and \<open>accept_offer\<close> of \<open>webrtc/webrtc.rs\<close>): the task of
  each, from the open channel to its end, and the function around it, which exchanges the descriptions of the
  connection through the signaling server and waits for the task or for the loss of the connection.

  What the crate webrtc does is given by the outcomes of its calls (\<open>peer_calls\<close>). When a function returns an error
  it returns at once, without closing the connection, except where the code closes it.
\<close>

section \<open>Descriptions in text form\<close>

text \<open>\<open>sl_inflate\<close> gives nothing for what is not the compression of a text.\<close>

record sdp_lib =
  sl_deflate :: "string \<Rightarrow> bytes"
  sl_inflate :: "bytes \<Rightarrow> string option"

definition sdp_laws :: "sdp_lib \<Rightarrow> bool" where
  "sdp_laws sl \<longleftrightarrow> (\<forall>s. sl_inflate sl (sl_deflate sl s) = Some s)"

definition encode_sdp :: "('sk, 'ek, 'rk, 'z) crypto_lib_scheme \<Rightarrow> sdp_lib \<Rightarrow> string \<Rightarrow> string" where
  "encode_sdp lib sl s = cl_b64_encode lib (sl_deflate sl s)"

definition decode_sdp :: "('sk, 'ek, 'rk, 'z) crypto_lib_scheme \<Rightarrow> sdp_lib \<Rightarrow> string \<Rightarrow> string + string" where
  "decode_sdp lib sl s =
     (case cl_b64_decode lib s of
        None \<Rightarrow> Inl ''Base64 decode of SDP failed''
      | Some decoded_data \<Rightarrow>
          (case sl_inflate sl decoded_data of
             None \<Rightarrow> Inl ''Failed to decompress SDP''
           | Some result \<Rightarrow> Inr result))"

section \<open>The tasks\<close>

definition CHANNEL_LABEL :: string where
  "CHANNEL_LABEL = ''data''"

text \<open>The receiver takes the first channel with this label; the others are ignored.\<close>

definition data_channel_found :: "string list \<Rightarrow> bool" where
  "data_channel_found labels \<longleftrightarrow> CHANNEL_LABEL \<in> set labels"

text \<open>
  After the selection: the files, the delimiter, and one message of the receiver, whatever it says. Beside the
  result of the task, the files that were reported as failed.
\<close>

definition sender_files ::
  "rtc_codec \<Rightarrow> (string, string) hmap \<Rightarrow> (string \<times> bytes list) list \<Rightarrow> rtc_io
     \<Rightarrow> (unit rtc_result \<times> rtc_io) \<times> string list" where
  "sender_files jx file_map files io =
     (let (sent, errors) = send_files jx (io_net io) file_map files (io_tx io) []
      in (rtc_bind (rtc_send delimiter) (\<lambda>_. rtc_bind rtc_recv (\<lambda>_. rtc_return ())) (io\<lparr>io_tx := sent\<rparr>),
          errors))"

text \<open>
  \<open>opened\<close>: the data channel opens. \<open>publishes\<close>: the application still waits for the selection; if not, the status of
  this error is built but never sent, because the code does not await it.
\<close>

definition send_task ::
  "rtc_codec \<Rightarrow> ('sk, 'ek, 'rk, 'z) crypto_lib_scheme \<Rightarrow> (nat \<Rightarrow> u8)
     \<Rightarrow> ('sk, 'ek, 'rk, 'y) sender_config_scheme \<Rightarrow> bool \<Rightarrow> bool \<Rightarrow> (string \<times> bytes list) list \<Rightarrow> rtc_io
     \<Rightarrow> (unit rtc_result \<times> rtc_io) \<times> string list" where
  "send_task jx lib random cfg opened publishes files io =
     (if \<not> opened then ((Rtc_Err ''Data channel not opened'', io), [])
      else
     (case sender_handshake jx lib random cfg io of
        (Rtc_Ok file_map, io) \<Rightarrow>
          if publishes then sender_files jx file_map files io
          else ((Rtc_Err ''Could not publish selection'', io), [])
      | (Rtc_Returned, io) \<Rightarrow> ((Rtc_Ok (), io), [])
      | (Rtc_Err e, io) \<Rightarrow> ((Rtc_Err e, io), [])
      | (Rtc_Panicked, io) \<Rightarrow> ((Rtc_Panicked, io), [])))"

text \<open>
  The receiving task: beside its result, what the application got (\<open>receiver_state\<close>). Messages that are left when
  it ends are dropped with its queue.
\<close>

definition receive_task ::
  "rtc_codec \<Rightarrow> ('sk, 'ek, 'rk, 'z) crypto_lib_scheme \<Rightarrow> (nat \<Rightarrow> u8)
     \<Rightarrow> ('sk, 'ek, 'rk, 'y) receiver_config_scheme \<Rightarrow> string list \<Rightarrow> (string \<Rightarrow> u64 \<Rightarrow> bool)
     \<Rightarrow> rtc_send_file_response list \<Rightarrow> rtc_io \<Rightarrow> (unit rtc_result \<times> rtc_io) \<times> receiver_state" where
  "receive_task jx lib random cfg labels takes results io =
     (if \<not> data_channel_found labels then ((Rtc_Err ''Data channel not found'', io), receiver_start results)
      else
     (case receiver_handshake jx lib random cfg io of
        (Rtc_Ok (file_tokens, file_list), io) \<Rightarrow>
          (let (ended, rv) = receive_files jx (\<lambda>k. io_net io (length (io_tx io) + k)) takes file_tokens file_list
                 (io_rx io) (receiver_start results)
           in (((case ended of Receiver_Done \<Rightarrow> Rtc_Ok () | Receiver_Failed \<Rightarrow> Rtc_Err ''Receiving failed''),
                io\<lparr>io_rx := [], io_tx := io_tx io @ map (send_json (jx_file_response jx)) (rv_replies rv)\<rparr>), rv))
      | (Rtc_Returned, io) \<Rightarrow> ((Rtc_Ok (), io), receiver_start results)
      | (Rtc_Err e, io) \<Rightarrow> ((Rtc_Err e, io), receiver_start results)
      | (Rtc_Panicked, io) \<Rightarrow> ((Rtc_Panicked, io), receiver_start results)))"

section \<open>The functions around the tasks\<close>

datatype connection_state = Conn_New | Conn_Connecting | Conn_Connected | Conn_Disconnected | Conn_Failed | Conn_Closed

text \<open>The callback of the connection: it signals the loss in this one state.\<close>

definition signals_done :: "connection_state \<Rightarrow> bool" where
  "signals_done s \<longleftrightarrow> s = Conn_Disconnected"

text \<open>
  What the function waits for: the result of its task (\<open>None\<close> while it goes on) or the loss of the connection, in the
  states the connection goes through. When both are there, either is taken.
\<close>

datatype first_end = Task_First "unit rtc_result" | Lost_First

definition select_end :: "bool \<Rightarrow> unit rtc_result option \<Rightarrow> connection_state list \<Rightarrow> first_end option" where
  "select_end prefers_task task states =
     (case task of
        Some result \<Rightarrow>
          if prefers_task \<or> \<not> list_ex signals_done states then Some (Task_First result) else Some Lost_First
      | None \<Rightarrow> if list_ex signals_done states then Some Lost_First else None)"

datatype peer_action =
    Signal ws_client_message
  | Awaits_Answer string
  | Sets_Remote string
  | Reports rtc_status
  | Closes_Channel
  | Closes_Peer

datatype peer_result = Peer_Ok | Peer_Err string | Peer_Waits

text \<open>
  The calls, each with its error if it fails: creating the connection (and the channel), making the local
  description, queueing the message for the signaling server, reporting a status, setting the remote description,
  closing.
\<close>

record peer_calls =
  pc_create :: "string option"
  pc_describe :: "string + string"
  pc_signal :: "string option"
  pc_listens :: bool
  pc_remote :: "string \<Rightarrow> string option"
  pc_close :: "string option"

definition close_peer :: "peer_calls \<Rightarrow> peer_result \<Rightarrow> peer_result \<times> peer_action list" where
  "close_peer calls result =
     ((case pc_close calls of Some e \<Rightarrow> Peer_Err e | None \<Rightarrow> result), [Closes_Peer])"

text \<open>The end of both functions; \<open>on_end\<close> is what the sender does before it closes the connection.\<close>

definition await_end ::
  "peer_calls \<Rightarrow> peer_action list \<Rightarrow> string \<Rightarrow> first_end option \<Rightarrow> peer_result \<times> peer_action list" where
  "await_end calls on_end panic ended =
     (case ended of
        None \<Rightarrow> (Peer_Waits, [])
      | Some (Task_First (Rtc_Err e)) \<Rightarrow> (Peer_Err e, [])
      | Some (Task_First Rtc_Panicked) \<Rightarrow> (Peer_Err panic, [])
      | Some _ \<Rightarrow>
          (let (result, acts) = close_peer calls Peer_Ok in (result, Reports St_Finished # on_end @ acts)))"

text \<open>The sender: \<open>answer\<close> is what the callback of its session is called with, if it is.\<close>

definition offer_peer ::
  "('sk, 'ek, 'rk, 'z) crypto_lib_scheme \<Rightarrow> sdp_lib \<Rightarrow> peer_calls \<Rightarrow> string \<Rightarrow> uuid \<Rightarrow> string option
     \<Rightarrow> first_end option \<Rightarrow> peer_result \<times> peer_action list" where
  "offer_peer lib sl calls session_id target answer ended =
     (case pc_create calls of Some e \<Rightarrow> (Peer_Err e, []) | None \<Rightarrow>
     (case pc_describe calls of Inl e \<Rightarrow> (Peer_Err e, []) | Inr description \<Rightarrow>
     (case pc_signal calls of Some e \<Rightarrow> (Peer_Err e, []) | None \<Rightarrow>
       (let offered = [Signal (send_offer session_id target (encode_sdp lib sl description)), Awaits_Answer session_id]
        in case answer of None \<Rightarrow> (Peer_Waits, offered) | Some remote_desc \<Rightarrow>
          if \<not> pc_listens calls then
            (let (result, acts) = close_peer calls (Peer_Err ''channel closed'') in (result, offered @ acts))
          else
            (let exchanged = offered @ [Reports St_Sdp_Exchanged]
             in case decode_sdp lib sl remote_desc of Inl e \<Rightarrow> (Peer_Err e, exchanged) | Inr remote \<Rightarrow>
               (case pc_remote calls remote of Some e \<Rightarrow> (Peer_Err e, exchanged) | None \<Rightarrow>
                 (let (result, acts) = await_end calls [Closes_Channel] ''Sending error'' ended
                  in (result, exchanged @ Sets_Remote remote # acts))))))))"

definition accept_peer ::
  "('sk, 'ek, 'rk, 'z) crypto_lib_scheme \<Rightarrow> sdp_lib \<Rightarrow> peer_calls \<Rightarrow> ws_server_sdp
     \<Rightarrow> first_end option \<Rightarrow> peer_result \<times> peer_action list" where
  "accept_peer lib sl calls offer ended =
     (case pc_create calls of Some e \<Rightarrow> (Peer_Err e, []) | None \<Rightarrow>
     (case decode_sdp lib sl (ss_sdp offer) of Inl e \<Rightarrow> (Peer_Err e, []) | Inr remote \<Rightarrow>
     (case pc_remote calls remote of Some e \<Rightarrow> (Peer_Err e, []) | None \<Rightarrow>
       (let described = [Sets_Remote remote]
        in case pc_describe calls of Inl e \<Rightarrow> (Peer_Err e, described) | Inr description \<Rightarrow>
          (case pc_signal calls of Some e \<Rightarrow> (Peer_Err e, described) | None \<Rightarrow>
            (let answered = described @ [Signal (send_answer (ss_session_id offer) (wc_id (ss_peer offer))
                   (encode_sdp lib sl description))]
             in if \<not> pc_listens calls then
                  (let (result, acts) = close_peer calls (Peer_Err ''channel closed'') in (result, answered @ acts))
                else
                  (let (result, acts) = await_end calls [] ''Receiving error'' ended
                   in (result, answered @ Reports St_Sdp_Exchanged # acts))))))))"


section \<open>Lemmas\<close>

lemma decode_encode_sdp [simp]:
  "crypto_laws lib \<Longrightarrow> sdp_laws sl \<Longrightarrow> decode_sdp lib sl (encode_sdp lib sl s) = Inr s"
  by (simp add: decode_sdp_def encode_sdp_def crypto_laws_def sdp_laws_def)

text \<open>The functions signal and set a description before they wait for the end; what follows says nothing of them.\<close>

lemma await_end_acts:
  "set (snd (await_end calls on_end panic ended)) \<subseteq> {Reports St_Finished, Closes_Peer} \<union> set on_end"
  by (auto simp: await_end_def close_peer_def split: option.splits first_end.splits rtc_result.splits prod.splits)

lemma await_end_finished:
  "Reports St_Finished \<notin> set on_end \<Longrightarrow> Reports St_Finished \<in> set (snd (await_end calls on_end panic ended)) \<longleftrightarrow>
     ended = Some Lost_First \<or> ended = Some (Task_First (Rtc_Ok ())) \<or> ended = Some (Task_First Rtc_Returned)"
  by (auto simp: await_end_def close_peer_def split: option.splits first_end.splits rtc_result.splits prod.splits)

lemmas peer_splits = option.splits sum.splits if_splits prod.splits

lemma offer_peer_signals:
  assumes "Signal m \<in> set (snd (offer_peer lib sl calls session_id target answer ended))"
  shows "\<exists>d. pc_describe calls = Inr d \<and> m = send_offer session_id target (encode_sdp lib sl d)"
  using assms await_end_acts [of calls "[Closes_Channel]" "''Sending error''" ended]
  by (auto simp: offer_peer_def Let_def close_peer_def split: peer_splits)

lemma accept_peer_signals:
  assumes "Signal m \<in> set (snd (accept_peer lib sl calls offer ended))"
  shows "\<exists>d. pc_describe calls = Inr d \<and>
    m = send_answer (ss_session_id offer) (wc_id (ss_peer offer)) (encode_sdp lib sl d)"
  using assms await_end_acts [of calls "[]" "''Receiving error''" ended]
  by (auto simp: accept_peer_def Let_def close_peer_def split: peer_splits)

lemma accept_peer_remote:
  assumes "Signal m \<in> set (snd (accept_peer lib sl calls offer ended))"
  shows "\<exists>d. decode_sdp lib sl (ss_sdp offer) = Inr d \<and>
    {x. Sets_Remote x \<in> set (snd (accept_peer lib sl calls offer ended))} = {d}"
  using assms await_end_acts [of calls "[]" "''Receiving error''" ended]
  by (auto simp: accept_peer_def Let_def close_peer_def split: peer_splits)

text \<open>The offering side sets the answer when it has one, if somebody still listens and the call succeeds.\<close>

lemma offer_peer_sets:
  assumes "Signal m \<in> set (snd (offer_peer lib sl calls session_id target (Some text) ended))"
    and "decode_sdp lib sl text = Inr d"
  shows "{x. Sets_Remote x \<in> set (snd (offer_peer lib sl calls session_id target (Some text) ended))} =
    (if pc_listens calls \<and> pc_remote calls d = None then {d} else {})"
  using assms await_end_acts [of calls "[Closes_Channel]" "''Sending error''" ended]
  by (auto simp: offer_peer_def Let_def close_peer_def split: peer_splits)

lemma relayed_offer:
  "(to, Ws_Offer offer) \<in> set (fst (handle_client_message g peer (send_offer session_id target sdp) s)) \<Longrightarrow>
   to = target \<and> offer = \<lparr>ss_peer = peer, ss_session_id = session_id, ss_sdp = sdp\<rparr>"
  by (auto simp: send_offer_def send_to_peer_def find_target_def sdp_message_def split: option.splits if_splits)

lemma relayed_answer:
  "(to, Ws_Answer answer) \<in> set (fst (handle_client_message g peer (send_answer session_id target sdp) s)) \<Longrightarrow>
   to = target \<and> answer = \<lparr>ss_peer = peer, ss_session_id = session_id, ss_sdp = sdp\<rparr>"
  by (auto simp: send_answer_def send_to_peer_def find_target_def sdp_message_def split: option.splits if_splits)

text \<open>The sending task after the selection, on a channel that delivers: one message is read, whatever it is.\<close>

lemma sender_files_run:
  assumes "fst ` set items \<subseteq> dom (hm_get tokens)"
  shows "sender_files jx tokens items (rtc_at (msg # rest) tx st) =
    ((Rtc_Ok (), rtc_at rest (tx @ concat (map (file_messages jx tokens) items) @ [delimiter]) st), [])"
  using send_files_reliable [OF assms, of jx tx "[]"]
  by (simp add: sender_files_def rtc_at_def rtc_bind_def rtc_send_def rtc_recv_def rtc_return_def)

lemma receive_task_run:
  assumes "receiver_handshake jx lib random cfg (rtc_at (from_sender @ msgs) [] []) = (Rtc_Ok (tokens, files), rtc_at msgs tx st)"
    and "receive_files jx (\<lambda>_. True) takes tokens files msgs (receiver_start results) = (Receiver_Done, rv)"
    and "data_channel_found labels"
  shows "receive_task jx lib random cfg labels takes results (rtc_at (from_sender @ msgs) [] []) =
    ((Rtc_Ok (), rtc_at [] (tx @ map (send_json (jx_file_response jx)) (rv_replies rv)) st), rv)"
  using assms by (simp add: receive_task_def rtc_at_def)

section \<open>Properties\<close>

text \<open>
  C2: A whole transfer between two honest devices whose keys match, whose users know the PINs and who select files:
  there is an exchange of messages in which each task reads what the other sends, both end without an error, and the
  receiving application gets the exact content of every file in order. The sender has read one reply; the
  others are left.
\<close>

theorem webrtc_end_to_end:
  assumes "rtc_codec_ok jx" and "crypto_laws lib"
    and "cl_ed_der lib (cl_ed_key lib (inner_key (so_key snd_cfg))) \<noteq> None"
    and "cl_ed_der lib (cl_ed_key lib (inner_key (ro_key rcv_cfg))) \<noteq> None"
    and "expects lib (so_expecting snd_cfg) (ro_key rcv_cfg)"
    and "expects lib (ro_expecting rcv_cfg) (so_key snd_cfg)"
    and "knows_pin (so_pin snd_cfg) (ro_pins rcv_cfg)" and "knows_pin (ro_pin rcv_cfg) (so_pins snd_cfg)"
    and "so_listens snd_cfg" and "ro_listens rcv_cfg" and "ro_takes_files rcv_cfg"
    and "ro_selection rcv_cfg = Some (Some selected)"
    and "header_codec_laws jx" and "items \<noteq> []"
    and "list_all (item_ok (selection_tokens (ro_uuid rcv_cfg) selected) (so_files snd_cfg)) items"
    and "list_all fr_success results" and "length items \<le> length results" and "data_channel_found labels"
  shows "\<exists>from_sender from_receiver left st st' rv.
    send_task jx lib random snd_cfg True True items (rtc_at from_receiver [] []) =
      ((Rtc_Ok (), rtc_at left from_sender st), []) \<and>
    receive_task jx lib random' rcv_cfg labels (\<lambda>_ _. True) results (rtc_at from_sender [] []) =
      ((Rtc_Ok (), rtc_at [] from_receiver st'), rv) \<and>
    rv_log rv = concat (map (\<lambda>(fid, rx). Ev_File fid # map (Ev_Data fid) (chunks_of (concat rx))) items) \<and>
    length left = length items - 1"
proof -
  let ?tokens = "selection_tokens (ro_uuid rcv_cfg) selected"
  let ?msgs = "concat (map (file_messages jx ?tokens) items) @ [delimiter]"
  obtain s r where snd: "\<And>rest. \<exists>st. sender_handshake jx lib random snd_cfg (rtc_at (r @ rest) [] []) =
        (Rtc_Ok ?tokens, rtc_at rest s st)"
      and rcv: "\<And>rest. \<exists>st. receiver_handshake jx lib random' rcv_cfg (rtc_at (s @ rest) [] []) =
        (Rtc_Ok (?tokens, so_files snd_cfg), rtc_at rest r st)"
    using handshake_run [OF assms(1-12), of random random'] by blast
  obtain rv where run: "receive_files jx (\<lambda>_. True) (\<lambda>_ _. True) ?tokens (so_files snd_cfg) ?msgs
        (receiver_start results) = (Receiver_Done, rv)"
      and log: "rv_log rv = concat (map file_events items)" and replies: "rv_replies rv = map reply_ok (map fst items)"
    using transfer_run [OF assms(13,15,14,16,17)] by blast
  let ?replies = "map (send_json (jx_file_response jx)) (rv_replies rv)"
  obtain first left where left: "?replies = first # left" using assms(14) replies by (cases items) auto
  then have left_length: "length left = length items - 1"
    using replies by (metis length_map list.sel(3) length_tl)
  obtain st where sent: "sender_handshake jx lib random snd_cfg (rtc_at (r @ ?replies) [] []) =
      (Rtc_Ok ?tokens, rtc_at ?replies s st)" using snd by blast
  have "fst ` set items \<subseteq> dom (hm_get ?tokens)"
    using assms(15) by (auto simp: list_all_iff item_ok_def)
  from sender_files_run [OF this, of jx first left s st]
  have sender: "send_task jx lib random snd_cfg True True items (rtc_at (r @ ?replies) [] []) =
      ((Rtc_Ok (), rtc_at left (s @ ?msgs) st), [])"
    using sent left by (simp add: send_task_def)
  obtain st' where "receiver_handshake jx lib random' rcv_cfg (rtc_at (s @ ?msgs) [] []) =
      (Rtc_Ok (?tokens, so_files snd_cfg), rtc_at ?msgs r st')" using rcv by blast
  from receive_task_run [OF this run assms(18)] sender log left_length show ?thesis
    unfolding file_events_def case_prod_beta by blast
qed

text \<open>
  C18: The descriptions go round through the signaling server: when the offer that one peer signals is relayed to the
  other, and its answer back, the offer goes to the chosen peer, the answer to the one that offered and for the same
  session. The accepting peer has then set as remote description exactly the one the offering peer made; and the offering
  peer, if its application still listens and the call does not fail, exactly the one the accepting peer made, and none
  otherwise.
\<close>

theorem sdp_exchanged:
  assumes "crypto_laws lib" and "sdp_laws sl"
    and "Signal m \<in> set (snd (offer_peer lib sl calls session_id target answer ended))"
    and "(to_peer, Ws_Offer offer) \<in> set (fst (handle_client_message g offering m s))"
    and "Signal m' \<in> set (snd (accept_peer lib sl calls' offer ended'))"
    and "(to_peer', Ws_Answer reply) \<in> set (fst (handle_client_message g' accepting m' s'))"
    and "answer = Some (ss_sdp reply)"
  shows "to_peer = target \<and> to_peer' = wc_id offering \<and> ss_session_id reply = session_id \<and>
    (\<exists>offered answered. pc_describe calls = Inr offered \<and> pc_describe calls' = Inr answered \<and>
       {d. Sets_Remote d \<in> set (snd (accept_peer lib sl calls' offer ended'))} = {offered} \<and>
       {d. Sets_Remote d \<in> set (snd (offer_peer lib sl calls session_id target answer ended))} =
         (if pc_listens calls \<and> pc_remote calls answered = None then {answered} else {}))"
proof -
  obtain d where d: "pc_describe calls = Inr d" "m = send_offer session_id target (encode_sdp lib sl d)"
    using offer_peer_signals [OF assms(3)] by blast
  with assms(4) have offer: "to_peer = target" "offer = \<lparr>ss_peer = offering, ss_session_id = session_id, ss_sdp = encode_sdp lib sl d\<rparr>"
    using relayed_offer by blast+
  obtain d' where d': "pc_describe calls' = Inr d'"
      "m' = send_answer session_id (wc_id offering) (encode_sdp lib sl d')"
    using accept_peer_signals [OF assms(5)] offer by auto
  with assms(6) have reply: "to_peer' = wc_id offering"
      "reply = \<lparr>ss_peer = accepting, ss_session_id = session_id, ss_sdp = encode_sdp lib sl d'\<rparr>"
    using relayed_answer by blast+
  have "{x. Sets_Remote x \<in> set (snd (accept_peer lib sl calls' offer ended'))} = {d}"
    using accept_peer_remote [OF assms(5)] offer(2) assms(1,2) by simp
  moreover have "{x. Sets_Remote x \<in> set (snd (offer_peer lib sl calls session_id target answer ended))} =
      (if pc_listens calls \<and> pc_remote calls d' = None then {d'} else {})"
    using offer_peer_sets [OF assms(3) [unfolded assms(7)], of d'] reply(2) assms(1,2) unfolding assms(7) by simp
  ultimately show ?thesis using offer reply d d' by auto
qed


text \<open>
  The offering function reports the transfer as finished exactly if the descriptions were exchanged and its task has
  ended without an error or the connection was lost; after an error of its task it neither reports the end nor
  closes the connection.
\<close>

theorem finished_reported_iff:
  assumes "offer_peer lib sl calls session_id target answer ended = (result, acts)"
  shows "(Reports St_Finished \<in> set acts \<longleftrightarrow> (\<exists>d. Sets_Remote d \<in> set acts) \<and>
      (ended = Some Lost_First \<or> ended = Some (Task_First (Rtc_Ok ())) \<or> ended = Some (Task_First Rtc_Returned))) \<and>
    (Reports St_Finished \<in> set acts \<longrightarrow> last acts = Closes_Peer \<and> (result = Peer_Ok \<or> pc_close calls \<noteq> None)) \<and>
    (\<forall>e. ended = Some (Task_First (Rtc_Err e)) \<and> (\<exists>d. Sets_Remote d \<in> set acts) \<longrightarrow>
      result = Peer_Err e \<and> Closes_Peer \<notin> set acts)"
  using assms
  by (auto simp: offer_peer_def await_end_def close_peer_def Let_def split: peer_splits first_end.splits rtc_result.splits)

section \<open>Weak points\<close>

text \<open>
  The sender waits for one message after the delimiter. With two files, the reply to the first is there before
  the second has been sent, so nothing waits for the end of the second; and whatever the reply says, the transfer
  is finished for the sender.
\<close>

lemma one_reply_ends_sender:
  assumes "fst ` set items \<subseteq> dom (hm_get tokens)"
  shows "fst (fst (sender_files jx tokens items
      (rtc_at [send_json (jx_file_response jx) \<lparr>fr_id = fid, fr_success = ok, fr_error = error\<rparr>] tx st))) = Rtc_Ok ()"
  by (simp add: sender_files_run [OF assms])

text \<open>A connection that fails without having been connected signals nothing, so the function waits for ever.\<close>

lemma failed_connection_waits: "select_end prefers None [Conn_Connecting, Conn_Failed] = None"
  by (simp add: select_end_def signals_done_def)

lemma waits_for_ever:
  "pc_create calls = None \<Longrightarrow> pc_describe calls = Inr d \<Longrightarrow> pc_signal calls = None \<Longrightarrow> pc_listens calls \<Longrightarrow>
   decode_sdp lib sl text = Inr remote \<Longrightarrow> pc_remote calls remote = None \<Longrightarrow>
   fst (offer_peer lib sl calls session_id target (Some text) (select_end prefers None [Conn_Connecting, Conn_Failed])) = Peer_Waits"
  by (simp add: offer_peer_def failed_connection_waits await_end_def)

text \<open>An answer that comes before the callback of its session is there is lost.\<close>

lemma early_answer_lost:
  "\<exists>l. listen (\<lambda>_. True) [Ls_Message (Ws_Answer reply), Ls_Register (ss_session_id reply) callback] new_listener = Done l \<and>
     ls_called l = []"
  by (simp add: listen_message_def new_listener_def on_answer_def)


section \<open>Runs\<close>

definition sample_sdp :: sdp_lib where
  "sample_sdp = \<lparr>sl_deflate = co_enc string_codec, sl_inflate = co_dec string_codec\<rparr>"

lemma sample_sdp_laws: "sdp_laws sample_sdp"
  using string_codec_ok by (simp add: sdp_laws_def sample_sdp_def codec_ok_def)

definition sample_calls :: "string \<Rightarrow> peer_calls" where
  "sample_calls d = \<lparr>pc_create = None, pc_describe = Inr d, pc_signal = None, pc_listens = True,
     pc_remote = (\<lambda>_. None), pc_close = None\<rparr>"

theorem webrtc_end_to_end_witness:
  "\<exists>from_sender io rv. receive_task full_codec sample_lib (\<lambda>_. 2) bob [CHANNEL_LABEL] (\<lambda>_ _. True) [reply_ok ''f'']
      (rtc_at from_sender [] []) = ((Rtc_Ok (), io), rv) \<and>
    rv_log rv = [Ev_File ''f'', Ev_Data ''f'' [1, 2, 3, 4, 5]]"
proof -
  have codec: "header_codec_laws full_codec"
    using header_codec_ok header_codec_delimiter
    by (simp add: header_codec_laws_def full_codec_def delimiter_def header_codec_def)
  have items: "list_all (item_ok (selection_tokens (ro_uuid bob) [''f'']) (so_files alice)) [(''f'', [[1, 2], [3, 4, 5]])]"
    by (simp add: item_ok_def selection_tokens_def alice_def bob_def)
  have "[1, 2, 3, 4, 5] \<noteq> ([] :: bytes)" and "length ([1, 2, 3, 4, 5] :: bytes) \<le> CHUNK_SIZE"
    by (simp_all add: CHUNK_SIZE_def)
  then have data: "chunks_of [1, 2, 3, 4, 5] = [[1, 2, 3, 4, 5]]" by (rule chunks_of_short)
  from webrtc_end_to_end [OF full_codec_ok sample_lib_laws alice_bob_ready codec _ items, of "[reply_ok ''f'']" "[CHANNEL_LABEL]"
      "\<lambda>_. 1" "\<lambda>_. 2"]
  obtain from_sender from_receiver st' rv where
    "receive_task full_codec sample_lib (\<lambda>_. 2) bob [CHANNEL_LABEL] (\<lambda>_ _. True) [reply_ok ''f''] (rtc_at from_sender [] []) =
      ((Rtc_Ok (), rtc_at [] from_receiver st'), rv)"
    "rv_log rv = concat (map (\<lambda>(fid, rx). Ev_File fid # map (Ev_Data fid) (chunks_of (concat rx)))
       [(''f'', [[1, 2], [3, 4, 5]])])"
    by (auto simp: reply_ok_def data_channel_found_def)
  moreover from this(2) have "rv_log rv = [Ev_File ''f'', Ev_Data ''f'' [1, 2, 3, 4, 5]]" using data by simp
  ultimately show ?thesis by blast
qed

theorem sdp_exchanged_witness:
  "{d. Sets_Remote d \<in> set (snd (accept_peer sample_lib sample_sdp (sample_calls ''ans'')
      \<lparr>ss_peer = ws_client_from anna 1, ss_session_id = ''s'', ss_sdp = encode_sdp sample_lib sample_sdp ''off''\<rparr> None))}
    = {''off''} \<and>
   {d. Sets_Remote d \<in> set (snd (offer_peer sample_lib sample_sdp (sample_calls ''off'') ''s'' 2
      (Some (encode_sdp sample_lib sample_sdp ''ans'')) None))} = {''ans''}"
proof -
  let ?s = "\<lparr>sg_map = [(''g'', [(1, anna), (2, ben)])], sg_counts = []\<rparr>"
  let ?a = "ws_client_from anna 1" and ?b = "ws_client_from ben 2"
  let ?off = "encode_sdp sample_lib sample_sdp ''off''" and ?ans = "encode_sdp sample_lib sample_sdp ''ans''"
  let ?offer = "\<lparr>ss_peer = ?a, ss_session_id = ''s'', ss_sdp = ?off\<rparr>"
  let ?reply = "\<lparr>ss_peer = ?b, ss_session_id = ''s'', ss_sdp = ?ans\<rparr>"
  have offers: "Signal (send_offer ''s'' 2 ?off) \<in> set (snd (offer_peer sample_lib sample_sdp (sample_calls ''off'') ''s'' 2 (Some ?ans) None))"
    by (simp add: offer_peer_def sample_calls_def sample_lib_laws sample_sdp_laws await_end_def)
  have relayed: "(2, Ws_Offer ?offer) \<in> set (fst (handle_client_message ''g'' ?a (send_offer ''s'' 2 ?off) ?s))"
    by (simp add: send_offer_def send_to_peer_def find_target_def sdp_message_def)
  have answers: "Signal (send_answer ''s'' 1 ?ans) \<in> set (snd (accept_peer sample_lib sample_sdp (sample_calls ''ans'') ?offer None))"
    by (simp add: accept_peer_def sample_calls_def sample_lib_laws sample_sdp_laws await_end_def ws_client_from_def)
  have relayed': "(1, Ws_Answer ?reply) \<in> set (fst (handle_client_message ''g'' ?b (send_answer ''s'' 1 ?ans) ?s))"
    by (simp add: send_answer_def send_to_peer_def find_target_def sdp_message_def)
  have "Some ?ans = Some (ss_sdp ?reply)" by simp
  from sdp_exchanged [OF sample_lib_laws sample_sdp_laws offers relayed answers relayed' this]
  show ?thesis by (simp add: sample_calls_def)
qed

theorem finished_reported_iff_witness:
  "Reports St_Finished \<in> set (snd (offer_peer sample_lib sample_sdp (sample_calls ''o'') ''s'' 2
      (Some (encode_sdp sample_lib sample_sdp ''a'')) (Some Lost_First)))"
proof -
  obtain result acts where run: "offer_peer sample_lib sample_sdp (sample_calls ''o'') ''s'' 2
      (Some (encode_sdp sample_lib sample_sdp ''a'')) (Some Lost_First) = (result, acts)" by fastforce
  then have "Sets_Remote ''a'' \<in> set acts"
    by (auto simp: offer_peer_def sample_calls_def sample_lib_laws sample_sdp_laws await_end_def close_peer_def)
  then show ?thesis using finished_reported_iff [OF run] run by auto
qed

end
