(* ===== verification/Signaling_View.thy ===== *)
theory Signaling_View
  imports Signaling_Machine
begin

text \<open>
  What the clients see. A handler run to completion is one function; every such run is a
  sequence of steps of the interleaved server. When the handlers run one after the other, the
  members a client has been told of are those of its group.
\<close>

section \<open>Handlers run to completion\<close>

definition posts :: "(uuid \<times> ws_server_message) list \<Rightarrow> sig_machine \<Rightarrow> sig_machine" where
  "posts ms m = fold (\<lambda>(tx, msg). post tx msg) ms m"

definition serve_connect :: "sig_limits \<Rightarrow> string \<Rightarrow> ws_client \<Rightarrow> sig_machine \<Rightarrow> sig_machine" where
  "serve_connect lim g peer m =
     (case register_peer lim g peer (mc_state m) of
        (None, s) \<Rightarrow> m\<lparr>mc_state := s\<rparr>
      | (Some (txs, peers), s) \<Rightarrow>
          sig_put (wc_id peer) (Running g peer [])
            (post (wc_id peer) (Ws_Hello peer peers)
              (posts (map (\<lambda>tx. (tx, Ws_Join peer)) txs)
                (sig_put (wc_id peer) (Joining g peer [] peers)
                  (m\<lparr>mc_state := s, mc_groups := hm_put (wc_id peer) g (mc_groups m)\<rparr>)))))"

definition serve_end :: "string \<Rightarrow> uuid \<Rightarrow> sig_machine \<Rightarrow> sig_machine" where
  "serve_end g i m =
     (let (txs, s) = unregister_peer g i (mc_state m)
      in posts (map (\<lambda>tx. (tx, Ws_Left i)) txs) (m\<lparr>mc_state := s, mc_tasks := hm_del i (mc_tasks m)\<rparr>))"

definition serve_disconnect :: "uuid \<Rightarrow> sig_machine \<Rightarrow> sig_machine" where
  "serve_disconnect i m =
     (case sig_at m i of Some (Running g peer []) \<Rightarrow> serve_end g i m | _ \<Rightarrow> m)"

definition serve_message :: "sig_limits \<Rightarrow> uuid \<Rightarrow> ws_client_message \<Rightarrow> sig_machine \<Rightarrow> sig_machine" where
  "serve_message lim i msg m =
     (case sig_at m i of
        Some (Running g peer []) \<Rightarrow>
          (case protect_ddos_request_count lim g (mc_state m) of
             (False, s) \<Rightarrow> serve_end g i (post i (Ws_Error 429) (m\<lparr>mc_state := s\<rparr>))
           | (True, s) \<Rightarrow>
               (let (ms, s) = handle_client_message g peer msg s in posts ms (m\<lparr>mc_state := s\<rparr>)))
      | _ \<Rightarrow> m)"

inductive sig_served :: "sig_limits \<Rightarrow> sig_machine \<Rightarrow> bool" for lim where
  served_start: "sig_served lim sig_init"
| served_connect: "sig_served lim m \<Longrightarrow> hm_get (mc_groups m) (wc_id peer) = None \<Longrightarrow>
    sig_served lim (serve_connect lim g peer m)"
| served_message: "sig_served lim m \<Longrightarrow> sig_served lim (serve_message lim i msg m)"
| served_disconnect: "sig_served lim m \<Longrightarrow> sig_served lim (serve_disconnect i m)"
| served_hour: "sig_served lim m \<Longrightarrow> sig_served lim (m\<lparr>mc_state := clear_request_counts (mc_state m)\<rparr>)"

section \<open>Runs to completion are runs\<close>

abbreviation sig_steps :: "sig_limits \<Rightarrow> sig_machine \<Rightarrow> sig_machine \<Rightarrow> bool" where
  "sig_steps lim \<equiv> (sig_step lim)\<^sup>*\<^sup>*"

lemma sig_reach_steps: "sig_steps lim m m' \<Longrightarrow> sig_reach lim m \<Longrightarrow> sig_reach lim m'"
  by (induction rule: rtranclp_induct) (auto intro: sig_more)

lemma posts_simps [simp]:
  "posts [] m = m" "posts ((tx, msg) # ms) m = posts ms (post tx msg m)"
  by (simp_all add: posts_def)

lemma posts_frame [simp]:
  "mc_tasks (posts ms m) = mc_tasks m" "mc_state (posts ms m) = mc_state m"
  "mc_groups (posts ms m) = mc_groups m"
  by (induction ms arbitrary: m) (auto simp: posts_def split: prod.splits)

text \<open>Posting commutes with a change of the tasks that leaves them as live as they were.\<close>

lemma posts_tasks:
  "(\<And>j. live_task ts j = live_in m j) \<Longrightarrow>
     posts ms (m\<lparr>mc_tasks := ts\<rparr>) = (posts ms m)\<lparr>mc_tasks := ts\<rparr>"
proof (induction ms arbitrary: m)
  case (Cons x ms)
  obtain tx msg where x: "x = (tx, msg)" by fastforce
  have "post tx msg (m\<lparr>mc_tasks := ts\<rparr>) = (post tx msg m)\<lparr>mc_tasks := ts\<rparr>"
    using Cons.prems by (simp add: post_def)
  with x Cons show ?case by simp
qed simp

lemma posts_put:
  "task_group t = live_in m i \<Longrightarrow> posts ms (sig_put i t m) = sig_put i t (posts ms m)"
  by (simp add: posts_tasks)

lemma live_del [simp]: "live_task (hm_del i ts) j = (if j = i then None else live_task ts j)"
  by (simp add: live_task_def)

lemma del_put [simp]: "hm_del i (hm_put i t ts) = hm_del i ts"
  by (induction ts) auto

lemma put_same_task: "sig_at m i = Some t \<Longrightarrow> sig_put i t m = m"
  by (simp add: update_triv)

lemma put_put [simp]: "sig_put i t (sig_put i t' m) = sig_put i t m"
  by simp

lemma run_sends:
  "sig_at m i = Some (Running g peer ms) \<Longrightarrow>
     sig_steps lim m (sig_put i (Running g peer []) (posts ms m))"
proof (induction ms arbitrary: m)
  case Nil
  then show ?case by (simp add: put_same_task)
next
  case (Cons x ms)
  obtain tx msg where x: "x = (tx, msg)" by fastforce
  let ?m1 = "sig_put i (Running g peer ms) (post tx msg m)"
  have live: "live_in m i = Some g" using Cons.prems by (simp add: live_at)
  have "sig_step lim m ?m1" using Cons.prems x by (intro send_next) simp
  moreover have "sig_steps lim ?m1 (sig_put i (Running g peer []) (posts ms ?m1))"
    by (rule Cons.IH) simp
  moreover have "posts ms ?m1 = sig_put i (Running g peer ms) (posts ms (post tx msg m))"
    using live by (intro posts_put) simp
  ultimately show ?case using x by simp
qed

lemma run_joins:
  "sig_at m i = Some (Joining g peer txs peers) \<Longrightarrow>
     sig_steps lim m (sig_put i (Joining g peer [] peers) (posts (map (\<lambda>tx. (tx, Ws_Join peer)) txs) m))"
proof (induction txs arbitrary: m)
  case Nil
  then show ?case by (simp add: put_same_task)
next
  case (Cons tx txs)
  let ?m1 = "sig_put i (Joining g peer txs peers) (post tx (Ws_Join peer) m)"
  have live: "live_in m i = Some g" using Cons.prems by (simp add: live_at)
  have "sig_step lim m ?m1" using Cons.prems by (intro join_send) simp
  moreover have "sig_steps lim ?m1 (sig_put i (Joining g peer [] peers)
      (posts (map (\<lambda>tx. (tx, Ws_Join peer)) txs) ?m1))"
    by (rule Cons.IH) simp
  moreover have "posts (map (\<lambda>tx. (tx, Ws_Join peer)) txs) ?m1 =
      sig_put i (Joining g peer txs peers) (posts (map (\<lambda>tx. (tx, Ws_Join peer)) txs) (post tx (Ws_Join peer) m))"
    using live by (intro posts_put) simp
  ultimately show ?case by simp
qed

lemma run_lefts:
  "sig_at m i = Some (Leaving txs) \<Longrightarrow>
     sig_steps lim m (posts (map (\<lambda>tx. (tx, Ws_Left i)) txs) (m\<lparr>mc_tasks := hm_del i (mc_tasks m)\<rparr>))"
proof (induction txs arbitrary: m)
  case Nil
  then have "sig_step lim m (m\<lparr>mc_tasks := hm_del i (mc_tasks m)\<rparr>)" by (rule left_done)
  then show ?case by simp
next
  case (Cons tx txs)
  let ?m1 = "sig_put i (Leaving txs) (post tx (Ws_Left i) m)" and ?ms = "map (\<lambda>tx. (tx, Ws_Left i)) txs"
  have dead: "live_in m i = None" using Cons.prems by (simp add: live_at)
  have "sig_step lim m ?m1" using Cons.prems by (intro left_send) simp
  moreover have "sig_steps lim ?m1 (posts ?ms (?m1\<lparr>mc_tasks := hm_del i (mc_tasks ?m1)\<rparr>))"
    by (rule Cons.IH) simp
  moreover have "post tx (Ws_Left i) (m\<lparr>mc_tasks := hm_del i (mc_tasks m)\<rparr>) =
      (post tx (Ws_Left i) m)\<lparr>mc_tasks := hm_del i (mc_tasks m)\<rparr>"
    using dead by (simp add: post_def)
  ultimately show ?case by simp
qed

lemma serve_connect_steps:
  assumes "hm_get (mc_groups m) (wc_id peer) = None"
  shows "sig_steps lim m (serve_connect lim g peer m)"
proof (cases "register_peer lim g peer (mc_state m)")
  case (Pair r s)
  show ?thesis
  proof (cases r)
    case None
    then have "sig_step lim m (m\<lparr>mc_state := s\<rparr>)" using Pair by (intro connect_refused) simp
    then show ?thesis using Pair None by (simp add: serve_connect_def)
  next
    case (Some a)
    obtain txs peers where a: "a = (txs, peers)" by fastforce
    let ?m0 = "m\<lparr>mc_state := s, mc_groups := hm_put (wc_id peer) g (mc_groups m)\<rparr>"
    let ?m1 = "sig_put (wc_id peer) (Joining g peer txs peers) ?m0"
    let ?joins = "map (\<lambda>tx. (tx, Ws_Join peer)) txs"
    let ?m2 = "sig_put (wc_id peer) (Joining g peer [] peers) (posts ?joins ?m1)"
    have reg: "register_peer lim g peer (mc_state m) = (Some (txs, peers), s)"
      by (simp only: Pair Some a)
    have "sig_step lim m ?m1" using assms reg by (rule connect_ok)
    moreover have "sig_steps lim ?m1 ?m2" by (rule run_joins) simp
    ultimately have "sig_steps lim m ?m2" by (rule converse_rtranclp_into_rtranclp)
    moreover have "sig_step lim ?m2
        (sig_put (wc_id peer) (Running g peer []) (post (wc_id peer) (Ws_Hello peer peers) ?m2))"
      by (rule hello) simp
    ultimately have "sig_steps lim m
        (sig_put (wc_id peer) (Running g peer []) (post (wc_id peer) (Ws_Hello peer peers) ?m2))"
      by (rule rtranclp.rtrancl_into_rtrancl)
    moreover have "?m2 = posts ?joins (sig_put (wc_id peer) (Joining g peer [] peers) ?m0)"
      using posts_put [of "Joining g peer [] peers" ?m1 "wc_id peer" ?joins] by simp
    ultimately show ?thesis by (simp only: serve_connect_def reg prod.case option.case)
  qed
qed

lemma serve_end_steps:
  assumes "sig_at m i = Some t" and "task_group t = Some g" and "\<And>p txs ps. t \<noteq> Joining g p txs ps"
  shows "sig_steps lim m (serve_end g i m)"
proof (cases "unregister_peer g i (mc_state m)")
  case (Pair txs s)
  let ?m1 = "sig_put i (Leaving txs) (m\<lparr>mc_state := s\<rparr>)"
  have "sig_step lim m ?m1" using assms Pair by (intro disconnect) auto
  moreover have "sig_steps lim ?m1
      (posts (map (\<lambda>tx. (tx, Ws_Left i)) txs) (?m1\<lparr>mc_tasks := hm_del i (mc_tasks ?m1)\<rparr>))"
    by (rule run_lefts) simp
  ultimately show ?thesis using Pair by (simp add: serve_end_def)
qed

lemma serve_message_steps: "sig_steps lim m (serve_message lim i msg m)"
proof (cases "\<exists>g peer. sig_at m i = Some (Running g peer [])")
  case False
  then have "serve_message lim i msg m = m"
    by (auto simp: serve_message_def split: option.split sig_task.split list.split)
  then show ?thesis by simp
next
  case True
  then obtain g peer where at: "sig_at m i = Some (Running g peer [])" by blast
  obtain ok s where protect: "protect_ddos_request_count lim g (mc_state m) = (ok, s)" by fastforce
  show ?thesis
  proof (cases ok)
    case False
    let ?m1 = "sig_put i (Stopping g peer) (post i (Ws_Error 429) (m\<lparr>mc_state := s\<rparr>))"
    have "sig_step lim m ?m1" using at protect False by (intro too_many_requests) simp_all
    moreover have "sig_steps lim ?m1 (serve_end g i ?m1)"
      by (rule serve_end_steps [where t = "Stopping g peer"]) simp_all
    moreover have "serve_end g i ?m1 = serve_end g i (post i (Ws_Error 429) (m\<lparr>mc_state := s\<rparr>))"
      by (simp add: serve_end_def)
    ultimately show ?thesis using at protect False by (simp add: serve_message_def)
  next
    case True
    obtain ms s' where handled: "handle_client_message g peer msg s = (ms, s')" by fastforce
    let ?m1 = "sig_put i (Handling g peer msg) (m\<lparr>mc_state := s\<rparr>)"
    let ?m2 = "sig_put i (Running g peer ms) (m\<lparr>mc_state := s'\<rparr>)"
    have "sig_step lim m ?m1" using at protect True by (intro receive_message) simp_all
    moreover have "sig_step lim ?m1 ?m2"
      using handle_message [of ?m1 i g peer msg ms s' lim] handled by simp
    moreover have "sig_steps lim ?m2 (sig_put i (Running g peer []) (posts ms ?m2))"
      by (rule run_sends) simp
    moreover have "sig_put i (Running g peer []) (posts ms ?m2) = posts ms (m\<lparr>mc_state := s'\<rparr>)"
    proof -
      have "posts ms ?m2 = sig_put i (Running g peer ms) (posts ms (m\<lparr>mc_state := s'\<rparr>))"
        using at by (intro posts_put) (simp add: live_at)
      then show ?thesis using at by (simp add: update_triv)
    qed
    ultimately have "sig_steps lim m (posts ms (m\<lparr>mc_state := s'\<rparr>))"
      by (metis converse_rtranclp_into_rtranclp)
    then show ?thesis using at protect True handled by (simp add: serve_message_def)
  qed
qed

lemma serve_disconnect_steps: "sig_steps lim m (serve_disconnect i m)"
  using serve_end_steps [where m = m and i = i]
  by (auto simp: serve_disconnect_def split: option.split sig_task.split list.split)

lemma served_reach: "sig_served lim m \<Longrightarrow> sig_reach lim m"
proof (induction rule: sig_served.induct)
  case served_start
  show ?case by (rule sig_start)
next
  case (served_connect m peer g)
  then show ?case using sig_reach_steps serve_connect_steps by blast
next
  case (served_message m i msg)
  then show ?case using sig_reach_steps serve_message_steps by blast
next
  case (served_disconnect m i)
  then show ?case using sig_reach_steps serve_disconnect_steps by blast
next
  case (served_hour m)
  then show ?case by (auto intro: sig_more next_hour)
qed

section \<open>What a client has been told\<close>

type_synonym view = "uuid \<Rightarrow> ws_info option"

fun see :: "ws_server_message \<Rightarrow> view \<Rightarrow> view" where
  "see (Ws_Hello client peers) v = map_of (map (\<lambda>p. (wc_id p, ws_info_from p)) peers)"
| "see (Ws_Join peer) v = v(wc_id peer \<mapsto> ws_info_from peer)"
| "see (Ws_Update peer) v = v(wc_id peer \<mapsto> ws_info_from peer)"
| "see (Ws_Left peer_id) v = v(peer_id := None)"
| "see _ v = v"

definition view_of :: "ws_server_message list \<Rightarrow> view" where
  "view_of ms = fold see ms Map.empty"

lemma view_of_snoc [simp]: "view_of (ms @ [msg]) = see msg (view_of ms)"
  by (simp add: view_of_def)

lemma view_of_append_none [simp]: "view_of (ms @ []) = view_of ms"
  by simp

definition views_agree :: "sig_machine \<Rightarrow> bool" where
  "views_agree m \<longleftrightarrow> (\<forall>i g. live_in m i = Some g \<longrightarrow>
     view_of (mc_inbox m i) = (hm_get (members g (mc_state m)))(i := None))"

text \<open>What one message for every channel of a list adds.\<close>

lemma posts_inbox:
  "distinct txs \<Longrightarrow> mc_inbox (posts (map (\<lambda>tx. (tx, msg)) txs) m) j =
     mc_inbox m j @ (if j \<in> set txs \<and> live_in m j \<noteq> None then [msg] else [])"
proof (induction txs arbitrary: m)
  case (Cons tx txs)
  then show ?case by (auto simp: post_def)
qed simp


lemma views_agreeD:
  "views_agree m \<Longrightarrow> live_in m i = Some g \<Longrightarrow>
     view_of (mc_inbox m i) = (hm_get (members g (mc_state m)))(i := None)"
  unfolding views_agree_def by blast

lemma registryD:
  "inv_registry m \<Longrightarrow> hm_get (members g (mc_state m)) i \<noteq> None \<longleftrightarrow> live_in m i = Some g"
  unfolding inv_registry_def by blast

lemma distinct_members: "sig_wf lim s \<Longrightarrow> distinct (map fst (members g s))"
  by (simp add: sig_wf_def)

lemma greeted: "map_of (map (\<lambda>p. (wc_id p, ws_info_from p)) (map (\<lambda>(k, v). ws_client_from v k) local)) = hm_get local"
  by (induction local) auto

lemma views_connect:
  assumes "views_agree m" and "inv_registry m" and "inv_tasks m" and "sig_wf lim (mc_state m)"
    and "hm_get (mc_groups m) (wc_id peer) = None"
  shows "views_agree (serve_connect lim g peer m)"
proof (cases "register_peer lim g peer (mc_state m)")
  case (Pair r s)
  show ?thesis
  proof (cases r)
    case None
    then show ?thesis
      using assms(1) Pair register_refused(1) [of lim g peer "mc_state m" s]
      by (simp add: serve_connect_def views_agree_def)
  next
    case (Some a)
    obtain txs peers where reg: "register_peer lim g peer (mc_state m) = (Some (txs, peers), s)"
      using Pair Some by (metis surj_pair)
    let ?i = "wc_id peer" and ?old = "members g (mc_state m)"
    note acc = register_accepted [OF reg]
    have dead: "live_in m ?i = None"
      using fresh_no_task [OF assms(3,5)] by (simp add: live_task_def)
    then have absent: "hm_get ?old ?i = None" using registryD [OF assms(2), of g ?i] by auto
    have txs: "distinct txs" "j \<in> set txs \<longleftrightarrow> live_in m j = Some g" for j
      using distinct_members [OF assms(4)] hm_keys_iff [of j ?old] registryD [OF assms(2), of g j]
      by (simp_all add: acc(1))
    show ?thesis
      unfolding views_agree_def
    proof (intro allI impI)
      fix j h
      assume live: "live_in (serve_connect lim g peer m) j = Some h"
      show "view_of (mc_inbox (serve_connect lim g peer m) j) =
          (hm_get (members h (mc_state (serve_connect lim g peer m))))(j := None)"
      proof (cases "j = ?i")
        case True
        then have "h = g" using live reg by (simp add: serve_connect_def)
        with True show ?thesis
          using reg acc(2,3) absent
          by (auto simp: serve_connect_def post_def greeted [simplified] fun_eq_iff)
      next
        case False
        then have live': "live_in m j = Some h" using live reg by (simp add: serve_connect_def)
        have "mc_inbox (serve_connect lim g peer m) j = mc_inbox m j @ (if h = g then [Ws_Join peer] else [])"
          using False live' reg txs by (simp add: serve_connect_def post_def posts_inbox)
        then show ?thesis
          using False views_agreeD [OF assms(1) live'] acc(3) reg
          by (auto simp: serve_connect_def fun_eq_iff)
      qed
    qed
  qed
qed

lemma views_end:
  assumes "views_agree m" and "inv_registry m" and "sig_wf lim (mc_state m)" and "live_in m i = Some g"
  shows "views_agree (serve_end g i m)"
proof (cases "unregister_peer g i (mc_state m)")
  case (Pair txs s)
  note eff = unregister_effect [OF Pair]
  have "distinct txs" using distinct_members [OF eff(3) [OF assms(3)], of g] eff(1) by simp
  moreover have "j \<in> set txs \<longleftrightarrow> live_in m j = Some g \<and> j \<noteq> i" for j
  proof -
    have "j \<in> set txs \<longleftrightarrow> hm_get (members g s) j \<noteq> None"
      unfolding eff(1) set_map by (rule hm_keys_iff)
    then show ?thesis using eff(2) [of g] registryD [OF assms(2), of g j] by auto
  qed
  ultimately have txs: "distinct txs" "j \<in> set txs \<longleftrightarrow> live_in m j = Some g \<and> j \<noteq> i" for j by blast+
  show ?thesis
    unfolding views_agree_def
  proof (intro allI impI)
    fix j h
    assume "live_in (serve_end g i m) j = Some h"
    then have j: "j \<noteq> i" and live': "live_in m j = Some h" using Pair by (auto simp: serve_end_def split: if_splits)
    have "mc_inbox (serve_end g i m) j = mc_inbox m j @ (if h = g then [Ws_Left i] else [])"
      using j live' Pair txs by (simp add: serve_end_def posts_inbox)
    then show "view_of (mc_inbox (serve_end g i m) j) =
        (hm_get (members h (mc_state (serve_end g i m))))(j := None)"
      using j views_agreeD [OF assms(1) live'] eff(2) Pair by (auto simp: serve_end_def fun_eq_iff)
  qed
qed


lemma update_peer_known:
  assumes "hm_get (members g s) i \<noteq> None" and "update_peer g i info s = (txs, s')"
  shows "txs = filter (\<lambda>k. k \<noteq> i) (map fst (hm_put i info (members g s)))"
    and "members h s' = (if h = g then hm_put i info (members g s) else members h s)"
  using assms by (auto simp: update_peer_def members_def Let_def split: option.splits)

lemma views_message:
  assumes "views_agree m" and "inv_registry m" and "inv_tasks m" and "sig_wf lim (mc_state m)"
  shows "views_agree (serve_message lim i msg m)"
proof (cases "\<exists>g peer. sig_at m i = Some (Running g peer [])")
  case False
  then have "serve_message lim i msg m = m"
    by (auto simp: serve_message_def split: option.split sig_task.split list.split)
  with assms(1) show ?thesis by simp
next
  case True
  then obtain g peer where at: "sig_at m i = Some (Running g peer [])" by blast
  then have live: "live_in m i = Some g" by (simp add: live_at)
  have peer: "wc_id peer = i" using assms(3) at by (auto elim: inv_tasksD)
  obtain ok s where protect: "protect_ddos_request_count lim g (mc_state m) = (ok, s)" by fastforce
  let ?m = "m\<lparr>mc_state := s\<rparr>"
  note same = protect_state [OF protect]
  have views: "views_agree ?m" and registry: "inv_registry ?m" and wf: "sig_wf lim (mc_state ?m)"
    using assms(1,2,4) same by (simp_all add: views_agree_def inv_registry_def)
  show ?thesis
  proof (cases ok)
    case False
    let ?m' = "post i (Ws_Error 429) ?m"
    have "views_agree ?m'" using views live by (auto simp: views_agree_def post_def)
    moreover have "inv_registry ?m'" using registry by (simp add: inv_registry_def)
    ultimately have "views_agree (serve_end g i ?m')" using wf live by (intro views_end) simp_all
    then show ?thesis using at protect False by (simp add: serve_message_def)
  next
    case True
    obtain ms s' where handled: "handle_client_message g peer msg s = (ms, s')" by fastforce
    have result: "serve_message lim i msg m = posts ms (m\<lparr>mc_state := s'\<rparr>)"
      using at protect True handled by (simp add: serve_message_def)
    show ?thesis
    proof (cases msg)
      case (Wc_Update info)
      obtain txs where upd: "update_peer g i info s = (txs, s')"
        and ms: "ms = map (\<lambda>tx. (tx, Ws_Update (ws_client_from info i))) txs"
        using handled Wc_Update peer by (auto simp: Let_def split: prod.splits)
      have known: "hm_get (members g s) i \<noteq> None" using registryD [OF registry, of g i] live by simp
      note eff = update_peer_known [OF known upd]
      have "hm_wf (hm_put i info (members g s))" using distinct_members [OF wf] by simp
      then have txs: "distinct txs" by (simp add: eff(1))
      have "j \<in> set txs \<longleftrightarrow> live_in m j = Some g \<and> j \<noteq> i" for j
        using hm_keys_iff [of j "hm_put i info (members g s)"] registryD [OF registry, of g j] live
        by (simp add: eff(1))
      then show ?thesis
        using views_agreeD [OF views] txs unfolding views_agree_def result ms
        by (auto simp: posts_inbox eff(2) fun_eq_iff)
    next
      case (Wc_Offer sdp)
      then have "s' = s" "ms = [] \<or> (\<exists>tx. ms = [(tx, Ws_Offer (sdp_message peer sdp))])"
        using handled by (auto simp: send_to_peer_def split: option.splits)
      then show ?thesis using views unfolding result by (auto simp: views_agree_def post_def)
    next
      case (Wc_Answer sdp)
      then have "s' = s" "ms = [] \<or> (\<exists>tx. ms = [(tx, Ws_Answer (sdp_message peer sdp))])"
        using handled by (auto simp: send_to_peer_def split: option.splits)
      then show ?thesis using views unfolding result by (auto simp: views_agree_def post_def)
    qed
  qed
qed

lemma served_views: "sig_served lim m \<Longrightarrow> views_agree m"
proof (induction rule: sig_served.induct)
  case served_start
  show ?case by (simp add: views_agree_def sig_init_def live_task_def)
next
  case (served_connect m peer g)
  then show ?case using sig_reach_invariants [OF served_reach] by (intro views_connect) blast+
next
  case (served_message m i msg)
  then show ?case using sig_reach_invariants [OF served_reach] by (intro views_message) blast+
next
  case (served_disconnect m i)
  then show ?case
    using sig_reach_invariants [OF served_reach [OF served_disconnect.hyps]]
    by (auto simp: serve_disconnect_def live_at split: option.split sig_task.split list.split
        intro!: views_end)
next
  case (served_hour m)
  then show ?case by (simp add: views_agree_def)
qed

definition two_clients :: sig_machine where
  "two_clients = serve_connect default_limits ''g'' (ws_client_from anna 1)
     (serve_connect default_limits ''g'' (ws_client_from ben 2) sig_init)"

lemma two_clients_eq:
  "two_clients = \<lparr>mc_state = \<lparr>sg_map = [(''g'', [(2, ben), (1, anna)])], sg_counts = [(''g'', 2)]\<rparr>,
     mc_tasks = [(2, Running ''g'' (ws_client_from ben 2) []), (1, Running ''g'' (ws_client_from anna 1) [])],
     mc_inbox = (\<lambda>_. [])(2 := [Ws_Hello (ws_client_from ben 2) [], Ws_Join (ws_client_from anna 1)],
       1 := [Ws_Hello (ws_client_from anna 1) [ws_client_from ben 2]]),
     mc_groups = [(2, ''g''), (1, ''g'')]\<rparr>"
  by (simp add: two_clients_def serve_connect_def sig_run_simps fun_eq_iff)

lemma two_clients_served: "sig_served default_limits two_clients"
  unfolding two_clients_def
  by (intro served_connect served_start) (simp_all add: serve_connect_def sig_run_simps)

section \<open>Properties\<close>

text \<open>
  When the handlers run one after the other, what a connected client has been told is the
  truth: the peers it knows, with their latest information, are the other members of its group.
\<close>

theorem served_views_true:
  assumes "sig_served lim m" and "live_in m i = Some g"
  shows "view_of (mc_inbox m i) = (hm_get (members g (mc_state m)))(i := None)"
  using served_views [OF assms(1)] assms(2) by (rule views_agreeD)

theorem served_views_true_witness: "view_of (mc_inbox two_clients 1) 2 = Some ben"
proof -
  have "live_in two_clients 1 = Some ''g''" by (simp add: two_clients_eq live_task_def)
  from served_views_true [OF two_clients_served this] show ?thesis
    by (simp add: two_clients_eq members_def)
qed

end
