(* ===== verification/Signaling_Rooms.thy ===== *)
theory Signaling_Rooms
  imports Signaling_View
begin

text \<open>
  What the signaling server promises, without its tables, counters and tasks: rooms that clients
  join, in which they change what they say of themselves, get messages about each other, and
  which they leave. Every step of the interleaved server is a step of the rooms, or none.
\<close>

section \<open>Rooms\<close>

text \<open>
  The members of each room with what they say of themselves, the room every client that ever
  came was in, the requests of a room in this hour, and what each client has got.
\<close>

record rooms =
  rm_in :: "string \<Rightarrow> uuid \<Rightarrow> ws_info option"
  rm_seen :: "uuid \<Rightarrow> string option"
  rm_used :: "string \<Rightarrow> nat"
  rm_box :: "uuid \<Rightarrow> ws_server_message list"

definition no_rooms :: rooms where
  "no_rooms = \<lparr>rm_in = (\<lambda>_ _. None), rm_seen = (\<lambda>_. None), rm_used = (\<lambda>_. 0), rm_box = (\<lambda>_. [])\<rparr>"

text \<open>A room takes one more when it has a place and a request left.\<close>

definition room_open :: "sig_limits \<Rightarrow> string \<Rightarrow> rooms \<Rightarrow> bool" where
  "room_open lim g s \<longleftrightarrow>
     card (dom (rm_in s g)) < sg_max_connections lim \<and> rm_used s g < unat (sg_max_requests lim)"

inductive room_step :: "sig_limits \<Rightarrow> rooms \<Rightarrow> rooms \<Rightarrow> bool" for lim where
  room_join:
    "room_step lim s (s\<lparr>rm_in := (rm_in s)(g := (rm_in s g)(i \<mapsto> info)),
       rm_seen := (rm_seen s)(i \<mapsto> g), rm_used := (rm_used s)(g := rm_used s g + 1)\<rparr>)"
  if "rm_seen s i = None" and "room_open lim g s"
| room_request:
    "room_step lim s (s\<lparr>rm_used := (rm_used s)(g := rm_used s g + 1)\<rparr>)"
  if "i \<in> dom (rm_in s g)" and "rm_used s g < unat (sg_max_requests lim)"
| room_update:
    "room_step lim s (s\<lparr>rm_in := (rm_in s)(g := (rm_in s g)(i \<mapsto> info))\<rparr>)"
  if "i \<in> dom (rm_in s g)"
| room_leave:
    "room_step lim s (s\<lparr>rm_in := (rm_in s)(g := (rm_in s g)(i := None))\<rparr>)"
  if "i \<in> dom (rm_in s g)"
| room_tell:
    "room_step lim s (s\<lparr>rm_box := (rm_box s)(i := rm_box s i @ [msg])\<rparr>)"
  if "i \<in> dom (rm_in s g)" and "\<forall>j \<in> set (subjects msg). rm_seen s j = Some g"
| room_hour:
    "room_step lim s (s\<lparr>rm_used := (\<lambda>_. 0)\<rparr>)"

section \<open>The rooms of the server\<close>

definition requests_of :: "sig_state \<Rightarrow> string \<Rightarrow> nat" where
  "requests_of s g = (case hm_get (sg_counts s) g of None \<Rightarrow> 0 | Some n \<Rightarrow> unat n)"

definition rooms_of :: "sig_machine \<Rightarrow> rooms" where
  "rooms_of m = \<lparr>rm_in = (\<lambda>g. hm_get (members g (mc_state m))), rm_seen = hm_get (mc_groups m),
     rm_used = requests_of (mc_state m), rm_box = mc_inbox m\<rparr>"

text \<open>
  The rooms a state of the server stands for: their members are the registered peers, and these
  are the peers whose connection is up.
\<close>

definition shows_rooms :: "sig_machine \<Rightarrow> rooms \<Rightarrow> bool" where
  "shows_rooms m s \<longleftrightarrow> s = rooms_of m \<and> (\<forall>g i. i \<in> dom (rm_in s g) \<longleftrightarrow> live_in m i = Some g)"

lemma rooms_of_simps [simp]:
  "rm_in (rooms_of m) g = hm_get (members g (mc_state m))" "rm_seen (rooms_of m) = hm_get (mc_groups m)"
  "rm_used (rooms_of m) = requests_of (mc_state m)" "rm_box (rooms_of m) = mc_inbox m"
  by (simp_all add: rooms_of_def)

lemma card_members: "sig_wf lim s \<Longrightarrow> card (dom (hm_get (members g s))) = length (members g s)"
proof -
  assume "sig_wf lim s"
  then have "distinct (map fst (members g s))" by (rule distinct_members)
  moreover have "dom (hm_get (members g s)) = set (map fst (members g s))" by (simp add: dom_map_of_conv_image_fst)
  ultimately show ?thesis by (simp only: distinct_card length_map)
qed


lemma unat_next:
  fixes n m :: "'a :: len word"
  assumes "n < m"
  shows "unat (n + 1) = unat n + 1"
proof -
  have "unat n < unat m" using assms by (simp add: word_less_nat_alt)
  moreover have "unat m < 2 ^ LENGTH('a)" by simp
  ultimately have "Suc (unat n) < 2 ^ LENGTH('a)" by linarith
  then show ?thesis by (simp add: unat_word_ariths)
qed

lemma requests_protect:
  assumes "protect_ddos_request_count lim g s = (ok, s')"
  shows "ok \<longleftrightarrow> requests_of s g < unat (sg_max_requests lim)"
    and "requests_of s' = (if ok then (requests_of s)(g := requests_of s g + 1) else requests_of s)"
  using assms
  by (auto simp: protect_ddos_request_count_def hm_or_insert_eq Let_def requests_of_def fun_eq_iff not_le
      word_less_nat_alt word_le_nat_alt unat_next [of _ "sg_max_requests lim"] unat_next [of 0, simplified]
      split: if_splits option.splits)

lemma requests_same: "sg_counts s' = sg_counts s \<Longrightarrow> requests_of s' = requests_of s"
  by (simp add: requests_of_def fun_eq_iff)


lemma register_admits:
  "fst (register_peer lim g peer s) \<noteq> None \<longleftrightarrow>
     length (members g s) < sg_max_connections lim \<and> requests_of s g < unat (sg_max_requests lim)"
proof -
  let ?s1 = "s\<lparr>sg_map := snd (hm_or_insert g [] (sg_map s))\<rparr>"
  obtain ok s2 where protect: "protect_ddos_request_count lim g ?s1 = (ok, s2)" by fastforce
  have "fst (hm_or_insert g [] (sg_map s)) = members g s"
    by (simp add: hm_or_insert_eq members_def split: option.split)
  moreover have "requests_of ?s1 = requests_of s" by (rule requests_same) simp
  ultimately show ?thesis
    using protect requests_protect(1) [OF protect]
    by (cases ok) (simp_all add: register_peer_def Let_def split_def not_le)
qed

lemma room_open_iff:
  assumes "sig_wf lim (mc_state m)"
  shows "room_open lim g (rooms_of m) \<longleftrightarrow> fst (register_peer lim g peer (mc_state m)) \<noteq> None"
  unfolding register_admits by (simp add: room_open_def card_members [OF assms])

lemma requests_register:
  assumes "register_peer lim g peer s = (r, s')"
  shows "requests_of s' = (if r = None then requests_of s else (requests_of s)(g := requests_of s g + 1))"
proof -
  let ?s1 = "s\<lparr>sg_map := snd (hm_or_insert g [] (sg_map s))\<rparr>"
  have same: "requests_of ?s1 = requests_of s" by (rule requests_same) simp
  from assms show ?thesis
    by (rule register_peer_cases)
      (auto simp: same requests_protect(2) requests_same [of "_\<lparr>sg_map := _\<rparr>"])
qed

lemma requests_frame:
  "handle_client_message g peer msg s = (ms, s') \<Longrightarrow> requests_of s' = requests_of s"
  "unregister_peer g i s = (txs, s') \<Longrightarrow> requests_of s' = requests_of s"
  "requests_of (clear_request_counts s) = (\<lambda>_. 0)"
proof -
  show "requests_of s' = requests_of s" if "handle_client_message g peer msg s = (ms, s')"
    using that
    by (cases msg) (auto simp: update_peer_def Let_def requests_of_def fun_eq_iff
        split: prod.splits option.splits if_splits)
  show "requests_of s' = requests_of s" if "unregister_peer g i s = (txs, s')"
    using that by (auto simp: unregister_peer_def Let_def requests_of_def split: option.splits if_splits)
qed (simp add: requests_of_def clear_request_counts_def fun_eq_iff)

section \<open>The simulation\<close>

abbreviation room_steps :: "sig_limits \<Rightarrow> rooms \<Rightarrow> rooms \<Rightarrow> bool" where
  "room_steps lim \<equiv> (room_step lim)\<^sup>=\<^sup>="

lemma rooms_of_put [simp]:
  "rooms_of (m\<lparr>mc_tasks := ts\<rparr>) = rooms_of m"
  "rooms_of (m\<lparr>mc_state := s, mc_tasks := ts\<rparr>) = rooms_of (m\<lparr>mc_state := s\<rparr>)"
  by (simp_all add: rooms_of_def)

lemma rooms_eqI:
  assumes "\<And>g. hm_get (members g (mc_state m)) = rm_in s g" and "hm_get (mc_groups m) = rm_seen s"
    and "requests_of (mc_state m) = rm_used s" and "mc_inbox m = rm_box s"
  shows "rooms_of m = s"
  using assms by (cases s) (simp add: rooms_of_def)

text \<open>A message that is put into a channel, or lost because the client is gone.\<close>

lemma room_steps_post:
  assumes "inv_registry m" and "inv_tasks m" and "in_group m g (tx # subjects msg)"
  shows "room_steps lim (rooms_of m) (rooms_of (sig_put i t (post tx msg m)))"
proof (cases "live_in m tx")
  case None
  then show ?thesis by (simp add: post_def)
next
  case (Some h)
  then have "h = g" using live_group [OF assms(2) Some] assms(3) by simp
  with Some have "tx \<in> dom (rm_in (rooms_of m) g)" using registryD [OF assms(1), of g tx] by auto
  with assms(3) have "room_step lim (rooms_of m)
      ((rooms_of m)\<lparr>rm_box := (rm_box (rooms_of m))(tx := rm_box (rooms_of m) tx @ [msg])\<rparr>)"
    by (intro room_tell [where g = g]) simp_all
  moreover have "rooms_of (sig_put i t (post tx msg m)) =
      (rooms_of m)\<lparr>rm_box := (rm_box (rooms_of m))(tx := rm_box (rooms_of m) tx @ [msg])\<rparr>"
    using Some by (intro rooms_eqI) (simp_all add: post_def)
  ultimately show ?thesis by simp
qed

lemma rooms_simulation:
  assumes "sig_step lim m m'" and "sig_wf lim (mc_state m)" and "inv_registry m" and "inv_tasks m"
  shows "room_steps lim (rooms_of m) (rooms_of m')"
  using assms
proof (induction rule: sig_step.induct)
  case (connect_ok m peer g txs peers s)
  let ?i = "wc_id peer" and ?r = "rooms_of m"
  have "room_open lim g ?r" using room_open_iff [OF connect_ok.prems(1), of g peer] connect_ok(2) by simp
  with connect_ok(1) have "room_step lim ?r (?r\<lparr>rm_in := (rm_in ?r)(g := (rm_in ?r g)(?i \<mapsto> ws_info_from peer)),
      rm_seen := (rm_seen ?r)(?i \<mapsto> g), rm_used := (rm_used ?r)(g := rm_used ?r g + 1)\<rparr>)"
    by (intro room_join) simp_all
  moreover have "rooms_of (sig_put ?i (Joining g peer txs peers)
      (m\<lparr>mc_state := s, mc_groups := hm_put ?i g (mc_groups m)\<rparr>)) =
    ?r\<lparr>rm_in := (rm_in ?r)(g := (rm_in ?r g)(?i \<mapsto> ws_info_from peer)),
      rm_seen := (rm_seen ?r)(?i \<mapsto> g), rm_used := (rm_used ?r)(g := rm_used ?r g + 1)\<rparr>"
    using requests_register [OF connect_ok(2)]
    by (intro rooms_eqI) (auto simp: register_accepted(3) [OF connect_ok(2)] fun_eq_iff)
  ultimately show ?case by simp
next
  case (connect_refused g peer m s)
  then have "rooms_of (m\<lparr>mc_state := s\<rparr>) = rooms_of m"
    using requests_register [OF connect_refused(1)]
    by (intro rooms_eqI) (simp_all add: register_refused(1) [OF connect_refused(1)])
  then show ?case by simp
next
  case (join_send m i g peer tx txs peers)
  obtain h where "hm_get (mc_groups m) i = Some h" "task_ok m i h (Joining g peer (tx # txs) peers)"
    using join_send.prems(3) join_send(1) by (rule inv_tasksD)
  with join_send.prems show ?case by (intro room_steps_post [where g = h]) auto
next
  case (hello m i g peer peers)
  obtain h where "hm_get (mc_groups m) i = Some h" "task_ok m i h (Joining g peer [] peers)"
    using hello.prems(3) hello(1) by (rule inv_tasksD)
  with hello.prems show ?case by (intro room_steps_post [where g = h]) auto
next
  case (send_next m i g peer tx msg ms)
  obtain h where "hm_get (mc_groups m) i = Some h" "task_ok m i h (Running g peer ((tx, msg) # ms))"
    using send_next.prems(3) send_next(1) by (rule inv_tasksD)
  with send_next.prems show ?case by (intro room_steps_post [where g = h]) auto
next
  case (receive_message m i g peer s msg)
  let ?r = "rooms_of m"
  have "live_in m i = Some g" using receive_message(1) by (simp add: live_at)
  then have "i \<in> dom (rm_in ?r g)" using registryD [OF receive_message.prems(2), of g i] by auto
  then have "room_step lim ?r (?r\<lparr>rm_used := (rm_used ?r)(g := rm_used ?r g + 1)\<rparr>)"
    using requests_protect(1) [OF receive_message(2)] by (intro room_request) simp_all
  moreover have "rooms_of (m\<lparr>mc_state := s\<rparr>) = ?r\<lparr>rm_used := (rm_used ?r)(g := rm_used ?r g + 1)\<rparr>"
    using requests_protect(2) [OF receive_message(2)]
    by (intro rooms_eqI) (simp_all add: protect_state(2) [OF receive_message(2)])
  ultimately show ?case by simp
next
  case (too_many_requests m i g peer s)
  have same: "rooms_of (m\<lparr>mc_state := s\<rparr>) = rooms_of m"
    using requests_protect(2) [OF too_many_requests(2)]
    by (intro rooms_eqI) (simp_all add: protect_state(2) [OF too_many_requests(2)])
  obtain h where h: "hm_get (mc_groups m) i = Some h"
    using too_many_requests.prems(3) too_many_requests(1) by (rule inv_tasksD)
  have "inv_registry (m\<lparr>mc_state := s\<rparr>)" "inv_tasks (m\<lparr>mc_state := s\<rparr>)"
    using too_many_requests.prems(2,3) protect_state(2) [OF too_many_requests(2)] task_ok_mono [of m]
    unfolding inv_registry_def inv_tasks_def by fastforce+
  then have "room_steps lim (rooms_of (m\<lparr>mc_state := s\<rparr>))
      (rooms_of (sig_put i (Stopping g peer) (post i (Ws_Error 429) (m\<lparr>mc_state := s\<rparr>))))"
    using h by (intro room_steps_post [where g = h]) simp_all
  then show ?case unfolding same .
next
  case (handle_message m i g peer msg ms s)
  let ?r = "rooms_of m"
  have live: "live_in m i = Some g" using handle_message(1) by (simp add: live_at)
  obtain h where "task_ok m i h (Handling g peer msg)"
    using handle_message.prems(3) handle_message(1) by (rule inv_tasksD)
  then have peer: "wc_id peer = i" by simp
  have known: "hm_get (members g (mc_state m)) i \<noteq> None"
    using registryD [OF handle_message.prems(2)] live by blast
  note used = requests_frame(1) [OF handle_message(2)]
  show ?case
  proof (cases msg)
    case (Wc_Update info)
    with handle_message(2) peer obtain txs where up: "update_peer g i info (mc_state m) = (txs, s)"
      by (auto simp: Let_def split: prod.splits)
    have "room_step lim ?r (?r\<lparr>rm_in := (rm_in ?r)(g := (rm_in ?r g)(i \<mapsto> info))\<rparr>)"
      using known by (intro room_update) auto
    moreover have "rooms_of (m\<lparr>mc_state := s\<rparr>) = ?r\<lparr>rm_in := (rm_in ?r)(g := (rm_in ?r g)(i \<mapsto> info))\<rparr>"
      using used by (intro rooms_eqI) (auto simp: update_peer_known(2) [OF known up] fun_eq_iff)
    ultimately show ?thesis by simp
  qed (use handle_message(2) in \<open>auto simp: rooms_of_def\<close>)
next
  case (disconnect m i t g txs s)
  let ?r = "rooms_of m"
  have "live_in m i = Some g" using disconnect(1,2) by (simp add: live_at)
  then have "i \<in> dom (rm_in ?r g)" using registryD [OF disconnect.prems(2), of g i] by auto
  then have "room_step lim ?r (?r\<lparr>rm_in := (rm_in ?r)(g := (rm_in ?r g)(i := None))\<rparr>)"
    by (rule room_leave)
  moreover have "rooms_of (m\<lparr>mc_state := s\<rparr>) = ?r\<lparr>rm_in := (rm_in ?r)(g := (rm_in ?r g)(i := None))\<rparr>"
    using requests_frame(2) [OF disconnect(4)]
    by (intro rooms_eqI) (auto simp: unregister_effect(2) [OF disconnect(4)] fun_eq_iff)
  ultimately show ?case by simp
next
  case (left_send m i tx txs)
  obtain h where "hm_get (mc_groups m) i = Some h" "task_ok m i h (Leaving (tx # txs))"
    using left_send.prems(3) left_send(1) by (rule inv_tasksD)
  with left_send.prems show ?case by (intro room_steps_post [where g = h]) auto
next
  case (left_done m i)
  then show ?case by (simp add: rooms_of_def)
next
  case (next_hour m)
  let ?r = "rooms_of m"
  have "rooms_of (m\<lparr>mc_state := clear_request_counts (mc_state m)\<rparr>) = ?r\<lparr>rm_used := (\<lambda>_. 0)\<rparr>"
    by (intro rooms_eqI) (simp_all add: requests_frame(3))
  then show ?case using room_hour [of lim ?r] by simp
qed

section \<open>Properties\<close>

text \<open>
  C25: The interleaved server refines the rooms. The rooms it stands for start empty; they take one more
  exactly when the server registers it; and every step of the server, in every state it can
  reach, is one step of the rooms or none, after which the members of each room are the peers
  registered in the group and those whose connection is up. So a client joins a room only while it
  has a place and a request left, only members change what they say, get messages or leave, and
  what they get is about the room.
\<close>

theorem signaling_refines_rooms:
  assumes "sig_reach lim m"
  shows "shows_rooms sig_init no_rooms \<and>
    (\<forall>g peer. fst (register_peer lim g peer (mc_state m)) \<noteq> None \<longleftrightarrow> room_open lim g (rooms_of m)) \<and>
    (\<forall>s m'. shows_rooms m s \<longrightarrow> sig_step lim m m' \<longrightarrow>
       (\<exists>s'. (s' = s \<or> room_step lim s s') \<and> shows_rooms m' s'))"
proof -
  have inv: "sig_wf lim (mc_state m)" "inv_registry m" "inv_tasks m"
    using sig_reach_invariants [OF assms] by blast+
  have step: "\<exists>s'. (s' = s \<or> room_step lim s s') \<and> shows_rooms m' s'"
    if "shows_rooms m s" and "sig_step lim m m'" for s m'
  proof -
    have "inv_registry m'" using sig_reach_invariants [OF sig_more [OF assms that(2)]] by blast
    then have "shows_rooms m' (rooms_of m')" unfolding inv_registry_def shows_rooms_def by auto
    with rooms_simulation [OF that(2) inv] that(1) show ?thesis unfolding shows_rooms_def by auto
  qed
  have "shows_rooms sig_init no_rooms"
    unfolding shows_rooms_def
    by (auto simp: no_rooms_def live_task_def sig_init_def sig_empty_def members_def requests_of_def
        fun_eq_iff intro!: rooms_eqI [symmetric])
  with step room_open_iff [OF inv(1)] show ?thesis by auto
qed

theorem signaling_refines_rooms_witness:
  "\<exists>m' s'. sig_step default_limits two_clients m' \<and> shows_rooms two_clients (rooms_of two_clients) \<and>
     (s' = rooms_of two_clients \<or> room_step default_limits (rooms_of two_clients) s') \<and>
     shows_rooms m' s' \<and> rm_in s' ''g'' = [2 \<mapsto> ben]"
proof -
  let ?s = "\<lparr>sg_map = [(''g'', [(2, ben)])], sg_counts = [(''g'', 2)]\<rparr>"
  let ?m = "sig_put 1 (Leaving [2]) (two_clients\<lparr>mc_state := ?s\<rparr>)"
  have step: "sig_step default_limits two_clients ?m"
    by (rule disconnect [where g = "''g''" and t = "Running ''g'' (ws_client_from anna 1) []"])
      (simp_all add: two_clients_eq sig_run_simps)
  have reach: "sig_reach default_limits two_clients" by (rule served_reach [OF two_clients_served])
  then have "inv_registry two_clients" using sig_reach_invariants by blast
  then have start: "shows_rooms two_clients (rooms_of two_clients)"
    unfolding inv_registry_def shows_rooms_def by auto
  with signaling_refines_rooms [OF reach] step obtain s'
    where "s' = rooms_of two_clients \<or> room_step default_limits (rooms_of two_clients) s'"
      and s': "shows_rooms ?m s'"
    by blast
  moreover from s' have "rm_in s' ''g'' = [2 \<mapsto> ben]"
    by (simp add: shows_rooms_def members_def)
  ultimately show ?thesis using start step by blast
qed

end
