(* ===== verification/Server_Tasks.thy ===== *)
theory Server_Tasks
  imports Router
begin

text \<open>
  The life of a server (\<open>http/server/mod.rs\<close>): binding its sockets, the TLS configuration, the two accept loops,
  the tasks of the connections, the stop and the wait for it. The tasks interleave as the steps of a relation; a
  connection task that has been told to stop is dropped when it is next polled, at the latest.
\<close>

section \<open>Sockets\<close>

text \<open>
  The options of a socket in the order the code sets them; \<open>os\<close> tells the error of a call, if it fails. The result
  is what was done to the socket, which the listener then has.
\<close>

datatype socket_domain = Domain_Ipv4 | Domain_Ipv6

datatype socket_call =
    Socket_New socket_domain
  | Only_V6
  | Reuse_Address
  | Nonblocking
  | Bind socket_addr
  | Listen nat

fun socket_calls :: "(socket_call \<Rightarrow> 'e option) \<Rightarrow> socket_call list \<Rightarrow> 'e + unit" where
  "socket_calls os [] = Inr ()"
| "socket_calls os (call # calls) = (case os call of Some e \<Rightarrow> Inl e | None \<Rightarrow> socket_calls os calls)"

fun is_v6_addr :: "socket_addr \<Rightarrow> bool" where
  "is_v6_addr (Sock_V4 _ _) = False"
| "is_v6_addr (Sock_V6 _ _ _) = True"

definition bind_calls :: "socket_addr \<Rightarrow> socket_call list" where
  "bind_calls addr =
     [Socket_New (if is_v6_addr addr then Domain_Ipv6 else Domain_Ipv4)] @
     (if is_v6_addr addr then [Only_V6] else []) @
     [Reuse_Address, Nonblocking, Bind addr, Listen 1024]"

definition bind_reusable :: "(socket_call \<Rightarrow> 'e option) \<Rightarrow> socket_addr \<Rightarrow> 'e + socket_call list" where
  "bind_reusable os addr = map_sum id (\<lambda>_. bind_calls addr) (socket_calls os (bind_calls addr))"

section \<open>TLS\<close>

text \<open>
  What the crate rustls makes of the texts, each with its error: parsing the certificate and the key, the verifier
  of client certificates (which only needs some root that parses), and the pair of certificate and key.
\<close>

record 'e tls_lib =
  rl_certificate :: "string \<Rightarrow> 'e option"
  rl_key :: "string \<Rightarrow> 'e option"
  rl_add_root :: "string \<Rightarrow> 'e option"
  rl_verifier :: "string \<Rightarrow> 'e option"
  rl_single_cert :: "string \<Rightarrow> string \<Rightarrow> 'e option"

definition or_else :: "'e option \<Rightarrow> 'e + unit \<Rightarrow> 'e + unit" where
  "or_else failure rest = (case failure of Some e \<Rightarrow> Inl e | None \<Rightarrow> rest)"

definition client_verifier_try_new :: "('e, 'y) tls_lib_scheme \<Rightarrow> string \<Rightarrow> 'e + unit" where
  "client_verifier_try_new rl cert =
     or_else (rl_certificate rl cert) (or_else (rl_add_root rl cert) (or_else (rl_verifier rl cert) (Inr ())))"

definition create_tls_config :: "('e, 'y) tls_lib_scheme \<Rightarrow> tls_config \<Rightarrow> 'e + unit" where
  "create_tls_config rl config =
     or_else (rl_certificate rl (tc_cert config))
       (or_else (rl_key rl (tc_private_key config))
         (case client_verifier_try_new rl (tc_cert config) of
            Inl e \<Rightarrow> Inl e
          | Inr _ \<Rightarrow> or_else (rl_single_cert rl (tc_cert config) (tc_private_key config)) (Inr ())))"

text \<open>Without a configuration the connections are plain.\<close>

definition tls_acceptor :: "('e, 'y) tls_lib_scheme \<Rightarrow> tls_config option \<Rightarrow> 'e + bool" where
  "tls_acceptor rl config =
     (case config of None \<Rightarrow> Inr False | Some config \<Rightarrow> map_sum id (\<lambda>_. True) (create_tls_config rl config))"

section \<open>Tasks\<close>

text \<open>An accept loop configures TLS first. \<open>Loop_Over\<close>: it has ended and its listener is closed.\<close>

datatype accept_loop = Loop_Starting | Loop_Accepting bool | Loop_Over

datatype connection = Conn_Accepted socket_addr bool | Conn_Serving request_client_info

datatype server_phase = Srv_Running | Srv_Draining | Srv_Ended

text \<open>
  \<open>sv_stop\<close>: a stop was requested or its sender was dropped. \<open>sv_requests\<close>: the requests that reached
  \<open>handle_request\<close>, with the connection and the client they carry.
\<close>

record server_tasks =
  sv_phase :: server_phase
  sv_v4 :: accept_loop
  sv_v6 :: accept_loop
  sv_stop :: bool
  sv_cancelled :: bool
  sv_connections :: "(nat, connection) hmap"
  sv_next :: nat
  sv_requests :: "(nat \<times> request_client_info) list"

text \<open>\<open>start_with_port\<close>: without IPv4 it fails, the rest goes on in the background.\<close>

definition server_start ::
  "(socket_call \<Rightarrow> 'e option) \<Rightarrow> u16 \<Rightarrow> 'e + server_tasks" where
  "server_start os port =
     (case start_listeners (bind_reusable os (Sock_V4 (V4 0 0 0 0) port))
             (bind_reusable os (Sock_V6 (V6 0 0 0 0 0 0 0 0) port 0)) of
        Inl e \<Rightarrow> Inl e
      | Inr (ipv4, ipv6) \<Rightarrow>
          Inr \<lparr>sv_phase = Srv_Running, sv_v4 = Loop_Starting,
               sv_v6 = (case ipv6 of None \<Rightarrow> Loop_Over | Some _ \<Rightarrow> Loop_Starting),
               sv_stop = False, sv_cancelled = False, sv_connections = [], sv_next = 0, sv_requests = []\<rparr>)"

text \<open>After the select: both loops are dropped, the connections are told to stop.\<close>

definition drain :: "server_tasks \<Rightarrow> server_tasks" where
  "drain s = s\<lparr>sv_phase := Srv_Draining, sv_v4 := Loop_Over, sv_v6 := Loop_Over, sv_cancelled := True\<rparr>"

definition spawn_connection :: "socket_addr \<Rightarrow> bool \<Rightarrow> server_tasks \<Rightarrow> server_tasks" where
  "spawn_connection remote_addr tls s =
     s\<lparr>sv_connections := hm_put (sv_next s) (Conn_Accepted remote_addr tls) (sv_connections s), sv_next := Suc (sv_next s)\<rparr>"

text \<open>A handshake of a TLS connection is never plain, and the other way round.\<close>

definition handshake_fits :: "bool \<Rightarrow> handshake \<Rightarrow> bool" where
  "handshake_fits tls hs \<longleftrightarrow> tls = (hs \<noteq> Plain_Tcp)"

text \<open>One poll of the task of a connection: the handshake, or some requests; it ends or goes on.\<close>

fun poll_connection :: "connection \<Rightarrow> handshake \<Rightarrow> nat \<Rightarrow> connection option \<times> request_client_info list" where
  "poll_connection (Conn_Accepted remote_addr tls) hs n =
     (case connection_client remote_addr hs of
        Done (Some ci) \<Rightarrow> (Some (Conn_Serving ci), replicate n ci)
      | _ \<Rightarrow> (None, []))"
| "poll_connection (Conn_Serving ci) hs n = (Some (Conn_Serving ci), replicate n ci)"

fun poll_fits :: "connection \<Rightarrow> handshake \<Rightarrow> bool" where
  "poll_fits (Conn_Accepted _ tls) hs = handshake_fits tls hs"
| "poll_fits (Conn_Serving _) hs = True"

definition serve_requests :: "nat \<Rightarrow> request_client_info list \<Rightarrow> server_tasks \<Rightarrow> server_tasks" where
  "serve_requests k cis s = s\<lparr>sv_requests := sv_requests s @ map (Pair k) cis\<rparr>"

inductive sv_step :: "'e + bool \<Rightarrow> server_tasks \<Rightarrow> server_tasks \<Rightarrow> bool" for tls where
  stop_called:
    "sv_step tls s (s\<lparr>sv_stop := True\<rparr>)" if "\<not> sv_stop s"
| configured_v4:
    "sv_step tls s (s\<lparr>sv_v4 := Loop_Accepting on\<rparr>)" if "sv_v4 s = Loop_Starting" "tls = Inr on"
| configured_v6:
    "sv_step tls s (s\<lparr>sv_v6 := Loop_Accepting on\<rparr>)" if "sv_v6 s = Loop_Starting" "tls = Inr on"
| v4_fails:
    "sv_step tls s (drain s)" if "sv_v4 s = Loop_Accepting on \<or> sv_v4 s = Loop_Starting \<and> tls = Inl e"
| v6_fails:
    "sv_step tls s (s\<lparr>sv_v6 := Loop_Over\<rparr>)" if "sv_v6 s = Loop_Accepting on \<or> sv_v6 s = Loop_Starting \<and> tls = Inl e"
| accepted:
    "sv_step tls s (spawn_connection remote_addr on s)" if "Loop_Accepting on \<in> {sv_v4 s, sv_v6 s}"
| stopped:
    "sv_step tls s (drain s)" if "sv_phase s = Srv_Running" "sv_stop s"
| served:
    "sv_step tls s (serve_requests k cis (s\<lparr>sv_connections := hm_put k c' (sv_connections s)\<rparr>))"
    if "\<not> sv_cancelled s" "hm_get (sv_connections s) k = Some c" "poll_fits c hs" "poll_connection c hs n = (Some c', cis)"
| ended:
    "sv_step tls s (serve_requests k cis (s\<lparr>sv_connections := hm_del k (sv_connections s)\<rparr>))"
    if "hm_get (sv_connections s) k = Some c" "poll_fits c hs" "poll_connection c hs n = (c', cis)"
| drained:
    "sv_step tls s (s\<lparr>sv_phase := Srv_Ended\<rparr>)" if "sv_phase s = Srv_Draining" "sv_connections s = []"

text \<open>Runs by the number of their steps.\<close>

inductive sv_run :: "'e + bool \<Rightarrow> nat \<Rightarrow> server_tasks \<Rightarrow> server_tasks \<Rightarrow> bool" for tls where
  run_nil: "sv_run tls 0 s s"
| run_step: "sv_run tls n s s1 \<Longrightarrow> sv_step tls s1 s2 \<Longrightarrow> sv_run tls (Suc n) s s2"

inductive_cases sv_run_SucE: "sv_run tls (Suc n) s s'"

section \<open>Waiting for the end\<close>

text \<open>
  \<open>wait_stopped\<close> takes the handle of the server task and keeps its lock while it waits. \<open>wh_returned\<close> has the phase of
  the server at each return. A wait can be dropped by its caller.
\<close>

datatype task_handle = Handle_There | Handle_Awaited | Handle_Gone

record waits =
  wh_server :: server_tasks
  wh_handle :: task_handle
  wh_dropped :: bool
  wh_returned :: "server_phase list"

inductive wait_step :: "'e + bool \<Rightarrow> waits \<Rightarrow> waits \<Rightarrow> bool" for tls where
  server_moves:
    "wait_step tls w (w\<lparr>wh_server := s\<rparr>)" if "sv_step tls (wh_server w) s"
| wait_called:
    "wait_step tls w (w\<lparr>wh_handle := Handle_Awaited\<rparr>)" if "wh_handle w = Handle_There"
| wait_returns:
    "wait_step tls w (w\<lparr>wh_handle := Handle_Gone, wh_returned := wh_returned w @ [sv_phase (wh_server w)]\<rparr>)"
    if "wh_handle w = Handle_Awaited" "sv_phase (wh_server w) = Srv_Ended"
| wait_dropped:
    "wait_step tls w (w\<lparr>wh_handle := Handle_Gone, wh_dropped := True\<rparr>)" if "wh_handle w = Handle_Awaited"
| waited_again:
    "wait_step tls w (w\<lparr>wh_returned := wh_returned w @ [sv_phase (wh_server w)]\<rparr>)" if "wh_handle w = Handle_Gone"

abbreviation wait_run where
  "wait_run tls \<equiv> (wait_step tls)\<^sup>*\<^sup>*"

definition waits_start :: "server_tasks \<Rightarrow> waits" where
  "waits_start s = \<lparr>wh_server = s, wh_handle = Handle_There, wh_dropped = False, wh_returned = []\<rparr>"


section \<open>Lemmas\<close>

lemma drain_simps [simp]:
  "sv_phase (drain s) = Srv_Draining" "sv_v4 (drain s) = Loop_Over" "sv_v6 (drain s) = Loop_Over" "sv_cancelled (drain s)"
  "sv_connections (drain s) = sv_connections s" "sv_requests (drain s) = sv_requests s" "sv_next (drain s) = sv_next s"
  "sv_stop (drain s) = sv_stop s"
  by (simp_all add: drain_def)

lemma spawn_simps [simp]:
  "sv_phase (spawn_connection addr on s) = sv_phase s" "sv_v4 (spawn_connection addr on s) = sv_v4 s"
  "sv_v6 (spawn_connection addr on s) = sv_v6 s" "sv_cancelled (spawn_connection addr on s) = sv_cancelled s"
  "sv_requests (spawn_connection addr on s) = sv_requests s" "sv_next (spawn_connection addr on s) = Suc (sv_next s)"
  "sv_connections (spawn_connection addr on s) = hm_put (sv_next s) (Conn_Accepted addr on) (sv_connections s)"
  by (simp_all add: spawn_connection_def)

lemma serve_simps [simp]:
  "sv_phase (serve_requests k cis s) = sv_phase s" "sv_v4 (serve_requests k cis s) = sv_v4 s"
  "sv_v6 (serve_requests k cis s) = sv_v6 s" "sv_cancelled (serve_requests k cis s) = sv_cancelled s"
  "sv_connections (serve_requests k cis s) = sv_connections s" "sv_next (serve_requests k cis s) = sv_next s"
  "sv_stop (serve_requests k cis s) = sv_stop s"
  "sv_requests (serve_requests k cis s) = sv_requests s @ map (Pair k) cis"
  by (simp_all add: serve_requests_def)

text \<open>Once the server is no longer running, its listeners are closed and its connections told to stop.\<close>

definition sv_inv :: "server_tasks \<Rightarrow> bool" where
  "sv_inv s \<longleftrightarrow> (sv_phase s = Srv_Running \<or> sv_cancelled s \<and> sv_v4 s = Loop_Over \<and> sv_v6 s = Loop_Over) \<and>
     (sv_phase s = Srv_Ended \<longrightarrow> sv_connections s = [])"

lemma sv_inv_start: "server_start os port = Inr s \<Longrightarrow> sv_inv s"
  by (auto simp: server_start_def sv_inv_def split: sum.splits prod.splits)

lemma sv_inv_step: "sv_step rl s s' \<Longrightarrow> sv_inv s \<Longrightarrow> sv_inv s'"
  by (erule sv_step.cases) (auto simp: sv_inv_def)

lemma sv_inv_run: "sv_run rl n s s' \<Longrightarrow> sv_inv s \<Longrightarrow> sv_inv s'"
  by (induction rule: sv_run.induct) (auto intro: sv_inv_step)

text \<open>What is left to do after the stop.\<close>

definition work_left :: "server_tasks \<Rightarrow> nat" where
  "work_left s = length (sv_connections s) + (if sv_phase s = Srv_Ended then 0 else 1) + (if sv_stop s then 0 else 1)"

lemma hm_del_shorter: "hm_get m k = Some v \<Longrightarrow> length (hm_del k m) < length m"
  by (induction m) (auto simp: hm_length_del_le less_Suc_eq_le le_imp_less_Suc)

lemma work_decreases:
  "sv_step rl s s' \<Longrightarrow> sv_inv s \<Longrightarrow> sv_phase s \<noteq> Srv_Running \<Longrightarrow> sv_phase s' \<noteq> Srv_Running \<and> work_left s' < work_left s"
  by (erule sv_step.cases) (auto simp: sv_inv_def work_left_def dest: hm_del_shorter)

lemma draining_runs:
  assumes "sv_run rl n s s'" and "sv_inv s" and "sv_phase s \<noteq> Srv_Running"
  shows "sv_phase s' \<noteq> Srv_Running \<and> n + work_left s' \<le> work_left s"
  using assms
proof (induction rule: sv_run.induct)
  case (run_step n s s1 s2)
  then show ?case using work_decreases [of rl s1 s2] sv_inv_run [of rl n s s1] by fastforce
qed simp

lemma sv_run_snoc: "sv_step rl s s1 \<Longrightarrow> sv_run rl n s1 s2 \<Longrightarrow> sv_run rl (Suc n) s s2"
  by (rotate_tac, induction rule: sv_run.induct) (auto intro: sv_run.intros)

text \<open>Each connection can be ended, then the server.\<close>

lemma can_drain:
  assumes "sv_phase s = Srv_Draining"
  shows "\<exists>n s'. sv_run rl n s s' \<and> sv_phase s' = Srv_Ended"
  using assms
proof (induction "length (sv_connections s)" arbitrary: s rule: less_induct)
  case less
  show ?case
  proof (cases "sv_connections s")
    case Nil
    with less.prems have "sv_step rl s (s\<lparr>sv_phase := Srv_Ended\<rparr>)" by (intro sv_step.drained)
    then have "sv_run rl (Suc 0) s (s\<lparr>sv_phase := Srv_Ended\<rparr>)" by (rule run_step [OF run_nil])
    then show ?thesis by (intro exI conjI) (assumption, simp)
  next
    case (Cons kc rest)
    obtain k c where kc: "kc = (k, c)" by fastforce
    with Cons have get: "hm_get (sv_connections s) k = Some c" by simp
    obtain hs where fits: "poll_fits c hs"
      by (cases c) (auto simp: handshake_fits_def)
    obtain c' cis where poll: "poll_connection c hs 0 = (c', cis)" by fastforce
    let ?s1 = "serve_requests k cis (s\<lparr>sv_connections := hm_del k (sv_connections s)\<rparr>)"
    have "sv_step rl s ?s1" by (rule sv_step.ended [OF get fits poll])
    moreover obtain n s' where "sv_run rl n ?s1 s'" "sv_phase s' = Srv_Ended"
      using less.hyps [of ?s1] less.prems hm_del_shorter [OF get] by auto
    ultimately show ?thesis using sv_run_snoc by blast
  qed
qed

text \<open>Requests carry the client of their connection.\<close>

definition clients_of :: "server_tasks \<Rightarrow> nat \<Rightarrow> request_client_info set" where
  "clients_of s k = {ci. (k, ci) \<in> set (sv_requests s)}"

definition identity_ok :: "connection option \<Rightarrow> request_client_info set \<Rightarrow> bool" where
  "identity_ok c clients \<longleftrightarrow>
     (case c of None \<Rightarrow> \<exists>ci. clients \<subseteq> {ci} | Some (Conn_Accepted _ _) \<Rightarrow> clients = {} | Some (Conn_Serving ci) \<Rightarrow> clients \<subseteq> {ci})"

definition identity_inv :: "server_tasks \<Rightarrow> bool" where
  "identity_inv s \<longleftrightarrow> (\<forall>k. identity_ok (hm_get (sv_connections s) k) (clients_of s k) \<and>
     (sv_next s \<le> k \<longrightarrow> hm_get (sv_connections s) k = None \<and> clients_of s k = {}))"

lemma identity_start: "server_start os port = Inr s \<Longrightarrow> identity_inv s"
  by (auto simp: server_start_def identity_inv_def identity_ok_def clients_of_def split: sum.splits prod.splits)

lemma clients_served [simp]:
  "clients_of (serve_requests k cis s) k' = clients_of s k' \<union> (if k' = k then set cis else {})"
  by (auto simp: clients_of_def)

lemma clients_cong [simp]:
  "clients_of (s\<lparr>sv_connections := m\<rparr>) = clients_of s" "clients_of (spawn_connection addr on s) = clients_of s"
  "clients_of (drain s) = clients_of s"
  by (simp_all add: clients_of_def fun_eq_iff)

lemma identity_polled:
  "identity_ok (Some c) clients \<Longrightarrow> poll_connection c hs n = (c', cis) \<Longrightarrow>
   identity_ok None (clients \<union> set cis) \<and> (\<forall>c2. c' = Some c2 \<longrightarrow> identity_ok (Some c2) (clients \<union> set cis))"
  by (cases c) (auto simp: identity_ok_def split: run.splits option.splits)

lemma identity_step:
  assumes "sv_step rl s s'" and "identity_inv s"
  shows "identity_inv s'"
  using assms(1)
proof cases
  case (accepted on addr)
  then show ?thesis using assms(2) by (auto simp: identity_inv_def identity_ok_def)
next
  case (served k c hs n c' cis)
  have "identity_ok (Some c) (clients_of s k)" "k < sv_next s"
    using assms(2) served(3) unfolding identity_inv_def by (metis, metis linorder_not_less option.distinct(1))
  with identity_polled [OF _ served(5)] show ?thesis
    using assms(2) served(1) by (auto simp: identity_inv_def)
next
  case (ended k c hs n c' cis)
  have "identity_ok (Some c) (clients_of s k)" "k < sv_next s"
    using assms(2) ended(2) unfolding identity_inv_def by (metis, metis linorder_not_less option.distinct(1))
  with identity_polled [OF _ ended(4)] show ?thesis
    using assms(2) ended(1) by (auto simp: identity_inv_def)
qed (use assms(2) in \<open>auto simp: identity_inv_def clients_of_def\<close>)


lemma identity_run: "sv_run rl n s s' \<Longrightarrow> identity_inv s \<Longrightarrow> identity_inv s'"
  by (induction rule: sv_run.induct) (auto intro: identity_step)

text \<open>Waits: a phase that has been left does not come back.\<close>

definition waits_inv :: "waits \<Rightarrow> bool" where
  "waits_inv w \<longleftrightarrow> sv_inv (wh_server w) \<and>
     (wh_dropped w \<or> set (wh_returned w) \<subseteq> {Srv_Ended} \<and>
       (wh_handle w = Handle_Gone \<or> wh_returned w \<noteq> [] \<longrightarrow> sv_phase (wh_server w) = Srv_Ended))"

lemma ended_stays:
  "sv_step rl s s' \<Longrightarrow> sv_inv s \<Longrightarrow> sv_phase s = Srv_Ended \<Longrightarrow>
   sv_phase s' = Srv_Ended \<and> sv_requests s' = sv_requests s \<and> sv_connections s' = []"
  by (erule sv_step.cases) (auto simp: sv_inv_def)

lemma waits_inv_step: "wait_step rl w w' \<Longrightarrow> waits_inv w \<Longrightarrow> waits_inv w'"
  by (erule wait_step.cases) (auto simp: waits_inv_def dest: sv_inv_step ended_stays)

lemma waits_inv_run: "wait_run rl w w' \<Longrightarrow> waits_inv w \<Longrightarrow> waits_inv w'"
  by (induction rule: rtranclp_induct) (auto intro: waits_inv_step)

section \<open>Properties\<close>

text \<open>
  C26: When a wait for the stop has returned, and none was given up, the server has ended: its listeners are closed,
  no connection is left, and no step serves a request any more.
\<close>

theorem stopped_server_is_silent:
  assumes "server_start os port = Inr s0" and "wait_run rl (waits_start s0) w" and "\<not> wh_dropped w"
    and "wh_returned w \<noteq> []"
  shows "sv_phase (wh_server w) = Srv_Ended \<and> sv_connections (wh_server w) = [] \<and>
    sv_v4 (wh_server w) = Loop_Over \<and> sv_v6 (wh_server w) = Loop_Over \<and>
    (\<forall>s'. sv_step rl (wh_server w) s' \<longrightarrow> sv_requests s' = sv_requests (wh_server w) \<and> sv_phase s' = Srv_Ended)"
proof -
  have "waits_inv (waits_start s0)"
    using sv_inv_start [OF assms(1)] by (simp add: waits_inv_def waits_start_def)
  then have inv: "waits_inv w" by (rule waits_inv_run [OF assms(2)])
  then have ended: "sv_phase (wh_server w) = Srv_Ended" and "sv_inv (wh_server w)"
    using assms(3,4) by (auto simp: waits_inv_def)
  then show ?thesis using ended_stays [of rl "wh_server w"] by (auto simp: sv_inv_def)
qed

text \<open>
  C27: A server that was told to stop does, in every state that a server can reach: while it still runs the stop is there to
  be taken up, at once, whether its loops are configured yet or not, and with it both listeners are closed; from then on
  every run takes at most one step for each connection that is still open and one to end, and from everywhere on it the end
  can be reached.
\<close>

theorem server_stops:
  assumes "server_start os port = Inr s0" and "sv_run rl m s0 s" and "sv_stop s"
    and "stopping = (if sv_phase s = Srv_Running then drain s else s)"
  shows "(sv_phase s = Srv_Running \<longrightarrow> sv_step rl s stopping) \<and>
    sv_v4 stopping = Loop_Over \<and> sv_v6 stopping = Loop_Over \<and>
    (\<forall>n s'. sv_run rl n stopping s' \<longrightarrow> n \<le> length (sv_connections s) + 1 \<and>
       (\<exists>k s''. sv_run rl k s' s'' \<and> sv_phase s'' = Srv_Ended))"
proof -
  have "sv_inv s" using sv_inv_start [OF assms(1)] assms(2) sv_inv_run by blast
  then have inv: "sv_inv stopping" and phase: "sv_phase stopping \<noteq> Srv_Running"
    and work: "work_left stopping \<le> length (sv_connections s) + 1"
    using assms(3,4) by (auto simp: sv_inv_def work_left_def)
  have taken: "sv_phase s = Srv_Running \<Longrightarrow> sv_step rl s stopping"
    using assms(3,4) sv_step.stopped [of s rl] by simp
  have "n \<le> length (sv_connections s) + 1 \<and> (\<exists>k s''. sv_run rl k s' s'' \<and> sv_phase s'' = Srv_Ended)"
    if run: "sv_run rl n stopping s'" for n s'
  proof -
    from draining_runs [OF run inv phase] have "sv_phase s' \<noteq> Srv_Running" and "n + work_left s' \<le> work_left stopping"
      by simp_all
    then show ?thesis
      using work can_drain [of s' rl] run_nil [of rl s'] by (cases "sv_phase s'") auto
  qed
  then show ?thesis using taken inv phase by (auto simp: sv_inv_def)
qed

text \<open>All requests of a connection carry the same client, the one its handshake gave.\<close>

theorem connection_identity_fixed:
  assumes "server_start os port = Inr s0" and "sv_run rl n s0 s"
    and "(k, ci) \<in> set (sv_requests s)" and "(k, ci') \<in> set (sv_requests s)"
  shows "ci' = ci"
proof -
  have "identity_inv s" using identity_start [OF assms(1)] assms(2) identity_run by blast
  then have "identity_ok (hm_get (sv_connections s) k) (clients_of s k)" by (simp add: identity_inv_def)
  with assms(3,4) show ?thesis
    by (auto simp: identity_ok_def clients_of_def split: option.splits connection.splits)
qed

text \<open>
  Both sockets get all their options before they are bound; the one for IPv6 is restricted to it, so that it does
  not collide with the other.
\<close>

lemma bind_reusable_options:
  "bind_reusable os addr = Inr calls \<Longrightarrow>
   \<exists>options. calls = options @ [Bind addr, Listen 1024] \<and> {Reuse_Address, Nonblocking} \<subseteq> set options \<and>
     (Only_V6 \<in> set options \<longleftrightarrow> is_v6_addr addr)"
  by (intro exI [of _ "butlast (butlast (bind_calls addr))"])
    (auto simp: bind_reusable_def bind_calls_def map_sum_def split: sum.splits)

section \<open>Runs\<close>

lemma start_ok: "server_start (\<lambda>_. None :: string option) 53317 = Inr \<lparr>sv_phase = Srv_Running, sv_v4 = Loop_Starting,
    sv_v6 = Loop_Starting, sv_stop = False, sv_cancelled = False, sv_connections = [], sv_next = 0, sv_requests = []\<rparr>"
  by (simp add: server_start_def start_listeners_def bind_reusable_def bind_calls_def)

abbreviation sample_tasks :: server_tasks where
  "sample_tasks \<equiv> \<lparr>sv_phase = Srv_Running, sv_v4 = Loop_Starting, sv_v6 = Loop_Starting, sv_stop = False,
     sv_cancelled = False, sv_connections = [], sv_next = 0, sv_requests = []\<rparr>"

abbreviation no_tls :: "string + bool" where
  "no_tls \<equiv> Inr False"

text \<open>
  A TLS configuration that does not parse is not reported: the start succeeds, and the server ends by itself
  without having accepted a connection.
\<close>

lemma tls_error_unreported:
  "\<exists>s. sv_run (Inl e) 2 sample_tasks s \<and> sv_phase s = Srv_Ended \<and> \<not> sv_stop s"
proof -
  have "sv_step (Inl e) sample_tasks (drain sample_tasks)" by (rule sv_step.v4_fails) simp
  moreover have "sv_step (Inl e) (drain sample_tasks) ((drain sample_tasks)\<lparr>sv_phase := Srv_Ended\<rparr>)"
    by (rule sv_step.drained) simp_all
  ultimately have "sv_run (Inl e) (Suc (Suc 0)) sample_tasks ((drain sample_tasks)\<lparr>sv_phase := Srv_Ended\<rparr>)"
    by (intro run_step [OF run_step [OF run_nil]])
  then show ?thesis by (intro exI [of _ "(drain sample_tasks)\<lparr>sv_phase := Srv_Ended\<rparr>"]) (simp add: numeral_2_eq_2)
qed

text \<open>After a wait that was given up, the next one returns while the server is running.\<close>

lemma abandoned_wait:
  "\<exists>w. wait_run no_tls (waits_start sample_tasks) w \<and> Srv_Running \<in> set (wh_returned w)"
proof -
  let ?w = "waits_start sample_tasks"
  have "wait_step no_tls ?w (?w\<lparr>wh_handle := Handle_Awaited\<rparr>)" by (rule wait_step.wait_called) (simp add: waits_start_def)
  moreover have "wait_step no_tls (?w\<lparr>wh_handle := Handle_Awaited\<rparr>) (?w\<lparr>wh_handle := Handle_Gone, wh_dropped := True\<rparr>)"
    using wait_step.wait_dropped [of "?w\<lparr>wh_handle := Handle_Awaited\<rparr>" no_tls] by simp
  moreover have "wait_step no_tls (?w\<lparr>wh_handle := Handle_Gone, wh_dropped := True\<rparr>)
      (?w\<lparr>wh_handle := Handle_Gone, wh_dropped := True, wh_returned := [Srv_Running]\<rparr>)"
    using wait_step.waited_again [of "?w\<lparr>wh_handle := Handle_Gone, wh_dropped := True\<rparr>" no_tls]
    by (simp add: waits_start_def)
  ultimately have "wait_run no_tls ?w (?w\<lparr>wh_handle := Handle_Gone, wh_dropped := True, wh_returned := [Srv_Running]\<rparr>)"
    by (meson converse_rtranclp_into_rtranclp rtranclp.rtrancl_refl)
  then show ?thesis by (intro exI conjI) (assumption, simp)
qed

lemma sample_stop:
  "sv_step no_tls (sample_tasks\<lparr>sv_stop := True\<rparr>) (drain (sample_tasks\<lparr>sv_stop := True\<rparr>))"
  by (rule sv_step.stopped) simp_all

theorem server_stops_witness:
  "sv_step no_tls (sample_tasks\<lparr>sv_stop := True\<rparr>) (drain (sample_tasks\<lparr>sv_stop := True\<rparr>)) \<and>
   (\<exists>k s''. sv_run no_tls k (drain (sample_tasks\<lparr>sv_stop := True\<rparr>)) s'' \<and> sv_phase s'' = Srv_Ended)"
proof -
  let ?s = "sample_tasks\<lparr>sv_stop := True\<rparr>"
  have "sv_run no_tls (Suc 0) sample_tasks ?s"
    by (rule run_step [OF run_nil]) (rule sv_step.stop_called, simp)
  from server_stops [OF start_ok this _ refl] run_nil [of no_tls "drain ?s"] show ?thesis by simp
qed

theorem stopped_server_is_silent_witness:
  "\<exists>w. wait_run no_tls (waits_start sample_tasks) w \<and> wh_returned w = [Srv_Ended] \<and> sv_connections (wh_server w) = []"
proof -
  let ?w = "waits_start sample_tasks" and ?s = "sample_tasks\<lparr>sv_stop := True\<rparr>"
  let ?e = "(drain ?s)\<lparr>sv_phase := Srv_Ended\<rparr>"
  have "wait_step no_tls ?w (?w\<lparr>wh_server := ?s\<rparr>)"
    using wait_step.server_moves [of no_tls ?w ?s] sv_step.stop_called [of sample_tasks no_tls] by (simp add: waits_start_def)
  moreover have "wait_step no_tls (?w\<lparr>wh_server := ?s\<rparr>) (?w\<lparr>wh_server := drain ?s\<rparr>)"
    using wait_step.server_moves [of no_tls "?w\<lparr>wh_server := ?s\<rparr>" "drain ?s"] sample_stop by simp
  moreover have "wait_step no_tls (?w\<lparr>wh_server := drain ?s\<rparr>) (?w\<lparr>wh_server := ?e\<rparr>)"
    using wait_step.server_moves [of no_tls "?w\<lparr>wh_server := drain ?s\<rparr>" ?e] sv_step.drained [of "drain ?s" no_tls] by simp
  moreover have "wait_step no_tls (?w\<lparr>wh_server := ?e\<rparr>) (?w\<lparr>wh_server := ?e, wh_handle := Handle_Awaited\<rparr>)"
    by (rule wait_step.wait_called) (simp add: waits_start_def)
  moreover have "wait_step no_tls (?w\<lparr>wh_server := ?e, wh_handle := Handle_Awaited\<rparr>)
      (?w\<lparr>wh_server := ?e, wh_handle := Handle_Gone, wh_returned := [Srv_Ended]\<rparr>)"
    using wait_step.wait_returns [of "?w\<lparr>wh_server := ?e, wh_handle := Handle_Awaited\<rparr>" no_tls]
    by (simp add: waits_start_def)
  ultimately have run: "wait_run no_tls ?w (?w\<lparr>wh_server := ?e, wh_handle := Handle_Gone, wh_returned := [Srv_Ended]\<rparr>)"
    (is "wait_run _ _ ?last") by (meson converse_rtranclp_into_rtranclp rtranclp.rtrancl_refl)
  have "\<not> wh_dropped ?last" and "wh_returned ?last \<noteq> []" by (simp_all add: waits_start_def)
  from stopped_server_is_silent [OF start_ok run this] run show ?thesis by (intro exI conjI) auto
qed

end
