(* ===== verification/Target_Url.thy ===== *)
theory Target_Url
  imports Ip_Text
begin

text \<open>
  Where a request of the HTTP client goes: the URL (\<open>http/client/url.rs\<close>) and the host names that
  stand for scoped IPv6 addresses (\<open>http/client/scoped_host.rs\<close>, the resolver of
  \<open>http/client/mod.rs\<close>). An address the server has seen can be dialled back.
\<close>

section \<open>Strings\<close>

text \<open>\<open>str::split_once\<close>, \<open>str::strip_suffix\<close>, \<open>str::replace\<close> of a character, and \<open>join\<close>.\<close>

fun split_once :: "char \<Rightarrow> string \<Rightarrow> (string \<times> string) option" where
  "split_once c [] = None"
| "split_once c (x # xs) =
     (if x = c then Some ([], xs) else map_option (\<lambda>(a, b). (x # a, b)) (split_once c xs))"

definition strip_suffix :: "string \<Rightarrow> string \<Rightarrow> string option" where
  "strip_suffix suf s =
     (let n = length s - length suf
      in if length suf \<le> length s \<and> drop n s = suf then Some (take n s) else None)"

definition replace_char :: "char \<Rightarrow> char \<Rightarrow> string \<Rightarrow> string" where
  "replace_char a b s = map (\<lambda>c. if c = a then b else c) s"

fun join :: "string \<Rightarrow> string list \<Rightarrow> string" where
  "join sep [] = []"
| "join sep [s] = s"
| "join sep (s # ss) = s @ sep @ join sep ss"

lemma split_once_at: "c \<notin> set a \<Longrightarrow> split_once c (a @ c # b) = Some (a, b)"
  by (induction a) auto

lemma split_once_Some: "split_once c s = Some (a, b) \<Longrightarrow> s = a @ c # b \<and> c \<notin> set a"
  by (induction s arbitrary: a) (auto split: if_splits)

lemma strip_suffix_append [simp]: "strip_suffix suf (s @ suf) = Some s"
  by (simp add: strip_suffix_def)

lemma replace_char_inverse: "b \<notin> set s \<Longrightarrow> replace_char b a (replace_char a b s) = s"
  by (induction s) (auto simp: replace_char_def)

section \<open>Scoped hosts\<close>

definition SUFFIX :: string where
  "SUFFIX = ''.scoped.localsend.internal''"

definition scoped_encode :: "string \<Rightarrow> string option" where
  "scoped_encode host =
     (case split_once CHR ''%'' host of
        None \<Rightarrow> None
      | Some (address, scope) \<Rightarrow>
          (case parse_ipv6 address of
             None \<Rightarrow> None
           | Some address \<Rightarrow>
               (case parse_u32 scope of
                  None \<Rightarrow> None
                | Some scope \<Rightarrow>
                    if CHR ''.'' \<in> set (ip_to_string address) then None
                    else Some (replace_char CHR '':'' CHR ''-'' (ip_to_string address) @ ''s'' @
                           nat_str 10 (unat scope) @ SUFFIX))))"

definition scoped_decode :: "string \<Rightarrow> socket_addr option" where
  "scoped_decode name =
     (case strip_suffix SUFFIX name of
        None \<Rightarrow> None
      | Some encoded \<Rightarrow>
          (case split_once CHR ''s'' encoded of
             None \<Rightarrow> None
           | Some (address, scope) \<Rightarrow>
               (case parse_ipv6 (replace_char CHR ''-'' CHR '':'' address) of
                  None \<Rightarrow> None
                | Some address \<Rightarrow>
                    (case parse_u32 scope of
                       None \<Rightarrow> None
                     | Some scope \<Rightarrow> Some (Sock_V6 address 0 scope)))))"

text \<open>The resolver of the client; \<open>lookup_host\<close> is that of the system.\<close>

definition resolve :: "(string \<Rightarrow> 'e + socket_addr list) \<Rightarrow> string \<Rightarrow> 'e + socket_addr list" where
  "resolve lookup_host name =
     (case scoped_decode name of Some addr \<Rightarrow> Inr [addr] | None \<Rightarrow> lookup_host name)"

section \<open>URLs\<close>

datatype api_version = Api_V2 | Api_V3

record target_url =
  tu_version :: api_version
  tu_protocol :: string
  tu_host :: string
  tu_port :: u16
  tu_path :: string
  tu_params :: "(string \<times> string) list"

definition url_host :: "string \<Rightarrow> string" where
  "url_host host =
     (case scoped_encode host of
        Some encoded \<Rightarrow> encoded
      | None \<Rightarrow> if CHR '':'' \<in> set host then ''['' @ host @ '']'' else host)"

definition query_string :: "(string \<times> string) list \<Rightarrow> string" where
  "query_string params = join ''&'' (map (\<lambda>(k, v). k @ ''='' @ v) params)"

definition url_to_string :: "target_url \<Rightarrow> string" where
  "url_to_string url =
     (let base = tu_protocol url @ ''://'' @ url_host (tu_host url) @ '':'' @
            nat_str 10 (unat (tu_port url)) @ ''/api/localsend/'' @
            (case tu_version url of Api_V2 \<Rightarrow> ''v2'' | Api_V3 \<Rightarrow> ''v3'') @ tu_path url
      in if tu_params url = [] then base else base @ ''?'' @ query_string (tu_params url))"

section \<open>Lemmas\<close>

lemma parse_ipv6_is_v6: "parse_ipv6 s = Some ip \<Longrightarrow> \<exists>a b c d e f g h. ip = V6 a b c d e f g h"
proof -
  have "v6_of gs = Some ip \<Longrightarrow> \<exists>a b c d e f g h. ip = V6 a b c d e f g h" for gs
    by (cases gs rule: v6_of.cases) auto
  then show "parse_ipv6 s = Some ip \<Longrightarrow> \<exists>a b c d e f g h. ip = V6 a b c d e f g h"
    by (auto simp: parse_ipv6_def split: option.splits prod.splits list.splits)
qed

lemma decode_encoded:
  assumes "ip = V6 a b c d e f g h" and "\<not> ipv4_mapped ip"
  shows "scoped_decode (replace_char CHR '':'' CHR ''-'' (ip_to_string ip) @ ''s'' @
    nat_str 10 (unat scope) @ SUFFIX) = Some (Sock_V6 ip 0 scope)"
proof -
  let ?t = "ip_to_string ip"
  have safe: "c \<noteq> CHR ''-'' \<and> c \<noteq> CHR ''s''" if "c \<in> set ?t" for c
    using print_ipv6_chars [OF assms] that address_char_safe by (auto simp: list_all_iff)
  have "CHR ''s'' \<notin> set (replace_char CHR '':'' CHR ''-'' ?t)"
    using safe by (auto simp: replace_char_def)
  then have "split_once CHR ''s'' (replace_char CHR '':'' CHR ''-'' ?t @ CHR ''s'' # nat_str 10 (unat scope)) =
      Some (replace_char CHR '':'' CHR ''-'' ?t, nat_str 10 (unat scope))"
    by (rule split_once_at)
  moreover have "replace_char CHR ''-'' CHR '':'' (replace_char CHR '':'' CHR ''-'' ?t) = ?t"
    using safe by (intro replace_char_inverse) blast
  moreover have "strip_suffix SUFFIX (replace_char CHR '':'' CHR ''-'' ?t @ CHR ''s'' #
      nat_str 10 (unat scope) @ SUFFIX) = Some (replace_char CHR '':'' CHR ''-'' ?t @ CHR ''s'' # nat_str 10 (unat scope))"
    using strip_suffix_append [of SUFFIX "replace_char CHR '':'' CHR ''-'' ?t @ CHR ''s'' # nat_str 10 (unat scope)"]
    by simp
  ultimately show ?thesis
    using parse_print_ipv6 [OF assms] by (simp add: scoped_decode_def)
qed

lemma encode_Some_iff:
  "scoped_encode host = Some name \<longleftrightarrow>
     (\<exists>address scope ip sc. host = address @ CHR ''%'' # scope \<and> CHR ''%'' \<notin> set address \<and>
        parse_ipv6 address = Some ip \<and> parse_u32 scope = Some sc \<and> \<not> ipv4_mapped ip \<and>
        name = replace_char CHR '':'' CHR ''-'' (ip_to_string ip) @ ''s'' @ nat_str 10 (unat sc) @ SUFFIX)"
  (is "?l \<longleftrightarrow> ?r")
proof -
  have dot: "CHR ''.'' \<in> set (ip_to_string ip) \<longleftrightarrow> ipv4_mapped ip" if "parse_ipv6 s = Some ip" for s ip
  proof -
    from parse_ipv6_is_v6 [OF that] obtain a b c d e f g h where ip: "ip = V6 a b c d e f g h" by blast
    show ?thesis
      using print_mapped [OF ip] print_ipv6_chars [OF ip] address_char_safe
      unfolding list_all_iff by blast
  qed
  show ?thesis
  proof
    assume ?l
    then show ?r
      by (auto simp: scoped_encode_def dot split: option.splits if_splits dest!: split_once_Some) blast
  next
    assume ?r
    then show ?l by (auto simp: scoped_encode_def dot split_once_at)
  qed
qed

text \<open>Every name the encoder makes is decoded to the address and scope it was made of.\<close>

lemma decode_encode:
  assumes "scoped_encode host = Some name"
  shows "\<exists>address scope ip sc. host = address @ CHR ''%'' # scope \<and> CHR ''%'' \<notin> set address \<and> parse_ipv6 address = Some ip \<and>
    parse_u32 scope = Some sc \<and> scoped_decode name = Some (Sock_V6 ip 0 sc)"
proof -
  from assms obtain address scope ip sc where h: "host = address @ CHR ''%'' # scope"
    "CHR ''%'' \<notin> set address" "parse_ipv6 address = Some ip" "parse_u32 scope = Some sc" "\<not> ipv4_mapped ip"
    "name = replace_char CHR '':'' CHR ''-'' (ip_to_string ip) @ ''s'' @ nat_str 10 (unat sc) @ SUFFIX"
    by (auto simp: encode_Some_iff)
  from parse_ipv6_is_v6 [OF h(3)] decode_encoded [OF _ h(5)] h show ?thesis by blast
qed

section \<open>Properties\<close>

text \<open>
  A host name made for a scoped address is resolved, without asking the system, to exactly
  that address and scope.
\<close>

theorem scoped_host_roundtrip:
  assumes "scoped_encode host = Some name"
  shows "\<exists>address scope ip sc. host = address @ CHR ''%'' # scope \<and> CHR ''%'' \<notin> set address \<and> parse_ipv6 address = Some ip \<and>
    parse_u32 scope = Some sc \<and> resolve lookup_host name = Inr [Sock_V6 ip 0 sc]"
  using decode_encode [OF assms] by (fastforce simp: resolve_def)

text \<open>
  C33: A peer can be dialled back: the URL host made from the address the server reports for an
  incoming IPv6 connection with a scope resolves to the address and scope of that connection,
  unless it is an IPv4-mapped one.
\<close>

theorem dial_back:
  assumes "ip = V6 a b c d e f g h" and "scope \<noteq> 0" and "\<not> ipv4_mapped ip"
  shows "resolve lookup_host (url_host (peer_to_string (peer_from_remote_addr (Sock_V6 ip port scope)))) =
    Inr [Sock_V6 ip 0 scope]"
proof -
  let ?t = "ip_to_string ip"
  have safe: "CHR ''%'' \<notin> set ?t" "CHR ''.'' \<notin> set ?t"
    using print_ipv6_chars [OF assms(1,3)] address_char_safe unfolding list_all_iff by blast+
  have "peer_to_string (peer_from_remote_addr (Sock_V6 ip port scope)) = ?t @ CHR ''%'' # nat_str 10 (unat scope)"
    using assms by (simp add: peer_to_string_def peer_from_remote_addr_def)
  then have "scoped_encode (peer_to_string (peer_from_remote_addr (Sock_V6 ip port scope))) =
      Some (replace_char CHR '':'' CHR ''-'' ?t @ ''s'' @ nat_str 10 (unat scope) @ SUFFIX)"
    using safe parse_print_ipv6 [OF assms(1,3)] by (simp add: scoped_encode_def split_once_at)
  then show ?thesis
    using decode_encoded [OF assms(1,3), of scope] by (simp add: url_host_def resolve_def)
qed

theorem scoped_host_roundtrip_witness:
  "resolve (\<lambda>_. Inl ()) (the (scoped_encode ''fe80::1%3'')) = Inr [Sock_V6 (V6 0xfe80 0 0 0 0 0 0 1) 0 3]"
proof -
  have shown: "ip_to_string (V6 0xfe80 0 0 0 0 0 0 1) = ''fe80::1''"
    by (simp add: ipv6_to_string_def nat_str.simps hex_digit_def)
  have three: "parse_u32 ''3'' = Some 3"
    using parse_u32_print [of 3] by (simp add: nat_str.simps hex_digit_def)
  have enc: "scoped_encode ''fe80::1%3'' = Some ''fe80--1s3.scoped.localsend.internal''"
    unfolding encode_Some_iff
    using parse_print_ipv6 [of "V6 0xfe80 0 0 0 0 0 0 1" 65152 0 0 0 0 0 0 1] shown three
    by (intro exI [of _ "''fe80::1''"] exI [of _ "''3''"] exI [of _ "V6 0xfe80 0 0 0 0 0 0 1"] exI [of _ "3::u32"])
      (simp add: replace_char_def SUFFIX_def nat_str.simps hex_digit_def del: ip_to_string.simps)
  obtain address scope ip sc where split: "''fe80::1%3'' = address @ CHR ''%'' # scope"
    "CHR ''%'' \<notin> set address" and "parse_ipv6 address = Some ip" and "parse_u32 scope = Some sc"
    and "resolve (\<lambda>_. Inl ()) ''fe80--1s3.scoped.localsend.internal'' = Inr [Sock_V6 ip 0 sc]"
    using scoped_host_roundtrip [OF enc, of "\<lambda>_. Inl ()"] by blast
  moreover have "split_once CHR ''%'' (address @ CHR ''%'' # scope) = Some (address, scope)"
    by (rule split_once_at [OF split(2)])
  then have "address = ''fe80::1'' \<and> scope = ''3''"
    unfolding split(1) [symmetric] by simp
  ultimately show ?thesis
    using enc three parse_print_ipv6 [of "V6 0xfe80 0 0 0 0 0 0 1" 65152 0 0 0 0 0 0 1] shown
    by (auto simp del: ip_to_string.simps)
qed

theorem dial_back_witness:
  "resolve (\<lambda>_. Inl ()) (url_host (peer_to_string (peer_from_remote_addr
     (Sock_V6 (V6 0xfe80 0 0 0 0 0 0 1) 50000 3)))) = Inr [Sock_V6 (V6 0xfe80 0 0 0 0 0 0 1) 0 3]"
  by (rule dial_back [OF refl]) simp_all

text \<open>
  Parameters are written as they are, so different ones can make the same URL: a PIN with an
  ampersand arrives as a shorter PIN and another parameter.
\<close>

theorem url_params_ambiguous:
  "url_to_string (u\<lparr>tu_params := [(''pin'', ''1&x=2'')]\<rparr>) =
     url_to_string (u\<lparr>tu_params := [(''pin'', ''1''), (''x'', ''2'')]\<rparr>)"
  by (simp add: url_to_string_def query_string_def)

end
