(* ===== verification/Http_Client.thy ===== *)
theory Http_Client
  imports Target_Url Web_Send
begin

text \<open>
  The HTTP client of the sender (\<open>http/client\<close>): its data and errors, what it checks of a response
  and of the peer's certificate (\<open>mod.rs\<close>, \<open>server_cert_verifier.rs\<close>), the calls of the two
  protocol versions (\<open>v2.rs\<close>, \<open>v3.rs\<close>) and the choice between them (\<open>mod.rs\<close>, with the
  conversions of \<open>http/dto.rs\<close>).

  The network is an argument \<open>send\<close>, which takes a request and the state of the rest of the
  world and gives the response, if there is one, and the new state. JSON, as elsewhere, is the
  value it stands for when a request is sent; a response is of any type \<open>'b\<close>, read by the
  parsers of \<open>body_lib\<close>.
\<close>

section \<open>Data\<close>

datatype protocol_type = Proto_Http | Proto_Https

definition protocol_type_as_str :: "protocol_type \<Rightarrow> string" where
  "protocol_type_as_str p = (case p of Proto_Http \<Rightarrow> ''http'' | Proto_Https \<Rightarrow> ''https'')"

fun protocol_to_v2 :: "protocol_type \<Rightarrow> protocol_type_v2" where
  "protocol_to_v2 Proto_Http = Http"
| "protocol_to_v2 Proto_Https = Https"

record register_dto =
  rg_alias :: string
  rg_version :: string
  rg_device_model :: "string option"
  rg_device_type :: "device_type option"
  rg_token :: string
  rg_port :: u16
  rg_protocol :: protocol_type
  rg_has_web_interface :: bool

definition register_to_v2 :: "register_dto \<Rightarrow> register_dto_v2" where
  "register_to_v2 v3 =
     \<lparr>rd_alias = rg_alias v3, rd_version = rg_version v3, rd_device_model = rg_device_model v3,
      rd_device_type = rg_device_type v3, rd_fingerprint = rg_token v3, rd_port = rg_port v3,
      rd_protocol = protocol_to_v2 (rg_protocol v3), rd_download = rg_has_web_interface v3\<rparr>"

record prepare_upload_request_dto =
  pq_info :: register_dto
  pq_files :: "(string, file_dto) hmap"

definition prepare_to_v2 :: "prepare_upload_request_dto \<Rightarrow> prepare_upload_request" where
  "prepare_to_v2 v3 = \<lparr>pr_info = register_to_v2 (pq_info v3), pr_files = pq_files v3\<rparr>"

record prepare_upload_response_v2 =
  pv_session_id :: string
  pv_files :: "(string, string) hmap"

record prepare_upload_result_v2 =
  pv_status_code :: status
  pv_response :: "prepare_upload_response_v2 option"

record prepare_upload_response =
  pp_session_id :: string
  pp_files :: "(string, string) hmap"

record prepare_upload_result =
  pp_status_code :: status
  pp_response :: "prepare_upload_response option"

definition prepare_response_from_v2 :: "prepare_upload_response_v2 \<Rightarrow> prepare_upload_response" where
  "prepare_response_from_v2 v2 = \<lparr>pp_session_id = pv_session_id v2, pp_files = pv_files v2\<rparr>"

definition prepare_result_from_v2 :: "prepare_upload_result_v2 \<Rightarrow> prepare_upload_result" where
  "prepare_result_from_v2 v2 =
     \<lparr>pp_status_code = pv_status_code v2,
      pp_response = map_option prepare_response_from_v2 (pv_response v2)\<rparr>"

definition register_response_from_v2 :: "info_dto_v2 \<Rightarrow> register_response_dto" where
  "register_response_from_v2 v2 =
     \<lparr>rr_alias = id_alias v2, rr_version = id_version v2, rr_device_model = id_device_model v2,
      rr_device_type = id_device_type v2, rr_token = id_fingerprint v2,
      rr_has_web_interface = id_download v2\<rparr>"

record prepare_download_response =
  pd_info :: info_dto_v2
  pd_session_id :: string
  pd_files :: "(string, file_dto) hmap"

section \<open>Requests, responses and errors\<close>

datatype client_method = Client_Get | Client_Post

datatype client_payload =
    No_Payload
  | Json_Register_V2 register_dto_v2
  | Json_Register register_dto
  | Json_Prepare_V2 prepare_upload_request
  | Json_Prepare prepare_upload_request_dto
  | Json_Nonce string
  | File_Stream "bytes list"

record client_request =
  cq_method :: client_method
  cq_url :: string
  cq_headers :: "(string \<times> string) list"
  cq_payload :: client_payload

text \<open>
  \<open>hr_tls\<close> is the TLS information of the connection and in it the peer's certificate;
  \<open>hr_body\<close> is missing when the body cannot be read.
\<close>

record 'b http_response =
  hr_status :: status
  hr_tls :: "bytes option option"
  hr_remote :: "ip_addr option"
  hr_body :: "'b option"

type_synonym ('b, 's) network = "client_request \<Rightarrow> 's \<Rightarrow> 'b http_response option \<times> 's"

text \<open>
  What \<open>reqwest\<close> and \<open>serde_json\<close> read from a body: its text, the value of a JSON type, its
  chunks up to the first error. \<open>bl_error\<close> is the \<open>message\<close> of an error response.
\<close>

record 'b body_lib =
  bl_text :: "'b \<Rightarrow> string"
  bl_error :: "string \<Rightarrow> string option"
  bl_register_v2 :: "'b \<Rightarrow> info_dto_v2 option"
  bl_register :: "'b \<Rightarrow> register_response_dto option"
  bl_prepare_v2 :: "'b \<Rightarrow> prepare_upload_response_v2 option"
  bl_prepare :: "'b \<Rightarrow> prepare_upload_response option"
  bl_info :: "'b \<Rightarrow> info_dto_v2 option"
  bl_download :: "'b \<Rightarrow> prepare_download_response option"
  bl_nonce :: "'b \<Rightarrow> string option"
  bl_chunks :: "'b \<Rightarrow> bytes option list"

record 'pk cert_lib =
  ct_parse_der :: "bytes \<Rightarrow> 'pk x509_cert option"
  ct_parse_pem_key :: "string \<Rightarrow> 'pk option"
  ct_pem_encode :: "bytes \<Rightarrow> string"

text \<open>\<open>ClientError\<close>; what its variant \<open>Other\<close> carries is a certificate error or a text.\<close>

datatype client_error =
    Ce_Status status "string option"
  | Ce_Reqwest
  | Ce_Json
  | Ce_Io
  | Ce_Cert cert_error
  | Ce_Other string
  | Ce_Cancelled

type_synonym 'a client_result = "client_error + 'a"

definition into_error :: "'b body_lib \<Rightarrow> 'b http_response \<Rightarrow> client_error" where
  "into_error bl res =
     (let body = (case hr_body res of Some b \<Rightarrow> bl_text bl b | None \<Rightarrow> '''');
          message = (case bl_error bl body of Some m \<Rightarrow> m | None \<Rightarrow> body)
      in Ce_Status (hr_status res) (if message = '''' then None else Some message))"

text \<open>\<open>Response::json\<close>.\<close>

definition read_json :: "('b \<Rightarrow> 'a option) \<Rightarrow> 'b http_response \<Rightarrow> 'a client_result" where
  "read_json parse res =
     (case hr_body res of
        None \<Rightarrow> Inl Ce_Reqwest
      | Some b \<Rightarrow> (case parse b of None \<Rightarrow> Inl Ce_Reqwest | Some x \<Rightarrow> Inr x))"

definition verify_cert_from_res ::
  "'pk cert_lib \<Rightarrow> 'b http_response \<Rightarrow> string option \<Rightarrow> string client_result" where
  "verify_cert_from_res cl res public_key =
     (case hr_tls res of
        None \<Rightarrow> Inl (Ce_Other ''TLS info not found'')
      | Some None \<Rightarrow> Inl (Ce_Other ''Certificate not found'')
      | Some (Some cert) \<Rightarrow>
          (case verify_cert_from_der (ct_parse_der cl) (ct_parse_pem_key cl) cert public_key of
             Inl e \<Rightarrow> Inl (Ce_Cert e)
           | Inr _ \<Rightarrow>
               (case public_key of
                  Some public_key \<Rightarrow> Inr public_key
                | None \<Rightarrow>
                    (case public_key_from_cert_der (ct_parse_der cl) (ct_pem_encode cl) cert of
                       Inl e \<Rightarrow> Inl (Ce_Cert e)
                     | Inr key \<Rightarrow> Inr key))))"

section \<open>The certificate of the peer\<close>

record cert_verifier =
  cv_expected_fingerprint :: "string option"

definition verifier_try_new :: "string option \<Rightarrow> cert_verifier" where
  "verifier_try_new expected_fingerprint =
     \<lparr>cv_expected_fingerprint = map_option to_ascii_uppercase expected_fingerprint\<rparr>"

datatype cert_rejection = Not_Valid cert_error | Fingerprint_Mismatch string string

definition verify_server_cert ::
  "('sk, 'ek, 'rk, 'z) crypto_lib_scheme \<Rightarrow> 'pk cert_lib \<Rightarrow> cert_verifier \<Rightarrow> bytes
     \<Rightarrow> cert_rejection + unit" where
  "verify_server_cert lib cl verifier end_entity =
     (case verify_cert_from_der (ct_parse_der cl) (ct_parse_pem_key cl) end_entity None of
        Inl e \<Rightarrow> Inl (Not_Valid e)
      | Inr _ \<Rightarrow>
          (case cv_expected_fingerprint verifier of
             None \<Rightarrow> Inr ()
           | Some expected \<Rightarrow>
               (let actual = fingerprint_from_cert_der lib end_entity
                in if actual \<noteq> expected then Inl (Fingerprint_Mismatch expected actual)
                   else Inr ())))"

section \<open>Version 2\<close>

definition json_header :: "(string \<times> string) list" where
  "json_header = [(''Content-Type'', ''application/json'')]"

abbreviation request_url ::
  "api_version \<Rightarrow> protocol_type \<Rightarrow> string \<Rightarrow> u16 \<Rightarrow> string \<Rightarrow> (string \<times> string) list \<Rightarrow> string" where
  "request_url version protocol ip port path params \<equiv>
     url_to_string \<lparr>tu_version = version, tu_protocol = protocol_type_as_str protocol, tu_host = ip,
       tu_port = port, tu_path = path, tu_params = params\<rparr>"

definition client_register_v2 ::
  "'pk cert_lib \<Rightarrow> 'b body_lib \<Rightarrow> ('b, 's) network \<Rightarrow> protocol_type \<Rightarrow> string \<Rightarrow> u16
     \<Rightarrow> register_dto_v2 \<Rightarrow> 's \<Rightarrow> (string option \<times> info_dto_v2) client_result \<times> 's" where
  "client_register_v2 cl bl send protocol ip port payload w =
     (case send \<lparr>cq_method = Client_Post, cq_url = request_url Api_V2 protocol ip port ''/register'' [],
                 cq_headers = json_header, cq_payload = Json_Register_V2 payload\<rparr> w of
        (None, w) \<Rightarrow> (Inl Ce_Reqwest, w)
      | (Some res, w) \<Rightarrow>
          (if hr_status res \<noteq> 200 then Inl (into_error bl res)
           else
             (case (if protocol = Proto_Https
                    then map_sum id Some (verify_cert_from_res cl res None) else Inr None) of
                Inl e \<Rightarrow> Inl e
              | Inr public_key \<Rightarrow>
                  map_sum id (Pair public_key) (read_json (bl_register_v2 bl) res)), w))"

text \<open>
  \<open>cancelled\<close> tells whether the token is cancelled before the response is there; what the
  aborted request does to the world is for \<open>send\<close> to say.
\<close>

definition client_prepare_upload_v2 ::
  "'pk cert_lib \<Rightarrow> 'b body_lib \<Rightarrow> ('b, 's) network \<Rightarrow> protocol_type \<Rightarrow> string \<Rightarrow> u16 \<Rightarrow> string option
     \<Rightarrow> prepare_upload_request \<Rightarrow> string option \<Rightarrow> bool \<Rightarrow> 's
     \<Rightarrow> prepare_upload_result_v2 client_result \<times> 's" where
  "client_prepare_upload_v2 cl bl send protocol ip port public_key payload pin cancelled w =
     (let pin_params = (case pin of Some pin \<Rightarrow> [(''pin'', pin)] | None \<Rightarrow> []);
          (res, w) = send
            \<lparr>cq_method = Client_Post, cq_url = request_url Api_V2 protocol ip port ''/prepare-upload'' pin_params,
             cq_headers = json_header, cq_payload = Json_Prepare_V2 payload\<rparr> w
      in (if cancelled then Inl Ce_Cancelled
          else
            (case res of
               None \<Rightarrow> Inl Ce_Reqwest
             | Some res \<Rightarrow>
                 (case (if protocol = Proto_Https then verify_cert_from_res cl res public_key
                        else Inr '''') of
                    Inl e \<Rightarrow> Inl e
                  | Inr _ \<Rightarrow>
                      if hr_status res \<ge> 400 then Inl (into_error bl res)
                      else if hr_status res = 204
                      then Inr \<lparr>pv_status_code = hr_status res, pv_response = None\<rparr>
                      else map_sum id
                             (\<lambda>body. \<lparr>pv_status_code = hr_status res, pv_response = Some body\<rparr>)
                             (read_json (bl_prepare_v2 bl) res))), w))"

text \<open>What \<open>upload\<close> does in both versions, but for the URL.\<close>

definition upload_outcome_of ::
  "'pk cert_lib \<Rightarrow> 'b body_lib \<Rightarrow> protocol_type \<Rightarrow> string option \<Rightarrow> bool \<Rightarrow> 'b http_response option
     \<Rightarrow> unit client_result" where
  "upload_outcome_of cl bl protocol public_key cancelled res =
     (if cancelled then Inl Ce_Cancelled
      else
        (case res of
           None \<Rightarrow> Inl Ce_Reqwest
         | Some res \<Rightarrow>
             (case (if protocol = Proto_Https then verify_cert_from_res cl res public_key else Inr '''') of
                Inl e \<Rightarrow> Inl e
              | Inr _ \<Rightarrow> if hr_status res \<noteq> 200 then Inl (into_error bl res) else Inr ())))"

definition client_upload_v2 ::
  "'pk cert_lib \<Rightarrow> 'b body_lib \<Rightarrow> ('b, 's) network \<Rightarrow> protocol_type \<Rightarrow> string \<Rightarrow> u16 \<Rightarrow> string option
     \<Rightarrow> string \<Rightarrow> string \<Rightarrow> string \<Rightarrow> bytes list \<Rightarrow> bool \<Rightarrow> 's \<Rightarrow> unit client_result \<times> 's" where
  "client_upload_v2 cl bl send protocol ip port public_key session_id file_id token body cancelled w =
     (let (res, w) = send
        \<lparr>cq_method = Client_Post,
         cq_url = request_url Api_V2 protocol ip port ''/upload''
           [(''sessionId'', session_id), (''fileId'', file_id), (''token'', token)],
         cq_headers = [], cq_payload = File_Stream body\<rparr> w
      in (upload_outcome_of cl bl protocol public_key cancelled res, w))"

definition client_cancel_v2 ::
  "('b, 's) network \<Rightarrow> protocol_type \<Rightarrow> string \<Rightarrow> u16 \<Rightarrow> string \<Rightarrow> 's
     \<Rightarrow> unit client_result \<times> 's" where
  "client_cancel_v2 send protocol ip port session_id w =
     (case send
        \<lparr>cq_method = Client_Post,
         cq_url = request_url Api_V2 protocol ip port ''/cancel'' [(''sessionId'', session_id)],
         cq_headers = [], cq_payload = No_Payload\<rparr> w of
        (None, w) \<Rightarrow> (Inl Ce_Reqwest, w)
      | (Some _, w) \<Rightarrow> (Inr (), w))"

definition client_info_v2 ::
  "'b body_lib \<Rightarrow> ('b, 's) network \<Rightarrow> protocol_type \<Rightarrow> string \<Rightarrow> u16 \<Rightarrow> 's
     \<Rightarrow> info_dto_v2 client_result \<times> 's" where
  "client_info_v2 bl send protocol ip port w =
     (case send \<lparr>cq_method = Client_Get, cq_url = request_url Api_V2 protocol ip port ''/info'' [],
                 cq_headers = [], cq_payload = No_Payload\<rparr> w of
        (None, w) \<Rightarrow> (Inl Ce_Reqwest, w)
      | (Some res, w) \<Rightarrow>
          (if hr_status res \<noteq> 200 then Inl (into_error bl res) else read_json (bl_info bl) res, w))"

definition client_prepare_download ::
  "'b body_lib \<Rightarrow> ('b, 's) network \<Rightarrow> protocol_type \<Rightarrow> string \<Rightarrow> u16 \<Rightarrow> string option \<Rightarrow> string option
     \<Rightarrow> 's \<Rightarrow> prepare_download_response client_result \<times> 's" where
  "client_prepare_download bl send protocol ip port session_id pin w =
     (let params = (case session_id of Some s \<Rightarrow> [(''sessionId'', s)] | None \<Rightarrow> []) @
            (case pin of Some p \<Rightarrow> [(''pin'', p)] | None \<Rightarrow> [])
      in case send \<lparr>cq_method = Client_Post,
                    cq_url = request_url Api_V2 protocol ip port ''/prepare-download'' params,
                    cq_headers = [], cq_payload = No_Payload\<rparr> w of
           (None, w) \<Rightarrow> (Inl Ce_Reqwest, w)
         | (Some res, w) \<Rightarrow>
             (if hr_status res \<noteq> 200 then Inl (into_error bl res)
              else read_json (bl_download bl) res, w))"

definition client_download ::
  "'b body_lib \<Rightarrow> ('b, 's) network \<Rightarrow> protocol_type \<Rightarrow> string \<Rightarrow> u16 \<Rightarrow> string \<Rightarrow> string \<Rightarrow> 's
     \<Rightarrow> 'b http_response client_result \<times> 's" where
  "client_download bl send protocol ip port session_id file_id w =
     (case send
        \<lparr>cq_method = Client_Get,
         cq_url = request_url Api_V2 protocol ip port ''/download''
           [(''sessionId'', session_id), (''fileId'', file_id)],
         cq_headers = [], cq_payload = No_Payload\<rparr> w of
        (None, w) \<Rightarrow> (Inl Ce_Reqwest, w)
      | (Some res, w) \<Rightarrow> (if hr_status res \<noteq> 200 then Inl (into_error bl res) else Inr res, w))"

text \<open>
  Writing the chunks of a response: \<open>write_ok k\<close> tells whether the \<open>k\<close>-th of them can be written.
  The result comes with what has been written.
\<close>

fun write_chunks ::
  "(nat \<Rightarrow> bool) \<Rightarrow> nat \<Rightarrow> u64 \<Rightarrow> bytes option list \<Rightarrow> u64 client_result \<times> bytes" where
  "write_chunks write_ok k total_bytes [] = (Inr total_bytes, [])"
| "write_chunks write_ok k total_bytes (None # cs) = (Inl Ce_Reqwest, [])"
| "write_chunks write_ok k total_bytes (Some c # cs) =
     (if write_ok k
      then (let (r, written) = write_chunks write_ok (Suc k) (total_bytes + of_nat (length c)) cs
            in (r, c @ written))
      else (Inl Ce_Io, []))"

definition client_download_to_writer ::
  "'b body_lib \<Rightarrow> ('b, 's) network \<Rightarrow> protocol_type \<Rightarrow> string \<Rightarrow> u16 \<Rightarrow> string \<Rightarrow> string
     \<Rightarrow> (nat \<Rightarrow> bool) \<Rightarrow> bool \<Rightarrow> 's \<Rightarrow> (u64 client_result \<times> bytes) \<times> 's" where
  "client_download_to_writer bl send protocol ip port session_id file_id write_ok flush_ok w =
     (case client_download bl send protocol ip port session_id file_id w of
        (Inl e, w) \<Rightarrow> ((Inl e, []), w)
      | (Inr response, w) \<Rightarrow>
          (let stream = (case hr_body response of None \<Rightarrow> [None] | Some b \<Rightarrow> bl_chunks bl b);
               (r, written) = write_chunks write_ok 0 0 stream
           in ((case r of
                  Inl e \<Rightarrow> Inl e
                | Inr total_bytes \<Rightarrow> if flush_ok then Inr total_bytes else Inl Ce_Io, written), w)))"

section \<open>Version 3\<close>

record 'n nonce_maps =
  nm_received :: 'n
  nm_generated :: 'n

definition to_identifier ::
  "'pk cert_lib \<Rightarrow> 'b http_response \<Rightarrow> bool \<Rightarrow> string option \<Rightarrow> string client_result" where
  "to_identifier cl response require_cert public_key =
     (if require_cert then verify_cert_from_res cl response public_key
      else
        (case hr_remote response of
           Some ip \<Rightarrow> Inr (ip_to_string ip)
         | None \<Rightarrow> Inl (Ce_Other ''Remote address not found in response'')))"

text \<open>\<open>random\<close> gives the bytes of the new nonce.\<close>

definition client_nonce ::
  "('sk, 'ek, 'rk, 'x) crypto_lib_scheme \<Rightarrow> ('n, string, bytes, 'y) lru_ops_scheme \<Rightarrow> 'pk cert_lib
     \<Rightarrow> 'b body_lib \<Rightarrow> ('b, 's) network \<Rightarrow> protocol_type \<Rightarrow> string \<Rightarrow> u16 \<Rightarrow> (nat \<Rightarrow> u8)
     \<Rightarrow> 'n nonce_maps \<times> 's \<Rightarrow> string client_result \<times> 'n nonce_maps \<times> 's" where
  "client_nonce lib nops cl bl send protocol ip port random mw =
     (let (maps, w) = mw;
          generated_nonce = generate_nonce random
      in case send
           \<lparr>cq_method = Client_Post, cq_url = request_url Api_V3 protocol ip port ''/nonce'' [],
            cq_headers = [], cq_payload = Json_Nonce (cl_b64_encode lib generated_nonce)\<rparr> w of
           (None, w) \<Rightarrow> (Inl Ce_Reqwest, maps, w)
         | (Some res, w) \<Rightarrow>
             if hr_status res \<noteq> 200 then (Inl (into_error bl res), maps, w)
             else
               (case to_identifier cl res (protocol = Proto_Https) None of
                  Inl e \<Rightarrow> (Inl e, maps, w)
                | Inr remote_key \<Rightarrow>
                    (case read_json (bl_nonce bl) res of
                       Inl e \<Rightarrow> (Inl e, maps, w)
                     | Inr nonce \<Rightarrow>
                         (case cl_b64_decode lib nonce of
                            None \<Rightarrow> (Inl (Ce_Other ''base64''), maps, w)
                          | Some response_nonce \<Rightarrow>
                              (Inr nonce,
                               \<lparr>nm_received = lru_put nops (nm_received maps) remote_key response_nonce,
                                nm_generated =
                                  lru_put nops (nm_generated maps) remote_key generated_nonce\<rparr>, w)))))"

definition client_register_v3 ::
  "'pk cert_lib \<Rightarrow> 'b body_lib \<Rightarrow> ('b, 's) network \<Rightarrow> protocol_type \<Rightarrow> string \<Rightarrow> u16
     \<Rightarrow> register_dto \<Rightarrow> 's \<Rightarrow> (string option \<times> register_response_dto) client_result \<times> 's" where
  "client_register_v3 cl bl send protocol ip port payload w =
     (case send \<lparr>cq_method = Client_Post, cq_url = request_url Api_V3 protocol ip port ''/register'' [],
                 cq_headers = [], cq_payload = Json_Register payload\<rparr> w of
        (None, w) \<Rightarrow> (Inl Ce_Reqwest, w)
      | (Some res, w) \<Rightarrow>
          (case (if protocol = Proto_Https
                 then map_sum id Some (verify_cert_from_res cl res None) else Inr None) of
             Inl e \<Rightarrow> Inl e
           | Inr public_key \<Rightarrow> map_sum id (Pair public_key) (read_json (bl_register bl) res), w))"

definition client_prepare_upload_v3 ::
  "'pk cert_lib \<Rightarrow> 'b body_lib \<Rightarrow> ('b, 's) network \<Rightarrow> protocol_type \<Rightarrow> string \<Rightarrow> u16 \<Rightarrow> string option
     \<Rightarrow> prepare_upload_request_dto \<Rightarrow> bool \<Rightarrow> 's \<Rightarrow> prepare_upload_result client_result \<times> 's" where
  "client_prepare_upload_v3 cl bl send protocol ip port public_key payload cancelled w =
     (let (res, w) = send
        \<lparr>cq_method = Client_Post, cq_url = request_url Api_V3 protocol ip port ''/prepare-upload'' [],
         cq_headers = [], cq_payload = Json_Prepare payload\<rparr> w
      in (if cancelled then Inl Ce_Cancelled
          else
            (case res of
               None \<Rightarrow> Inl Ce_Reqwest
             | Some res \<Rightarrow>
                 (case (if protocol = Proto_Https then verify_cert_from_res cl res public_key
                        else Inr '''') of
                    Inl e \<Rightarrow> Inl e
                  | Inr _ \<Rightarrow>
                      if hr_status res \<ge> 400 then Inl (into_error bl res)
                      else if hr_status res = 204
                      then Inr \<lparr>pp_status_code = hr_status res, pp_response = None\<rparr>
                      else map_sum id
                             (\<lambda>body. \<lparr>pp_status_code = hr_status res, pp_response = Some body\<rparr>)
                             (read_json (bl_prepare bl) res))), w))"

definition client_upload_v3 ::
  "'pk cert_lib \<Rightarrow> 'b body_lib \<Rightarrow> ('b, 's) network \<Rightarrow> protocol_type \<Rightarrow> string \<Rightarrow> u16 \<Rightarrow> string option
     \<Rightarrow> string \<Rightarrow> string \<Rightarrow> string \<Rightarrow> bytes list \<Rightarrow> bool \<Rightarrow> 's \<Rightarrow> unit client_result \<times> 's" where
  "client_upload_v3 cl bl send protocol ip port public_key session_id file_id token body cancelled w =
     (let (res, w) = send
        \<lparr>cq_method = Client_Post,
         cq_url = request_url Api_V3 protocol ip port ''/upload''
           [(''sessionId'', session_id), (''fileId'', file_id), (''token'', token)],
         cq_headers = [], cq_payload = File_Stream body\<rparr> w
      in (upload_outcome_of cl bl protocol public_key cancelled res, w))"

definition client_cancel_v3 ::
  "('b, 's) network \<Rightarrow> protocol_type \<Rightarrow> string \<Rightarrow> u16 \<Rightarrow> string \<Rightarrow> 's
     \<Rightarrow> unit client_result \<times> 's" where
  "client_cancel_v3 send protocol ip port session_id w =
     (case send
        \<lparr>cq_method = Client_Post,
         cq_url = request_url Api_V3 protocol ip port ''/cancel'' [(''sessionId'', session_id)],
         cq_headers = [], cq_payload = No_Payload\<rparr> w of
        (None, w) \<Rightarrow> (Inl Ce_Reqwest, w)
      | (Some _, w) \<Rightarrow> (Inr (), w))"

section \<open>Either version\<close>

text \<open>A body that reports, with each chunk, how many bytes have been read so far.\<close>

fun upload_chunks :: "u64 \<Rightarrow> bytes list \<Rightarrow> bytes list \<times> u64 list" where
  "upload_chunks sent [] = ([], [])"
| "upload_chunks sent (chunk # chunks) =
     (let sent = sent + of_nat (length chunk);
          (stream, progress) = upload_chunks sent chunks
      in (chunk # stream, sent # progress))"

definition upload_body :: "(file_content \<Rightarrow> bytes list) \<Rightarrow> file_content \<Rightarrow> bytes list \<times> u64 list" where
  "upload_body receiver content = upload_chunks 0 (receiver content)"

text \<open>The two clients differ in their methods, not in their state, but for the nonces of version 3.\<close>

datatype ls_http_client = Ls_V2 | Ls_V3

definition ls_register ::
  "ls_http_client \<Rightarrow> 'pk cert_lib \<Rightarrow> 'b body_lib \<Rightarrow> ('b, 's) network \<Rightarrow> protocol_type \<Rightarrow> string \<Rightarrow> u16
     \<Rightarrow> register_dto \<Rightarrow> 's \<Rightarrow> (string option \<times> register_response_dto) client_result \<times> 's" where
  "ls_register client cl bl send protocol ip port payload w =
     (case client of
        Ls_V2 \<Rightarrow>
          (let (r, w) = client_register_v2 cl bl send protocol ip port (register_to_v2 payload) w
           in (map_sum id (map_prod id register_response_from_v2) r, w))
      | Ls_V3 \<Rightarrow> client_register_v3 cl bl send protocol ip port payload w)"

definition ls_prepare_upload ::
  "ls_http_client \<Rightarrow> 'pk cert_lib \<Rightarrow> 'b body_lib \<Rightarrow> ('b, 's) network \<Rightarrow> protocol_type \<Rightarrow> string \<Rightarrow> u16
     \<Rightarrow> string option \<Rightarrow> prepare_upload_request_dto \<Rightarrow> string option \<Rightarrow> bool \<Rightarrow> 's
     \<Rightarrow> prepare_upload_result client_result \<times> 's" where
  "ls_prepare_upload client cl bl send protocol ip port public_key payload pin cancelled w =
     (case client of
        Ls_V2 \<Rightarrow>
          (let (r, w) = client_prepare_upload_v2 cl bl send protocol ip port public_key
                 (prepare_to_v2 payload) pin cancelled w
           in (map_sum id prepare_result_from_v2 r, w))
      | Ls_V3 \<Rightarrow> client_prepare_upload_v3 cl bl send protocol ip port public_key payload cancelled w)"

definition ls_upload ::
  "ls_http_client \<Rightarrow> 'pk cert_lib \<Rightarrow> 'b body_lib \<Rightarrow> (file_content \<Rightarrow> bytes list) \<Rightarrow> ('b, 's) network
     \<Rightarrow> protocol_type \<Rightarrow> string \<Rightarrow> u16 \<Rightarrow> string option \<Rightarrow> string \<Rightarrow> string \<Rightarrow> string \<Rightarrow> file_content \<Rightarrow> bool
     \<Rightarrow> 's \<Rightarrow> unit client_result \<times> 's" where
  "ls_upload client cl bl receiver send protocol ip port public_key session_id file_id token content
     cancelled w =
     (let body = fst (upload_body receiver content)
      in case client of
           Ls_V2 \<Rightarrow> client_upload_v2 cl bl send protocol ip port public_key session_id file_id token body
                      cancelled w
         | Ls_V3 \<Rightarrow> client_upload_v3 cl bl send protocol ip port public_key session_id file_id token body
                      cancelled w)"

definition ls_cancel ::
  "ls_http_client \<Rightarrow> ('b, 's) network \<Rightarrow> protocol_type \<Rightarrow> string \<Rightarrow> u16 \<Rightarrow> string \<Rightarrow> 's
     \<Rightarrow> unit client_result \<times> 's" where
  "ls_cancel client send protocol ip port session_id w =
     (case client of
        Ls_V2 \<Rightarrow> client_cancel_v2 send protocol ip port session_id w
      | Ls_V3 \<Rightarrow> client_cancel_v3 send protocol ip port session_id w)"

end
