(* ===== verification/Client_Tls.thy ===== *)
theory Client_Tls
  imports Http_Client
begin

text \<open>
  The client over TLS: which certificates its verifier accepts, and that a peer with another
  certificate never sees a request to an \<open>https\<close> URL. What \<open>rustls\<close> and \<open>reqwest\<close> contribute is the contract
  \<open>pinned_transport\<close>: for such a URL the verifier runs in the handshake, before anything is sent. A
  request to an \<open>http\<close> URL has no handshake and goes to whoever listens.
\<close>

section \<open>The verifier\<close>

lemma ascii_upper_eq_iff: "ascii_upper a = ascii_upper b \<longleftrightarrow> ascii_lower a = ascii_lower b"
proof -
  define m n where "m = (of_char a :: nat)" and "n = (of_char b :: nat)"
  have bounds: "m < 256" "n < 256" by (simp_all add: m_def n_def)
  have char_eq: "char_of i = (char_of j :: char) \<longleftrightarrow> i = j" if "i < 256" "j < 256" for i j :: nat
    using that by (metis of_char_of mod_less)
  have ab: "a = char_of m" "b = char_of n" by (simp_all add: m_def n_def)
  have up: "ascii_upper (char_of k) = char_of (if 97 \<le> k \<and> k \<le> 122 then k - 32 else k)"
    and low: "ascii_lower (char_of k) = char_of (if 65 \<le> k \<and> k \<le> 90 then k + 32 else k)"
    if "k < 256" for k :: nat
    using that by (simp_all add: ascii_upper_def ascii_lower_def Let_def)
  show ?thesis
    unfolding ab up [OF bounds(1)] up [OF bounds(2)] low [OF bounds(1)] low [OF bounds(2)]
    using bounds by (subst char_eq; (subst char_eq)?; auto split: if_splits)
qed

lemma uppercase_eq_iff: "to_ascii_uppercase s = to_ascii_uppercase t \<longleftrightarrow> eq_ignore_ascii_case s t"
proof (induction s arbitrary: t)
  case (Cons a s)
  then show ?case
    by (cases t) (auto simp: to_ascii_uppercase_def eq_ignore_ascii_case_def ascii_upper_eq_iff)
qed (auto simp: to_ascii_uppercase_def eq_ignore_ascii_case_def)

lemma verify_server_cert_pinned:
  "verify_server_cert lib cl (verifier_try_new (Some fp)) cert = Inr () \<longleftrightarrow>
     (\<exists>c. ct_parse_der cl cert = Some c \<and> x_time_valid c \<and> x_self_signed c) \<and>
     eq_ignore_ascii_case fp (sha256_hex lib cert)"
proof (cases "ct_parse_der cl cert")
  case (Some c)
  show ?thesis
    using Some verify_cert_from_cert_ok_iff [of "ct_parse_pem_key cl" c None]
    by (cases "verify_cert_from_cert (ct_parse_pem_key cl) c None")
      (auto simp: verify_server_cert_def verifier_try_new_def verify_cert_from_der_def Let_def
        fingerprint_is_upper_hex sha256_hex_def uppercase_eq_iff [symmetric])
qed (simp add: verify_server_cert_def verify_cert_from_der_def)

section \<open>The contract of the transport\<close>

text \<open>The scheme of a URL decides whether the connection has TLS; nothing sets \<open>https_only\<close>.\<close>

definition https_url :: "string \<Rightarrow> bool" where
  "https_url url \<longleftrightarrow> take 8 url = ''https://''"

lemma https_request_url [simp]:
  "https_url (request_url version protocol ip port path params) \<longleftrightarrow> protocol = Proto_Https"
  by (cases protocol) (simp_all add: https_url_def url_to_string_def protocol_type_as_str_def Let_def split: option.split)

locale pinned_transport =
  fixes lib :: "('sk, 'ek, 'rk) crypto_lib" and cl :: "'pk cert_lib" and verifier :: cert_verifier
    and peer_cert :: bytes and transport :: "('b, 's) network"
  assumes refused: "https_url (cq_url req) \<Longrightarrow> verify_server_cert lib cl verifier peer_cert \<noteq> Inr () \<Longrightarrow>
      transport req w = (None, w)"
    and certified: "https_url (cq_url req) \<Longrightarrow> transport req w = (Some res, w') \<Longrightarrow>
      hr_tls res = Some (Some peer_cert)"
    and plain: "\<not> https_url (cq_url req) \<Longrightarrow> transport req w = (Some res, w') \<Longrightarrow> hr_tls res = None"
begin

text \<open>A peer the verifier does not accept is sent nothing over TLS, and the caller gets an error.\<close>

lemma refused_upload:
  "verify_server_cert lib cl verifier peer_cert \<noteq> Inr () \<Longrightarrow>
     \<exists>e. ls_upload client cl bl receiver transport Proto_Https ip port pk sid fid tok content cancelled w = (Inl e, w)"
  by (cases client)
    (auto simp: ls_upload_def client_upload_v2_def client_upload_v3_def refused upload_outcome_of_def)

lemma refused_prepare_upload:
  "verify_server_cert lib cl verifier peer_cert \<noteq> Inr () \<Longrightarrow>
     \<exists>e. ls_prepare_upload client cl bl transport Proto_Https ip port pk payload pin cancelled w = (Inl e, w)"
  by (cases client)
    (auto simp: ls_prepare_upload_def client_prepare_upload_v2_def client_prepare_upload_v3_def refused Let_def)

lemma refused_register:
  "verify_server_cert lib cl verifier peer_cert \<noteq> Inr () \<Longrightarrow>
     \<exists>e. ls_register client cl bl transport Proto_Https ip port payload w = (Inl e, w)"
  by (cases client) (auto simp: ls_register_def client_register_v2_def client_register_v3_def refused)

lemma refused_cancel:
  "verify_server_cert lib cl verifier peer_cert \<noteq> Inr () \<Longrightarrow>
     \<exists>e. ls_cancel client transport Proto_Https ip port sid w = (Inl e, w)"
  by (cases client) (simp_all add: ls_cancel_def client_cancel_v2_def client_cancel_v3_def refused)

text \<open>An upload that is reported as done went to a peer with the expected key.\<close>

lemma upload_ok_key:
  assumes "ls_upload client cl bl receiver transport Proto_Https ip port (Some pem) sid fid tok content cancelled w
    = (Inr (), w')"
  shows "\<exists>c. ct_parse_der cl peer_cert = Some c \<and> x_self_signed c \<and> x_subject_key c \<noteq> None \<and>
    ct_parse_pem_key cl pem = x_subject_key c"
proof -
  define url where "url = request_url (case client of Ls_V2 \<Rightarrow> Api_V2 | Ls_V3 \<Rightarrow> Api_V3) Proto_Https ip port ''/upload''
    [(''sessionId'', sid), (''fileId'', fid), (''token'', tok)]"
  obtain req res where req: "cq_url req = url" and sent: "transport req w = (Some res, w')"
    and ok: "verify_cert_from_res cl res (Some pem) = Inr pem"
  proof (cases "transport \<lparr>cq_method = Client_Post, cq_url = url, cq_headers = [],
      cq_payload = File_Stream (fst (upload_body receiver content))\<rparr> w")
    case (Pair r w1)
    then show thesis
      using that [of "\<lparr>cq_method = Client_Post, cq_url = url, cq_headers = [],
          cq_payload = File_Stream (fst (upload_body receiver content))\<rparr>" "the r"] assms
      by (cases client)
        (auto simp: url_def ls_upload_def client_upload_v2_def client_upload_v3_def upload_outcome_of_def
          verify_cert_from_res_def Let_def split: if_splits option.splits sum.splits)
  qed
  have https: "https_url (cq_url req)" by (simp add: req url_def)
  from certified [OF https sent] ok show ?thesis
    by (auto simp: verify_cert_from_res_def verify_cert_from_der_def verify_cert_from_cert_ok_iff
        split: option.splits sum.splits)
qed

end

text \<open>
  A transport of this kind: \<open>serve\<close> is the peer, which answers a request with a status and a
  body, and its certificate is looked at only for a URL with TLS.
\<close>

definition tls_send ::
  "('sk, 'ek, 'rk) crypto_lib \<Rightarrow> 'pk cert_lib \<Rightarrow> cert_verifier \<Rightarrow> bytes \<Rightarrow> ip_addr option
     \<Rightarrow> (client_request \<Rightarrow> 's \<Rightarrow> (status \<times> 'b option) option \<times> 's) \<Rightarrow> ('b, 's) network" where
  "tls_send lib cl verifier peer_cert remote serve req w =
     (if https_url (cq_url req) \<and> verify_server_cert lib cl verifier peer_cert \<noteq> Inr () then (None, w)
      else
        (case serve req w of
           (None, w) \<Rightarrow> (None, w)
         | (Some (status, body), w) \<Rightarrow>
             (Some \<lparr>hr_status = status,
                    hr_tls = (if https_url (cq_url req) then Some (Some peer_cert) else None),
                    hr_remote = remote, hr_body = body\<rparr>, w)))"

interpretation tls: pinned_transport lib cl verifier peer_cert "tls_send lib cl verifier peer_cert remote serve"
  for lib cl verifier peer_cert remote serve
  by unfold_locales
    (auto simp: tls_send_def split: if_splits prod.splits option.splits)

section \<open>Properties\<close>

text \<open>
  C32: A client that expects a fingerprint accepts exactly the self-signed certificates, valid now,
  whose SHA-256 has that fingerprint, however its letters are written.
\<close>

theorem pinned_verifier_exact:
  "verify_server_cert lib cl (verifier_try_new (Some fp)) cert = Inr () \<longleftrightarrow>
     (\<exists>c. ct_parse_der cl cert = Some c \<and> x_time_valid c \<and> x_self_signed c) \<and>
     eq_ignore_ascii_case fp (sha256_hex lib cert)"
  by (rule verify_server_cert_pinned)

text \<open>
  A peer whose certificate has another fingerprint than the client expects learns nothing
  over TLS: no call changes its state, and every one of them fails.
\<close>

theorem impostor_learns_nothing:
  assumes "\<not> eq_ignore_ascii_case fp (sha256_hex lib peer_cert)"
    and "transport = tls_send lib cl (verifier_try_new (Some fp)) peer_cert remote serve"
  shows "(\<exists>e. ls_upload client cl bl receiver transport Proto_Https ip port pk sid fid tok content cancelled w = (Inl e, w)) \<and>
    (\<exists>e. ls_prepare_upload client cl bl transport Proto_Https ip port pk payload pin cancelled w = (Inl e, w)) \<and>
    (\<exists>e. ls_register client cl bl transport Proto_Https ip port info w = (Inl e, w)) \<and>
    (\<exists>e. ls_cancel client transport Proto_Https ip port sid w = (Inl e, w))"
proof -
  have "verify_server_cert lib cl (verifier_try_new (Some fp)) peer_cert \<noteq> Inr ()"
    using assms(1) by (simp add: verify_server_cert_pinned)
  then show ?thesis
    unfolding assms(2)
    by (intro conjI tls.refused_upload tls.refused_prepare_upload tls.refused_register tls.refused_cancel)
qed

text \<open>Over plain HTTP the fingerprint is not looked at: whoever listens at the address is told the request.\<close>

lemma plain_calls_ignore_pin:
  "snd (ls_cancel client (tls_send lib cl verifier peer_cert remote serve) Proto_Http ip port sid w) =
     snd (serve \<lparr>cq_method = Client_Post,
       cq_url = request_url (case client of Ls_V2 \<Rightarrow> Api_V2 | Ls_V3 \<Rightarrow> Api_V3) Proto_Http ip port ''/cancel'' [(''sessionId'', sid)],
       cq_headers = [], cq_payload = No_Payload\<rparr> w)"
  by (cases client)
    (simp_all add: ls_cancel_def client_cancel_v2_def client_cancel_v3_def tls_send_def split: prod.splits option.splits)

definition sample_cert_lib :: "unit cert_lib" where
  "sample_cert_lib = \<lparr>ct_parse_der = (\<lambda>cert. Some \<lparr>x_time_valid = True, x_subject_key = Some (),
     x_self_signed = True, x_spki_raw = cert\<rparr>), ct_parse_pem_key = (\<lambda>_. Some ()), ct_pem_encode = to_hex\<rparr>"

theorem impostor_learns_nothing_witness:
  "snd (ls_cancel Ls_V2 (tls_send sample_lib sample_cert_lib (verifier_try_new (Some ''02'')) [1] None
     (\<lambda>req w. (Some (200, None :: unit option), Suc w))) Proto_Https ''10.0.0.1'' 53317 ''s'' 0) = 0"
proof -
  have "\<not> eq_ignore_ascii_case ''02'' (sha256_hex sample_lib [1])"
    by (simp add: sha256_hex_def sample_lib_def to_hex_def hex_byte_def hex_digit_def
        eq_ignore_ascii_case_def ascii_lower_def Let_def)
  from impostor_learns_nothing [OF this refl, where cl = sample_cert_lib and remote = None
      and serve = "\<lambda>req w. (Some (200, None :: unit option), Suc w)" and client = Ls_V2
      and ip = "''10.0.0.1''" and port = 53317 and sid = "''s''" and w = 0]
  obtain e where "ls_cancel Ls_V2 (tls_send sample_lib sample_cert_lib (verifier_try_new (Some ''02'')) [1] None
     (\<lambda>req w. (Some (200, None :: unit option), Suc w))) Proto_Https ''10.0.0.1'' 53317 ''s'' 0 = (Inl e, 0)"
    by blast
  then show ?thesis by simp
qed

end
