(* ===== verification/Client_Config.thy ===== *)
theory Client_Config
  imports Client_Tls
begin

text \<open>
  Making an HTTP client (\<open>http/client/mod.rs\<close>, \<open>v2.rs\<close>, \<open>v3.rs\<close>, and \<open>create_client\<close> of the Flutter bindings): the TLS
  configuration with its verifier, the options of the client, and the network such a client then speaks to.
\<close>

section \<open>Configurations\<close>

text \<open>
  What rustls and reqwest make of the texts, each with its error: parsing the certificate and the key, the certificate as
  a root of the inner verifier, the pair for the client side, and building the client.
\<close>

record client_tls_lib =
  kt_certificate :: "string \<Rightarrow> string option"
  kt_key :: "string \<Rightarrow> string option"
  kt_root :: "string \<Rightarrow> string option"
  kt_client_auth :: "string \<Rightarrow> string \<Rightarrow> string option"
  kt_build :: bool

text \<open>
  A client of reqwest: whose certificate it presents, how it checks the one of the server (\<open>None\<close>: not at all), the
  application protocols (\<open>None\<close>: those reqwest chooses), whether a response tells the certificate, whether scoped host names are resolved, and how
  long a request may take, in milliseconds.
\<close>

record reqwest_client =
  rq_identity :: "(string \<times> string) option"
  rq_verifier :: "cert_verifier option"
  rq_alpn :: "string list option"
  rq_tls_info :: bool
  rq_scoped_hosts :: bool
  rq_timeout :: "nat option"

definition tls_check :: "string option \<Rightarrow> 'a client_result \<Rightarrow> 'a client_result" where
  "tls_check failure rest = (case failure of Some e \<Rightarrow> Inl (Ce_Other e) | None \<Rightarrow> rest)"

definition pinned_verifier_try_new :: "client_tls_lib \<Rightarrow> string \<Rightarrow> string option \<Rightarrow> cert_verifier client_result" where
  "pinned_verifier_try_new kt cert expected_fingerprint =
     tls_check (kt_root kt cert) (Inr (verifier_try_new expected_fingerprint))"

definition create_reqwest_client ::
  "client_tls_lib \<Rightarrow> string \<Rightarrow> string \<Rightarrow> string option \<Rightarrow> nat option \<Rightarrow> reqwest_client client_result" where
  "create_reqwest_client kt private_key cert expected_fingerprint timeout =
     tls_check (kt_certificate kt cert) (tls_check (kt_key kt private_key)
       (case pinned_verifier_try_new kt cert expected_fingerprint of
          Inl e \<Rightarrow> Inl e
        | Inr verifier \<Rightarrow>
            tls_check (kt_client_auth kt cert private_key)
              (if kt_build kt
               then Inr \<lparr>rq_identity = Some (cert, private_key), rq_verifier = Some verifier,
                         rq_alpn = Some [''h2'', ''http/1.1''], rq_tls_info = True, rq_scoped_hosts = True,
                         rq_timeout = timeout\<rparr>
               else Inl Ce_Reqwest)))"

text \<open>Only the tests of the library make this one; it takes any certificate, and the resolver of the system.\<close>

definition try_new_without_cert :: "client_tls_lib \<Rightarrow> reqwest_client client_result" where
  "try_new_without_cert kt =
     (if kt_build kt
      then Inr \<lparr>rq_identity = None, rq_verifier = None, rq_alpn = None, rq_tls_info = True,
                rq_scoped_hosts = False, rq_timeout = None\<rparr>
      else Inl Ce_Reqwest)"

section \<open>Clients\<close>

text \<open>A client of version 3 keeps two caches of nonces; \<open>new_lru\<close> makes an empty one of a capacity.\<close>

datatype 'n http_client =
    Client_V2 reqwest_client
  | Client_V3 reqwest_client "'n nonce_maps"

definition v2_try_new ::
  "client_tls_lib \<Rightarrow> string \<Rightarrow> string \<Rightarrow> string option \<Rightarrow> nat option \<Rightarrow> 'n http_client client_result" where
  "v2_try_new kt private_key cert expected_fingerprint timeout =
     map_sum id Client_V2 (create_reqwest_client kt private_key cert expected_fingerprint timeout)"

definition v3_try_new ::
  "(nat \<Rightarrow> 'n) \<Rightarrow> client_tls_lib \<Rightarrow> string \<Rightarrow> string \<Rightarrow> string option \<Rightarrow> nat option \<Rightarrow> 'n http_client client_result" where
  "v3_try_new new_lru kt private_key cert expected_fingerprint timeout =
     map_sum id (\<lambda>client. Client_V3 client \<lparr>nm_received = new_lru 200, nm_generated = new_lru 200\<rparr>)
       (create_reqwest_client kt private_key cert expected_fingerprint timeout)"

definition ls_client_new ::
  "(nat \<Rightarrow> 'n) \<Rightarrow> client_tls_lib \<Rightarrow> string \<Rightarrow> string \<Rightarrow> ls_http_client \<Rightarrow> string option \<Rightarrow> nat option
     \<Rightarrow> 'n http_client client_result" where
  "ls_client_new new_lru kt private_key cert version expected_fingerprint timeout =
     (case version of
        Ls_V2 \<Rightarrow> v2_try_new kt private_key cert expected_fingerprint timeout
      | Ls_V3 \<Rightarrow> v3_try_new new_lru kt private_key cert expected_fingerprint timeout)"

text \<open>The call of the application: milliseconds of 32 bits, and its own errors.\<close>

definition create_client ::
  "(nat \<Rightarrow> 'n) \<Rightarrow> client_tls_lib \<Rightarrow> string \<Rightarrow> string \<Rightarrow> ls_http_client \<Rightarrow> string option \<Rightarrow> u32 option
     \<Rightarrow> 'n http_client client_result" where
  "create_client new_lru kt private_key cert version expected_fingerprint timeout_ms =
     ls_client_new new_lru kt private_key cert version expected_fingerprint (map_option unat timeout_ms)"

fun inner_client :: "'n http_client \<Rightarrow> reqwest_client" where
  "inner_client (Client_V2 client) = client"
| "inner_client (Client_V3 client maps) = client"

fun client_version :: "'n http_client \<Rightarrow> ls_http_client" where
  "client_version (Client_V2 client) = Ls_V2"
| "client_version (Client_V3 client maps) = Ls_V3"

text \<open>
  The network of a client, with the contract of \<open>Client_Tls\<close>: the verifier runs in the handshake, which only an \<open>https\<close>
  URL has.
\<close>

definition client_network ::
  "('sk, 'ek, 'rk) crypto_lib \<Rightarrow> 'pk cert_lib \<Rightarrow> reqwest_client \<Rightarrow> bytes \<Rightarrow> ip_addr option
     \<Rightarrow> (client_request \<Rightarrow> 's \<Rightarrow> (status \<times> 'b option) option \<times> 's) \<Rightarrow> ('b, 's) network" where
  "client_network lib cl client peer_cert remote serve req w =
     (case rq_verifier client of
        Some verifier \<Rightarrow> tls_send lib cl verifier peer_cert remote serve req w
      | None \<Rightarrow>
          (case serve req w of
             (None, w) \<Rightarrow> (None, w)
           | (Some (status, body), w) \<Rightarrow>
               (Some \<lparr>hr_status = status,
                      hr_tls = (if https_url (cq_url req) then Some (Some peer_cert) else None),
                      hr_remote = remote, hr_body = body\<rparr>, w)))"

section \<open>Lemmas\<close>

lemma tls_check_Inr [simp]: "tls_check failure rest = Inr x \<longleftrightarrow> failure = None \<and> rest = Inr x"
  by (cases failure) (simp_all add: tls_check_def)

lemma map_sum_Inr_iff: "map_sum id f r = Inr x \<longleftrightarrow> (\<exists>y. r = Inr y \<and> x = f y)"
  by (cases r) auto

lemma created_reqwest_client:
  "create_reqwest_client kt private_key cert expected timeout = Inr client \<longleftrightarrow>
     kt_certificate kt cert = None \<and> kt_key kt private_key = None \<and> kt_root kt cert = None \<and>
     kt_client_auth kt cert private_key = None \<and> kt_build kt \<and>
     client = \<lparr>rq_identity = Some (cert, private_key), rq_verifier = Some (verifier_try_new expected),
       rq_alpn = Some [''h2'', ''http/1.1''], rq_tls_info = True, rq_scoped_hosts = True, rq_timeout = timeout\<rparr>"
  by (auto simp: create_reqwest_client_def pinned_verifier_try_new_def tls_check_def split: sum.splits option.splits)

lemma created_client:
  "create_client new_lru kt private_key cert version expected timeout = Inr client \<Longrightarrow>
     client_version client = version \<and>
     create_reqwest_client kt private_key cert expected (map_option unat timeout) = Inr (inner_client client)"
  by (auto simp: create_client_def ls_client_new_def v2_try_new_def v3_try_new_def map_sum_Inr_iff split: ls_http_client.splits)

section \<open>Properties\<close>

text \<open>
  C31: A client that the application creates with a fingerprint presents its own certificate, and with the protocol
  \<open>https\<close> it never tells a request to a peer whose certificate has another one: each of its calls fails and leaves the
  peer as it was. Without a fingerprint the client still refuses what is not a valid self-signed certificate.
\<close>

theorem created_client_pinned:
  assumes "create_client new_lru kt private_key cert version expected timeout = Inr client"
    and "transport = client_network lib cl (inner_client client) peer_cert remote serve"
    and "case expected of
        Some fp \<Rightarrow> \<not> eq_ignore_ascii_case fp (sha256_hex lib peer_cert)
      | None \<Rightarrow> \<not> (\<exists>c. ct_parse_der cl peer_cert = Some c \<and> x_time_valid c \<and> x_self_signed c)"
  shows "rq_identity (inner_client client) = Some (cert, private_key) \<and>
    (\<exists>e. ls_upload (client_version client) cl bl receiver transport Proto_Https ip port pk sid fid tok content cancelled w = (Inl e, w)) \<and>
    (\<exists>e. ls_prepare_upload (client_version client) cl bl transport Proto_Https ip port pk payload pin cancelled w = (Inl e, w)) \<and>
    (\<exists>e. ls_register (client_version client) cl bl transport Proto_Https ip port info w = (Inl e, w)) \<and>
    (\<exists>e. ls_cancel (client_version client) transport Proto_Https ip port sid w = (Inl e, w))"
proof -
  have made: "create_reqwest_client kt private_key cert expected (map_option unat timeout) = Inr (inner_client client)"
    using created_client [OF assms(1)] by blast
  then have verifier: "rq_verifier (inner_client client) = Some (verifier_try_new expected)"
      and identity: "rq_identity (inner_client client) = Some (cert, private_key)"
    by (simp_all add: created_reqwest_client)
  have transport: "transport = tls_send lib cl (verifier_try_new expected) peer_cert remote serve"
    unfolding assms(2) by (simp add: client_network_def verifier fun_eq_iff)
  have "verify_server_cert lib cl (verifier_try_new expected) peer_cert \<noteq> Inr ()"
  proof (cases expected)
    case None
    then show ?thesis
      using assms(3) verify_cert_from_cert_ok_iff [of "ct_parse_pem_key cl" _ None]
      by (auto simp: verify_server_cert_def verify_cert_from_der_def split: sum.splits option.splits)
  qed (use assms(3) in \<open>simp add: verify_server_cert_pinned\<close>)
  then show ?thesis
    unfolding transport using identity
    by (intro conjI tls.refused_upload tls.refused_prepare_upload tls.refused_register tls.refused_cancel)
qed

text \<open>With the protocol \<open>http\<close> the same client tells its request to whoever listens, whatever it was told to expect.\<close>

lemma created_client_pin_needs_https:
  assumes "create_client new_lru kt private_key cert version (Some fp) timeout = Inr client"
  shows "snd (ls_cancel (client_version client) (client_network lib cl (inner_client client) peer_cert remote serve) Proto_Http
      ip port sid w) =
    snd (serve \<lparr>cq_method = Client_Post,
      cq_url = request_url (case client_version client of Ls_V2 \<Rightarrow> Api_V2 | Ls_V3 \<Rightarrow> Api_V3) Proto_Http ip port ''/cancel''
        [(''sessionId'', sid)],
      cq_headers = [], cq_payload = No_Payload\<rparr> w)"
proof -
  have "rq_verifier (inner_client client) = Some (verifier_try_new (Some fp))"
    using created_client [OF assms] by (simp add: created_reqwest_client)
  then have "client_network lib cl (inner_client client) peer_cert remote serve =
      tls_send lib cl (verifier_try_new (Some fp)) peer_cert remote serve"
    by (simp add: client_network_def fun_eq_iff)
  then show ?thesis by (simp only: plain_calls_ignore_pin)
qed

text \<open>The client that is made without a certificate tells its requests to anyone.\<close>

lemma client_without_cert_tells_anyone:
  "try_new_without_cert kt = Inr client \<Longrightarrow> snd (serve req w) = w' \<Longrightarrow>
     snd (client_network lib cl client peer_cert remote serve req w) = w'"
  by (auto simp: try_new_without_cert_def client_network_def split: if_splits prod.splits option.splits)

definition sample_client_tls :: client_tls_lib where
  "sample_client_tls = \<lparr>kt_certificate = (\<lambda>_. None), kt_key = (\<lambda>_. None), kt_root = (\<lambda>_. None),
     kt_client_auth = (\<lambda>_ _. None), kt_build = True\<rparr>"

theorem created_client_pinned_witness:
  "\<exists>client. create_client (\<lambda>n. n) sample_client_tls ''key'' ''cert'' Ls_V2 (Some ''02'') (Some 500) = Inr client \<and>
     snd (ls_cancel (client_version client) (client_network sample_lib sample_cert_lib (inner_client client) [1] None
       (\<lambda>req w. (Some (200, None :: unit option), Suc w))) Proto_Https ''10.0.0.1'' 53317 ''s'' 0) = 0"
proof -
  obtain client where made: "create_client (\<lambda>n. n) sample_client_tls ''key'' ''cert'' Ls_V2 (Some ''02'') (Some 500) = Inr client"
    by (simp add: create_client_def ls_client_new_def v2_try_new_def create_reqwest_client_def pinned_verifier_try_new_def
        tls_check_def sample_client_tls_def)
  have "case Some ''02'' of Some fp \<Rightarrow> \<not> eq_ignore_ascii_case fp (sha256_hex sample_lib [1]) | None \<Rightarrow>
      \<not> (\<exists>c. ct_parse_der sample_cert_lib [1] = Some c \<and> x_time_valid c \<and> x_self_signed c)"
    by (simp add: sha256_hex_def sample_lib_def to_hex_def hex_byte_def hex_digit_def eq_ignore_ascii_case_def ascii_lower_def
        Let_def)
  from created_client_pinned [OF made refl this, where remote = None and ip = "''10.0.0.1''"
      and port = 53317 and sid = "''s''" and w = 0 and serve = "\<lambda>req w. (Some (200, None :: unit option), Suc w)"] made
  show ?thesis by (metis snd_conv)
qed

end
