(* ===== verification/Client_Server.thy ===== *)
theory Client_Server
  imports Client_Tls Router
begin

text \<open>
  The HTTP client and the server of the repository connected to each other: what a transfer
  comes to on both sides. Between them are other crates: \<open>reqwest\<close>, \<open>url\<close> and \<open>hyper\<close> carry the
  URL and the body, \<open>form_urlencoded\<close> reads the query, \<open>serde_json\<close> prints and parses. They are
  the record \<open>link\<close>, and \<open>link_laws\<close> states what is relied on.
\<close>

section \<open>The link\<close>

record link =
  lk_target :: "string \<Rightarrow> string \<times> string option"
  lk_json :: "client_payload \<Rightarrow> bytes"
  lk_frames :: "bytes list \<Rightarrow> body_frame list"

definition plain_char :: "char \<Rightarrow> bool" where
  "plain_char c \<longleftrightarrow>
     (let n = of_char c :: nat
      in 48 \<le> n \<and> n \<le> 57 \<or> 65 \<le> n \<and> n \<le> 90 \<or> 97 \<le> n \<and> n \<le> 122 \<or> c \<in> {CHR ''-'', CHR ''.'', CHR ''_'', CHR ''~''})"

abbreviation plain :: "string \<Rightarrow> bool" where
  "plain s \<equiv> list_all plain_char s"

abbreviation plain_params :: "(string \<times> string) list \<Rightarrow> bool" where
  "plain_params ps \<equiv> list_all (\<lambda>(k, v). plain k \<and> plain v) ps"

definition version_str :: "api_version \<Rightarrow> string" where
  "version_str v = (case v of Api_V2 \<Rightarrow> ''v2'' | Api_V3 \<Rightarrow> ''v3'')"

text \<open>
  Of a URL with an address as its host, and with parameters of letters, digits and the
  characters that need no encoding, the server sees the path and the query as they were
  written, and parses the query into the parameters. A body that arrives unbroken is the
  concatenation of its chunks. That a request type is parsed into the value that was printed is
  said where it is used.
\<close>

definition link_laws :: "link \<Rightarrow> parsers \<Rightarrow> bool" where
  "link_laws lk ps \<longleftrightarrow>
     (\<forall>version protocol peer port path params.
        plain_params params \<longrightarrow> list_all (\<lambda>c. plain_char c \<or> c = CHR ''/'') path \<longrightarrow>
        lk_target lk (request_url version protocol (peer_to_string peer) port (CHR ''/'' # path) params) =
          (''/api/localsend/'' @ version_str version @ CHR ''/'' # path,
           if params = [] then None else Some (query_string params))) \<and>
     (\<forall>params. plain_params params \<longrightarrow> params \<noteq> [] \<longrightarrow> ps_form ps (query_string params) = params) \<and>
     (\<forall>chunks. \<not> body_broken (lk_frames lk chunks) \<longrightarrow> body_data (lk_frames lk chunks) = concat chunks)"

definition to_method :: "client_method \<Rightarrow> http_method" where
  "to_method m = (case m of Client_Get \<Rightarrow> GET | Client_Post \<Rightarrow> POST)"

definition to_http_request :: "link \<Rightarrow> client_request \<Rightarrow> http_request" where
  "to_http_request lk req =
     (let (path, query) = lk_target lk (cq_url req)
      in \<lparr>rq_method = to_method (cq_method req), rq_path = path, rq_query = query, rq_user_agent = None,
          rq_frames = (case cq_payload req of
                         No_Payload \<Rightarrow> []
                       | File_Stream chunks \<Rightarrow> lk_frames lk chunks
                       | payload \<Rightarrow> [Frame_Data (lk_json lk payload)])\<rparr>)"

text \<open>
  The network that leads to the server: \<open>cert\<close> is what TLS tells the client of it, \<open>ci\<close> what the
  server knows of the client.
\<close>

definition server_send ::
  "link \<Rightarrow> ('sk, 'ek, 'rk, 'c, 'n) deps \<Rightarrow> answers \<Rightarrow> bytes option option \<Rightarrow> ip_addr option
     \<Rightarrow> request_client_info \<Rightarrow> (response_body, ('c, 'n) app_state) network" where
  "server_send lk dp an cert remote ci req state =
     (let (resp, state) = handle_request dp an (to_http_request lk req) ci state
      in (Some \<lparr>hr_status = rs_status resp, hr_tls = cert, hr_remote = remote,
                hr_body = Some (rs_body resp)\<rparr>, state))"

text \<open>What the parsers of the client make of the bodies the server prints.\<close>

definition body_laws :: "response_body body_lib \<Rightarrow> bool" where
  "body_laws bl \<longleftrightarrow>
     (\<forall>sid tokens. bl_prepare_v2 bl (Prepare_Upload_Body sid tokens) =
        Some \<lparr>pv_session_id = sid, pv_files = tokens\<rparr>) \<and>
     (\<forall>n. bl_nonce bl (Nonce_Body n) = Some n)"

section \<open>What the server sees of a request\<close>

lemma link_target:
  assumes "link_laws lk ps" and "plain_params params" and "list_all (\<lambda>c. plain_char c \<or> c = CHR ''/'') path"
  shows "lk_target lk (request_url version protocol (peer_to_string peer) port (CHR ''/'' # path) params) =
    (''/api/localsend/'' @ version_str version @ CHR ''/'' # path,
     if params = [] then None else Some (query_string params))"
  using assms by (simp add: link_laws_def)

lemma foldl_put:
  "hm_get (foldl (\<lambda>m (k, v). hm_put k v m) m ps) k =
     (case hm_get (rev ps) k of Some v \<Rightarrow> Some v | None \<Rightarrow> hm_get m k)"
  by (induction ps arbitrary: m) (auto simp: map_of_append split: option.splits)

lemma link_query:
  assumes "link_laws lk ps" and "plain_params params" and "distinct (map fst params)"
  shows "hm_get (parse_query (ps_form ps) (if params = [] then None else Some (query_string params))) = map_of params"
proof -
  have "distinct (map fst (rev params))" using assms(3) by (metis distinct_rev rev_map)
  then have "map_of (rev params) = map_of params"
    using assms(3) by (simp add: map_of_inject_set)
  then show ?thesis
    using assms by (auto simp: parse_query_def link_laws_def foldl_put split: option.split)
qed

lemma link_frames:
  "link_laws lk ps \<Longrightarrow> \<not> body_broken (lk_frames lk chunks) \<Longrightarrow> body_data (lk_frames lk chunks) = concat chunks"
  by (simp add: link_laws_def)

lemma upload_chunks_stream [simp]: "fst (upload_chunks sent chunks) = chunks"
  by (induction chunks arbitrary: sent) (simp_all add: Let_def case_prod_beta)

section \<open>Uploading\<close>

text \<open>The request of an upload, as the server handles it.\<close>

lemma plain_path:
  "list_all (\<lambda>c. plain_char c \<or> c = CHR ''/'') ''upload''"
  "list_all (\<lambda>c. plain_char c \<or> c = CHR ''/'') ''prepare-upload''"
  "list_all (\<lambda>c. plain_char c \<or> c = CHR ''/'') ''cancel''"
  "list_all (\<lambda>c. plain_char c \<or> c = CHR ''/'') ''nonce''"
  "plain ''sessionId''" "plain ''fileId''" "plain ''token''" "plain ''pin''"
  by (simp_all add: plain_char_def)

lemma server_upload:
  assumes laws: "link_laws lk (dp_parsers dp)" and plain: "plain sid" "plain fid" "plain tok"
  shows "\<exists>q. upload_params q = Some (sid, fid, tok) \<and>
    handle_request_inner dp an (to_http_request lk
      \<lparr>cq_method = Client_Post,
       cq_url = request_url Api_V2 protocol (peer_to_string peer) port ''/upload''
         [(''sessionId'', sid), (''fileId'', fid), (''token'', tok)],
       cq_headers = [], cq_payload = File_Stream chunks\<rparr>) ci state =
    on_v2 (upload q ci (an_target an) (\<lambda>target sz sha.
      sr_result (save_req_to_target (dp_lib dp) (an_disk an) (lk_frames lk chunks) (an_room an) target sz sha))) state"
proof -
  let ?ps = "[(''sessionId'', sid), (''fileId'', fid), (''token'', tok)]"
  have params: "plain_params ?ps" using plain plain_path by simp
  note target = link_target [OF laws params plain_path(1), of Api_V2 protocol peer port]
  define q where "q = parse_query (ps_form (dp_parsers dp)) (Some (query_string ?ps))"
  have "hm_get q = map_of ?ps"
    using link_query [OF laws params] by (simp add: q_def)
  then have "upload_params q = Some (sid, fid, tok)" by (simp add: upload_params_def)
  then show ?thesis
    using target
    by (intro exI [of _ q])
      (simp add: handle_request_inner_def to_http_request_def to_method_def version_str_def q_def Let_def)
qed

text \<open>An upload answered with success was admitted and saved.\<close>

lemma upload_success:
  assumes "upload q ci target save s = (r, s')" and "answer_status r = 200"
    and "upload_params q = Some (sid, fid, tok)"
  shows "\<exists>dto slot t. upload_begin (v2_session s) (rc_ip ci) sid fid tok = (Inr dto, slot) \<and>
    target = Some t \<and> save t (fd_size dto) (fd_sha256 dto) = Save_Success"
  using assms
  by (auto simp: upload_def upload_response_def Let_def invalid_token_error_def
      split: prod.splits sum.splits option.splits if_splits save_result.splits
      dest!: upload_begin_refused)

text \<open>What the client makes of it.\<close>

lemma upload_outcome_ok:
  "upload_outcome_of cl bl protocol pk cancelled res = Inr () \<Longrightarrow> \<exists>r. res = Some r \<and> hr_status r = 200"
  by (auto simp: upload_outcome_of_def split: if_splits option.splits sum.splits)

lemma upload_told_ok:
  assumes laws: "link_laws lk (dp_parsers dp)" and plain: "plain sid" "plain fid" "plain tok"
    and run: "ls_upload Ls_V2 cl bl receiver (server_send lk dp an cert remote ci) protocol (peer_to_string peer) port pk
      sid fid tok content cancelled state = (Inr (), state')"
  shows "\<exists>v2 dto slot target. app_v2 state = Some v2 \<and>
    upload_begin (v2_session v2) (rc_ip ci) sid fid tok = (Inr dto, slot) \<and> an_target an = Some target \<and>
    sr_result (save_req_to_target (dp_lib dp) (an_disk an) (lk_frames lk (receiver content)) (an_room an) target
      (fd_size dto) (fd_sha256 dto)) = Save_Success"
proof -
  let ?req = "\<lparr>cq_method = Client_Post,
       cq_url = request_url Api_V2 protocol (peer_to_string peer) port ''/upload''
         [(''sessionId'', sid), (''fileId'', fid), (''token'', tok)],
       cq_headers = [], cq_payload = File_Stream (receiver content)\<rparr>"
  let ?save = "\<lambda>target sz sha. sr_result (save_req_to_target (dp_lib dp) (an_disk an)
      (lk_frames lk (receiver content)) (an_room an) target sz sha)"
  obtain q where q: "upload_params q = Some (sid, fid, tok)"
    and inner: "handle_request_inner dp an (to_http_request lk ?req) ci state =
      on_v2 (upload q ci (an_target an) ?save) state"
    using server_upload [OF laws plain] by blast
  obtain resp st where handled: "handle_request dp an (to_http_request lk ?req) ci state = (resp, st)"
    by fastforce
  have "rs_status resp = 200"
    using run handled
    by (auto simp: ls_upload_def client_upload_v2_def upload_body_def server_send_def Let_def
        split: prod.splits dest!: upload_outcome_ok)
  then have "answer_status (fst (on_v2 (upload q ci (an_target an) ?save) state)) = 200"
    using handle_request_status_inner [of dp an "to_http_request lk ?req" ci state] handled inner by simp
  then obtain v2 r v2' where "app_v2 state = Some v2"
    and "upload q ci (an_target an) ?save v2 = (r, v2')" and "answer_status r = 200"
    by (auto simp: on_v2_def split: option.splits prod.splits)
  then show ?thesis using upload_success [OF _ _ q] by fastforce
qed

section \<open>Preparing an upload\<close>

lemma server_prepare:
  assumes laws: "link_laws lk (dp_parsers dp)"
      "ps_prepare_upload (dp_parsers dp) (lk_json lk (Json_Prepare_V2 payload)) = Some payload"
    and plain: "\<forall>p. pin = Some p \<longrightarrow> plain p"
  shows "\<exists>q. handle_request_inner dp an (to_http_request lk
      \<lparr>cq_method = Client_Post,
       cq_url = request_url Api_V2 protocol (peer_to_string peer) port ''/prepare-upload''
         (case pin of Some pin \<Rightarrow> [(''pin'', pin)] | None \<Rightarrow> []),
       cq_headers = json_header, cq_payload = Json_Prepare_V2 payload\<rparr>) ci state =
    on_v2 (prepare_upload (dp_pins dp) (dp_lib dp) q ci (Body_Json payload) (an_session_id an) (an_token an)
      (an_upload_decision an)) state \<and> hm_get q ''pin'' = pin"
proof -
  let ?ps = "case pin of Some pin \<Rightarrow> [(''pin'', pin)] | None \<Rightarrow> []"
  have params: "plain_params ?ps" "distinct (map fst ?ps)" using plain plain_path by (auto split: option.splits)
  note target = link_target [OF laws(1) params(1) plain_path(2), of Api_V2 protocol peer port]
  define q where "q = parse_query (ps_form (dp_parsers dp)) (if ?ps = [] then None else Some (query_string ?ps))"
  have get: "hm_get q = map_of ?ps"
    unfolding q_def by (rule link_query [OF laws(1) params])
  have "incoming_body (ps_prepare_upload (dp_parsers dp)) [Frame_Data (lk_json lk (Json_Prepare_V2 payload))] =
      Body_Json payload"
    using laws(2) by (simp add: incoming_body_def)
  then show ?thesis
    using target get
    by (intro exI [of _ q])
      (simp add: handle_request_inner_def to_http_request_def to_method_def version_str_def q_def Let_def
        split: option.split)
qed

text \<open>A prepare-upload answered with tokens has made the session they belong to.\<close>

lemma prepare_success:
  assumes run: "prepare_upload ops lib q ci (Body_Json payload) sid tok outcome s = (r, s')"
    and "answer_status r < 400" and "answer_status r \<noteq> 204"
  shows "\<exists>ids. r = Inr (json_response 200 (Prepare_Upload_Body sid (pu_tokens (pu_files payload ids tok)))) \<and>
    v2_session s' = Some (Active \<lparr>us_session_id = sid, us_sender_ip = rc_ip ci,
      us_files = pu_files payload ids tok\<rparr>) \<and> (v2_pin s = None \<or> hm_get q ''pin'' = v2_pin s)"
proof -
  obtain resp where r: "r = Inr resp"
  proof (cases r)
    case (Inl e)
    have "400 \<le> error_status e"
    proof (cases "check_pin ops (v2_pin s) (v2_pin_attempts s) q (p_ip (rc_ip ci))")
      case (Pair x c)
      show ?thesis
      proof (cases x)
        case x: (Inl e')
        then show ?thesis
          using run Inl Pair pin.refusal_status [of ops "v2_pin s" "v2_pin_attempts s" q "p_ip (rc_ip ci)" e']
          unfolding prepare_upload_guarded by auto
      next
        case (Inr u)
        then have "prepare_upload_rest lib ci (Body_Json payload) sid tok outcome (s\<lparr>v2_pin_attempts := c\<rparr>) = (r, s')"
          using run Pair unfolding prepare_upload_guarded by simp
        then show ?thesis
          using prepare_upload_rest_free [of "s\<lparr>v2_pin_attempts := c\<rparr>"]
            prepare_upload_rest_busy [of "s\<lparr>v2_pin_attempts := c\<rparr>" lib ci "Body_Json payload" sid tok outcome] Inl
          by (cases "v2_session s") fastforce+
      qed
    qed
    then show ?thesis using assms(2) Inl by simp
  qed
  define c where "c = snd (check_pin ops (v2_pin s) (v2_pin_attempts s) q (p_ip (rc_ip ci)))"
  from run r have "(case check_pin ops (v2_pin s) (v2_pin_attempts s) q (p_ip (rc_ip ci)) of
        (Inl e, c) \<Rightarrow> (Inl e, s\<lparr>v2_pin_attempts := c\<rparr>)
      | (Inr _, c) \<Rightarrow> prepare_upload_rest lib ci (Body_Json payload) sid tok outcome (s\<lparr>v2_pin_attempts := c\<rparr>)) =
      (Inr resp, s')"
    by (simp only: prepare_upload_guarded)
  from pin.guarded_ok [OF this]
  have pin: "v2_pin s = None \<or> hm_get q ''pin'' = v2_pin s"
    and rest: "prepare_upload_rest lib ci (Body_Json payload) sid tok outcome (s\<lparr>v2_pin_attempts := c\<rparr>) = (Inr resp, s')"
    by (simp_all add: c_def)
  have "v2_session (s\<lparr>v2_pin_attempts := c\<rparr>) = None"
    using rest prepare_upload_rest_busy [of "s\<lparr>v2_pin_attempts := c\<rparr>" lib ci "Body_Json payload" sid tok outcome]
    by (metis Inl_Inr_False prod.inject)
  from prepare_upload_rest_free [OF this rest] show ?thesis
    using pin r assms(3) by auto
qed

lemma handle_status_body:
  "handle_request dp an req ci state = (resp, st) \<Longrightarrow>
     st = snd (handle_request_inner dp an req ci state) \<and>
     rs_status resp = answer_status (fst (handle_request_inner dp an req ci state)) \<and>
     (\<forall>r. fst (handle_request_inner dp an req ci state) = Inr r \<longrightarrow> resp = r)"
  using handle_request_status_inner [of dp an req ci state] handle_request_state [of dp an req ci state]
  by (auto simp: handle_request_def split: prod.splits sum.splits)

lemma prepare_told_ok:
  assumes laws: "link_laws lk (dp_parsers dp)" "body_laws bl"
      "ps_prepare_upload (dp_parsers dp) (lk_json lk (Json_Prepare_V2 (prepare_to_v2 payload))) =
        Some (prepare_to_v2 payload)"
    and plain: "\<forall>p. pin = Some p \<longrightarrow> plain p"
    and run: "ls_prepare_upload Ls_V2 cl bl (server_send lk dp an cert remote ci) protocol (peer_to_string peer) port pk
      payload pin cancelled state =
      (Inr \<lparr>pp_status_code = c, pp_response = Some \<lparr>pp_session_id = sid, pp_files = tokens\<rparr>\<rparr>, state')"
  shows "\<exists>v2 v2' ids. app_v2 state = Some v2 \<and> app_v2 state' = Some v2' \<and> sid = an_session_id an \<and>
    tokens = pu_tokens (pu_files (prepare_to_v2 payload) ids (an_token an)) \<and>
    v2_session v2' = Some (Active \<lparr>us_session_id = sid, us_sender_ip = rc_ip ci,
      us_files = pu_files (prepare_to_v2 payload) ids (an_token an)\<rparr>) \<and>
    (v2_pin v2 = None \<or> pin = v2_pin v2)"
proof -
  let ?req = "\<lparr>cq_method = Client_Post,
       cq_url = request_url Api_V2 protocol (peer_to_string peer) port ''/prepare-upload''
         (case pin of Some pin \<Rightarrow> [(''pin'', pin)] | None \<Rightarrow> []),
       cq_headers = json_header, cq_payload = Json_Prepare_V2 (prepare_to_v2 payload)\<rparr>"
  obtain q where q: "hm_get q ''pin'' = pin"
    and inner: "handle_request_inner dp an (to_http_request lk ?req) ci state =
      on_v2 (prepare_upload (dp_pins dp) (dp_lib dp) q ci (Body_Json (prepare_to_v2 payload)) (an_session_id an)
        (an_token an) (an_upload_decision an)) state"
    using server_prepare [OF laws(1,3) plain] by blast
  obtain resp st where handled: "handle_request dp an (to_http_request lk ?req) ci state = (resp, st)"
    by fastforce
  have status: "rs_status resp < 400" "rs_status resp \<noteq> 204"
    and body: "bl_prepare_v2 bl (rs_body resp) = Some \<lparr>pv_session_id = sid, pv_files = tokens\<rparr>"
    and st: "st = state'"
    using run handled
    by (auto simp: ls_prepare_upload_def client_prepare_upload_v2_def server_send_def Let_def read_json_def
        prepare_result_from_v2_def prepare_response_from_v2_def map_sum_def
        split: prod.splits sum.splits if_splits option.splits)
  note resp = handle_status_body [OF handled, unfolded inner]
  from resp status obtain v2 r v2' where v2: "app_v2 state = Some v2"
    and pu: "prepare_upload (dp_pins dp) (dp_lib dp) q ci (Body_Json (prepare_to_v2 payload)) (an_session_id an)
        (an_token an) (an_upload_decision an) v2 = (r, v2')"
    and r: "answer_status r < 400" "answer_status r \<noteq> 204" "\<forall>x. r = Inr x \<longrightarrow> resp = x"
    and st': "st = state\<lparr>app_v2 := Some v2'\<rparr>"
    by (auto simp: on_v2_def split: option.splits prod.splits)
  from prepare_success [OF pu r(1,2)] obtain ids where
    ids: "r = Inr (json_response 200 (Prepare_Upload_Body (an_session_id an) (pu_tokens (pu_files (prepare_to_v2 payload) ids (an_token an)))))"
      "v2_session v2' = Some (Active \<lparr>us_session_id = an_session_id an, us_sender_ip = rc_ip ci,
        us_files = pu_files (prepare_to_v2 payload) ids (an_token an)\<rparr>)"
      "v2_pin v2 = None \<or> hm_get q ''pin'' = v2_pin v2" by blast
  have "rs_body resp = Prepare_Upload_Body (an_session_id an) (pu_tokens (pu_files (prepare_to_v2 payload) ids (an_token an)))"
    using ids(1) r(3) by (simp add: json_response_def)
  then have "sid = an_session_id an" "tokens = pu_tokens (pu_files (prepare_to_v2 payload) ids (an_token an))"
    using body laws(2) by (auto simp: body_laws_def)
  then show ?thesis using ids v2 st st' q by auto
qed

text \<open>A granted token lets its file in.\<close>

lemma granted_token_begins:
  assumes "hm_get (pu_tokens (pu_files payload ids tok)) fid = Some t"
  shows "\<exists>dto slot. hm_get (pr_files payload) fid = Some dto \<and>
    upload_begin (Some (Active \<lparr>us_session_id = sid, us_sender_ip = ip, us_files = pu_files payload ids tok\<rparr>))
      ip sid fid t = (Inr dto, slot)"
  using assms by (auto simp: pu_tokens_get pu_files_get upload_begin_def Let_def split: if_splits)

section \<open>Version 3\<close>

lemma server_v3_missing:
  assumes laws: "link_laws lk (dp_parsers dp)" and params: "plain_params params"
    and path: "path \<in> {''prepare-upload'', ''upload'', ''cancel''}"
  shows "handle_request dp an (to_http_request lk
      \<lparr>cq_method = Client_Post,
       cq_url = request_url Api_V3 protocol (peer_to_string peer) port (CHR ''/'' # path) params,
       cq_headers = h, cq_payload = payload\<rparr>) ci state = (empty_response 404, state)"
proof -
  have "list_all (\<lambda>c. plain_char c \<or> c = CHR ''/'') path" using path plain_path by auto
  note target = link_target [OF laws params this, of Api_V3 protocol peer port]
  show ?thesis
    using target path
    by (auto simp: handle_request_def handle_request_inner_def to_http_request_def to_method_def version_str_def Let_def)
qed

section \<open>Exchanging nonces\<close>

lemma server_nonce:
  assumes laws: "link_laws lk (dp_parsers dp)"
      "ps_nonce (dp_parsers dp) (lk_json lk (Json_Nonce n)) = Some n"
  shows "handle_request_inner dp an (to_http_request lk
      \<lparr>cq_method = Client_Post,
       cq_url = request_url Api_V3 protocol (peer_to_string peer) port ''/nonce'' [],
       cq_headers = [], cq_payload = Json_Nonce n\<rparr>) ci state =
    nonce_exchange (dp_lib dp) (dp_nonces dp) (dp_cert_key dp) (an_random an) (Body_Json n) ci state"
proof -
  have "plain_params []" by simp
  note target = link_target [OF laws(1) this plain_path(4), of Api_V3 protocol peer port]
  show ?thesis
    using target laws(2)
    by (simp add: handle_request_inner_def to_http_request_def to_method_def version_str_def incoming_body_def Let_def)
qed

lemma nonces_exchanged:
  assumes laws: "link_laws lk (dp_parsers dp)" "body_laws bl" "crypto_laws (dp_lib dp)" "lru_laws nops"
      "lru_laws (dp_nonces dp)"
      "ps_nonce (dp_parsers dp) (lk_json lk (Json_Nonce (cl_b64_encode (dp_lib dp) (generate_nonce random)))) =
        Some (cl_b64_encode (dp_lib dp) (generate_nonce random))"
    and run: "client_nonce (dp_lib dp) nops cl bl (server_send lk dp an cert remote ci) protocol
      (peer_to_string peer) port random (maps, state) = (Inr n, maps', state')"
  shows "\<exists>key. lru_peek nops (nm_received maps') key = Some (generate_nonce (an_random an)) \<and>
    lru_peek nops (nm_generated maps') key = Some (generate_nonce random) \<and>
    lru_peek (dp_nonces dp) (app_received_nonces state') (client_identifier (dp_cert_key dp) ci) =
      Some (generate_nonce random) \<and>
    lru_peek (dp_nonces dp) (app_generated_nonces state') (client_identifier (dp_cert_key dp) ci) =
      Some (generate_nonce (an_random an))"
proof -
  let ?n = "cl_b64_encode (dp_lib dp) (generate_nonce random)"
  let ?req = "\<lparr>cq_method = Client_Post,
       cq_url = request_url Api_V3 protocol (peer_to_string peer) port ''/nonce'' [],
       cq_headers = [], cq_payload = Json_Nonce ?n\<rparr>"
  have roundtrip: "cl_b64_decode (dp_lib dp) (cl_b64_encode (dp_lib dp) b) = Some b" for b
    using laws(3) by (simp add: crypto_laws_def)
  define answered where "answered = state\<lparr>
    app_received_nonces := lru_put (dp_nonces dp) (app_received_nonces state)
      (client_identifier (dp_cert_key dp) ci) (generate_nonce random),
    app_generated_nonces := lru_put (dp_nonces dp) (app_generated_nonces state)
      (client_identifier (dp_cert_key dp) ci) (generate_nonce (an_random an))\<rparr>"
  have "handle_request dp an (to_http_request lk ?req) ci state =
      (json_response 200 (Nonce_Body (cl_b64_encode (dp_lib dp) (generate_nonce (an_random an)))), answered)"
    using server_nonce [OF laws(1,6)]
    by (simp add: handle_request_def nonce_exchange_def roundtrip answered_def Let_def)
  then obtain key where "maps' = \<lparr>nm_received = lru_put nops (nm_received maps) key (generate_nonce (an_random an)),
      nm_generated = lru_put nops (nm_generated maps) key (generate_nonce random)\<rparr>" and "state' = answered"
    using run laws(2)
    by (auto simp: client_nonce_def server_send_def read_json_def body_laws_def json_response_def roundtrip
        Let_def split: sum.splits)
  then show ?thesis
    by (intro exI [of _ key]) (simp add: answered_def lru_put_same [OF laws(4)] lru_put_same [OF laws(5)])
qed

end
