(* ===== verification/End_To_End.thy ===== *)
theory End_To_End
  imports Client_Server
begin

text \<open>
  What a sender and a receiver that both run this code can rely on, and a link between them on
  which the theorems are applied.
\<close>

section \<open>A concrete link\<close>

text \<open>
  The target of a URL is what follows the authority, split at the question mark; a query is
  split at its ampersands, and each part at the equals sign.
\<close>

definition simple_target :: "string \<Rightarrow> string \<times> string option" where
  "simple_target url =
     (let rest = dropWhile (\<lambda>c. c \<noteq> CHR ''/'') (drop 3 (dropWhile (\<lambda>c. c \<noteq> CHR '':'') url))
      in case split_once CHR ''?'' rest of None \<Rightarrow> (rest, None) | Some (path, query) \<Rightarrow> (path, Some query))"

definition simple_form :: "string \<Rightarrow> (string \<times> string) list" where
  "simple_form query =
     map (\<lambda>part. case split_once CHR ''='' part of Some kv \<Rightarrow> kv | None \<Rightarrow> (part, []))
       (split_on CHR ''&'' query)"

definition sample_link :: link where
  "sample_link = \<lparr>lk_target = simple_target, lk_json = (\<lambda>_. []), lk_frames = map Frame_Data\<rparr>"

lemma split_once_none: "c \<notin> set s \<Longrightarrow> split_once c s = None"
  by (induction s) auto

lemma plain_no_sep:
  "plain s \<Longrightarrow> CHR ''&'' \<notin> set s \<and> CHR ''='' \<notin> set s \<and> CHR ''?'' \<notin> set s"
  by (auto simp: list_all_iff plain_char_def Let_def)

lemma split_on_join:
  "ss \<noteq> [] \<Longrightarrow> list_all (\<lambda>s. c \<notin> set s) ss \<Longrightarrow> split_on c (join [c] ss) = ss"
  by (induction "[c]" ss rule: join.induct) (simp_all add: split_on_no_sep split_on_sep)

lemma simple_form_query: "plain_params ps \<Longrightarrow> ps \<noteq> [] \<Longrightarrow> simple_form (query_string ps) = ps"
proof -
  assume plain: "plain_params ps" and ne: "ps \<noteq> []"
  have "list_all (\<lambda>s. CHR ''&'' \<notin> set s) (map (\<lambda>(k, v). k @ ''='' @ v) ps)"
    using plain plain_no_sep by (fastforce simp: list_all_iff)
  then have "split_on CHR ''&'' (query_string ps) = map (\<lambda>(k, v). k @ ''='' @ v) ps"
    unfolding query_string_def using ne by (intro split_on_join) simp_all
  moreover have "map (\<lambda>part. case split_once CHR ''='' part of Some kv \<Rightarrow> kv | None \<Rightarrow> (part, []))
      (map (\<lambda>(k, v). k @ ''='' @ v) ps) = ps"
    using plain
  proof (induction ps)
    case (Cons kv ps)
    then show ?case
      using plain_no_sep [of "fst kv"] split_once_at [of "CHR ''=''" "fst kv" "snd kv"]
      by (auto split: prod.splits)
  qed simp
  ultimately show ?thesis by (simp add: simple_form_def)
qed

lemma dec_no_slash: "c \<in> set (nat_str 10 n) \<Longrightarrow> c \<noteq> CHR ''/''"
  using nat_str_digits [of 10 n] by (auto simp: list_all_iff to_digit_def)

lemma address_char_no_slash: "address_char c \<Longrightarrow> c \<noteq> CHR ''/''"
  by (auto simp: address_char_def to_digit_def)

lemma ip_no_slash: "CHR ''/'' \<notin> set (ip_to_string ip)"
  using print_ip_chars [of ip] address_char_no_slash by (fastforce simp: list_all_iff)

lemma url_host_no_slash: "CHR ''/'' \<notin> set (url_host (peer_to_string peer))"
proof (cases "scoped_encode (peer_to_string peer)")
  case None
  have "CHR ''/'' \<notin> set (peer_to_string peer)"
    using ip_no_slash dec_no_slash by (auto simp: peer_to_string_def split: option.split)
  then show ?thesis using None by (simp add: url_host_def)
next
  case (Some name)
  then obtain ip sc where "name = replace_char CHR '':'' CHR ''-'' (ip_to_string ip) @ ''s'' @ nat_str 10 (unat (sc :: u32)) @ SUFFIX"
    by (auto simp: encode_Some_iff)
  moreover have "CHR ''/'' \<notin> set (replace_char CHR '':'' CHR ''-'' (ip_to_string ip))"
    using ip_no_slash by (auto simp: replace_char_def)
  moreover have "CHR ''/'' \<notin> set (nat_str 10 (unat sc))" using dec_no_slash by blast
  ultimately show ?thesis using Some by (simp add: url_host_def SUFFIX_def)
qed

lemma dropWhile_to: "c \<notin> set s \<Longrightarrow> dropWhile (\<lambda>x. x \<noteq> c) (s @ c # t) = c # t"
  by (induction s) auto

lemma simple_target_url:
  assumes "plain_params ps" and path: "list_all (\<lambda>c. plain_char c \<or> c = CHR ''/'') path"
  shows "simple_target (request_url version protocol (peer_to_string peer) port (CHR ''/'' # path) ps) =
    (''/api/localsend/'' @ version_str version @ CHR ''/'' # path, if ps = [] then None else Some (query_string ps))"
proof -
  define auth where "auth = url_host (peer_to_string peer) @ '':'' @ nat_str 10 (unat port)"
  define rest where "rest = ''/api/localsend/'' @ version_str version @ CHR ''/'' # path @
    (if ps = [] then [] else CHR ''?'' # query_string ps)"
  have url: "request_url version protocol (peer_to_string peer) port (CHR ''/'' # path) ps =
      protocol_type_as_str protocol @ CHR '':'' # CHR ''/'' # CHR ''/'' # auth @ rest"
    by (simp add: url_to_string_def auth_def rest_def version_str_def)
  have "CHR '':'' \<notin> set (protocol_type_as_str protocol)"
    by (cases protocol) (simp_all add: protocol_type_as_str_def)
  then have "dropWhile (\<lambda>c. c \<noteq> CHR '':'') (request_url version protocol (peer_to_string peer) port (CHR ''/'' # path) ps) =
      CHR '':'' # CHR ''/'' # CHR ''/'' # auth @ rest"
    unfolding url by (rule dropWhile_to)
  moreover have "CHR ''/'' \<notin> set auth"
    using url_host_no_slash dec_no_slash by (auto simp: auth_def)
  then have "dropWhile (\<lambda>c. c \<noteq> CHR ''/'') (auth @ rest) = rest"
    unfolding rest_def using dropWhile_to [of "CHR ''/''" auth] by simp
  moreover have no_mark: "CHR ''?'' \<notin> set (''/api/localsend/'' @ version_str version @ CHR ''/'' # path)"
    using path by (cases version) (auto simp: version_str_def list_all_iff plain_char_def)
  then have "split_once CHR ''?'' rest = (if ps = [] then None
      else Some (''/api/localsend/'' @ version_str version @ CHR ''/'' # path, query_string ps))"
    using split_once_none [OF no_mark] split_once_at [OF no_mark] by (simp add: rest_def)
  ultimately show ?thesis by (simp add: simple_target_def rest_def)
qed

lemma body_data_map [simp]: "body_data (map Frame_Data cs) = concat cs"
  by (induction cs) simp_all

lemma sample_link_laws: "ps_form ps = simple_form \<Longrightarrow> link_laws sample_link ps"
  unfolding link_laws_def sample_link_def
  by (simp add: simple_target_url simple_form_query del: split_paired_All)

section \<open>A concrete receiver\<close>

definition sample_bodies :: "response_body body_lib" where
  "sample_bodies = \<lparr>bl_text = (\<lambda>_. ''''), bl_error = (\<lambda>_. None), bl_register_v2 = (\<lambda>_. None),
     bl_register = (\<lambda>_. None),
     bl_prepare_v2 = (\<lambda>b. case b of Prepare_Upload_Body sid tokens \<Rightarrow>
        Some \<lparr>pv_session_id = sid, pv_files = tokens\<rparr> | _ \<Rightarrow> None),
     bl_prepare = (\<lambda>_. None), bl_info = (\<lambda>_. None), bl_download = (\<lambda>_. None),
     bl_nonce = (\<lambda>b. case b of Nonce_Body n \<Rightarrow> Some n | _ \<Rightarrow> None), bl_chunks = (\<lambda>_. [])\<rparr>"

lemma sample_bodies_laws: "body_laws sample_bodies"
  by (simp add: body_laws_def sample_bodies_def)

definition sample_request :: prepare_upload_request_dto where
  "sample_request = \<lparr>pq_info = \<lparr>rg_alias = ''Nice Orange'', rg_version = ''2.1'', rg_device_model = None,
       rg_device_type = Some Mobile, rg_token = ''01ab'', rg_port = 53317, rg_protocol = Proto_Https,
       rg_has_web_interface = False\<rparr>,
     pq_files = [(''a'', sample_file ''a'' 1), (''b'', sample_file ''b'' 2)]\<rparr>"

definition link_deps :: "(unit, unit, unit, (ip_addr, u32) hmap, (string, bytes) hmap) deps" where
  "link_deps = sample_deps\<lparr>dp_parsers := sample_parsers
     \<lparr>ps_form := simple_form, ps_prepare_upload := (\<lambda>_. Some (prepare_to_v2 sample_request)),
      ps_nonce := (\<lambda>_. Some (to_hex (generate_nonce (\<lambda>_. 7))))\<rparr>\<rparr>"

lemma link_deps_laws: "link_laws sample_link (dp_parsers link_deps)"
  by (rule sample_link_laws) (simp add: link_deps_def)

definition accepting :: answers where
  "accepting = \<lparr>an_session_id = ''s'', an_token = (\<lambda>fid. ''t'' @ fid), an_upload_decision = Decided (Accept [''a'']),
     an_target = Some (Target_Path ''/f''), an_room = None, an_disk = good_disk, an_download_decision = None,
     an_content = None, an_receiver = (\<lambda>_. []), an_random = (\<lambda>_. 9)\<rparr>"

abbreviation sample_send where
  "sample_send \<equiv> server_send sample_link link_deps accepting None None sample_client"

section \<open>Properties\<close>


text \<open>
  The tokens a sender is given are good: right after a prepare-upload that was answered with
  them, each token admits the upload of its file, as the sender announced it, from the same
  address; and if the receiver has a PIN, the sender gave it.
\<close>

theorem granted_tokens_admit:
  assumes "link_laws lk (dp_parsers dp)" and "body_laws bl"
    and "ps_prepare_upload (dp_parsers dp) (lk_json lk (Json_Prepare_V2 (prepare_to_v2 payload))) =
      Some (prepare_to_v2 payload)"
    and "\<forall>p. pin = Some p \<longrightarrow> plain p"
    and run: "ls_prepare_upload Ls_V2 cl bl (server_send lk dp an cert remote ci) protocol (peer_to_string peer) port pk
      payload pin cancelled state =
      (Inr \<lparr>pp_status_code = c, pp_response = Some \<lparr>pp_session_id = sid, pp_files = tokens\<rparr>\<rparr>, state')"
    and token: "hm_get tokens fid = Some t"
  shows "\<exists>v2 v2' dto slot. app_v2 state = Some v2 \<and> app_v2 state' = Some v2' \<and>
    (v2_pin v2 = None \<or> pin = v2_pin v2) \<and> hm_get (pq_files payload) fid = Some dto \<and>
    upload_begin (v2_session v2') (rc_ip ci) sid fid t = (Inr dto, slot)"
proof -
  from prepare_told_ok [OF assms(1-4) run] obtain v2 v2' ids where
    told: "app_v2 state = Some v2" "app_v2 state' = Some v2'" "v2_pin v2 = None \<or> pin = v2_pin v2"
    and tokens: "tokens = pu_tokens (pu_files (prepare_to_v2 payload) ids (an_token an))"
    and slot: "v2_session v2' = Some (Active \<lparr>us_session_id = sid, us_sender_ip = rc_ip ci,
      us_files = pu_files (prepare_to_v2 payload) ids (an_token an)\<rparr>)" by blast
  from granted_token_begins [OF token [unfolded tokens], of sid "rc_ip ci"] slot told
  show ?thesis by (auto simp: prepare_to_v2_def)
qed

text \<open>
  The server of this repository does not serve the transfers of a version 3 client: it
  answers 404 and changes nothing, and the client reports that for a prepare-upload and an
  upload, but reports success for a cancellation.
\<close>

theorem v3_client_not_served:
  assumes "link_laws lk (dp_parsers dp)" and "plain sid" and "plain fid" and "plain tok"
  shows "(\<exists>m. ls_prepare_upload Ls_V3 cl bl (server_send lk dp an cert remote ci) Proto_Http (peer_to_string peer) port
      pk payload pin False state = (Inl (Ce_Status 404 m), state)) \<and>
    (\<exists>m. ls_upload Ls_V3 cl bl receiver (server_send lk dp an cert remote ci) Proto_Http (peer_to_string peer) port
      pk sid fid tok content False state = (Inl (Ce_Status 404 m), state)) \<and>
    ls_cancel Ls_V3 (server_send lk dp an cert remote ci) Proto_Http (peer_to_string peer) port sid state = (Inr (), state)"
  using server_v3_missing [OF assms(1), of "[]" "''prepare-upload''"]
    server_v3_missing [OF assms(1), of "[(''sessionId'', sid), (''fileId'', fid), (''token'', tok)]" "''upload''"]
    server_v3_missing [OF assms(1), of "[(''sessionId'', sid)]" "''cancel''"] assms(2-4) plain_path
  by (simp add: ls_prepare_upload_def client_prepare_upload_v3_def ls_upload_def client_upload_v3_def ls_cancel_def
      client_cancel_v2_def client_cancel_v3_def server_send_def upload_outcome_of_def into_error_def Let_def)

text \<open>
  After a nonce exchange that the client counts as done, both sides hold the same two
  nonces, each having generated one and received the other.
\<close>

theorem nonces_agree:
  assumes "link_laws lk (dp_parsers dp)" and "body_laws bl" and "crypto_laws (dp_lib dp)"
    and "lru_laws nops" and "lru_laws (dp_nonces dp)"
    and "ps_nonce (dp_parsers dp) (lk_json lk (Json_Nonce (cl_b64_encode (dp_lib dp) (generate_nonce random)))) =
      Some (cl_b64_encode (dp_lib dp) (generate_nonce random))"
    and "client_nonce (dp_lib dp) nops cl bl (server_send lk dp an cert remote ci) protocol (peer_to_string peer) port
      random (maps, state) = (Inr n, maps', state')"
  shows "\<exists>key. lru_peek nops (nm_received maps') key =
      lru_peek (dp_nonces dp) (app_generated_nonces state') (client_identifier (dp_cert_key dp) ci) \<and>
    lru_peek nops (nm_generated maps') key =
      lru_peek (dp_nonces dp) (app_received_nonces state') (client_identifier (dp_cert_key dp) ci) \<and>
    lru_peek nops (nm_generated maps') key = Some (generate_nonce random) \<and>
    lru_peek nops (nm_received maps') key = Some (generate_nonce (an_random an))"
  using nonces_exchanged [OF assms] by auto

section \<open>Applied\<close>




lemma sample_prepare_run:
  "\<exists>state'. ls_prepare_upload Ls_V2 sample_cert_lib sample_bodies sample_send Proto_Http (peer_to_string sample_peer) 53317
     None sample_request None False (sample_server\<lparr>app_v2 := Some sample_v2\<rparr>) =
   (Inr \<lparr>pp_status_code = 200, pp_response = Some \<lparr>pp_session_id = ''s'', pp_files = [(''a'', ''ta'')]\<rparr>\<rparr>, state')"
proof -
  have parsed: "ps_prepare_upload (dp_parsers link_deps) (lk_json sample_link (Json_Prepare_V2 (prepare_to_v2 sample_request))) =
      Some (prepare_to_v2 sample_request)" by (simp add: link_deps_def)
  have no_pin: "\<forall>p. None = Some p \<longrightarrow> plain p" by simp
  from server_prepare [OF link_deps_laws parsed no_pin, of accepting Proto_Http sample_peer 53317 sample_client]
  obtain q where inner: "handle_request_inner link_deps accepting (to_http_request sample_link
      \<lparr>cq_method = Client_Post,
       cq_url = request_url Api_V2 Proto_Http (peer_to_string sample_peer) 53317 ''/prepare-upload'' [],
       cq_headers = json_header, cq_payload = Json_Prepare_V2 (prepare_to_v2 sample_request)\<rparr>) sample_client
       (sample_server\<lparr>app_v2 := Some sample_v2\<rparr>) =
    on_v2 (prepare_upload (dp_pins link_deps) (dp_lib link_deps) q sample_client (Body_Json (prepare_to_v2 sample_request))
      (an_session_id accepting) (an_token accepting) (an_upload_decision accepting)) (sample_server\<lparr>app_v2 := Some sample_v2\<rparr>)"
    by auto
  have "fst (prepare_upload (dp_pins link_deps) (dp_lib link_deps) q sample_client (Body_Json (prepare_to_v2 sample_request))
      (an_session_id accepting) (an_token accepting) (an_upload_decision accepting) sample_v2) =
      Inr (json_response 200 (Prepare_Upload_Body ''s'' [(''a'', ''ta'')]))"
    by (simp add: prepare_upload_guarded prepare_upload_rest_def check_pin_def pu_parse_def pu_claim_def emit_def
        pu_files_def pu_tokens_def accepting_def sample_defs sample_request_def prepare_to_v2_def Let_def)
  then show ?thesis
    using inner
    by (simp add: ls_prepare_upload_def client_prepare_upload_v2_def server_send_def handle_request_def read_json_def
        on_v2_def sample_bodies_def json_response_def prepare_result_from_v2_def prepare_response_from_v2_def
        case_prod_beta Let_def)
qed

theorem granted_tokens_admit_witness:
  "\<exists>state' v2' dto slot. ls_prepare_upload Ls_V2 sample_cert_lib sample_bodies sample_send Proto_Http
     (peer_to_string sample_peer) 53317 None sample_request None False (sample_server\<lparr>app_v2 := Some sample_v2\<rparr>) =
   (Inr \<lparr>pp_status_code = 200, pp_response = Some \<lparr>pp_session_id = ''s'', pp_files = [(''a'', ''ta'')]\<rparr>\<rparr>, state') \<and>
   app_v2 state' = Some v2' \<and> upload_begin (v2_session v2') sample_peer ''s'' ''a'' ''ta'' = (Inr dto, slot) \<and>
   dto = sample_file ''a'' 1"
proof -
  have parsed: "ps_prepare_upload (dp_parsers link_deps) (lk_json sample_link (Json_Prepare_V2 (prepare_to_v2 sample_request))) =
      Some (prepare_to_v2 sample_request)" by (simp add: link_deps_def)
  have no_pin: "\<forall>p. None = Some p \<longrightarrow> plain p" by simp
  have token: "hm_get [(''a'', ''ta'')] ''a'' = Some ''ta''" by simp
  from sample_prepare_run obtain state' where run: "ls_prepare_upload Ls_V2 sample_cert_lib sample_bodies sample_send Proto_Http
     (peer_to_string sample_peer) 53317 None sample_request None False (sample_server\<lparr>app_v2 := Some sample_v2\<rparr>) =
   (Inr \<lparr>pp_status_code = 200, pp_response = Some \<lparr>pp_session_id = ''s'', pp_files = [(''a'', ''ta'')]\<rparr>\<rparr>, state')" ..
  from granted_tokens_admit [OF link_deps_laws sample_bodies_laws parsed no_pin run token] run
  show ?thesis by (auto simp: sample_client_def sample_request_def)
qed

theorem v3_client_not_served_witness:
  "fst (ls_cancel Ls_V3 sample_send Proto_Http (peer_to_string sample_peer) 53317 ''s''
     (sample_server\<lparr>app_v2 := Some sample_active\<rparr>)) = Inr ()"
proof -
  have plain: "plain ''s''" "plain ''a''" "plain ''ta''" by (simp_all add: plain_char_def)
  from v3_client_not_served [OF link_deps_laws plain] show ?thesis by (metis fst_conv)
qed

lemma sample_nonce_run:
  "\<exists>maps' state'. client_nonce (dp_lib link_deps) list_lru sample_cert_lib sample_bodies
     (server_send sample_link link_deps accepting None (Some (V4 10 0 0 2)) sample_client) Proto_Http
     (peer_to_string sample_peer) 53317 (\<lambda>_. 7) (\<lparr>nm_received = [], nm_generated = []\<rparr>, sample_server) =
   (Inr (to_hex (generate_nonce (\<lambda>_. 9))), maps', state')"
proof -
  have lib: "dp_lib link_deps = sample_lib" by (simp add: link_deps_def sample_deps_def)
  have enc: "cl_b64_encode sample_lib b = to_hex b" "cl_b64_decode sample_lib (to_hex b) = Some b" for b
    by (simp_all add: sample_lib_def from_hex_to_hex)
  have parsed: "ps_nonce (dp_parsers link_deps) (lk_json sample_link (Json_Nonce (to_hex (generate_nonce (\<lambda>_. 7))))) =
      Some (to_hex (generate_nonce (\<lambda>_. 7)))" by (simp add: link_deps_def)
  show ?thesis
    using server_nonce [OF link_deps_laws parsed, of accepting Proto_Http sample_peer 53317 sample_client sample_server]
    by (simp add: client_nonce_def server_send_def handle_request_def nonce_exchange_def lib enc to_identifier_def
        read_json_def sample_bodies_def json_response_def accepting_def Let_def)
qed

theorem nonces_agree_witness:
  "\<exists>maps' state' key. client_nonce (dp_lib link_deps) list_lru sample_cert_lib sample_bodies
     (server_send sample_link link_deps accepting None (Some (V4 10 0 0 2)) sample_client) Proto_Http
     (peer_to_string sample_peer) 53317 (\<lambda>_. 7) (\<lparr>nm_received = [], nm_generated = []\<rparr>, sample_server) =
   (Inr (to_hex (generate_nonce (\<lambda>_. 9))), maps', state') \<and>
   lru_peek list_lru (nm_generated maps') key = lru_peek list_lru (app_received_nonces state') (to_hex [1, 171])"
proof -
  have lib: "dp_lib link_deps = sample_lib" "dp_nonces link_deps = list_lru"
    "client_identifier (dp_cert_key link_deps) sample_client = to_hex [1, 171]"
    by (simp_all add: link_deps_def sample_deps_def client_identifier_def extract_public_key_def sample_client_def)
  have parsed: "ps_nonce (dp_parsers link_deps) (lk_json sample_link (Json_Nonce
      (cl_b64_encode (dp_lib link_deps) (generate_nonce (\<lambda>_. 7))))) =
      Some (cl_b64_encode (dp_lib link_deps) (generate_nonce (\<lambda>_. 7)))"
    by (simp add: link_deps_def sample_deps_def sample_lib_def)
  have laws: "crypto_laws (dp_lib link_deps)" "lru_laws (dp_nonces link_deps)"
    by (simp_all add: lib sample_lib_laws list_lru_laws)
  from sample_nonce_run obtain maps' state' where run: "client_nonce (dp_lib link_deps) list_lru sample_cert_lib sample_bodies
     (server_send sample_link link_deps accepting None (Some (V4 10 0 0 2)) sample_client) Proto_Http
     (peer_to_string sample_peer) 53317 (\<lambda>_. 7) (\<lparr>nm_received = [], nm_generated = []\<rparr>, sample_server) =
   (Inr (to_hex (generate_nonce (\<lambda>_. 9))), maps', state')" by blast
  from nonces_agree [OF link_deps_laws sample_bodies_laws laws(1) list_lru_laws laws(2) parsed run] run
  show ?thesis by (auto simp: lib)
qed

end
