(* ===== verification/Upload_Attempts.thy ===== *)
theory Upload_Attempts
  imports Upload_Contract
begin

text \<open>
  An upload session cannot be kept going for ever: however requests are ordered and however
  saving turns out, a file is admitted at most three times.
\<close>

section \<open>Sequences of critical sections\<close>

text \<open>The sections of the upload handlers that change the slot, in any order.\<close>

datatype slot_op =
    Op_Begin peer_ip string string string
  | Op_Finalize string string save_result

fun slot_step :: "slot_op \<Rightarrow> session_state option \<Rightarrow> bool \<times> session_state option" where
  "slot_step (Op_Begin ip sid fid tok) slot =
     (case upload_begin slot ip sid fid tok of
        (Inl e, slot) \<Rightarrow> (False, slot) | (Inr dto, slot) \<Rightarrow> (True, slot))"
| "slot_step (Op_Finalize sid fid result) slot = (False, snd (finalize_slot slot sid fid result))"

text \<open>How many uploads are admitted.\<close>

fun admissions :: "slot_op list \<Rightarrow> session_state option \<Rightarrow> nat" where
  "admissions [] slot = 0"
| "admissions (op # ops) slot =
     (let (admitted, slot) = slot_step op slot
      in (if admitted then 1 else 0) + admissions ops slot)"

section \<open>The measure\<close>

definition attempts_left :: "(string, session_file) hmap \<Rightarrow> nat" where
  "attempts_left files = (\<Sum>(_, f)\<leftarrow>files. 3 - unat (sf_attempts f))"

definition retries_ok :: "(string, session_file) hmap \<Rightarrow> bool" where
  "retries_ok files \<longleftrightarrow>
     (\<forall>(_, f) \<in> set files. sf_status f = File_Pending \<longrightarrow> unat (sf_attempts f) < 3)"

lemma attempts_left_upd:
  assumes "hm_get files fid = Some f"
  shows "attempts_left (hm_upd fid (\<lambda>_. g) files) + (3 - unat (sf_attempts f)) =
    attempts_left files + (3 - unat (sf_attempts g))"
  using assms by (induction files) (auto simp: attempts_left_def split: if_splits)

lemma attempts_left_finalized: "attempts_left (finalized_files fid result files) = attempts_left files"
  by (induction files) (auto simp: attempts_left_def finalized_files_def)

lemma retries_ok_upd:
  "retries_ok files \<Longrightarrow> sf_status g \<noteq> File_Pending \<Longrightarrow> retries_ok (hm_upd fid (\<lambda>_. g) files)"
  by (induction files) (auto simp: retries_ok_def)

lemma final_status_retry: "final_status result n = File_Pending \<Longrightarrow> unat n < 3"
  by (auto simp: final_status_def MAX_UPLOAD_ATTEMPTS_def word_less_nat_alt split: save_result.splits if_splits)

lemma retries_ok_finalized: "retries_ok files \<Longrightarrow> retries_ok (finalized_files fid result files)"
  by (induction files) (auto simp: retries_ok_def finalized_files_def final_status_retry)

definition slot_left :: "session_state option \<Rightarrow> nat" where
  "slot_left slot = (case slot of Some (Active us) \<Rightarrow> attempts_left (us_files us) | _ \<Rightarrow> 0)"

definition slot_ok :: "session_state option \<Rightarrow> bool" where
  "slot_ok slot \<longleftrightarrow> (case slot of Some (Active us) \<Rightarrow> retries_ok (us_files us) | _ \<Rightarrow> True)"

lemma slot_step_measure:
  assumes "slot_ok slot" and "slot_step op slot = (admitted, slot')"
  shows "slot_ok slot' \<and> (if admitted then 1 else 0) + slot_left slot' \<le> slot_left slot"
proof (cases op)
  case (Op_Begin ip sid fid tok)
  show ?thesis
  proof (cases "fst (upload_begin slot ip sid fid tok)")
    case (Inl e)
    then show ?thesis
      using assms Op_Begin upload_begin_refused [of slot ip sid fid tok e] by (auto split: prod.splits)
  next
    case (Inr dto)
    then obtain slot1 where "upload_begin slot ip sid fid tok = (Inr dto, slot1)" by (metis prod.collapse)
    moreover from this have "admitted" "slot1 = slot'" using assms(2) Op_Begin by auto
    ultimately obtain us f where slot: "slot = Some (Active us)" "hm_get (us_files us) fid = Some f"
      and pending: "sf_status f = File_Pending"
      and slot': "slot' = Some (Active (us\<lparr>us_files := hm_upd fid
          (\<lambda>_. f\<lparr>sf_status := File_InProgress, sf_attempts := saturating_inc (sf_attempts f)\<rparr>)
          (us_files us)\<rparr>))"
      by (auto simp: upload_begin_ok_iff)
    have "(fid, f) \<in> set (us_files us)" using slot(2) by (rule hm_get_in_set)
    then have "unat (sf_attempts f) < 3" using assms(1) slot(1) pending by (auto simp: slot_ok_def retries_ok_def)
    moreover let ?g = "f\<lparr>sf_status := File_InProgress, sf_attempts := saturating_inc (sf_attempts f)\<rparr>"
    have "attempts_left (hm_upd fid (\<lambda>_. ?g) (us_files us)) + (3 - unat (sf_attempts f)) =
        attempts_left (us_files us) + (3 - unat (sf_attempts ?g))"
      by (rule attempts_left_upd [OF slot(2)])
    ultimately show ?thesis
      using retries_ok_upd [of "us_files us" ?g fid] assms(1) slot(1) slot' \<open>admitted\<close>
      by (simp add: slot_ok_def slot_left_def unat_saturating_inc)
  qed
next
  case (Op_Finalize sid fid result)
  then have "\<not> admitted" "slot' = snd (finalize_slot slot sid fid result)" using assms(2) by auto
  then show ?thesis
    using assms(1) retries_ok_finalized attempts_left_finalized
    by (cases slot; cases "the slot")
      (auto simp: slot_ok_def slot_left_def finalize_slot_def finalized_files_def [symmetric] Let_def)
qed

lemma admissions_left: "slot_ok slot \<Longrightarrow> admissions ops slot \<le> slot_left slot"
proof (induction ops arbitrary: slot)
  case (Cons op ops)
  obtain admitted slot' where step: "slot_step op slot = (admitted, slot')" by fastforce
  from slot_step_measure [OF Cons.prems step] Cons.IH [of slot'] show ?case
    using step by (simp split: if_splits)
qed simp

lemma fresh_session:
  "attempts_left (pu_files payload ids tok) = 3 * length (pu_files payload ids tok)"
  "retries_ok (pu_files payload ids tok)"
proof -
  show "retries_ok (pu_files payload ids tok)" by (auto simp: pu_files_def retries_ok_def)
  have "attempts_left (map (\<lambda>(id, dto). (id, \<lparr>sf_dto = dto, sf_token = tok id, sf_status = File_Pending, sf_attempts = 0\<rparr>)) fs) =
      3 * length fs" for fs
    by (induction fs) (auto simp: attempts_left_def)
  then show "attempts_left (pu_files payload ids tok) = 3 * length (pu_files payload ids tok)"
    by (simp add: pu_files_def)
qed

section \<open>Properties\<close>

text \<open>
  C11: A session ends its uploads: of any sequence of upload requests and of outcomes of saving,
  at most three per accepted file are admitted.
\<close>

theorem upload_attempts_bounded:
  "admissions ops (v2_session (pu_activate sid ci (pu_files payload ids tok) s)) \<le>
     3 * length (pu_files payload ids tok)"
  using admissions_left [of "v2_session (pu_activate sid ci (pu_files payload ids tok) s)" ops]
    fresh_session [of payload ids tok]
  by (simp add: pu_activate_def slot_ok_def slot_left_def)

end
