(* ===== verification/Cli_Devices.thy ===== *)
theory Cli_Devices
  imports Http_Types
begin

text \<open>
  The devices the command line client has seen (\<open>cli/src/devices.rs\<close>): one entry per fingerprint, the
  first nine of them on the keys 1 to 9.
\<close>

record device =
  dev_slot :: "u8 option"
  dev_alias :: string
  dev_host :: string
  dev_port :: u16
  dev_protocol :: protocol_type_v2
  dev_fingerprint :: string

definition slot_label :: "device \<Rightarrow> string" where
  "slot_label d = (case dev_slot d of Some slot \<Rightarrow> nat_str 10 (unat slot) | None \<Rightarrow> ''-'')"

type_synonym registry = "device list"

definition SLOTS :: "u8 list" where
  "SLOTS = [1, 2, 3, 4, 5, 6, 7, 8, 9]"

definition free_slot :: "registry \<Rightarrow> u8 option" where
  "free_slot devices = find (\<lambda>slot. \<not> list_ex (\<lambda>d. dev_slot d = Some slot) devices) SLOTS"

text \<open>The first device with the fingerprint is updated in place.\<close>

fun update_known :: "string \<Rightarrow> string \<Rightarrow> u16 \<Rightarrow> protocol_type_v2 \<Rightarrow> string \<Rightarrow> registry \<Rightarrow> registry" where
  "update_known alias host port protocol fingerprint [] = []"
| "update_known alias host port protocol fingerprint (d # ds) =
     (if dev_fingerprint d = fingerprint
      then d\<lparr>dev_alias := alias, dev_host := host, dev_port := port, dev_protocol := protocol\<rparr> # ds
      else d # update_known alias host port protocol fingerprint ds)"

definition upsert ::
  "string \<Rightarrow> string \<Rightarrow> u16 \<Rightarrow> protocol_type_v2 \<Rightarrow> string \<Rightarrow> registry \<Rightarrow> device option \<times> registry" where
  "upsert alias host port protocol fingerprint devices =
     (if list_ex (\<lambda>d. dev_fingerprint d = fingerprint) devices
      then (None, update_known alias host port protocol fingerprint devices)
      else
        (let device = \<lparr>dev_slot = free_slot devices, dev_alias = alias, dev_host = host, dev_port = port,
               dev_protocol = protocol, dev_fingerprint = fingerprint\<rparr>
         in (Some device, devices @ [device])))"

definition by_slot :: "u8 \<Rightarrow> registry \<Rightarrow> device option" where
  "by_slot slot devices = find (\<lambda>d. dev_slot d = Some slot) devices"

section \<open>The registry is well formed\<close>

definition slots :: "registry \<Rightarrow> u8 list" where
  "slots devices = List.map_filter dev_slot devices"

definition registry_ok :: "registry \<Rightarrow> bool" where
  "registry_ok devices \<longleftrightarrow>
     distinct (map dev_fingerprint devices) \<and> distinct (slots devices) \<and> set (slots devices) \<subseteq> set SLOTS \<and>
     (\<forall>d \<in> set devices. dev_slot d = None \<longrightarrow> set SLOTS \<subseteq> set (slots devices))"

lemma slots_simps [simp]:
  "slots [] = []" "slots (d # ds) = (case dev_slot d of Some s \<Rightarrow> s # slots ds | None \<Rightarrow> slots ds)"
  "slots (ds @ ds') = slots ds @ slots ds'"
  by (auto simp: slots_def map_filter_simps List.map_filter_def split: option.split)

lemma in_slots: "s \<in> set (slots devices) \<longleftrightarrow> (\<exists>d \<in> set devices. dev_slot d = Some s)"
  by (induction devices) (auto split: option.split)

lemma free_slot_Some: "free_slot devices = Some s \<Longrightarrow> s \<in> set SLOTS \<and> s \<notin> set (slots devices)"
  by (auto simp: free_slot_def find_Some_iff in_slots list_ex_iff)

lemma free_slot_None: "free_slot devices = None \<longleftrightarrow> set SLOTS \<subseteq> set (slots devices)"
  by (auto simp: free_slot_def find_None_iff in_slots list_ex_iff subset_iff)

lemma update_known_slots:
  "map dev_fingerprint (update_known alias host port protocol fingerprint devices) = map dev_fingerprint devices"
  "map dev_slot (update_known alias host port protocol fingerprint devices) = map dev_slot devices"
  by (induction devices) auto

lemma slots_map: "slots devices = List.map_filter id (map dev_slot devices)"
  by (simp add: slots_def List.map_filter_def filter_map comp_def)

lemma registry_ok_map:
  "registry_ok devices \<longleftrightarrow>
     distinct (map dev_fingerprint devices) \<and> distinct (slots devices) \<and> set (slots devices) \<subseteq> set SLOTS \<and>
     (None \<in> set (map dev_slot devices) \<longrightarrow> set SLOTS \<subseteq> set (slots devices))"
proof -
  have "(\<forall>d \<in> set devices. dev_slot d = None \<longrightarrow> P) \<longleftrightarrow> (None \<in> set (map dev_slot devices) \<longrightarrow> P)" for P
    unfolding set_map image_iff by (metis (full_types))
  then show ?thesis by (simp only: registry_ok_def)
qed

lemma registry_ok_upsert:
  assumes "registry_ok devices"
  shows "registry_ok (snd (upsert alias host port protocol fingerprint devices))"
proof (cases "list_ex (\<lambda>d. dev_fingerprint d = fingerprint) devices")
  case True
  then show ?thesis
    using assms unfolding registry_ok_map slots_map by (simp add: upsert_def update_known_slots)
next
  case False
  then show ?thesis
    using assms free_slot_Some [of devices] free_slot_None [of devices]
    by (cases "free_slot devices") (auto simp: upsert_def Let_def registry_ok_map list_ex_iff image_iff)
qed

lemma by_slot_upsert:
  assumes "by_slot slot devices = Some d"
  shows "\<exists>d'. by_slot slot (snd (upsert alias host port protocol fingerprint devices)) = Some d' \<and>
    dev_fingerprint d' = dev_fingerprint d"
proof (cases "list_ex (\<lambda>d. dev_fingerprint d = fingerprint) devices")
  case True
  have "by_slot slot devices = Some d \<Longrightarrow>
    \<exists>d'. by_slot slot (update_known alias host port protocol fingerprint devices) = Some d' \<and>
      dev_fingerprint d' = dev_fingerprint d"
    by (induction devices) (auto simp: by_slot_def split: if_splits)
  then show ?thesis using True assms by (simp add: upsert_def)
next
  case False
  have "find P xs = Some x \<Longrightarrow> find P (xs @ ys) = Some x" for P xs ys and x :: device
    by (induction xs) (auto split: if_splits)
  then show ?thesis using False assms by (simp add: upsert_def by_slot_def Let_def)
qed

definition upsert_all :: "(string \<times> string \<times> u16 \<times> protocol_type_v2 \<times> string) list \<Rightarrow> registry \<Rightarrow> registry" where
  "upsert_all seen devices =
     foldl (\<lambda>ds (alias, host, port, protocol, fingerprint). snd (upsert alias host port protocol fingerprint ds))
       devices seen"

text \<open>
  C40: Whatever devices are seen in whatever order, each fingerprint has one entry, a key belongs to one
  device, a device has no key only when all nine are taken, and a key never changes hands.
\<close>

theorem device_keys_stable:
  assumes "by_slot slot (upsert_all seen []) = Some d"
  shows "registry_ok (upsert_all (seen @ later) []) \<and>
    (\<exists>d'. by_slot slot (upsert_all (seen @ later) []) = Some d' \<and> dev_fingerprint d' = dev_fingerprint d)"
proof -
  have ok: "registry_ok (upsert_all xs [])" for xs
  proof (induction xs rule: rev_induct)
    case Nil
    then show ?case by (simp add: upsert_all_def registry_ok_def)
  next
    case (snoc x xs)
    then show ?case by (cases x) (simp add: upsert_all_def registry_ok_upsert)
  qed
  have "\<exists>d'. by_slot slot (upsert_all (seen @ later) []) = Some d' \<and> dev_fingerprint d' = dev_fingerprint d"
  proof (induction later rule: rev_induct)
    case Nil
    then show ?case using assms by simp
  next
    case (snoc x xs)
    then show ?case
      using by_slot_upsert by (cases x) (fastforce simp: upsert_all_def)
  qed
  then show ?thesis using ok by blast
qed

theorem device_keys_stable_witness:
  "\<exists>d'. by_slot 1 (upsert_all ([(''Phone'', ''10.0.0.3'', 53317, Https, ''AA'')] @
      [(''Laptop'', ''10.0.0.4'', 53317, Https, ''BB''), (''Phone'', ''10.0.0.9'', 53317, Https, ''AA'')]) []) = Some d' \<and>
    dev_fingerprint d' = ''AA''"
proof -
  have "by_slot 1 (upsert_all [(''Phone'', ''10.0.0.3'', 53317, Https, ''AA'')] []) =
      Some \<lparr>dev_slot = Some 1, dev_alias = ''Phone'', dev_host = ''10.0.0.3'', dev_port = 53317,
        dev_protocol = Https, dev_fingerprint = ''AA''\<rparr>"
    by (simp add: upsert_all_def upsert_def by_slot_def free_slot_def SLOTS_def Let_def)
  from device_keys_stable [OF this] show ?thesis by simp
qed

end
