(* ===== verification/Interfaces.thy ===== *)
theory Interfaces
  imports Target_Url
begin

text \<open>
  The network interfaces discovery uses (\<open>multicast/interface.rs\<close>): the filter, and the selection
  of addresses from what the crate \<open>if_addrs\<close> reports. The pattern matcher is equivalent to a
  declarative account of patterns.
\<close>

section \<open>Filters\<close>

record interface_filter =
  if_whitelist :: "string list option"
  if_blacklist :: "string list option"

text \<open>\<open>str::strip_prefix\<close>.\<close>

fun strip_prefix :: "string \<Rightarrow> string \<Rightarrow> string option" where
  "strip_prefix [] s = Some s"
| "strip_prefix (p # ps) [] = None"
| "strip_prefix (p # ps) (c # cs) = (if p = c then strip_prefix ps cs else None)"

lemma split_once_shorter: "split_once c s = Some (a, b) \<Longrightarrow> length b < length s"
  by (drule split_once_Some) simp

text \<open>Addresses are ASCII text, so that every position is a character boundary.\<close>

function matches_ip_filter :: "string \<Rightarrow> string \<Rightarrow> bool" where
  "matches_ip_filter pattern address =
     (case split_once CHR ''*'' pattern of
        None \<Rightarrow> pattern = address
      | Some (prefix, rest) \<Rightarrow>
          (case strip_prefix prefix address of
             None \<Rightarrow> False
           | Some remainder \<Rightarrow>
               (let max_len = length (takeWhile (\<lambda>c. c \<noteq> CHR ''.'') remainder)
                in list_ex (\<lambda>len. matches_ip_filter rest (drop len remainder)) [1..<Suc max_len])))"
  by pat_completeness auto
termination by (relation "measure (length \<circ> fst)") (auto dest: split_once_shorter)

declare matches_ip_filter.simps [simp del]

definition any_address_matches :: "ip_addr list \<Rightarrow> string list \<Rightarrow> bool" where
  "any_address_matches addresses patterns \<longleftrightarrow>
     list_ex (\<lambda>address. list_ex (\<lambda>pattern. matches_ip_filter pattern (ip_to_string address)) patterns) addresses"

definition is_ignored :: "interface_filter \<Rightarrow> ip_addr list \<Rightarrow> bool" where
  "is_ignored filt addresses =
     (if (case if_whitelist filt of Some whitelist \<Rightarrow> \<not> any_address_matches addresses whitelist
          | None \<Rightarrow> False) then True
      else (case if_blacklist filt of Some blacklist \<Rightarrow> any_address_matches addresses blacklist
            | None \<Rightarrow> False))"

section \<open>Interfaces\<close>

text \<open>An entry of \<open>if_addrs::get_if_addrs\<close>; only an IPv4 entry has a broadcast address.\<close>

record if_addr =
  ia_name :: string
  ia_loopback :: bool
  ia_ip :: ip_addr
  ia_index :: "u32 option"
  ia_broadcast :: "ip_addr option"

record local_interface_v4 =
  l4_name :: string
  l4_address :: ip_addr
  l4_broadcast :: "ip_addr option"

record local_interface_v6 =
  l6_name :: string
  l6_index :: u32

record if_entry =
  en_name :: string
  en_index :: "u32 option"
  en_addresses :: "ip_addr list"
  en_broadcasts :: "(ip_addr \<times> ip_addr) list"

definition is_v4 :: "ip_addr \<Rightarrow> bool" where
  "is_v4 ip = (case ip of V4 _ _ _ _ \<Rightarrow> True | V6 _ _ _ _ _ _ _ _ \<Rightarrow> False)"

definition broadcast_of :: "if_addr \<Rightarrow> (ip_addr \<times> ip_addr) list" where
  "broadcast_of i =
     (if is_v4 (ia_ip i) then (case ia_broadcast i of Some b \<Rightarrow> [(ia_ip i, b)] | None \<Rightarrow> []) else [])"

fun add_interface :: "if_addr \<Rightarrow> if_entry list \<Rightarrow> if_entry list" where
  "add_interface i [] =
     [\<lparr>en_name = ia_name i, en_index = ia_index i, en_addresses = [ia_ip i], en_broadcasts = broadcast_of i\<rparr>]"
| "add_interface i (e # es) =
     (if en_name e = ia_name i
      then e\<lparr>en_index := (case en_index e of None \<Rightarrow> ia_index i | Some n \<Rightarrow> Some n),
             en_addresses := en_addresses e @ [ia_ip i],
             en_broadcasts := en_broadcasts e @ broadcast_of i\<rparr> # es
      else e # add_interface i es)"

definition entries_by_name :: "if_addr list \<Rightarrow> if_entry list" where
  "entries_by_name interfaces =
     foldl (\<lambda>by_name i. if ia_loopback i then by_name else add_interface i by_name) [] interfaces"

definition entry_v4 :: "if_entry \<Rightarrow> local_interface_v4 list" where
  "entry_v4 e =
     map (\<lambda>address. \<lparr>l4_name = en_name e, l4_address = address,
                      l4_broadcast = map_of (en_broadcasts e) address\<rparr>)
       (filter is_v4 (en_addresses e))"

definition entry_v6 :: "if_entry \<Rightarrow> local_interface_v6 list" where
  "entry_v6 e =
     (if list_ex (\<lambda>a. \<not> is_v4 a) (en_addresses e)
      then (case en_index e of Some index \<Rightarrow> [\<lparr>l6_name = en_name e, l6_index = index\<rparr>] | None \<Rightarrow> [])
      else [])"

definition local_interfaces ::
  "interface_filter \<Rightarrow> if_addr list \<Rightarrow> local_interface_v4 list \<times> local_interface_v6 list" where
  "local_interfaces filt interfaces =
     (let used = filter (\<lambda>e. \<not> is_ignored filt (en_addresses e)) (entries_by_name interfaces)
      in (concat (map entry_v4 used), concat (map entry_v6 used)))"

section \<open>What a pattern means\<close>

text \<open>A star stands for one or more characters other than a full stop.\<close>

inductive glob :: "string \<Rightarrow> string \<Rightarrow> bool" where
  glob_empty: "glob [] []"
| glob_char: "c \<noteq> CHR ''*'' \<Longrightarrow> glob p s \<Longrightarrow> glob (c # p) (c # s)"
| glob_star: "w \<noteq> [] \<Longrightarrow> CHR ''.'' \<notin> set w \<Longrightarrow> glob p s \<Longrightarrow> glob (CHR ''*'' # p) (w @ s)"

inductive_simps glob_nil [simp]: "glob [] s"
inductive_cases glob_starE: "glob (CHR ''*'' # p) s"
inductive_cases glob_charE: "glob (c # p) s"

lemma glob_literal: "CHR ''*'' \<notin> set p \<Longrightarrow> glob (p @ q) s \<longleftrightarrow> (\<exists>t. s = p @ t \<and> glob q t)"
proof (induction p arbitrary: s)
  case (Cons c p)
  then have ih: "glob (p @ q) s \<longleftrightarrow> (\<exists>t. s = p @ t \<and> glob q t)" and c: "c \<noteq> CHR ''*''" for s
    by auto
  show ?case
  proof
    assume "glob ((c # p) @ q) s"
    then have "glob (c # p @ q) s" by simp
    then obtain t where "s = c # t" "glob (p @ q) t"
      by (rule glob_charE) (use c in auto)
    then show "\<exists>t. s = (c # p) @ t \<and> glob q t" using ih by auto
  next
    assume "\<exists>t. s = (c # p) @ t \<and> glob q t"
    then show "glob ((c # p) @ q) s" using ih c by (auto intro: glob_char)
  qed
qed simp

lemma strip_prefix_iff: "strip_prefix p s = Some t \<longleftrightarrow> s = p @ t"
  by (induction p s rule: strip_prefix.induct) auto

lemma strip_prefix_append [simp]: "strip_prefix p (p @ t) = Some t"
  by (simp add: strip_prefix_iff)

lemma glob_star_iff:
  "glob (CHR ''*'' # p) s \<longleftrightarrow>
     (\<exists>len. 1 \<le> len \<and> len \<le> length (takeWhile (\<lambda>c. c \<noteq> CHR ''.'') s) \<and> glob p (drop len s))"
proof
  assume "glob (CHR ''*'' # p) s"
  then obtain w t where s: "s = w @ t" "w \<noteq> []" "CHR ''.'' \<notin> set w" "glob p t"
    by (rule glob_starE) auto
  have "takeWhile (\<lambda>c. c \<noteq> CHR ''.'') s = w @ takeWhile (\<lambda>c. c \<noteq> CHR ''.'') t"
    unfolding s(1) using s(3) by (intro takeWhile_append2) auto
  then show "\<exists>len. 1 \<le> len \<and> len \<le> length (takeWhile (\<lambda>c. c \<noteq> CHR ''.'') s) \<and> glob p (drop len s)"
    using s by (intro exI [of _ "length w"]) (simp add: Suc_le_eq)
next
  assume "\<exists>len. 1 \<le> len \<and> len \<le> length (takeWhile (\<lambda>c. c \<noteq> CHR ''.'') s) \<and> glob p (drop len s)"
  then obtain len where len: "1 \<le> len" "len \<le> length (takeWhile (\<lambda>c. c \<noteq> CHR ''.'') s)" "glob p (drop len s)"
    by blast
  have "take len s = take len (takeWhile (\<lambda>c. c \<noteq> CHR ''.'') s)"
    using len(2) by (metis takeWhile_eq_take take_take min.absorb1)
  then have "CHR ''.'' \<notin> set (take len s)"
    by (metis in_set_takeD set_takeWhileD)
  moreover have "take len s \<noteq> []" using len(1,2) by (cases s) auto
  ultimately have "glob (CHR ''*'' # p) (take len s @ drop len s)"
    using len(3) by (intro glob_star)
  then show "glob (CHR ''*'' # p) s" by simp
qed

lemma matches_glob: "matches_ip_filter pattern address \<longleftrightarrow> glob pattern address"
proof (induction pattern address rule: matches_ip_filter.induct)
  case (1 pattern address)
  show ?case
  proof (cases "split_once CHR ''*'' pattern")
    case None
    have "CHR ''*'' \<notin> set pattern"
      using None by (metis split_list split_once_at option.distinct(1) split_list_first)
    then show ?thesis
      using None glob_literal [of pattern "[]" address] by (subst matches_ip_filter.simps) auto
  next
    case (Some pr)
    obtain prefix rest where pr: "pr = (prefix, rest)" by fastforce
    with Some have pattern: "pattern = prefix @ CHR ''*'' # rest" "CHR ''*'' \<notin> set prefix"
      using split_once_Some [of "CHR ''*''" pattern] by auto
    have "matches_ip_filter pattern address \<longleftrightarrow>
        (\<exists>remainder. address = prefix @ remainder \<and>
          (\<exists>len. 1 \<le> len \<and> len \<le> length (takeWhile (\<lambda>c. c \<noteq> CHR ''.'') remainder) \<and>
            matches_ip_filter rest (drop len remainder)))"
      using Some pr
      by (subst matches_ip_filter.simps)
        (auto simp: strip_prefix_iff list_ex_iff Bex_def less_Suc_eq_le Let_def split: option.split)
    also have "\<dots> \<longleftrightarrow> (\<exists>remainder. address = prefix @ remainder \<and> glob (CHR ''*'' # rest) remainder)"
    proof -
      have "matches_ip_filter rest (drop len remainder) \<longleftrightarrow> glob rest (drop len remainder)"
        if "address = prefix @ remainder" "1 \<le> len" "len \<le> length (takeWhile (\<lambda>c. c \<noteq> CHR ''.'') remainder)"
        for len remainder
        using that by (intro "1.IH" [OF Some pr [symmetric] _ refl]) auto
      then show ?thesis unfolding glob_star_iff by blast
    qed
    also have "\<dots> \<longleftrightarrow> glob pattern address"
      unfolding pattern(1) glob_literal [OF pattern(2)] ..
    finally show ?thesis .
  qed
qed

section \<open>What is selected\<close>

text \<open>The entries of an interface that are not loopback, and what is collected of them.\<close>

definition own_addrs :: "if_addr list \<Rightarrow> string \<Rightarrow> if_addr list" where
  "own_addrs interfaces n = filter (\<lambda>i. \<not> ia_loopback i \<and> ia_name i = n) interfaces"

definition first_index :: "if_addr list \<Rightarrow> u32 option" where
  "first_index own = foldl (\<lambda>r i. case r of None \<Rightarrow> ia_index i | Some x \<Rightarrow> Some x) None own"

definition entry_for :: "if_addr list \<Rightarrow> string \<Rightarrow> if_entry" where
  "entry_for interfaces n =
     \<lparr>en_name = n, en_index = first_index (own_addrs interfaces n),
      en_addresses = map ia_ip (own_addrs interfaces n),
      en_broadcasts = concat (map broadcast_of (own_addrs interfaces n))\<rparr>"

lemma own_addrs_snoc:
  "own_addrs (is @ [i]) n = own_addrs is n @ (if \<not> ia_loopback i \<and> ia_name i = n then [i] else [])"
  by (simp add: own_addrs_def)

lemma add_interface_names:
  "map en_name (add_interface i es) =
     (if ia_name i \<in> set (map en_name es) then map en_name es else map en_name es @ [ia_name i])"
  by (induction es) auto

definition extend_entry :: "if_addr \<Rightarrow> if_entry \<Rightarrow> if_entry" where
  "extend_entry i e =
     e\<lparr>en_index := (case en_index e of None \<Rightarrow> ia_index i | Some n \<Rightarrow> Some n),
       en_addresses := en_addresses e @ [ia_ip i], en_broadcasts := en_broadcasts e @ broadcast_of i\<rparr>"

lemma add_interface_known:
  "distinct (map en_name es) \<Longrightarrow> e \<in> set es \<Longrightarrow> en_name e = ia_name i \<Longrightarrow>
     set (add_interface i es) = insert (extend_entry i e) (set es - {e})"
proof (induction es)
  case (Cons x es)
  show ?case
  proof (cases "en_name x = ia_name i")
    case True
    then have "x = e" using Cons.prems by (force simp: image_iff)
    moreover have "e \<notin> set es" using Cons.prems(1) \<open>x = e\<close> by force
    ultimately show ?thesis using True by (auto simp: extend_entry_def)
  next
    case False
    then have "set (add_interface i es) = insert (extend_entry i e) (set es - {e})" "x \<noteq> e"
      using Cons by auto
    then show ?thesis using False by auto
  qed
qed simp

lemma add_interface_new:
  "ia_name i \<notin> set (map en_name es) \<Longrightarrow>
     add_interface i es = es @ [\<lparr>en_name = ia_name i, en_index = ia_index i, en_addresses = [ia_ip i],
       en_broadcasts = broadcast_of i\<rparr>]"
  by (induction es) auto

lemma entry_for_snoc:
  "entry_for (is @ [i]) n =
     (if \<not> ia_loopback i \<and> ia_name i = n then
        (if own_addrs is n = []
         then \<lparr>en_name = n, en_index = ia_index i, en_addresses = [ia_ip i], en_broadcasts = broadcast_of i\<rparr>
         else extend_entry i (entry_for is n))
      else entry_for is n)"
  by (simp add: entry_for_def own_addrs_snoc extend_entry_def first_index_def)

lemma entries_exact:
  "distinct (map en_name (entries_by_name is)) \<and>
   set (entries_by_name is) = entry_for is ` {n. own_addrs is n \<noteq> []}"
proof (induction "is" rule: rev_induct)
  case Nil
  then show ?case by (simp add: entries_by_name_def own_addrs_def)
next
  case (snoc i "is")
  let ?es = "entries_by_name is" and ?n = "ia_name i"
  show ?case
  proof (cases "ia_loopback i")
    case True
    then have "entries_by_name (is @ [i]) = ?es" "own_addrs (is @ [i]) = own_addrs is"
      "entry_for (is @ [i]) = entry_for is"
      by (auto simp: entries_by_name_def own_addrs_snoc entry_for_snoc fun_eq_iff)
    then show ?thesis using snoc by simp
  next
    case False
    then have step: "entries_by_name (is @ [i]) = add_interface i ?es" by (simp add: entries_by_name_def)
    have names: "en_name (entry_for is n) = n" for n by (simp add: entry_for_def)
    have known: "?n \<in> set (map en_name ?es) \<longleftrightarrow> own_addrs is ?n \<noteq> []"
      using snoc names by (auto simp: image_iff)
    have others: "{n. own_addrs (is @ [i]) n \<noteq> []} = insert ?n {n. own_addrs is n \<noteq> []}"
      using False by (auto simp: own_addrs_snoc)
    have distinct: "distinct (map en_name (add_interface i ?es))"
      using snoc by (simp add: add_interface_names)
    show ?thesis
    proof (cases "own_addrs is ?n = []")
      case True
      then have "set (add_interface i ?es) = insert (entry_for (is @ [i]) ?n) (set ?es)"
        using known False by (simp add: add_interface_new entry_for_snoc)
      moreover have "entry_for (is @ [i]) n = entry_for is n" if "own_addrs is n \<noteq> []" for n
        using that True by (auto simp: entry_for_snoc)
      ultimately show ?thesis unfolding step others using distinct snoc by auto
    next
      case known: False
      then have mem: "entry_for is ?n \<in> set ?es" using snoc by auto
      have "set (add_interface i ?es) = insert (extend_entry i (entry_for is ?n)) (set ?es - {entry_for is ?n})"
        using snoc mem names by (intro add_interface_known) auto
      also have "\<dots> = entry_for (is @ [i]) ` {n. own_addrs (is @ [i]) n \<noteq> []}"
      proof -
        have "entry_for (is @ [i]) ?n = extend_entry i (entry_for is ?n)"
          using False known by (simp add: entry_for_snoc)
        moreover have "set ?es - {entry_for is ?n} = entry_for is ` ({n. own_addrs is n \<noteq> []} - {?n})"
          using snoc names by (auto simp: image_iff) metis
        moreover have "entry_for (is @ [i]) n = entry_for is n" if "n \<noteq> ?n" for n
          using that by (auto simp: entry_for_snoc)
        ultimately have "insert (extend_entry i (entry_for is ?n)) (set ?es - {entry_for is ?n}) =
            insert (entry_for (is @ [i]) ?n) (entry_for (is @ [i]) ` ({n. own_addrs is n \<noteq> []} - {?n}))"
          by (simp add: image_def)
        then show ?thesis unfolding others by auto
      qed
      finally show ?thesis unfolding step using distinct by simp
    qed
  qed
qed

lemma in_entry_v6: "j \<in> set (entry_v6 e) \<longleftrightarrow>
    (\<exists>a \<in> set (en_addresses e). \<not> is_v4 a) \<and> en_name e = l6_name j \<and> en_index e = Some (l6_index j)"
  by (cases j; cases "en_index e"; cases "list_ex (\<lambda>a. \<not> is_v4 a) (en_addresses e)")
    (auto simp: entry_v6_def list_ex_iff)

section \<open>Properties\<close>

text \<open>
  A filter pattern matches an address exactly when the address is the pattern with each star
  replaced by one or more characters other than a full stop.
\<close>

theorem filter_pattern_exact: "matches_ip_filter pattern address \<longleftrightarrow> glob pattern address"
  by (rule matches_glob)

text \<open>
  An address is used for IPv4 discovery exactly when an interface that is not loopback has it
  and the filter does not ignore that interface, judged by all its addresses; an interface is
  used for IPv6 exactly when it is not ignored, has an IPv6 address and its index is known.
\<close>

theorem interfaces_exact:
  "((\<exists>b. \<lparr>l4_name = n, l4_address = a, l4_broadcast = b\<rparr> \<in> set (fst (local_interfaces filt is))) \<longleftrightarrow>
      is_v4 a \<and> a \<in> ia_ip ` set (own_addrs is n) \<and> \<not> is_ignored filt (map ia_ip (own_addrs is n))) \<and>
   (\<lparr>l6_name = n, l6_index = x\<rparr> \<in> set (snd (local_interfaces filt is)) \<longleftrightarrow>
      (\<exists>i \<in> set (own_addrs is n). \<not> is_v4 (ia_ip i)) \<and> first_index (own_addrs is n) = Some x \<and>
      \<not> is_ignored filt (map ia_ip (own_addrs is n)))"
proof -
  have used: "(\<exists>e \<in> set (entries_by_name is). Q e) \<longleftrightarrow> (\<exists>m. own_addrs is m \<noteq> [] \<and> Q (entry_for is m))" for Q
    using entries_exact [of "is"] by auto
  have v4: "x \<in> set (fst (local_interfaces filt is)) \<longleftrightarrow>
      (\<exists>m. own_addrs is m \<noteq> [] \<and> \<not> is_ignored filt (en_addresses (entry_for is m)) \<and> x \<in> set (entry_v4 (entry_for is m)))" for x
    using used [of "\<lambda>e. \<not> is_ignored filt (en_addresses e) \<and> x \<in> set (entry_v4 e)"]
    by (auto simp: local_interfaces_def Let_def)
  have v6: "x \<in> set (snd (local_interfaces filt is)) \<longleftrightarrow>
      (\<exists>m. own_addrs is m \<noteq> [] \<and> \<not> is_ignored filt (en_addresses (entry_for is m)) \<and> x \<in> set (entry_v6 (entry_for is m)))" for x
    using used [of "\<lambda>e. \<not> is_ignored filt (en_addresses e) \<and> x \<in> set (entry_v6 e)"]
    by (auto simp: local_interfaces_def Let_def)
  have "(\<exists>b. \<lparr>l4_name = n, l4_address = a, l4_broadcast = b\<rparr> \<in> set (fst (local_interfaces filt is))) \<longleftrightarrow>
      is_v4 a \<and> a \<in> ia_ip ` set (own_addrs is n) \<and> \<not> is_ignored filt (map ia_ip (own_addrs is n))"
    (is "?l \<longleftrightarrow> ?r")
  proof
    assume ?r
    then have "\<lparr>l4_name = n, l4_address = a, l4_broadcast = map_of (en_broadcasts (entry_for is n)) a\<rparr>
        \<in> set (entry_v4 (entry_for is n))"
      by (auto simp: entry_v4_def entry_for_def)
    moreover have "own_addrs is n \<noteq> []" "\<not> is_ignored filt (en_addresses (entry_for is n))"
      using \<open>?r\<close> by (auto simp: entry_for_def)
    ultimately show ?l unfolding v4 by blast
  qed (auto simp: v4 entry_v4_def entry_for_def)
  moreover have "\<lparr>l6_name = n, l6_index = x\<rparr> \<in> set (snd (local_interfaces filt is)) \<longleftrightarrow>
      (\<exists>i \<in> set (own_addrs is n). \<not> is_v4 (ia_ip i)) \<and> first_index (own_addrs is n) = Some x \<and>
      \<not> is_ignored filt (map ia_ip (own_addrs is n))"
    unfolding v6 in_entry_v6 by (auto simp: entry_for_def)
  ultimately show ?thesis by blast
qed

end
