(* ===== verification/Multicast.thy ===== *)
theory Multicast
  imports Interfaces "HOL-Library.Sublist"
begin

text \<open>
  Discovery over UDP multicast (\<open>multicast/mod.rs\<close>, \<open>multicast/socket.rs\<close> and the message of
  \<open>model/discovery.rs\<close>): binding one socket per usable interface, announcing, listening, and
  stopping. Binding a socket, sending and receiving a datagram are the operating system's: the
  results are inputs. The tasks of a running discovery (announcements, one receive loop per
  socket, the supervisor) interleave at their awaits as a step relation.
\<close>

section \<open>Messages\<close>

record multicast_device =
  md_alias :: string
  md_version :: string
  md_device_model :: "string option"
  md_device_type :: "device_type option"
  md_fingerprint :: string
  md_port :: u16
  md_protocol :: protocol_type_v2
  md_download :: bool

record multicast_message_v2 =
  mm_alias :: string
  mm_version :: string
  mm_device_model :: "string option"
  mm_device_type :: "device_type option"
  mm_fingerprint :: string
  mm_port :: u16
  mm_protocol :: protocol_type_v2
  mm_download :: bool

definition to_message :: "multicast_device \<Rightarrow> multicast_message_v2" where
  "to_message d =
     \<lparr>mm_alias = md_alias d, mm_version = md_version d, mm_device_model = md_device_model d,
      mm_device_type = md_device_type d, mm_fingerprint = md_fingerprint d, mm_port = md_port d,
      mm_protocol = md_protocol d, mm_download = md_download d\<rparr>"

text \<open>
  The JSON object of a message, field by field; an absent field is \<open>None\<close>. Printing and
  parsing it is \<open>serde_json\<close>, which ignores fields it does not know.
\<close>

record message_json =
  mj_alias :: string
  mj_version :: string
  mj_device_model :: "string option"
  mj_device_type :: "string option"
  mj_fingerprint :: string
  mj_port :: u16
  mj_protocol :: protocol_type_v2
  mj_download :: "bool option"
  mj_announce :: "bool option"

definition announced_message :: "multicast_message_v2 \<Rightarrow> bool \<Rightarrow> message_json" where
  "announced_message m announce =
     \<lparr>mj_alias = mm_alias m, mj_version = mm_version m, mj_device_model = mm_device_model m,
      mj_device_type = device_type_serialize (mm_device_type m), mj_fingerprint = mm_fingerprint m,
      mj_port = mm_port m, mj_protocol = mm_protocol m, mj_download = Some (mm_download m),
      mj_announce = Some announce\<rparr>"

definition message_from_json :: "(string \<Rightarrow> string) \<Rightarrow> message_json \<Rightarrow> multicast_message_v2" where
  "message_from_json lowercase j =
     \<lparr>mm_alias = mj_alias j, mm_version = mj_version j, mm_device_model = mj_device_model j,
      mm_device_type = device_type_deserialize lowercase (mj_device_type j),
      mm_fingerprint = mj_fingerprint j, mm_port = mj_port j, mm_protocol = mj_protocol j,
      mm_download = (case mj_download j of Some d \<Rightarrow> d | None \<Rightarrow> False)\<rparr>"

record discovered =
  dv_ip :: ip_addr
  dv_scope_id :: "u32 option"
  dv_message :: multicast_message_v2

section \<open>Sockets\<close>

definition ANNOUNCE_DELAYS :: "nat list" where
  "ANNOUNCE_DELAYS = [100, 500, 2000]"

definition RECEIVE_BUFFER_SIZE :: nat where
  "RECEIVE_BUFFER_SIZE = 65536"

definition MAX_CONSECUTIVE_RECEIVE_ERRORS :: nat where
  "MAX_CONSECUTIVE_RECEIVE_ERRORS = 10"

record 'k multicast_socket =
  ms_description :: string
  ms_target :: socket_addr
  ms_broadcast :: "ip_addr option"
  ms_socket :: 'k

record 'k send_socket =
  ss_target :: socket_addr
  ss_broadcast :: "ip_addr option"
  ss_port :: u16
  ss_socket :: 'k

text \<open>Enabling broadcast on a socket may fail, which is only logged.\<close>

definition bind_one_v4 ::
  "(ip_addr \<Rightarrow> u16 \<Rightarrow> ip_addr \<Rightarrow> 'k option) \<Rightarrow> ip_addr \<Rightarrow> u16 \<Rightarrow> local_interface_v4 \<Rightarrow> 'k multicast_socket option" where
  "bind_one_v4 bind_v4 grp port i =
     (case bind_v4 grp port (l4_address i) of
        Some k \<Rightarrow>
          Some \<lparr>ms_description = l4_name i @ '' ('' @ ip_to_string (l4_address i) @ '')'',
                ms_target = Sock_V4 grp port, ms_broadcast = l4_broadcast i, ms_socket = k\<rparr>
      | None \<Rightarrow> None)"

definition bind_one_v6 ::
  "(ip_addr \<Rightarrow> u16 \<Rightarrow> u32 \<Rightarrow> 'k option) \<Rightarrow> ip_addr \<Rightarrow> u16 \<Rightarrow> local_interface_v6 \<Rightarrow> 'k multicast_socket option" where
  "bind_one_v6 bind_v6 grp port i =
     (case bind_v6 grp port (l6_index i) of
        Some k \<Rightarrow>
          Some \<lparr>ms_description = l6_name i @ '' (IPv6, if-index '' @ nat_str 10 (unat (l6_index i)) @ '')'',
                ms_target = Sock_V6 grp port (l6_index i), ms_broadcast = None, ms_socket = k\<rparr>
      | None \<Rightarrow> None)"

definition bind_multicast_sockets ::
  "(ip_addr \<Rightarrow> u16 \<Rightarrow> ip_addr \<Rightarrow> 'k option) \<Rightarrow> (ip_addr \<Rightarrow> u16 \<Rightarrow> u32 \<Rightarrow> 'k option) \<Rightarrow>
   ip_addr \<Rightarrow> ip_addr option \<Rightarrow> u16 \<Rightarrow> interface_filter \<Rightarrow> 'e + if_addr list \<Rightarrow>
   'e + 'k multicast_socket list" where
  "bind_multicast_sockets bind_v4 bind_v6 grp grp_v6 port filt if_addrs =
     (case if_addrs of
        Inl e \<Rightarrow> Inl e
      | Inr interfaces \<Rightarrow>
          (let (v4, v6) = local_interfaces filt interfaces
           in Inr (List.map_filter (bind_one_v4 bind_v4 grp port) v4 @
                (case grp_v6 of
                   Some grp \<Rightarrow> List.map_filter (bind_one_v6 bind_v6 grp port) v6
                 | None \<Rightarrow> []))))"

section \<open>A running discovery\<close>

record multicast_config =
  mc_group :: ip_addr
  mc_group_v6 :: "ip_addr option"
  mc_port :: u16
  mc_interface_filter :: interface_filter
  mc_device :: multicast_device

datatype 'e multicast_error = Interfaces_Error 'e | No_Interface u16

datatype receiver = Listening nat | Emitting discovered | Ended

text \<open>An announcement sleeps before its next message or is sending one; \<open>Sleeping []\<close> has returned.\<close>

datatype 'k announcement =
    Sleeping "nat list"
  | Sending "('k \<times> socket_addr) list" "nat list"

datatype supervisor = Waiting | Stopping | Clearing | Stopped

record 'k multicast_state =
  st_device :: multicast_device
  st_sockets :: "'k send_socket list"
  st_cancelled :: bool
  st_receivers :: "('k multicast_socket \<times> receiver) list"
  st_announcements :: "'k announcement list"
  st_supervisor :: supervisor
  st_events :: "discovered list"
  st_sent :: "(('k \<times> socket_addr \<times> bytes) \<times> bool) list"

definition multicast_start ::
  "(ip_addr \<Rightarrow> u16 \<Rightarrow> ip_addr \<Rightarrow> 'k option) \<Rightarrow> (ip_addr \<Rightarrow> u16 \<Rightarrow> u32 \<Rightarrow> 'k option) \<Rightarrow>
   'e + if_addr list \<Rightarrow> multicast_config \<Rightarrow> 'e multicast_error + 'k multicast_state" where
  "multicast_start bind_v4 bind_v6 if_addrs config =
     (case bind_multicast_sockets bind_v4 bind_v6 (mc_group config) (mc_group_v6 config) (mc_port config)
             (mc_interface_filter config) if_addrs of
        Inl e \<Rightarrow> Inl (Interfaces_Error e)
      | Inr sockets \<Rightarrow>
          if sockets = [] then Inl (No_Interface (mc_port config))
          else Inr
            \<lparr>st_device = mc_device config,
             st_sockets = map (\<lambda>s. \<lparr>ss_target = ms_target s, ss_broadcast = ms_broadcast s,
                                     ss_port = mc_port config, ss_socket = ms_socket s\<rparr>) sockets,
             st_cancelled = False,
             st_receivers = map (\<lambda>s. (s, Listening 0)) sockets,
             st_announcements = [], st_supervisor = Waiting, st_events = [], st_sent = []\<rparr>)"

text \<open>
  \<open>MulticastState::send\<close>: the payload, and the datagrams in the order they are sent, on the
  sockets as they are when it starts. A datagram that cannot be sent is only logged.
\<close>

definition send_payload :: "(message_json \<Rightarrow> bytes option) \<Rightarrow> multicast_device \<Rightarrow> bytes option" where
  "send_payload print_json d = print_json (announced_message (to_message d) True)"

definition socket_targets :: "'k send_socket \<Rightarrow> ('k \<times> socket_addr) list" where
  "socket_targets s =
     (ss_socket s, ss_target s) #
     (case ss_broadcast s of Some b \<Rightarrow> [(ss_socket s, Sock_V4 b (ss_port s))] | None \<Rightarrow> [])"

definition send_targets :: "bytes option \<Rightarrow> 'k send_socket list \<Rightarrow> ('k \<times> socket_addr) list" where
  "send_targets payload sockets =
     (case payload of None \<Rightarrow> [] | Some _ \<Rightarrow> concat (map socket_targets sockets))"

text \<open>One round of \<open>receive_loop\<close>: what becomes of a received datagram or an error.\<close>

datatype arrival = Datagram bytes socket_addr | Recv_Error

definition discovered_from :: "socket_addr \<Rightarrow> multicast_message_v2 \<Rightarrow> discovered" where
  "discovered_from source m =
     \<lparr>dv_ip = sock_ip source,
      dv_scope_id =
        (case source of
           Sock_V6 ip port scope \<Rightarrow> if scope \<noteq> 0 then Some scope else None
         | _ \<Rightarrow> None),
      dv_message = m\<rparr>"

fun receive_step ::
  "(bytes \<Rightarrow> message_json option) \<Rightarrow> (string \<Rightarrow> string) \<Rightarrow> string \<Rightarrow> nat \<Rightarrow> arrival \<Rightarrow> receiver" where
  "receive_step parse lowercase own consecutive_errors Recv_Error =
     (if Suc consecutive_errors \<ge> MAX_CONSECUTIVE_RECEIVE_ERRORS then Ended
      else Listening (Suc consecutive_errors))"
| "receive_step parse lowercase own consecutive_errors (Datagram d source) =
     (case parse (take RECEIVE_BUFFER_SIZE d) of
        None \<Rightarrow> Listening 0
      | Some j \<Rightarrow>
          (let message = message_from_json lowercase j
           in if mm_fingerprint message = own then Listening 0
              else Emitting (discovered_from source message)))"

text \<open>
  A receive loop on all that arrives before it is stopped; with each arrival, whether the
  application still takes events.
\<close>

fun receive_loop ::
  "(bytes \<Rightarrow> message_json option) \<Rightarrow> (string \<Rightarrow> string) \<Rightarrow> string \<Rightarrow> nat \<Rightarrow> (arrival \<times> bool) list \<Rightarrow>
   discovered list \<times> receiver" where
  "receive_loop parse lowercase own n [] = ([], Listening n)"
| "receive_loop parse lowercase own n ((a, taken) # as) =
     (case receive_step parse lowercase own n a of
        Ended \<Rightarrow> ([], Ended)
      | Listening m \<Rightarrow> receive_loop parse lowercase own m as
      | Emitting e \<Rightarrow>
          if taken then (let (es, r) = receive_loop parse lowercase own 0 as in (e # es, r))
          else ([], Ended))"

section \<open>Steps\<close>

inductive mc_step ::
  "(message_json \<Rightarrow> bytes option) \<Rightarrow> (bytes \<Rightarrow> message_json option) \<Rightarrow> (string \<Rightarrow> string) \<Rightarrow>
   'k multicast_state \<Rightarrow> 'k multicast_state \<Rightarrow> bool"
  for print_json parse lowercase where
  announce_called:
    "mc_step print_json parse lowercase s
       (s\<lparr>st_announcements := st_announcements s @ [Sleeping ANNOUNCE_DELAYS]\<rparr>)"
| announce_wakes:
    "i < length (st_announcements s) \<Longrightarrow> st_announcements s ! i = Sleeping (delay # delays) \<Longrightarrow>
     mc_step print_json parse lowercase s
       (s\<lparr>st_announcements := (st_announcements s)
            [i := Sending (send_targets (send_payload print_json (st_device s)) (st_sockets s)) delays]\<rparr>)"
| announce_cancelled:
    "i < length (st_announcements s) \<Longrightarrow> st_announcements s ! i = Sleeping (delay # delays) \<Longrightarrow>
     st_cancelled s \<Longrightarrow>
     mc_step print_json parse lowercase s (s\<lparr>st_announcements := (st_announcements s)[i := Sleeping []]\<rparr>)"
| datagram_sent:
    "i < length (st_announcements s) \<Longrightarrow> st_announcements s ! i = Sending ((k, target) # todo) delays \<Longrightarrow>
     send_payload print_json (st_device s) = Some payload \<Longrightarrow>
     mc_step print_json parse lowercase s
       (s\<lparr>st_announcements := (st_announcements s)[i := Sending todo delays],
          st_sent := st_sent s @ [((k, target, payload), ok)]\<rparr>)"
| message_sent:
    "i < length (st_announcements s) \<Longrightarrow> st_announcements s ! i = Sending [] delays \<Longrightarrow>
     mc_step print_json parse lowercase s (s\<lparr>st_announcements := (st_announcements s)[i := Sleeping delays]\<rparr>)"
| received:
    "i < length (st_receivers s) \<Longrightarrow> st_receivers s ! i = (socket, Listening n) \<Longrightarrow>
     mc_step print_json parse lowercase s
       (s\<lparr>st_receivers := (st_receivers s)
            [i := (socket, receive_step parse lowercase (md_fingerprint (st_device s)) n a)]\<rparr>)"
| event_taken:
    "i < length (st_receivers s) \<Longrightarrow> st_receivers s ! i = (socket, Emitting e) \<Longrightarrow>
     mc_step print_json parse lowercase s
       (s\<lparr>st_receivers := (st_receivers s)[i := (socket, Listening 0)], st_events := st_events s @ [e]\<rparr>)"
| event_refused:
    "i < length (st_receivers s) \<Longrightarrow> st_receivers s ! i = (socket, Emitting e) \<Longrightarrow>
     mc_step print_json parse lowercase s (s\<lparr>st_receivers := (st_receivers s)[i := (socket, Ended)]\<rparr>)"
| receiver_cancelled:
    "i < length (st_receivers s) \<Longrightarrow> st_receivers s ! i = (socket, Listening n) \<Longrightarrow> st_cancelled s \<Longrightarrow>
     mc_step print_json parse lowercase s (s\<lparr>st_receivers := (st_receivers s)[i := (socket, Ended)]\<rparr>)"
| all_gave_up:
    "st_supervisor s = Waiting \<Longrightarrow> list_all (\<lambda>r. snd r = Ended) (st_receivers s) \<Longrightarrow>
     mc_step print_json parse lowercase s (s\<lparr>st_supervisor := Stopping, st_cancelled := True\<rparr>)"
| stop_requested:
    "st_supervisor s = Waiting \<Longrightarrow>
     mc_step print_json parse lowercase s (s\<lparr>st_supervisor := Stopping, st_cancelled := True\<rparr>)"
| receivers_shut_down:
    "st_supervisor s = Stopping \<Longrightarrow>
     mc_step print_json parse lowercase s
       (s\<lparr>st_supervisor := Clearing, st_receivers := map (\<lambda>(socket, _). (socket, Ended)) (st_receivers s)\<rparr>)"
| sockets_cleared:
    "st_supervisor s = Clearing \<Longrightarrow>
     mc_step print_json parse lowercase s (s\<lparr>st_supervisor := Stopped, st_sockets := []\<rparr>)"

abbreviation mc_run where
  "mc_run print_json parse lowercase \<equiv> (mc_step print_json parse lowercase)\<^sup>*\<^sup>*"

text \<open>An announcement in the middle of a message holds the sockets of the rest of it open.\<close>

definition mid_message :: "'k announcement \<Rightarrow> bool" where
  "mid_message a = (case a of Sending todo _ \<Rightarrow> todo \<noteq> [] | Sleeping _ \<Rightarrow> False)"

section \<open>Receiving\<close>

lemma receive_loop_gives_up:
  assumes "n < MAX_CONSECUTIVE_RECEIVE_ERRORS"
  shows "snd (receive_loop parse lowercase own n (map (\<lambda>a. (a, True)) as)) = Ended \<longleftrightarrow>
    prefix (replicate (MAX_CONSECUTIVE_RECEIVE_ERRORS - n) Recv_Error) as \<or>
    sublist (replicate MAX_CONSECUTIVE_RECEIVE_ERRORS Recv_Error) as"
  using assms
proof (induction as arbitrary: n)
  case Nil
  then show ?case by (auto simp: MAX_CONSECUTIVE_RECEIVE_ERRORS_def)
next
  case (Cons a as)
  let ?M = MAX_CONSECUTIVE_RECEIVE_ERRORS
  let ?err = "\<lambda>n. replicate n Recv_Error"
  have M: "?M = Suc 9" by (simp add: MAX_CONSECUTIVE_RECEIVE_ERRORS_def)
  have longer: "prefix (?err m) xs" if "prefix (?err ?M) xs" "m \<le> ?M" for m xs
    using that prefix_order.trans [of "?err m" "?err ?M" xs]
    by (metis replicate_add le_add_diff_inverse prefixI)
  show ?case
  proof (cases a)
    case (Datagram d source)
    have "snd (receive_loop parse lowercase own n (map (\<lambda>a. (a, True)) (a # as))) =
        snd (receive_loop parse lowercase own 0 (map (\<lambda>a. (a, True)) as))"
      by (simp add: Datagram Let_def split: option.split prod.split)
    moreover have "\<not> prefix (?err m) (a # as)" if "0 < m" for m
      using that Datagram by (cases m) auto
    ultimately show ?thesis
      using Cons longer [of as 0] Cons.IH [of 0] longer [of as "?M"]
      by (auto simp: sublist_Cons_right M simp del: replicate_Suc)
  next
    case Recv_Error
    have rep: "?err (?M - n) = Recv_Error # ?err (?M - Suc n)"
      using Cons.prems by (metis Suc_diff_Suc replicate_Suc)
    show ?thesis
    proof (cases "Suc n \<ge> ?M")
      case True
      then show ?thesis using rep Recv_Error by simp
    next
      case False
      then have "snd (receive_loop parse lowercase own n (map (\<lambda>a. (a, True)) (a # as))) =
          snd (receive_loop parse lowercase own (Suc n) (map (\<lambda>a. (a, True)) as))"
        by (simp add: Recv_Error)
      moreover have "prefix (?err ?M) (a # as) \<Longrightarrow> prefix (?err (?M - Suc n)) as"
        using longer [of "a # as" "?M - n"] rep Recv_Error by simp
      ultimately show ?thesis
        using Cons.IH [of "Suc n"] False rep Recv_Error
        by (auto simp: sublist_Cons_right simp del: replicate_Suc)
    qed
  qed
qed

lemma message_json_roundtrip:
  assumes "\<And>s. s \<in> {''mobile'', ''desktop'', ''web'', ''headless'', ''server''} \<Longrightarrow> lowercase s = s"
  shows "message_from_json lowercase (announced_message m b) = m"
proof -
  have "device_type_deserialize lowercase (device_type_serialize t) = t" for t
    using device_type_roundtrip [OF assms] by (cases t) (auto simp: device_type_deserialize_def)
  then show ?thesis by (simp add: message_from_json_def announced_message_def)
qed

section \<open>The invariant of a running discovery\<close>

definition receiver_ok :: "string \<Rightarrow> receiver \<Rightarrow> bool" where
  "receiver_ok own r =
     (case r of
        Emitting e \<Rightarrow> mm_fingerprint (dv_message e) \<noteq> own
      | Listening n \<Rightarrow> n < MAX_CONSECUTIVE_RECEIVE_ERRORS
      | Ended \<Rightarrow> True)"

definition announcement_ok :: "('k \<times> socket_addr) set \<Rightarrow> 'k announcement \<Rightarrow> bool" where
  "announcement_ok targets a = (case a of Sending todo _ \<Rightarrow> set todo \<subseteq> targets | Sleeping _ \<Rightarrow> True)"

text \<open>\<open>d\<close> is the device and \<open>targets\<close> where it announces, which never change.\<close>

definition mc_inv ::
  "(message_json \<Rightarrow> bytes option) \<Rightarrow> multicast_device \<Rightarrow> ('k \<times> socket_addr) set \<Rightarrow> 'k multicast_state \<Rightarrow> bool" where
  "mc_inv print_json d targets s \<longleftrightarrow>
     st_device s = d \<and>
     set (concat (map socket_targets (st_sockets s))) \<subseteq> targets \<and>
     (st_supervisor s \<in> {Clearing, Stopped} \<longrightarrow> (\<forall>r \<in> set (st_receivers s). snd r = Ended)) \<and>
     (st_supervisor s = Stopped \<longrightarrow> st_sockets s = []) \<and>
     (\<forall>r \<in> set (st_receivers s). receiver_ok (md_fingerprint d) (snd r)) \<and>
     (\<forall>a \<in> set (st_announcements s). announcement_ok targets a) \<and>
     (\<forall>e \<in> set (st_events s). mm_fingerprint (dv_message e) \<noteq> md_fingerprint d) \<and>
     (\<forall>((k, target, payload), ok) \<in> set (st_sent s).
        (k, target) \<in> targets \<and> send_payload print_json d = Some payload)"

lemma receive_step_ok:
  "n < MAX_CONSECUTIVE_RECEIVE_ERRORS \<Longrightarrow> receiver_ok own (receive_step parse lowercase own n a)"
  by (cases a)
    (auto simp: receiver_ok_def discovered_from_def Let_def MAX_CONSECUTIVE_RECEIVE_ERRORS_def split: option.split)

lemma send_targets_subset: "set (send_targets payload sockets) \<subseteq> set (concat (map socket_targets sockets))"
  by (cases payload) (auto simp: send_targets_def)

lemma mc_inv_start:
  "multicast_start bind_v4 bind_v6 if_addrs config = Inr s \<Longrightarrow>
   mc_inv print_json (mc_device config) (set (concat (map socket_targets (st_sockets s)))) s"
  by (auto simp: multicast_start_def mc_inv_def receiver_ok_def MAX_CONSECUTIVE_RECEIVE_ERRORS_def
      split: sum.splits if_splits)

lemma mc_inv_announcements:
  "mc_inv print_json d targets s \<Longrightarrow> announcement_ok targets a \<Longrightarrow>
   mc_inv print_json d targets (s\<lparr>st_announcements := (st_announcements s)[i := a]\<rparr>)"
  using set_update_subset_insert [of "st_announcements s" i a] by (auto simp: mc_inv_def)

lemma mc_inv_receivers:
  "mc_inv print_json d targets s \<Longrightarrow> receiver_ok (md_fingerprint d) (snd r) \<Longrightarrow>
   st_supervisor s \<in> {Clearing, Stopped} \<longrightarrow> snd r = Ended \<Longrightarrow>
   mc_inv print_json d targets (s\<lparr>st_receivers := (st_receivers s)[i := r]\<rparr>)"
  using set_update_subset_insert [of "st_receivers s" i r] by (auto simp: mc_inv_def)

lemma mc_inv_step:
  assumes "mc_step print_json parse lowercase s t" and inv: "mc_inv print_json d targets s"
  shows "mc_inv print_json d targets t"
  using assms(1)
proof cases
  case announce_called
  then show ?thesis using inv by (auto simp: mc_inv_def announcement_ok_def)
next
  case (announce_wakes i delay delays)
  have "announcement_ok targets
      (Sending (send_targets (send_payload print_json (st_device s)) (st_sockets s)) delays)"
    using inv send_targets_subset [of _ "st_sockets s"] by (fastforce simp: mc_inv_def announcement_ok_def)
  then show ?thesis unfolding announce_wakes(1) by (rule mc_inv_announcements [OF inv])
next
  case (announce_cancelled i delay delays)
  show ?thesis unfolding announce_cancelled(1)
    by (rule mc_inv_announcements [OF inv]) (simp add: announcement_ok_def)
next
  case (datagram_sent i k target todo delays payload ok)
  have "Sending ((k, target) # todo) delays \<in> set (st_announcements s)"
    using datagram_sent by (metis nth_mem)
  then have "announcement_ok targets (Sending ((k, target) # todo) delays)"
    using inv by (auto simp: mc_inv_def)
  then have "(k, target) \<in> targets" "announcement_ok targets (Sending todo delays)"
    by (auto simp: announcement_ok_def)
  then show ?thesis
    using mc_inv_announcements [OF inv, of "Sending todo delays" i] datagram_sent
    by (auto simp: mc_inv_def)
next
  case (message_sent i delays)
  show ?thesis unfolding message_sent(1)
    by (rule mc_inv_announcements [OF inv]) (simp add: announcement_ok_def)
next
  case (received i socket n a)
  have mem: "(socket, Listening n) \<in> set (st_receivers s)"
    using received by (metis nth_mem)
  then have "n < MAX_CONSECUTIVE_RECEIVE_ERRORS" and "st_supervisor s \<notin> {Clearing, Stopped}"
    using inv by (auto simp: mc_inv_def receiver_ok_def dest!: bspec)
  moreover have "st_device s = d" using inv by (simp add: mc_inv_def)
  ultimately show ?thesis unfolding received(1)
    by (intro mc_inv_receivers [OF inv]) (auto intro: receive_step_ok)
next
  case (event_taken i socket e)
  have mem: "(socket, Emitting e) \<in> set (st_receivers s)"
    using event_taken by (metis nth_mem)
  then have "mm_fingerprint (dv_message e) \<noteq> md_fingerprint d" and "st_supervisor s \<notin> {Clearing, Stopped}"
    using inv by (auto simp: mc_inv_def receiver_ok_def dest!: bspec)
  then show ?thesis
    using mc_inv_receivers [OF inv, of "(socket, Listening 0)" i] event_taken
    by (auto simp: mc_inv_def receiver_ok_def MAX_CONSECUTIVE_RECEIVE_ERRORS_def)
next
  case (event_refused i socket e)
  show ?thesis unfolding event_refused(1)
    by (rule mc_inv_receivers [OF inv]) (auto simp: receiver_ok_def)
next
  case (receiver_cancelled i socket n)
  show ?thesis unfolding receiver_cancelled(1)
    by (rule mc_inv_receivers [OF inv]) (auto simp: receiver_ok_def)
next
  case all_gave_up
  then show ?thesis using inv by (auto simp: mc_inv_def)
next
  case stop_requested
  then show ?thesis using inv by (auto simp: mc_inv_def)
next
  case receivers_shut_down
  then show ?thesis using inv by (auto simp: mc_inv_def receiver_ok_def)
next
  case sockets_cleared
  then show ?thesis using inv by (auto simp: mc_inv_def)
qed

lemma mc_inv_run:
  "mc_run print_json parse lowercase s t \<Longrightarrow> mc_inv print_json d targets s \<Longrightarrow> mc_inv print_json d targets t"
  by (induction rule: rtranclp_induct) (auto intro: mc_inv_step)

definition quiet :: "'k multicast_state \<Rightarrow> bool" where
  "quiet s \<longleftrightarrow> st_supervisor s = Stopped \<and> st_sockets s = [] \<and> (\<forall>r \<in> set (st_receivers s). snd r = Ended) \<and>
     \<not> list_ex mid_message (st_announcements s)"

lemma mid_message_update:
  "list_ex mid_message (as[i := a]) \<Longrightarrow> \<not> mid_message a \<Longrightarrow> list_ex mid_message as"
  using set_update_subset_insert [of as i a] by (auto simp: list_ex_iff)

lemma quiet_step:
  assumes "mc_step print_json parse lowercase s t" and quiet: "quiet s"
  shows "quiet t \<and> st_sent t = st_sent s \<and> st_events t = st_events s"
  using assms(1)
proof cases
  case (announce_wakes i delay delays)
  have "send_targets (send_payload print_json (st_device s)) (st_sockets s) = []"
    using quiet by (simp add: quiet_def send_targets_def split: option.split)
  then show ?thesis
    using quiet announce_wakes by (auto simp: quiet_def mid_message_def dest!: mid_message_update)
next
  case (datagram_sent i k target todo delays payload ok)
  have "mid_message (st_announcements s ! i)" using datagram_sent by (simp add: mid_message_def)
  then have "list_ex mid_message (st_announcements s)" using datagram_sent by (auto simp: list_ex_length)
  then show ?thesis using quiet by (simp add: quiet_def)
next
  case (received i socket n a)
  then have "(socket, Listening n) \<in> set (st_receivers s)" by (metis nth_mem)
  then show ?thesis using quiet by (force simp: quiet_def)
next
  case (event_taken i socket e)
  then have "(socket, Emitting e) \<in> set (st_receivers s)" by (metis nth_mem)
  then show ?thesis using quiet by (force simp: quiet_def)
next
  case (event_refused i socket e)
  then have "(socket, Emitting e) \<in> set (st_receivers s)" by (metis nth_mem)
  then show ?thesis using quiet by (force simp: quiet_def)
next
  case (receiver_cancelled i socket n)
  then have "(socket, Listening n) \<in> set (st_receivers s)" by (metis nth_mem)
  then show ?thesis using quiet by (force simp: quiet_def)
qed (use quiet in \<open>auto simp: quiet_def mid_message_def dest!: mid_message_update\<close>)

lemma quiet_run:
  "mc_run print_json parse lowercase s t \<Longrightarrow> quiet s \<Longrightarrow>
     quiet t \<and> st_sent t = st_sent s \<and> st_events t = st_events s"
proof (induction rule: rtranclp_induct)
  case (step t u)
  then show ?case using quiet_step [of print_json parse lowercase t u] by simp
qed simp

lemma in_map_filter: "x \<in> set (List.map_filter f xs) \<longleftrightarrow> (\<exists>i \<in> set xs. f i = Some x)"
  by (force simp: List.map_filter_def image_iff)

definition send_socket_of :: "u16 \<Rightarrow> 'k multicast_socket \<Rightarrow> 'k send_socket" where
  "send_socket_of port m =
     \<lparr>ss_target = ms_target m, ss_broadcast = ms_broadcast m, ss_port = port, ss_socket = ms_socket m\<rparr>"

lemma targets_of_v4:
  "(\<exists>m. bind_one_v4 bind_v4 grp port i = Some m \<and> (k, target) \<in> set (socket_targets (send_socket_of port m))) \<longleftrightarrow>
     bind_v4 grp port (l4_address i) = Some k \<and>
     (target = Sock_V4 grp port \<or> (\<exists>b. l4_broadcast i = Some b \<and> target = Sock_V4 b port))"
  by (cases "bind_v4 grp port (l4_address i)"; cases "l4_broadcast i")
    (auto simp: bind_one_v4_def socket_targets_def send_socket_of_def)

lemma targets_of_v6:
  "(\<exists>m. bind_one_v6 bind_v6 grp port i = Some m \<and> (k, target) \<in> set (socket_targets (send_socket_of port m))) \<longleftrightarrow>
     bind_v6 grp port (l6_index i) = Some k \<and> target = Sock_V6 grp port (l6_index i)"
  by (cases "bind_v6 grp port (l6_index i)")
    (auto simp: bind_one_v6_def socket_targets_def send_socket_of_def)

lemma send_targets_append:
  "send_targets payload (xs @ ys) = send_targets payload xs @ send_targets payload ys"
  by (simp add: send_targets_def split: option.split)

lemma targets_of_all:
  "(k, target) \<in> set (send_targets (Some payload) (map (send_socket_of port) (List.map_filter f xs))) \<longleftrightarrow>
     (\<exists>i \<in> set xs. \<exists>m. f i = Some m \<and> (k, target) \<in> set (socket_targets (send_socket_of port m)))"
  unfolding send_targets_def by (simp add: Bex_def in_map_filter) blast

text \<open>A device, for the witnesses.\<close>

definition example_device :: multicast_device where
  "example_device = \<lparr>md_alias = ''Nice Orange'', md_version = ''2.1'', md_device_model = None,
     md_device_type = Some Desktop, md_fingerprint = ''aa'', md_port = 53317, md_protocol = Https, md_download = False\<rparr>"

section \<open>Properties\<close>

text \<open>
  A receive loop gives up on its socket exactly when ten receive errors follow one another;
  any datagram in between, whatever it holds, starts the count anew.
\<close>

theorem receive_gives_up_exactly:
  "snd (receive_loop parse lowercase own 0 (map (\<lambda>a. (a, True)) arrivals)) = Ended \<longleftrightarrow>
     sublist (replicate 10 Recv_Error) arrivals"
  using receive_loop_gives_up [of 0 parse lowercase own arrivals]
  by (auto simp: MAX_CONSECUTIVE_RECEIVE_ERRORS_def)

text \<open>
  C36: What one device announces is what another one discovers: the datagram of an announcement
  makes the receive loop report exactly the device that sent it, with the address and scope it
  came from, unless the fingerprint is the receiver's own.
\<close>

theorem announcement_discovered:
  assumes json: "\<And>j p. print_json j = Some p \<Longrightarrow> parse p = Some j"
    and lower: "\<And>s. s \<in> {''mobile'', ''desktop'', ''web'', ''headless'', ''server''} \<Longrightarrow> lowercase s = s"
    and payload: "send_payload print_json d = Some payload" "length payload \<le> RECEIVE_BUFFER_SIZE"
  shows "receive_step parse lowercase own n (Datagram payload source) =
    (if md_fingerprint d = own then Listening 0
     else Emitting \<lparr>dv_ip = p_ip (peer_from_remote_addr source),
            dv_scope_id = p_scope_id (peer_from_remote_addr source), dv_message = to_message d\<rparr>)"
proof -
  have "parse payload = Some (announced_message (to_message d) True)"
    using payload(1) by (intro json) (simp add: send_payload_def)
  then show ?thesis
    using payload(2) message_json_roundtrip [OF lower, of "to_message d" True]
    by (simp add: discovered_from_def peer_from_remote_addr_def to_message_def)
qed

theorem announcement_discovered_witness:
  "receive_step (\<lambda>p. if p = [1] then Some (announced_message (to_message example_device) True) else None) id ''bb'' 3
      (Datagram [1] (Sock_V6 (V6 65152 0 0 0 0 0 0 1) 53317 2)) =
    Emitting \<lparr>dv_ip = V6 65152 0 0 0 0 0 0 1, dv_scope_id = Some 2, dv_message = to_message example_device\<rparr>"
proof -
  let ?j = "announced_message (to_message example_device) True"
  have "receive_step (\<lambda>p. if p = [1] then Some ?j else None) id ''bb'' 3
      (Datagram [1] (Sock_V6 (V6 65152 0 0 0 0 0 0 1) 53317 2)) =
    (if md_fingerprint example_device = ''bb'' then Listening 0
     else Emitting \<lparr>dv_ip = p_ip (peer_from_remote_addr (Sock_V6 (V6 65152 0 0 0 0 0 0 1) 53317 2)),
       dv_scope_id = p_scope_id (peer_from_remote_addr (Sock_V6 (V6 65152 0 0 0 0 0 0 1) 53317 2)),
       dv_message = to_message example_device\<rparr>)"
    by (rule announcement_discovered [of "\<lambda>j. if j = ?j then Some [1] else None"])
      (auto simp: send_payload_def RECEIVE_BUFFER_SIZE_def split: if_splits)
  then show ?thesis by (simp add: peer_from_remote_addr_def example_device_def)
qed

text \<open>
  A message is announced on exactly the usable interfaces: one datagram to the group per IPv4
  address whose socket could be bound, another to the broadcast address of its network if it has
  one, and one per interface bound for IPv6 if that is enabled.
\<close>

theorem announced_everywhere:
  assumes "multicast_start bind_v4 bind_v6 (Inr interfaces) config = Inr s"
  shows "(k, target) \<in> set (send_targets (Some payload) (st_sockets s)) \<longleftrightarrow>
    (\<exists>i \<in> set (fst (local_interfaces (mc_interface_filter config) interfaces)).
       bind_v4 (mc_group config) (mc_port config) (l4_address i) = Some k \<and>
       (target = Sock_V4 (mc_group config) (mc_port config) \<or>
        (\<exists>b. l4_broadcast i = Some b \<and> target = Sock_V4 b (mc_port config)))) \<or>
    (\<exists>g. mc_group_v6 config = Some g \<and>
      (\<exists>i \<in> set (snd (local_interfaces (mc_interface_filter config) interfaces)).
         bind_v6 g (mc_port config) (l6_index i) = Some k \<and> target = Sock_V6 g (mc_port config) (l6_index i)))"
proof -
  have sockets: "st_sockets s =
      map (send_socket_of (mc_port config))
        (List.map_filter (bind_one_v4 bind_v4 (mc_group config) (mc_port config))
           (fst (local_interfaces (mc_interface_filter config) interfaces)) @
         (case mc_group_v6 config of
            Some g \<Rightarrow> List.map_filter (bind_one_v6 bind_v6 g (mc_port config))
              (snd (local_interfaces (mc_interface_filter config) interfaces))
          | None \<Rightarrow> []))"
    using assms
    by (auto simp: multicast_start_def bind_multicast_sockets_def send_socket_of_def split_beta
        split: if_splits sum.splits)
  show ?thesis
    unfolding sockets map_append send_targets_append set_append Un_iff targets_of_all targets_of_v4
    by (cases "mc_group_v6 config") (simp_all add: targets_of_all targets_of_v6 send_targets_def [of _ "[]"])
qed

text \<open>
  C37: However the tasks of a discovery interleave, it never reports its own announcement, and
  every datagram it sends is its announcement, to a target of a socket it has bound.
\<close>

theorem discovery_safe:
  assumes "multicast_start bind_v4 bind_v6 if_addrs config = Inr s0"
    and "mc_run print_json parse lowercase s0 s"
  shows "(\<forall>e \<in> set (st_events s). mm_fingerprint (dv_message e) \<noteq> md_fingerprint (mc_device config)) \<and>
    (\<forall>((k, target, payload), ok) \<in> set (st_sent s).
       send_payload print_json (mc_device config) = Some payload \<and>
       (k, target) \<in> set (send_targets (Some payload) (st_sockets s0)))"
  using mc_inv_run [OF assms(2) mc_inv_start [OF assms(1)]]
  by (auto simp: mc_inv_def send_targets_def)

text \<open>
  Once a stop has completed and no announcement is in the middle of a message, the discovery
  sends and reports nothing more, whatever is called or arrives afterwards.
\<close>

theorem stopped_is_quiet:
  assumes "multicast_start bind_v4 bind_v6 if_addrs config = Inr s0"
    and "mc_run print_json parse lowercase s0 s" and "st_supervisor s = Stopped"
    and "\<not> list_ex mid_message (st_announcements s)" and "mc_run print_json parse lowercase s t"
  shows "st_sockets t = [] \<and> st_sent t = st_sent s \<and> st_events t = st_events s"
proof -
  have "mc_inv print_json (mc_device config) (set (concat (map socket_targets (st_sockets s0)))) s"
    using mc_inv_run [OF assms(2) mc_inv_start [OF assms(1)]] .
  then have "quiet s" using assms(3,4) by (simp add: mc_inv_def quiet_def)
  from quiet_run [OF assms(5) this] show ?thesis by (simp add: quiet_def)
qed

section \<open>Witnesses\<close>

text \<open>The device with one interface, bound as socket 7.\<close>

definition example_config :: multicast_config where
  "example_config = \<lparr>mc_group = V4 224 0 0 167, mc_group_v6 = None, mc_port = 53317,
     mc_interface_filter = \<lparr>if_whitelist = None, if_blacklist = None\<rparr>, mc_device = example_device\<rparr>"

definition example_interfaces :: "if_addr list" where
  "example_interfaces = [\<lparr>ia_name = ''eth0'', ia_loopback = False, ia_ip = V4 10 0 0 2, ia_index = Some 2,
     ia_broadcast = Some (V4 10 0 0 255)\<rparr>]"

definition example_socket :: "nat multicast_socket" where
  "example_socket = \<lparr>ms_description = ''eth0 (10.0.0.2)'', ms_target = Sock_V4 (V4 224 0 0 167) 53317,
     ms_broadcast = Some (V4 10 0 0 255), ms_socket = 7\<rparr>"

definition example_state :: "nat multicast_state" where
  "example_state = \<lparr>st_device = example_device,
     st_sockets = [\<lparr>ss_target = Sock_V4 (V4 224 0 0 167) 53317, ss_broadcast = Some (V4 10 0 0 255),
       ss_port = 53317, ss_socket = 7\<rparr>],
     st_cancelled = False, st_receivers = [(example_socket, Listening 0)], st_announcements = [],
     st_supervisor = Waiting, st_events = [], st_sent = []\<rparr>"

lemma example_start:
  "multicast_start (\<lambda>_ _ _. Some 7) (\<lambda>_ _ _. None) (Inr example_interfaces :: unit + if_addr list) example_config =
     Inr example_state"
  by (simp add: multicast_start_def bind_multicast_sockets_def local_interfaces_def entries_by_name_def
      broadcast_of_def is_v4_def is_ignored_def entry_v4_def entry_v6_def List.map_filter_def bind_one_v4_def
      ipv4_to_string_def nat_str.simps hex_digit_def
      example_config_def example_interfaces_def example_state_def example_socket_def)

theorem announced_everywhere_witness:
  "(7, Sock_V4 (V4 10 0 0 255) 53317) \<in> set (send_targets (Some []) (st_sockets example_state))"
  unfolding announced_everywhere [OF example_start]
  by (simp add: local_interfaces_def entries_by_name_def broadcast_of_def is_v4_def is_ignored_def entry_v4_def
      entry_v6_def example_config_def example_interfaces_def)

text \<open>The stop is requested while the first message of an announcement is being sent.\<close>

definition example_held :: "nat multicast_state" where
  "example_held = example_state\<lparr>st_cancelled := True, st_sockets := [], st_supervisor := Stopped,
     st_receivers := [(example_socket, Ended)],
     st_announcements := [Sending [(7, Sock_V4 (V4 224 0 0 167) 53317), (7, Sock_V4 (V4 10 0 0 255) 53317)] [500, 2000]]\<rparr>"

lemma example_held_reached: "mc_run (\<lambda>_. Some [1]) parse lowercase example_state example_held"
proof -
  let ?step = "mc_step (\<lambda>_. Some [1]) parse lowercase"
  let ?s1 = "example_state\<lparr>st_announcements := [Sleeping [100, 500, 2000]]\<rparr>"
  let ?s2 = "?s1\<lparr>st_announcements :=
    [Sending [(7, Sock_V4 (V4 224 0 0 167) 53317), (7, Sock_V4 (V4 10 0 0 255) 53317)] [500, 2000]]\<rparr>"
  let ?s3 = "?s2\<lparr>st_supervisor := Stopping, st_cancelled := True\<rparr>"
  let ?s4 = "?s3\<lparr>st_supervisor := Clearing, st_receivers := [(example_socket, Ended)]\<rparr>"
  have "?step example_state ?s1"
    using announce_called [of "\<lambda>_. Some [1]" parse lowercase example_state]
    by (simp add: ANNOUNCE_DELAYS_def example_state_def)
  moreover have "?step ?s1 ?s2"
    using announce_wakes [of 0 ?s1 100 "[500, 2000]" "\<lambda>_. Some [1]" parse lowercase]
    by (simp add: send_payload_def send_targets_def socket_targets_def example_state_def)
  moreover have "?step ?s2 ?s3"
    by (rule stop_requested) (simp add: example_state_def)
  moreover have "?step ?s3 ?s4"
    using receivers_shut_down [of ?s3 "\<lambda>_. Some [1]" parse lowercase]
    by (simp add: example_state_def)
  moreover have "?step ?s4 example_held"
    using sockets_cleared [of ?s4 "\<lambda>_. Some [1]" parse lowercase]
    by (simp add: example_state_def example_held_def)
  ultimately show ?thesis by (meson rtranclp.rtrancl_into_rtrancl rtranclp.rtrancl_refl)
qed

text \<open>The rest of that message is sent, and another announcement is called for.\<close>

definition example_done :: "nat multicast_state" where
  "example_done = example_held\<lparr>st_announcements := [Sleeping [500, 2000]],
     st_sent := [((7, Sock_V4 (V4 224 0 0 167) 53317, [1]), True), ((7, Sock_V4 (V4 10 0 0 255) 53317, [1]), False)]\<rparr>"

lemma example_done_reached: "mc_run (\<lambda>_. Some [1]) parse lowercase example_state example_done"
proof -
  let ?step = "mc_step (\<lambda>_. Some [1]) parse lowercase"
  let ?b = "Sock_V4 (V4 10 0 0 255) 53317" and ?g = "Sock_V4 (V4 224 0 0 167) 53317"
  let ?s1 = "example_held\<lparr>st_announcements := [Sending [(7, ?b)] [500, 2000]], st_sent := [((7, ?g, [1]), True)]\<rparr>"
  let ?s2 = "?s1\<lparr>st_announcements := [Sending [] [500, 2000]],
    st_sent := [((7, ?g, [1]), True), ((7, ?b, [1]), False)]\<rparr>"
  have "?step example_held ?s1"
    using datagram_sent [of 0 example_held 7 ?g "[(7, ?b)]" "[500, 2000]" "\<lambda>_. Some [1]" "[1]" parse lowercase True]
    by (simp add: example_held_def example_state_def send_payload_def)
  moreover have "?step ?s1 ?s2"
    using datagram_sent [of 0 ?s1 7 ?b "[]" "[500, 2000]" "\<lambda>_. Some [1]" "[1]" parse lowercase False]
    by (simp add: example_held_def example_state_def send_payload_def)
  moreover have "?step ?s2 example_done"
    using message_sent [of 0 ?s2 "[500, 2000]" "\<lambda>_. Some [1]" parse lowercase]
    by (simp add: example_done_def example_held_def example_state_def)
  ultimately show ?thesis
    using example_held_reached [of parse lowercase] by (meson rtranclp.rtrancl_into_rtrancl)
qed

text \<open>
  The sockets are not all closed when a stop has completed: an announcement that is sending a
  message then holds them and goes on to send, although the port is said to be free.
\<close>

theorem sockets_held_after_stop:
  "\<exists>s t. multicast_start (\<lambda>_ _ _. Some (7::nat)) (\<lambda>_ _ _. None) (Inr example_interfaces :: unit + if_addr list)
       example_config = Inr example_state \<and>
     mc_run (\<lambda>_. Some [1]) parse lowercase example_state s \<and> st_supervisor s = Stopped \<and>
     mc_step (\<lambda>_. Some [1]) parse lowercase s t \<and> length (st_sent t) = Suc (length (st_sent s))"
proof -
  have "mc_step (\<lambda>_. Some [1]) parse lowercase example_held
      (example_held\<lparr>st_announcements := [Sending [(7, Sock_V4 (V4 10 0 0 255) 53317)] [500, 2000]],
         st_sent := [((7, Sock_V4 (V4 224 0 0 167) 53317, [1]), True)]\<rparr>)"
    using datagram_sent [of 0 example_held 7 "Sock_V4 (V4 224 0 0 167) 53317"
        "[(7, Sock_V4 (V4 10 0 0 255) 53317)]" "[500, 2000]" "\<lambda>_. Some [1]" "[1]" parse lowercase True]
    by (simp add: example_held_def example_state_def send_payload_def)
  moreover have "st_supervisor example_held = Stopped" "st_sent example_held = []"
    by (simp_all add: example_held_def example_state_def)
  ultimately show ?thesis using example_start example_held_reached [of parse lowercase] by fastforce
qed

theorem discovery_safe_witness:
  "st_sent example_done ! 1 = ((7, Sock_V4 (V4 10 0 0 255) 53317, [1]), False) \<and>
   (7, Sock_V4 (V4 10 0 0 255) 53317) \<in> set (send_targets (Some [1]) (st_sockets example_state))"
proof -
  have "\<forall>((k, target, payload), ok) \<in> set (st_sent example_done).
      send_payload (\<lambda>_. Some [1]) (mc_device example_config) = Some payload \<and>
      (k, target) \<in> set (send_targets (Some payload) (st_sockets example_state))"
    using discovery_safe [OF example_start example_done_reached [of "\<lambda>_. None" id]] by blast
  then show ?thesis by (simp add: example_done_def)
qed

theorem stopped_is_quiet_witness:
  "st_sent (example_done\<lparr>st_announcements := st_announcements example_done @ [Sleeping ANNOUNCE_DELAYS]\<rparr>) =
     st_sent example_done"
  using stopped_is_quiet [OF example_start example_done_reached [of "\<lambda>_. None" id] _ _
      r_into_rtranclp [of "mc_step (\<lambda>_. Some [1]) (\<lambda>_. None) id", OF announce_called]]
  by (simp add: example_done_def example_held_def mid_message_def)

end
