(* ===== verification/Cli_Util.thy ===== *)
theory Cli_Util
  imports Multicast Signaling
begin

text \<open>
  Helpers of the command line client: paths of received files, durations and the addresses of this
  device (\<open>cli/src/util.rs\<close>), and the measuring and cutting of terminal text (\<open>cli/src/ui.rs\<close>).
  Paths are those of Unix; whether a path exists is an argument. Text that is cut by columns is a
  list of code points.
\<close>

section \<open>Paths\<close>

text \<open>
  \<open>Path::components\<close> without the root: empty components and \<open>.\<close> do not count. \<open>Path::file_name\<close> is the
  last of them unless that is \<open>..\<close>.
\<close>

definition path_components :: "string \<Rightarrow> string list" where
  "path_components path = filter (\<lambda>c. c \<noteq> [] \<and> c \<noteq> ''.'') (split_on CHR ''/'' path)"

definition path_file_name :: "string \<Rightarrow> string option" where
  "path_file_name path =
     (let cs = path_components path
      in if cs = [] \<or> last cs = ''..'' then None else Some (last cs))"

text \<open>\<open>Path::join\<close> with a relative path.\<close>

definition path_join :: "string \<Rightarrow> string \<Rightarrow> string" where
  "path_join dir name =
     (if dir = [] \<or> last dir = CHR ''/'' then dir @ name else dir @ CHR ''/'' # name)"

text \<open>\<open>str::rsplit_once\<close>.\<close>

definition rsplit_once :: "char \<Rightarrow> string \<Rightarrow> (string \<times> string) option" where
  "rsplit_once c s =
     (case split_once c (rev s) of None \<Rightarrow> None | Some (b, a) \<Rightarrow> Some (rev a, rev b))"

definition stem_extension :: "string \<Rightarrow> string \<times> string" where
  "stem_extension name =
     (case rsplit_once CHR ''.'' name of
        Some (stem, extension) \<Rightarrow> if stem \<noteq> [] then (stem, CHR ''.'' # extension) else (name, [])
      | None \<Rightarrow> (name, []))"

text \<open>The number is an \<open>i32\<close>, the default type of an integer literal; \<open>Display\<close> shows its sign.\<close>

type_synonym i32 = "32 word"

definition i32_str :: "i32 \<Rightarrow> string" where
  "i32_str i = (if sint i < 0 then CHR ''-'' # nat_str 10 (nat (- sint i)) else nat_str 10 (nat (sint i)))"

definition numbered :: "string \<Rightarrow> string \<Rightarrow> i32 \<Rightarrow> string" where
  "numbered stem extension i = stem @ '' ('' @ i32_str i @ '')'' @ extension"

text \<open>
  The search for a free number. \<open>RangeFrom::next\<close> computes the number after the one it yields: at the
  last one this panics in a build with overflow checks and wraps to the first negative one in a build without, where
  the search does not end if every candidate exists.
\<close>

definition last_i32 :: i32 where
  "last_i32 = 0x7FFFFFFF"

partial_function (option) first_free ::
  "bool \<Rightarrow> (string \<Rightarrow> bool) \<Rightarrow> (i32 \<Rightarrow> string) \<Rightarrow> i32 \<Rightarrow> string run option" where
  "first_free overflow_checks exists candidate i =
     (if overflow_checks \<and> i = last_i32 then Some Panicked
      else if exists (candidate i) then first_free overflow_checks exists candidate (i + 1)
      else Some (Done (candidate i)))"

declare first_free.simps [code]

definition unique_path :: "bool \<Rightarrow> (string \<Rightarrow> bool) \<Rightarrow> string \<Rightarrow> string \<Rightarrow> string run option" where
  "unique_path overflow_checks exists dir file_name =
     (let name = (case path_file_name file_name of Some n \<Rightarrow> n | None \<Rightarrow> ''unnamed'');
          candidate = path_join dir name
      in if \<not> exists candidate then Some (Done candidate)
         else
           (let (stem, extension) = stem_extension name
            in first_free overflow_checks exists (\<lambda>i. path_join dir (numbered stem extension i)) 1))"

lemma path_components_clean:
  "c \<in> set (path_components path) \<Longrightarrow> c \<noteq> [] \<and> c \<noteq> ''.'' \<and> CHR ''/'' \<notin> set c"
proof -
  have "c \<in> set (split_on CHR ''/'' path) \<Longrightarrow> CHR ''/'' \<notin> set c"
    by (induction path arbitrary: c) (auto split: if_splits list.splits)
  then show "c \<in> set (path_components path) \<Longrightarrow> c \<noteq> [] \<and> c \<noteq> ''.'' \<and> CHR ''/'' \<notin> set c"
    by (auto simp: path_components_def)
qed

definition plain_name :: "string \<Rightarrow> bool" where
  "plain_name n \<longleftrightarrow> n \<noteq> [] \<and> n \<noteq> ''.'' \<and> n \<noteq> ''..'' \<and> CHR ''/'' \<notin> set n"

lemma path_file_name_plain: "path_file_name path = Some n \<Longrightarrow> plain_name n"
  using path_components_clean [OF last_in_set [of "path_components path"]]
  by (auto simp: path_file_name_def plain_name_def Let_def split: if_splits)

lemma stem_extension_append: "stem_extension name = (stem, extension) \<Longrightarrow> stem @ extension = name"
proof (cases "rsplit_once CHR ''.'' name")
  case (Some se)
  assume *: "stem_extension name = (stem, extension)"
  obtain b a where split: "split_once CHR ''.'' (rev name) = Some (b, a)" "se = (rev a, rev b)"
    using Some by (auto simp: rsplit_once_def split: option.splits)
  have "rev name = b @ CHR ''.'' # a" using split_once_Some [OF split(1)] by simp
  then have "name = rev a @ CHR ''.'' # rev b" by (metis append_assoc append_Cons append_Nil rev.simps(2) rev_append rev_rev_ident)
  then show ?thesis using * Some split(2) by (auto simp: stem_extension_def split: if_splits)
qed (auto simp: stem_extension_def)

lemma nat_str_no_char: "to_digit 10 c = None \<Longrightarrow> c \<notin> set (nat_str 10 n)"
  using nat_str_digits [of 10 n] by (auto simp: list_all_iff dest!: bspec [of _ _ c])

lemma to_digit_minus: "to_digit 10 CHR ''-'' = None"
  by (simp add: to_digit_def)

lemma i32_str_inj: "i32_str i = i32_str j \<Longrightarrow> i = j"
proof -
  assume eq: "i32_str i = i32_str j"
  have digits: "CHR ''-'' # s \<noteq> nat_str 10 n" for s n
    using nat_str_no_char [of "CHR ''-''" n] by (metis list.set_intros(1) to_digit_minus)
  have "sint i = sint j"
    using eq digits digits [symmetric]
    by (auto simp: i32_str_def dest!: nat_str_inj [of 10, simplified] split: if_splits)
  then have "(of_int (sint i) :: i32) = of_int (sint j)" by simp
  then show "i = j" by simp
qed

lemma numbered_plain:
  "CHR ''/'' \<notin> set (stem @ extension) \<Longrightarrow> plain_name (numbered stem extension i)"
proof -
  assume "CHR ''/'' \<notin> set (stem @ extension)"
  moreover have "CHR ''/'' \<notin> set (i32_str i)"
    using nat_str_no_char [of "CHR ''/''"] by (auto simp: i32_str_def to_digit_def)
  moreover have "CHR '' '' \<in> set (numbered stem extension i)" by (simp add: numbered_def)
  ultimately show ?thesis by (auto simp: plain_name_def numbered_def)
qed

lemma numbered_inj: "inj (\<lambda>i. path_join dir (numbered stem extension i))"
  by (auto simp: inj_def path_join_def numbered_def dest!: i32_str_inj split: if_splits)

lemma path_join_inject: "path_join dir a = path_join dir b \<longleftrightarrow> a = b"
  by (simp add: path_join_def)

lemma first_free_result:
  assumes "first_free overflow_checks exists candidate i = Some (Done p)"
  shows "\<not> exists p \<and> (\<exists>j. p = candidate j)"
proof -
  have "r = Done p \<longrightarrow> \<not> exists p \<and> (\<exists>j. p = candidate j)"
    if "first_free overflow_checks exists candidate i = Some r" for r
  proof (rule first_free.raw_induct [OF _ that])
    fix rec :: "bool \<Rightarrow> (string \<Rightarrow> bool) \<Rightarrow> (i32 \<Rightarrow> string) \<Rightarrow> i32 \<Rightarrow> string run option" and checks ex cand i r
    assume "\<And>checks ex cand i r. rec checks ex cand i = Some r \<Longrightarrow> r = Done p \<longrightarrow> \<not> ex p \<and> (\<exists>j. p = cand j)"
      and "(if checks \<and> i = last_i32 then Some Panicked
        else if ex (cand i) then rec checks ex cand (i + 1) else Some (Done (cand i))) = Some r"
    then show "r = Done p \<longrightarrow> \<not> ex p \<and> (\<exists>j. p = cand j)" by (simp split: if_splits) blast+
  qed
  then show ?thesis using assms by blast
qed

lemma first_free_returns:
  assumes "unat i \<le> k" and "k < 2 ^ 31 - 1" and "\<not> exists (candidate (of_nat k))"
  shows "\<exists>p. first_free overflow_checks exists candidate i = Some (Done p)"
  using assms
proof (induction "k - unat i" arbitrary: i)
  case 0
  then have "i = of_nat k" by simp
  moreover have "i \<noteq> last_i32" using 0 by (auto simp: last_i32_def)
  ultimately show ?case using 0 by (subst first_free.simps) simp
next
  case (Suc n)
  have "i \<noteq> last_i32" using Suc by (auto simp: last_i32_def)
  have step: "unat (i + 1) = Suc (unat i)" using Suc by (simp add: unat_word_ariths)
  have "\<exists>p. first_free overflow_checks exists candidate (i + 1) = Some (Done p)"
    using Suc step by (intro Suc.hyps) auto
  then show ?case using \<open>i \<noteq> last_i32\<close> by (subst first_free.simps) auto
qed

text \<open>Fewer than \<open>2\<^sup>3\<^sup>1 - 1\<close> paths leave one of the numbers before the last free.\<close>

lemma free_number:
  assumes "inj candidate" and "finite {p. exists p}" and "exists q" and "q \<notin> range candidate"
    and "card {p. exists p} < 2 ^ 31 - 1"
  shows "\<exists>k. 1 \<le> k \<and> k < 2 ^ 31 - 1 \<and> \<not> exists (candidate (of_nat k :: i32))"
proof (rule ccontr)
  assume "\<not> ?thesis"
  then have "insert q ((\<lambda>k. candidate (of_nat k)) ` {1..<2 ^ 31 - 1}) \<subseteq> {p. exists p}"
    using assms(3) by auto
  from card_mono [OF assms(2) this]
  have "card (insert q ((\<lambda>k. candidate (of_nat k)) ` {1..<2 ^ 31 - 1 :: nat})) \<le> card {p. exists p}" .
  moreover have "inj_on (\<lambda>k. candidate (of_nat k)) {1..<2 ^ 31 - 1 :: nat}"
  proof (rule inj_onI)
    fix x y :: nat
    assume "x \<in> {1..<2 ^ 31 - 1}" "y \<in> {1..<2 ^ 31 - 1}" "candidate (of_nat x) = candidate (of_nat y)"
    then have "(of_nat x :: i32) = of_nat y" "x < 2 ^ LENGTH(32)" "y < 2 ^ LENGTH(32)"
      using assms(1) by (auto simp: inj_eq)
    then show "x = y" by (metis of_nat_inverse)
  qed
  ultimately show False
    using assms(4,5) by (subst (asm) card_insert_disjoint) (auto simp: card_image)
qed

text \<open>
  C17: A received file is saved directly in the destination directory, at a path where nothing
  exists yet, whatever name the sender gave it; and such a path is found, with or without overflow
  checks, as long as fewer than \<open>2\<^sup>3\<^sup>1 - 1\<close> paths exist.
\<close>

theorem unique_path_safe:
  "(\<forall>p. unique_path overflow_checks exists dir file_name = Some (Done p) \<longrightarrow>
      (\<exists>name. p = path_join dir name \<and> plain_name name \<and> \<not> exists p)) \<and>
   (finite {p. exists p} \<and> card {p. exists p} < 2 ^ 31 - 1 \<longrightarrow>
      (\<exists>p. unique_path overflow_checks exists dir file_name = Some (Done p)))"
proof -
  define name where "name = (case path_file_name file_name of Some n \<Rightarrow> n | None \<Rightarrow> ''unnamed'')"
  obtain stem extension where se: "stem_extension name = (stem, extension)" by fastforce
  have plain: "plain_name name"
    using path_file_name_plain by (auto simp: name_def plain_name_def split: option.split)
  let ?candidate = "\<lambda>i. path_join dir (numbered stem extension i)"
  note unique = unique_path_def [of overflow_checks exists dir file_name, folded name_def, unfolded Let_def se prod.case]
  show ?thesis
  proof (cases "exists (path_join dir name)")
    case False
    then show ?thesis using plain by (auto simp: unique)
  next
    case True
    have "plain_name (numbered stem extension j)" for j
      using plain stem_extension_append [OF se] by (intro numbered_plain) (auto simp: plain_name_def)
    moreover have "path_join dir name \<notin> range ?candidate"
      using stem_extension_append [OF se] by (auto simp: path_join_inject numbered_def)
    moreover have "\<exists>p. first_free overflow_checks exists ?candidate 1 = Some (Done p)"
      if "1 \<le> k" "k < 2 ^ 31 - 1" "\<not> exists (?candidate (of_nat k))" for k
      using that by (intro first_free_returns [of _ k]) auto
    ultimately show ?thesis
      using True first_free_result [of overflow_checks exists ?candidate 1]
        free_number [OF numbered_inj, of exists "path_join dir name" dir stem extension]
      by (simp add: unique) metis
  qed
qed

theorem unique_path_safe_witness:
  "\<exists>name. unique_path True (\<lambda>p. p = ''/dl/passwd'') ''/dl'' ''../../etc/passwd'' =
     Some (Done (path_join ''/dl'' name)) \<and> plain_name name \<and> path_join ''/dl'' name \<noteq> ''/dl/passwd''"
proof -
  obtain p where "unique_path True (\<lambda>p. p = ''/dl/passwd'') ''/dl'' ''../../etc/passwd'' = Some (Done p)"
    using unique_path_safe [of True "\<lambda>p. p = ''/dl/passwd''" "''/dl''" "''../../etc/passwd''"] by auto
  then show ?thesis
    using unique_path_safe [of True "\<lambda>p. p = ''/dl/passwd''" "''/dl''" "''../../etc/passwd''"] by auto
qed

text \<open>At the last number a build with overflow checks panics, even if that number is free.\<close>

lemma last_number_panics: "first_free True exists candidate last_i32 = Some Panicked"
  by (subst first_free.simps) simp

lemma unique_path_numbers:
  "unique_path True (\<lambda>p. p \<in> {''/dl/a.b.c'', ''/dl/a.b (1).c''}) ''/dl'' ''x/a.b.c'' =
     Some (Done ''/dl/a.b (2).c'')"
  unfolding unique_path_def by (simp add: path_file_name_def path_components_def stem_extension_def rsplit_once_def
      path_join_def numbered_def i32_str_def nat_str.simps hex_digit_def first_free.simps last_i32_def)

section \<open>Durations\<close>

definition format_duration :: "u64 \<Rightarrow> string" where
  "format_duration secs =
     (let n = unat secs; h = n div 3600; m = n mod 3600 div 60; s = n mod 60
      in if h > 0 then nat_str 10 h @ ''h '' @ nat_str 10 m @ ''m''
         else if m > 0 then nat_str 10 m @ ''m '' @ nat_str 10 s @ ''s''
         else nat_str 10 s @ ''s'')"

section \<open>Addresses of this device\<close>

text \<open>The order of \<open>Ipv4Addr\<close> is that of its four octets read as a number.\<close>

definition ipv4_number :: "ip_addr \<Rightarrow> nat" where
  "ipv4_number ip =
     (case ip of
        V4 a b c d \<Rightarrow> ((unat a * 256 + unat b) * 256 + unat c) * 256 + unat d
      | V6 _ _ _ _ _ _ _ _ \<Rightarrow> 0)"

definition local_ipv4_addresses :: "if_addr list option \<Rightarrow> ip_addr list" where
  "local_ipv4_addresses interfaces =
     (case interfaces of
        None \<Rightarrow> []
      | Some is \<Rightarrow>
          remdups_adj (sort_key ipv4_number
            (filter is_v4 (map ia_ip (filter (\<lambda>i. \<not> ia_loopback i) is)))))"

section \<open>Text in columns\<close>

type_synonym chars = "nat list"

definition is_ascii_alphabetic :: "nat \<Rightarrow> bool" where
  "is_ascii_alphabetic c \<longleftrightarrow> 65 \<le> c \<and> c \<le> 90 \<or> 97 \<le> c \<and> c \<le> 122"

datatype segment = Escape chars | Visible nat

text \<open>An escape sequence runs to the first letter, or to the end.\<close>

fun take_escape :: "chars \<Rightarrow> chars \<times> chars" where
  "take_escape [] = ([], [])"
| "take_escape (c # cs) =
     (if is_ascii_alphabetic c then ([c], cs)
      else (let (escape, rest) = take_escape cs in (c # escape, rest)))"

lemma take_escape_append: "fst (take_escape cs) @ snd (take_escape cs) = cs"
  by (induction cs) (auto simp: split_beta)

function segments :: "chars \<Rightarrow> segment list" where
  "segments [] = []"
| "segments (c # cs) =
     (if c \<noteq> 27 then Visible c # segments cs
      else Escape (c # fst (take_escape cs)) # segments (snd (take_escape cs)))"
  by pat_completeness auto
termination
proof (relation "measure length")
  fix c :: nat and cs
  have "length (snd (take_escape cs)) \<le> length cs"
    by (metis le_add2 length_append take_escape_append)
  then show "(snd (take_escape cs), c # cs) \<in> measure length" by simp
qed auto

fun truncate_segments :: "nat \<Rightarrow> nat \<Rightarrow> segment list \<Rightarrow> chars" where
  "truncate_segments limit visible [] = []"
| "truncate_segments limit visible (Escape e # ss) = e @ truncate_segments limit visible ss"
| "truncate_segments limit visible (Visible c # ss) =
     (if visible = limit then [] else c # truncate_segments limit (Suc visible) ss)"

definition truncate_visible :: "chars \<Rightarrow> nat \<Rightarrow> chars" where
  "truncate_visible s limit = truncate_segments limit 0 (segments s)"

fun segment_text :: "segment \<Rightarrow> chars" where
  "segment_text (Escape e) = e"
| "segment_text (Visible c) = [c]"

fun is_visible :: "segment \<Rightarrow> bool" where
  "is_visible (Visible c) = True"
| "is_visible (Escape e) = False"

definition columns :: "chars \<Rightarrow> nat" where
  "columns s = length (filter is_visible (segments s))"

lemma segments_text: "concat (map segment_text (segments s)) = s"
  by (induction s rule: segments.induct) (auto simp: take_escape_append)

lemma take_escape_again:
  "snd (take_escape cs) \<noteq> [] \<or> t = [] \<Longrightarrow> take_escape (fst (take_escape cs) @ t) = (fst (take_escape cs), t)"
  by (induction cs) (auto simp: split_beta)

lemma segments_take: "segments (concat (map segment_text (take k (segments s)))) = take k (segments s)"
proof (induction s arbitrary: k rule: segments.induct)
  case (2 c cs)
  show ?case
  proof (cases k)
    case (Suc n)
    show ?thesis
    proof (cases "c = 27")
      case True
      let ?t = "concat (map segment_text (take n (segments (snd (take_escape cs)))))"
      have "take_escape (fst (take_escape cs) @ ?t) = (fst (take_escape cs), ?t)"
        by (intro take_escape_again) auto
      then show ?thesis using 2(2) True Suc by simp
    next
      case False
      then show ?thesis using 2(1) Suc by simp
    qed
  qed simp
qed simp

lemma truncate_segments_take:
  "visible \<le> limit \<Longrightarrow>
   \<exists>k. truncate_segments limit visible ss = concat (map segment_text (take k ss)) \<and>
     length (filter is_visible (take k ss)) = min (limit - visible) (length (filter is_visible ss))"
proof (induction limit visible ss rule: truncate_segments.induct)
  case (1 limit visible)
  then show ?case by (intro exI [of _ 0]) simp
next
  case (2 limit visible e ss)
  then obtain k where "truncate_segments limit visible ss = concat (map segment_text (take k ss))"
    "length (filter is_visible (take k ss)) = min (limit - visible) (length (filter is_visible ss))" by auto
  then show ?case by (intro exI [of _ "Suc k"]) simp
next
  case (3 limit visible c ss)
  show ?case
  proof (cases "visible = limit")
    case True
    then show ?thesis by (intro exI [of _ 0]) simp
  next
    case False
    then obtain k where "truncate_segments limit (Suc visible) ss = concat (map segment_text (take k ss))"
      "length (filter is_visible (take k ss)) = min (limit - Suc visible) (length (filter is_visible ss))"
      using 3 by auto
    then show ?thesis using False 3(2)
      by (intro exI [of _ "Suc k"]) (simp add: min_def Suc_diff_Suc split: if_splits; linarith)
  qed
qed

text \<open>
  Cutting a formatted line to a width keeps a prefix of it that fills exactly the width, or is the
  whole line if that is narrower; no escape sequence is cut in half.
\<close>

theorem truncate_visible_exact:
  "columns (truncate_visible s limit) = min limit (columns s) \<and>
   (\<exists>k. segments (truncate_visible s limit) = take k (segments s)) \<and>
   (\<exists>rest. s = truncate_visible s limit @ rest)"
proof -
  obtain k where k: "truncate_visible s limit = concat (map segment_text (take k (segments s)))"
    "length (filter is_visible (take k (segments s))) = min limit (columns s)"
    using truncate_segments_take [of 0 limit "segments s"] by (auto simp: truncate_visible_def columns_def)
  have "s = concat (map segment_text (take k (segments s) @ drop k (segments s)))"
    by (simp add: segments_text)
  then have "\<exists>rest. s = truncate_visible s limit @ rest" unfolding k(1) map_append concat_append by blast
  then show ?thesis using k segments_take [of k s] by (auto simp: columns_def)
qed

end
