(* ===== verification/Cli_Storage.thy ===== *)
theory Cli_Storage
  imports Cli_Util
begin

text \<open>
  What the command line client keeps between runs (\<open>cli/src/storage/\<close>): the settings of \<open>config.toml\<close>, the
  certificate and key of \<open>identity.pem\<close> and the paired devices of \<open>paired.json\<close>.

  The file system is a state: the text of each file, and which operations fail. A write that fails
  leaves whatever \<open>fs_write_error\<close> says. TOML, JSON and PEM are parsed and printed by other crates,
  the fields of \<open>store_lib\<close>.
\<close>

section \<open>The file system\<close>

record fs =
  fs_text :: "string \<Rightarrow> string option"
  fs_read_error :: "string \<Rightarrow> string option"
  fs_write_error :: "string \<Rightarrow> (string \<times> string option) option"
  fs_rename_error :: "string \<Rightarrow> string \<Rightarrow> string option"

datatype read_result = Read_Text string | Read_Missing | Read_Failed string

definition read_to_string :: "fs \<Rightarrow> string \<Rightarrow> read_result" where
  "read_to_string fs path =
     (case fs_read_error fs path of
        Some e \<Rightarrow> Read_Failed e
      | None \<Rightarrow> (case fs_text fs path of Some t \<Rightarrow> Read_Text t | None \<Rightarrow> Read_Missing))"

definition fs_put :: "string \<Rightarrow> string option \<Rightarrow> fs \<Rightarrow> fs" where
  "fs_put path content fs = fs\<lparr>fs_text := (fs_text fs)(path := content)\<rparr>"

definition fs_write :: "string \<Rightarrow> string \<Rightarrow> fs \<Rightarrow> (string + unit) \<times> fs" where
  "fs_write path contents fs =
     (case fs_write_error fs path of
        Some (e, left) \<Rightarrow> (Inl e, fs_put path left fs)
      | None \<Rightarrow> (Inr (), fs_put path (Some contents) fs))"

text \<open>Opening with \<open>create_new\<close>, then writing.\<close>

definition fs_create_new :: "string \<Rightarrow> string \<Rightarrow> fs \<Rightarrow> (string + unit) \<times> fs" where
  "fs_create_new path contents fs =
     (if fs_text fs path \<noteq> None then (Inl ''File exists'', fs) else fs_write path contents fs)"

definition fs_rename :: "string \<Rightarrow> string \<Rightarrow> fs \<Rightarrow> (string + unit) \<times> fs" where
  "fs_rename a b fs =
     (case fs_rename_error fs a b of
        Some e \<Rightarrow> (Inl e, fs)
      | None \<Rightarrow> (Inr (), fs_put a None (fs_put b (fs_text fs a) fs)))"

text \<open>
  A sequence of operations, each with what its error is reported as; it stops at the first that fails.
\<close>

datatype fs_op = Fs_Write string string | Fs_Rename string string

fun fs_exec :: "fs_op \<Rightarrow> fs \<Rightarrow> (string + unit) \<times> fs" where
  "fs_exec (Fs_Write path contents) fs = fs_write path contents fs"
| "fs_exec (Fs_Rename a b) fs = fs_rename a b fs"

fun fs_run :: "(fs_op \<times> (string \<Rightarrow> 'e)) list \<Rightarrow> fs \<Rightarrow> ('e + unit) \<times> fs" where
  "fs_run [] fs = (Inr (), fs)"
| "fs_run ((op, context) # ops) fs =
     (case fs_exec op fs of
        (Inl e, fs) \<Rightarrow> (Inl (context e), fs)
      | (Inr _, fs) \<Rightarrow> fs_run ops fs)"

text \<open>
  What a sequence leaves when the process dies in it: a write that is cut short leaves \<open>left\<close> in its
  file, a rename is done or not.
\<close>

fun fs_torn :: "fs_op \<Rightarrow> string option \<Rightarrow> fs \<Rightarrow> fs list" where
  "fs_torn (Fs_Write path contents) left fs = [fs_put path left fs]"
| "fs_torn (Fs_Rename a b) left fs = []"

fun fs_crashes :: "(fs_op \<times> (string \<Rightarrow> 'e)) list \<Rightarrow> string option \<Rightarrow> fs \<Rightarrow> fs list" where
  "fs_crashes [] left fs = [fs]"
| "fs_crashes ((op, context) # ops) left fs =
     fs # fs_torn op left fs @
     (case fs_exec op fs of
        (Inl _, fs) \<Rightarrow> [fs]
      | (Inr _, fs) \<Rightarrow> fs_crashes ops left fs)"

lemma read_put [simp]:
  "read_to_string (fs_put path content fs) path' =
     (if path = path'
      then (case fs_read_error fs path of
              Some e \<Rightarrow> Read_Failed e
            | None \<Rightarrow> (case content of Some t \<Rightarrow> Read_Text t | None \<Rightarrow> Read_Missing))
      else read_to_string fs path')"
  by (auto simp: read_to_string_def fs_put_def split: option.split)

lemma fs_put_frame [simp]:
  "fs_read_error (fs_put p c fs) = fs_read_error fs" "fs_write_error (fs_put p c fs) = fs_write_error fs"
  "fs_rename_error (fs_put p c fs) = fs_rename_error fs"
  "fs_text (fs_put p c fs) = (fs_text fs)(p := c)"
  by (simp_all add: fs_put_def)

section \<open>Parsers and printers\<close>

record cli_config =
  cf_alias :: "string option"
  cf_port :: "u16 option"
  cf_destination :: "string option"

record pem_block =
  pb_tag :: string
  pb_contents :: bytes

text \<open>\<open>sl_generate\<close> is the certificate made by \<open>rcgen\<close>: its DER form, its PEM form and the key in PEM form.\<close>

record store_lib =
  sl_config :: "string \<Rightarrow> cli_config option"
  sl_version :: "string \<Rightarrow> u32 option"
  sl_paired :: "string \<Rightarrow> (u32 \<times> (string, string) hmap) option"
  sl_paired_print :: "u32 \<Rightarrow> (string, string) hmap \<Rightarrow> string option"
  sl_pem :: "string \<Rightarrow> pem_block list option"
  sl_pem_encode :: "pem_block \<Rightarrow> string"
  sl_key_usable :: "string \<Rightarrow> bool"
  sl_generate :: "(bytes \<times> string \<times> string) option"

datatype store_error =
    Invalid_File string
  | Unreadable string string
  | Unwritable string string
  | Wrong_Version string u32
  | Generation_Failed
  | No_Directory string

section \<open>Settings\<close>

record cli_args =
  ar_alias :: "string option"
  ar_port :: "u16 option"
  ar_destination :: "string option"

record resolved_config =
  rv_alias :: string
  rv_port :: u16
  rv_destination :: string

text \<open>What the operating system tells: the host name, the home and download directories, \<open>XDG_CONFIG_HOME\<close>.\<close>

record cli_host =
  ho_hostname :: string
  ho_home :: "string option"
  ho_downloads :: "string option"
  ho_xdg :: "string option"

definition CONFIG_TEMPLATE :: string where
  "CONFIG_TEMPLATE =
     ''# Doorstep CLI configuration. Command-line flags and environment variables'' @ [CHR 0x0A] @
     ''# (DOORSTEP_ALIAS, DOORSTEP_PORT, DOORSTEP_DESTINATION) take precedence.'' @ [CHR 0x0A] @ [CHR 0x0A] @
     ''# Device name shown to other devices (default: the hostname).'' @ [CHR 0x0A] @
     ''#alias = '' @ [CHR 0x22] @ ''My Device'' @ [CHR 0x22] @ [CHR 0x0A] @ [CHR 0x0A] @
     ''# Port of the HTTP server.'' @ [CHR 0x0A] @
     ''#port = 53317'' @ [CHR 0x0A] @ [CHR 0x0A] @
     ''# Directory where received files are saved (default: the system Downloads folder).'' @ [CHR 0x0A] @
     ''#destination = '' @ [CHR 0x22] @ ''~/Downloads'' @ [CHR 0x22] @ [CHR 0x0A]"

definition CLI_DEFAULT_PORT :: u16 where
  "CLI_DEFAULT_PORT = 53317"

text \<open>\<open>str::trim_end_matches\<close> removes the suffix as often as it is there.\<close>

function trim_end_matches :: "string \<Rightarrow> string \<Rightarrow> string" where
  "trim_end_matches suf s =
     (if suf = [] then s
      else (case strip_suffix suf s of None \<Rightarrow> s | Some r \<Rightarrow> trim_end_matches suf r))"
  by pat_completeness auto
termination
proof (relation "measure (length \<circ> snd)")
  fix suf s r :: string
  assume "suf \<noteq> []" "strip_suffix suf s = Some r"
  then have "length r < length s" by (cases s) (auto simp: strip_suffix_def Let_def split: if_splits)
  then show "((suf, r), suf, s) \<in> measure (length \<circ> snd)" by simp
qed simp

declare trim_end_matches.simps [simp del]

definition default_alias :: "cli_host \<Rightarrow> string" where
  "default_alias h = trim_end_matches ''.local'' (ho_hostname h)"

text \<open>A path is what it is component by component, so the rest of it is written with single separators.\<close>

definition expand_tilde :: "cli_host \<Rightarrow> string \<Rightarrow> string" where
  "expand_tilde h path =
     (case (split_on CHR ''/'' path, ho_home h) of
        (''~'' # _, Some home) \<Rightarrow> path_join home (join ''/'' (tl (path_components path)))
      | _ \<Rightarrow> path)"

definition config_load :: "store_lib \<Rightarrow> string \<Rightarrow> fs \<Rightarrow> (store_error + cli_config) \<times> fs" where
  "config_load lib dir fs =
     (let path = path_join dir ''config.toml''
      in case read_to_string fs path of
           Read_Text text \<Rightarrow>
             ((case sl_config lib text of Some c \<Rightarrow> Inr c | None \<Rightarrow> Inl (Invalid_File path)), fs)
         | Read_Missing \<Rightarrow>
             (Inr \<lparr>cf_alias = None, cf_port = None, cf_destination = None\<rparr>, snd (fs_write path CONFIG_TEMPLATE fs))
         | Read_Failed e \<Rightarrow> (Inl (Unreadable path e), fs))"

definition option_or :: "'a option \<Rightarrow> 'a option \<Rightarrow> 'a option" where
  "option_or a b = (case a of Some x \<Rightarrow> Some x | None \<Rightarrow> b)"

definition load_with_fallback ::
  "store_lib \<Rightarrow> cli_host \<Rightarrow> string \<Rightarrow> cli_args \<Rightarrow> fs \<Rightarrow> (store_error + resolved_config) \<times> fs" where
  "load_with_fallback lib h dir args fs =
     (case config_load lib dir fs of
        (Inl e, fs) \<Rightarrow> (Inl e, fs)
      | (Inr config, fs) \<Rightarrow>
          (Inr
            \<lparr>rv_alias =
               (case option_or (ar_alias args) (cf_alias config) of Some a \<Rightarrow> a | None \<Rightarrow> default_alias h),
             rv_port =
               (case option_or (ar_port args) (cf_port config) of Some p \<Rightarrow> p | None \<Rightarrow> CLI_DEFAULT_PORT),
             rv_destination =
               (case option_or (ar_destination args) (cf_destination config) of
                  Some d \<Rightarrow> expand_tilde h d
                | None \<Rightarrow> (case ho_downloads h of Some d \<Rightarrow> d | None \<Rightarrow> ''.''))\<rparr>, fs))"

section \<open>Paired devices\<close>

definition PAIRED_DEVICES_VERSION :: u32 where
  "PAIRED_DEVICES_VERSION = 1"

text \<open>The devices are a map from fingerprint to alias; the path is that of the file.\<close>

record paired_devices =
  pa_path :: string
  pa_devices :: "(string, string) hmap"

text \<open>\<open>Path::with_extension\<close> on a path with a file name.\<close>

definition with_extension :: "string \<Rightarrow> string \<Rightarrow> string" where
  "with_extension path extension = fst (stem_extension path) @ ''.'' @ extension"

definition paired_load :: "store_lib \<Rightarrow> fs \<Rightarrow> string \<Rightarrow> store_error + paired_devices" where
  "paired_load lib fs dir =
     (let path = path_join dir ''paired.json''
      in case read_to_string fs path of
           Read_Text text \<Rightarrow>
             (case sl_version lib text of
                None \<Rightarrow> Inl (Invalid_File path)
              | Some version \<Rightarrow>
                  if version = PAIRED_DEVICES_VERSION
                  then (case sl_paired lib text of
                          None \<Rightarrow> Inl (Invalid_File path)
                        | Some (_, devices) \<Rightarrow> Inr \<lparr>pa_path = path, pa_devices = devices\<rparr>)
                  else Inl (Wrong_Version path version))
         | Read_Missing \<Rightarrow> Inr \<lparr>pa_path = path, pa_devices = []\<rparr>
         | Read_Failed e \<Rightarrow> Inl (Unreadable path e))"

definition paired_contains :: "string \<Rightarrow> paired_devices \<Rightarrow> bool" where
  "paired_contains fingerprint p \<longleftrightarrow> hm_get (pa_devices p) fingerprint \<noteq> None"

text \<open>What \<open>save\<close> asks of the file system, once the devices are printed.\<close>

definition save_ops :: "string \<Rightarrow> string \<Rightarrow> (fs_op \<times> (string \<Rightarrow> store_error)) list" where
  "save_ops path text =
     (let temp = with_extension path ''json.tmp''
      in [(Fs_Write temp text, Unwritable temp), (Fs_Rename temp path, Unwritable path)])"

definition paired_save :: "store_lib \<Rightarrow> paired_devices \<Rightarrow> fs \<Rightarrow> (store_error + unit) \<times> fs" where
  "paired_save lib p fs =
     (case sl_paired_print lib PAIRED_DEVICES_VERSION (pa_devices p) of
        None \<Rightarrow> (Inl (Invalid_File (pa_path p)), fs)
      | Some text \<Rightarrow> fs_run (save_ops (pa_path p) text) fs)"

text \<open>The states in which the process can die while it saves.\<close>

definition save_crashes :: "store_lib \<Rightarrow> paired_devices \<Rightarrow> string option \<Rightarrow> fs \<Rightarrow> fs list" where
  "save_crashes lib p left fs =
     (case sl_paired_print lib PAIRED_DEVICES_VERSION (pa_devices p) of
        None \<Rightarrow> [fs]
      | Some text \<Rightarrow> fs_crashes (save_ops (pa_path p) text) left fs)"

definition paired_insert ::
  "store_lib \<Rightarrow> string \<Rightarrow> string \<Rightarrow> paired_devices \<Rightarrow> fs \<Rightarrow> (store_error + unit) \<times> paired_devices \<times> fs" where
  "paired_insert lib fingerprint alias p fs =
     (let p = p\<lparr>pa_devices := hm_put fingerprint alias (pa_devices p)\<rparr>;
          (r, fs) = paired_save lib p fs
      in (r, p, fs))"

section \<open>Identity\<close>

record identity =
  in_alias :: string
  in_port :: u16
  in_cert_pem :: string
  in_key_pem :: string
  in_fingerprint :: string

text \<open>\<open>str::ends_with\<close>.\<close>

definition ends_with :: "string \<Rightarrow> string \<Rightarrow> bool" where
  "ends_with s suf \<longleftrightarrow> strip_suffix suf s \<noteq> None"

definition identity_from_pem ::
  "('sk, 'ek, 'rk, 'z) crypto_lib_scheme \<Rightarrow> store_lib \<Rightarrow> string \<Rightarrow> string \<Rightarrow> u16 \<Rightarrow> identity option" where
  "identity_from_pem cl lib text alias port =
     (case sl_pem lib text of
        None \<Rightarrow> None
      | Some blocks \<Rightarrow>
          (case find (\<lambda>b. pb_tag b = ''CERTIFICATE'') blocks of
             None \<Rightarrow> None
           | Some cert \<Rightarrow>
               (case find (\<lambda>b. ends_with (pb_tag b) ''PRIVATE KEY'') blocks of
                  None \<Rightarrow> None
                | Some key \<Rightarrow>
                    if \<not> sl_key_usable lib (sl_pem_encode lib key) then None
                    else Some
                      \<lparr>in_alias = alias, in_port = port, in_cert_pem = sl_pem_encode lib cert,
                       in_key_pem = sl_pem_encode lib key,
                       in_fingerprint = fingerprint_from_cert_der cl (pb_contents cert)\<rparr>)))"

definition identity_save :: "identity \<Rightarrow> string \<Rightarrow> fs \<Rightarrow> (string + unit) \<times> fs" where
  "identity_save i path fs = fs_create_new path (in_cert_pem i @ in_key_pem i) fs"

definition identity_generate ::
  "('sk, 'ek, 'rk, 'z) crypto_lib_scheme \<Rightarrow> store_lib \<Rightarrow> string \<Rightarrow> u16 \<Rightarrow> identity option" where
  "identity_generate cl lib alias port =
     map_option (\<lambda>(der, cert_pem, key_pem).
       \<lparr>in_alias = alias, in_port = port, in_cert_pem = cert_pem, in_key_pem = key_pem,
        in_fingerprint = fingerprint_from_cert_der cl der\<rparr>) (sl_generate lib)"

definition load_or_generate ::
  "('sk, 'ek, 'rk, 'z) crypto_lib_scheme \<Rightarrow> store_lib \<Rightarrow> string \<Rightarrow> string \<Rightarrow> u16 \<Rightarrow> fs
     \<Rightarrow> (store_error + identity) \<times> fs" where
  "load_or_generate cl lib dir alias port fs =
     (let path = path_join dir ''identity.pem''
      in case read_to_string fs path of
           Read_Text text \<Rightarrow>
             ((case identity_from_pem cl lib text alias port of
                 Some i \<Rightarrow> Inr i
               | None \<Rightarrow> Inl (Invalid_File path)), fs)
         | Read_Missing \<Rightarrow>
             (case identity_generate cl lib alias port of
                None \<Rightarrow> (Inl Generation_Failed, fs)
              | Some i \<Rightarrow>
                  (case identity_save i path fs of
                     (Inl e, fs) \<Rightarrow> (Inl (Unwritable path e), fs)
                   | (Inr _, fs) \<Rightarrow> (Inr i, fs)))
         | Read_Failed e \<Rightarrow> (Inl (Unreadable path e), fs))"

definition identity_tls_config :: "identity \<Rightarrow> tls_config" where
  "identity_tls_config i = \<lparr>tc_cert = in_cert_pem i, tc_private_key = in_key_pem i\<rparr>"

definition identity_client_info :: "identity \<Rightarrow> client_info" where
  "identity_client_info i =
     \<lparr>ci_alias = in_alias i, ci_version = PROTOCOL_VERSION_V2, ci_device_model = Some ''CLI'',
      ci_device_type = Some Headless, ci_token = in_fingerprint i\<rparr>"

definition identity_register_dto :: "identity \<Rightarrow> register_dto_v2" where
  "identity_register_dto i =
     \<lparr>rd_alias = in_alias i, rd_version = PROTOCOL_VERSION_V2, rd_device_model = Some ''CLI'',
      rd_device_type = Some Headless, rd_fingerprint = in_fingerprint i, rd_port = in_port i,
      rd_protocol = Https, rd_download = False\<rparr>"

definition identity_multicast_device :: "identity \<Rightarrow> multicast_device" where
  "identity_multicast_device i =
     \<lparr>md_alias = in_alias i, md_version = PROTOCOL_VERSION_V2, md_device_model = Some ''CLI'',
      md_device_type = Some Headless, md_fingerprint = in_fingerprint i, md_port = in_port i,
      md_protocol = Https, md_download = False\<rparr>"

section \<open>The repository\<close>

record repository =
  re_dir :: string
  re_destination :: string
  re_identity :: identity
  re_paired :: paired_devices

definition storage_dir :: "cli_host \<Rightarrow> string" where
  "storage_dir h =
     path_join
       (case (case ho_xdg h of Some p \<Rightarrow> (case p of c # _ \<Rightarrow> if c = CHR ''/'' then Some p else None | [] \<Rightarrow> None)
              | None \<Rightarrow> None) of
          Some p \<Rightarrow> p
        | None \<Rightarrow> (case ho_home h of Some home \<Rightarrow> path_join home ''.config'' | None \<Rightarrow> ''.''))
       ''localsend-cli''"

text \<open>\<open>created\<close> is the error of creating the directory, if any.\<close>

definition repository_load ::
  "('sk, 'ek, 'rk, 'z) crypto_lib_scheme \<Rightarrow> store_lib \<Rightarrow> cli_host \<Rightarrow> cli_args \<Rightarrow> string option \<Rightarrow> fs
     \<Rightarrow> (store_error + repository) \<times> fs" where
  "repository_load cl lib h args created fs =
     (let dir = storage_dir h
      in case created of
           Some e \<Rightarrow> (Inl (No_Directory e), fs)
         | None \<Rightarrow>
             (case load_with_fallback lib h dir args fs of
                (Inl e, fs) \<Rightarrow> (Inl e, fs)
              | (Inr config, fs) \<Rightarrow>
                  (case paired_load lib fs dir of
                     Inl e \<Rightarrow> (Inl e, fs)
                   | Inr paired \<Rightarrow>
                       (case load_or_generate cl lib dir (rv_alias config) (rv_port config) fs of
                          (Inl e, fs) \<Rightarrow> (Inl e, fs)
                        | (Inr identity, fs) \<Rightarrow>
                            (Inr \<lparr>re_dir = dir, re_destination = rv_destination config,
                                  re_identity = identity, re_paired = paired\<rparr>, fs)))))"


section \<open>What a later run finds\<close>

definition store_laws :: "store_lib \<Rightarrow> bool" where
  "store_laws lib \<longleftrightarrow>
     (\<forall>v d t. sl_paired_print lib v d = Some t \<longrightarrow> sl_version lib t = Some v \<and> sl_paired lib t = Some (v, d)) \<and>
     (\<forall>der cert_pem key_pem. sl_generate lib = Some (der, cert_pem, key_pem) \<longrightarrow>
        (\<exists>cert key. sl_pem lib (cert_pem @ key_pem) = Some [cert, key] \<and> pb_tag cert = ''CERTIFICATE'' \<and>
           pb_contents cert = der \<and> ends_with (pb_tag key) ''PRIVATE KEY'' \<and>
           sl_key_usable lib (sl_pem_encode lib key)))"

lemma paired_temp: "with_extension (path_join dir ''paired.json'') ''json.tmp'' = path_join dir ''paired.json.tmp''"
  by (simp add: with_extension_def stem_extension_def rsplit_once_def path_join_def)

lemma paired_paths: "path_join dir ''paired.json.tmp'' \<noteq> path_join dir ''paired.json''"
  by (simp add: path_join_def)

lemma paired_load_path: "paired_load lib fs dir = Inr p \<Longrightarrow> pa_path p = path_join dir ''paired.json''"
  by (auto simp: paired_load_def Let_def split: read_result.splits option.splits if_splits prod.splits)


lemma paired_load_saved:
  assumes "store_laws lib" and "sl_paired_print lib PAIRED_DEVICES_VERSION devices = Some json"
    and "read_to_string fs (path_join dir ''paired.json'') = Read_Text json"
  shows "paired_load lib fs dir = Inr \<lparr>pa_path = path_join dir ''paired.json'', pa_devices = devices\<rparr>"
  using assms by (simp add: paired_load_def store_laws_def)

lemma paired_load_same:
  "read_to_string fs' (path_join dir ''paired.json'') = read_to_string fs (path_join dir ''paired.json'') \<Longrightarrow>
     paired_load lib fs' dir = paired_load lib fs dir"
  by (simp add: paired_load_def)

lemma save_crashes_load:
  assumes laws: "store_laws lib" and path: "pa_path p' = path_join dir ''paired.json''"
    and readable: "fs_read_error fs (path_join dir ''paired.json'') = None"
    and fs': "fs' \<in> set (save_crashes lib p' left fs)"
  shows "paired_load lib fs' dir \<in> {paired_load lib fs dir, Inr p'}"
proof (cases "sl_paired_print lib PAIRED_DEVICES_VERSION (pa_devices p')")
  case (Some json)
  let ?path = "path_join dir ''paired.json''"
  have "read_to_string fs' ?path = read_to_string fs ?path \<or> read_to_string fs' ?path = Read_Text json"
    using fs' Some paired_paths [of dir] readable unfolding save_crashes_def save_ops_def path paired_temp
    by (auto simp: Let_def fs_write_def fs_rename_def split: option.splits)
  then show ?thesis
  proof
    assume "read_to_string fs' ?path = read_to_string fs ?path"
    then show ?thesis using paired_load_same [of fs' dir fs lib] by simp
  next
    assume "read_to_string fs' ?path = Read_Text json"
    then show ?thesis using paired_load_saved [OF laws Some] path by simp
  qed
qed (use fs' in \<open>simp add: save_crashes_def\<close>)

lemma paired_save_ok:
  assumes "store_laws lib" and path: "pa_path p = path_join dir ''paired.json''"
    and "fs_read_error fs (path_join dir ''paired.json'') = None"
    and "paired_save lib p fs = (Inr (), fs')"
  shows "paired_load lib fs' dir = Inr p"
proof -
  obtain json where json: "sl_paired_print lib PAIRED_DEVICES_VERSION (pa_devices p) = Some json"
    using assms(4) by (auto simp: paired_save_def split: option.splits)
  have "read_to_string fs' (path_join dir ''paired.json'') = Read_Text json"
    using assms(3,4) json paired_paths [of dir] unfolding paired_save_def save_ops_def path paired_temp
    by (auto simp: Let_def fs_write_def fs_rename_def split: option.splits)
  then show ?thesis using paired_load_saved [OF assms(1) json] path by simp
qed

lemma paired_save_failed:
  assumes "pa_path p = path_join dir ''paired.json''" and "paired_save lib p fs = (Inl e, fs')"
  shows "paired_load lib fs' dir = paired_load lib fs dir"
proof (rule paired_load_same)
  show "read_to_string fs' (path_join dir ''paired.json'') = read_to_string fs (path_join dir ''paired.json'')"
    using assms(2) paired_paths [of dir] unfolding paired_save_def save_ops_def assms(1) paired_temp
    by (auto simp: Let_def fs_write_def fs_rename_def split: option.splits)
qed

text \<open>
  C16: Pairing is durable and never loses what was there: when it reports success, a later run finds the
  device; when it reports a failure, a later run finds the devices as they were; and if the client dies at any
  point of saving, even in the middle of a write, a later run finds the devices as they were before or with the
  new one, never a file it refuses.
\<close>

theorem pairing_survives:
  assumes "store_laws lib" and "fs_read_error fs (path_join dir ''paired.json'') = None"
    and "paired_load lib fs dir = Inr p" and "paired_insert lib fingerprint alias p fs = (r, p', fs1)"
  shows "(r = Inr () \<longrightarrow> paired_load lib fs1 dir = Inr p' \<and> paired_contains fingerprint p') \<and>
    (r \<noteq> Inr () \<longrightarrow> paired_load lib fs1 dir = Inr p) \<and>
    (\<forall>fs' \<in> set (save_crashes lib p' left fs). paired_load lib fs' dir \<in> {Inr p, Inr p'})"
proof -
  have p': "p' = p\<lparr>pa_devices := hm_put fingerprint alias (pa_devices p)\<rparr>" and save: "paired_save lib p' fs = (r, fs1)"
    using assms(4) by (auto simp: paired_insert_def Let_def split: prod.splits)
  have path: "pa_path p' = path_join dir ''paired.json''"
    using paired_load_path [OF assms(3)] p' by simp
  have "r = Inr () \<Longrightarrow> paired_load lib fs1 dir = Inr p'"
    using paired_save_ok [OF assms(1) path assms(2)] save by simp
  moreover have "paired_contains fingerprint p'" by (simp add: p' paired_contains_def)
  moreover have "r \<noteq> Inr () \<Longrightarrow> paired_load lib fs1 dir = Inr p"
    using paired_save_failed [OF path, of lib fs _ fs1] save assms(3) by (cases r) auto
  ultimately show ?thesis using save_crashes_load [OF assms(1) path assms(2)] assms(3) by auto
qed

text \<open>
  The identity of a device survives restarts: what the first run generates and saves, every later
  run loads with the same fingerprint, whatever alias and port it is given.
\<close>

theorem identity_survives:
  assumes "store_laws lib" and "fs_text fs (path_join dir ''identity.pem'') = None"
    and "load_or_generate cl lib dir alias port fs = (Inr i, fs')"
  shows "\<exists>i'. load_or_generate cl lib dir alias' port' fs' = (Inr i', fs') \<and>
    in_fingerprint i' = in_fingerprint i \<and> in_alias i' = alias' \<and> in_port i' = port'"
proof -
  let ?path = "path_join dir ''identity.pem''"
  have missing: "read_to_string fs ?path = Read_Missing"
    using assms(2,3) by (auto simp: load_or_generate_def read_to_string_def Let_def split: option.splits)
  then obtain der cert_pem key_pem where gen: "sl_generate lib = Some (der, cert_pem, key_pem)"
    and i: "i = \<lparr>in_alias = alias, in_port = port, in_cert_pem = cert_pem, in_key_pem = key_pem,
        in_fingerprint = fingerprint_from_cert_der cl der\<rparr>"
    and saved: "identity_save i ?path fs = (Inr (), fs')"
    using assms(3)
    by (auto simp: load_or_generate_def Let_def identity_generate_def split: option.splits prod.splits sum.splits)
  obtain cert key where pem: "sl_pem lib (cert_pem @ key_pem) = Some [cert, key]" "pb_tag cert = ''CERTIFICATE''"
    "pb_contents cert = der" "ends_with (pb_tag key) ''PRIVATE KEY''" "sl_key_usable lib (sl_pem_encode lib key)"
    using assms(1) gen unfolding store_laws_def by blast
  have "fs' = fs_put ?path (Some (cert_pem @ key_pem)) fs"
    using saved i assms(2)
    by (auto simp: identity_save_def fs_create_new_def fs_write_def split: option.splits prod.splits)
  moreover have "fs_read_error fs ?path = None"
    using missing by (auto simp: read_to_string_def split: option.splits)
  ultimately have "read_to_string fs' ?path = Read_Text (cert_pem @ key_pem)" by simp
  moreover have "\<not> ends_with (pb_tag cert) ''PRIVATE KEY''"
    by (simp add: pem(2) ends_with_def strip_suffix_def)
  ultimately show ?thesis
    using pem i by (simp add: load_or_generate_def identity_from_pem_def)
qed

section \<open>Witnesses\<close>

definition sample_store :: store_lib where
  "sample_store =
     \<lparr>sl_config = (\<lambda>_. None), sl_version = (\<lambda>t. if t = ''json'' then Some 1 else None),
      sl_paired = (\<lambda>t. if t = ''json'' then Some (1, [(''AA'', ''Phone'')]) else None),
      sl_paired_print = (\<lambda>v d. if v = 1 \<and> d = [(''AA'', ''Phone'')] then Some ''json'' else None),
      sl_pem = (\<lambda>t. if t = ''ck'' then Some [\<lparr>pb_tag = ''CERTIFICATE'', pb_contents = [7]\<rparr>,
          \<lparr>pb_tag = ''PRIVATE KEY'', pb_contents = [9]\<rparr>] else None),
      sl_pem_encode = (\<lambda>b. if pb_contents b = [7] then ''c'' else ''k''), sl_key_usable = (\<lambda>k. k = ''k''),
      sl_generate = Some ([7], ''c'', ''k'')\<rparr>"

lemma sample_store_laws: "store_laws sample_store"
  by (simp add: store_laws_def sample_store_def ends_with_def strip_suffix_def)

definition empty_fs :: fs where
  "empty_fs = \<lparr>fs_text = (\<lambda>_. None), fs_read_error = (\<lambda>_. None), fs_write_error = (\<lambda>_. None),
     fs_rename_error = (\<lambda>_ _. None)\<rparr>"

text \<open>A pairing that is saved, and one whose write breaks off.\<close>

theorem pairing_survives_witness:
  "paired_load sample_store (snd (snd (paired_insert sample_store ''AA'' ''Phone''
       \<lparr>pa_path = ''/c/paired.json'', pa_devices = []\<rparr> empty_fs))) ''/c'' =
     Inr \<lparr>pa_path = ''/c/paired.json'', pa_devices = [(''AA'', ''Phone'')]\<rparr> \<and>
   paired_load sample_store (snd (snd (paired_insert sample_store ''AA'' ''Phone''
       \<lparr>pa_path = ''/c/paired.json'', pa_devices = []\<rparr>
       (empty_fs\<lparr>fs_write_error := \<lambda>_. Some (''full'', Some ''js'')\<rparr>)))) ''/c'' =
     Inr \<lparr>pa_path = ''/c/paired.json'', pa_devices = []\<rparr>"
proof -
  let ?p = "\<lparr>pa_path = ''/c/paired.json'', pa_devices = []\<rparr>"
  let ?full = "empty_fs\<lparr>fs_write_error := \<lambda>_. Some (''full'', Some ''js'')\<rparr>"
  have load: "paired_load sample_store empty_fs ''/c'' = Inr ?p" "paired_load sample_store ?full ''/c'' = Inr ?p"
    by (simp_all add: paired_load_def read_to_string_def empty_fs_def path_join_def)
  obtain fs1 where insert: "paired_insert sample_store ''AA'' ''Phone'' ?p empty_fs =
      (Inr (), \<lparr>pa_path = ''/c/paired.json'', pa_devices = [(''AA'', ''Phone'')]\<rparr>, fs1)"
    by (auto simp: paired_insert_def paired_save_def save_ops_def sample_store_def PAIRED_DEVICES_VERSION_def
        fs_write_def fs_rename_def empty_fs_def Let_def)
  obtain e fs2 where failed: "paired_insert sample_store ''AA'' ''Phone'' ?p ?full =
      (Inl e, \<lparr>pa_path = ''/c/paired.json'', pa_devices = [(''AA'', ''Phone'')]\<rparr>, fs2)"
    by (auto simp: paired_insert_def paired_save_def save_ops_def sample_store_def PAIRED_DEVICES_VERSION_def
        fs_write_def fs_rename_def empty_fs_def Let_def)
  have readable: "fs_read_error empty_fs (path_join ''/c'' ''paired.json'') = None"
    "fs_read_error ?full (path_join ''/c'' ''paired.json'') = None" by (simp_all add: empty_fs_def)
  show ?thesis
    using pairing_survives [OF sample_store_laws readable(1) load(1) insert]
      pairing_survives [OF sample_store_laws readable(2) load(2) failed]
    by (simp add: insert failed)
qed

theorem identity_survives_witness:
  "\<exists>i'. load_or_generate sample_lib sample_store ''/c'' ''New name'' 4000
      (fs_put ''/c/identity.pem'' (Some ''ck'') empty_fs) =
        (Inr i', fs_put ''/c/identity.pem'' (Some ''ck'') empty_fs) \<and>
    in_fingerprint i' = fingerprint_from_cert_der sample_lib [7] \<and> in_alias i' = ''New name'' \<and> in_port i' = 4000"
proof -
  have "load_or_generate sample_lib sample_store ''/c'' ''Name'' 53317 empty_fs =
      (Inr \<lparr>in_alias = ''Name'', in_port = 53317, in_cert_pem = ''c'', in_key_pem = ''k'',
        in_fingerprint = fingerprint_from_cert_der sample_lib [7]\<rparr>,
       fs_put ''/c/identity.pem'' (Some ''ck'') empty_fs)"
    by (simp add: load_or_generate_def read_to_string_def empty_fs_def path_join_def identity_generate_def
        identity_save_def fs_create_new_def fs_write_def sample_store_def)
  from identity_survives [OF sample_store_laws _ this, of "''New name''" 4000] show ?thesis
    by (simp add: empty_fs_def)
qed

end
