(* ===== verification/Cli_Send.thy ===== *)
theory Cli_Send
  imports Cli_Devices Cli_Storage Http_Client "HOL-Library.List_Lexorder" "HOL-Library.Char_ord"
    "HOL-Library.Multiset"
begin

text \<open>
  The sending task of the command line client (\<open>cli/src/send_task.rs\<close>): one prepare-upload, then one upload
  per accepted file, in the order of the names. The network is that of \<open>Http_Client\<close>; the user's
  cancellation is an input, given for each request. What the task tells the application is a list
  of events, what it stores in the progress counter a list of numbers. Indexing a map with a key
  it does not have panics.
\<close>

section \<open>Events and outcomes\<close>

datatype task_event = Session_Started string u64 | Send_Log string | Send_Ended

text \<open>How a task ends, with the files sent so far.\<close>

datatype send_outcome =
    Client_Failed client_error
  | Prepare_Failed client_error
  | All_Declined
  | Send_Panicked
  | Sent nat u64
  | Send_Cancelled nat
  | Cancelled_By_Peer nat
  | Upload_Failed string client_error

text \<open>
  Inputs: the client for a fingerprint, if it can be made; its network; the reader of a file's
  content; how many chunks of the \<open>k\<close>-th upload are read by the network; whether the request to prepare and the \<open>k\<close>-th upload are cancelled, and by whom; the text
  of an error and of a number of bytes; the seconds the uploads took.
\<close>

record ('b, 'pk, 'w) send_env =
  se_certs :: "'pk cert_lib"
  se_bodies :: "'b body_lib"
  se_make :: "string option \<Rightarrow> client_error option"
  se_network :: "string option \<Rightarrow> ('b, 'w) network"
  se_receiver :: "file_content \<Rightarrow> bytes list"
  se_consumed :: "nat \<Rightarrow> nat"
  se_prepare_cancelled :: bool
  se_cancelled :: "nat \<Rightarrow> bool"
  se_by_peer :: bool
  se_show_error :: "client_error \<Rightarrow> string"
  se_show_bytes :: "u64 \<Rightarrow> string"
  se_elapsed :: u64

definition to_protocol_type :: "protocol_type_v2 \<Rightarrow> protocol_type" where
  "to_protocol_type p = (case p of Http \<Rightarrow> Proto_Http | Https \<Rightarrow> Proto_Https)"

definition pinned_fingerprint :: "protocol_type_v2 \<Rightarrow> string \<Rightarrow> string option" where
  "pinned_fingerprint p fingerprint = (case p of Https \<Rightarrow> Some fingerprint | Http \<Rightarrow> None)"

definition prepare_reason :: "('b, 'pk, 'w) send_env \<Rightarrow> client_error \<Rightarrow> string" where
  "prepare_reason env e =
     (case e of
        Ce_Cancelled \<Rightarrow> ''Cancelled''
      | Ce_Status status message \<Rightarrow>
          if status = 401 then ''PIN required (not supported by the CLI)''
          else if status = 403 then ''Declined''
          else if status = 409 then ''Blocked by another session''
          else if status = 429 then ''Too many requests''
          else ''Request failed with status '' @ nat_str 10 status @
            (case message of Some m \<Rightarrow> '': '' @ m | None \<Rightarrow> '''')
      | e \<Rightarrow> se_show_error env e)"

section \<open>Uploads\<close>

text \<open>The name of a file, for sorting; \<open>files[id]\<close> of a file that was not offered has none.\<close>

definition file_name_of :: "(string, file_dto) hmap \<Rightarrow> string \<Rightarrow> string" where
  "file_name_of files file_id = fd_file_name (the (hm_get files file_id))"

text \<open>The values of the progress counter while a file is sent.\<close>

definition send_progress :: "u64 \<Rightarrow> nat \<Rightarrow> bytes list \<Rightarrow> u64 list" where
  "send_progress base consumed chunks = map (\<lambda>sent. base + sent) (take consumed (snd (upload_chunks 0 chunks)))"

definition send_upload ::
  "('b, 'pk, 'w) send_env \<Rightarrow> device \<Rightarrow> prepare_upload_response_v2 \<Rightarrow> string \<Rightarrow> nat \<Rightarrow> string \<Rightarrow> 'w
     \<Rightarrow> unit client_result \<times> 'w" where
  "send_upload env device response path k file_id w =
     client_upload_v2 (se_certs env) (se_bodies env)
       (se_network env (pinned_fingerprint (dev_protocol device) (dev_fingerprint device)))
       (to_protocol_type (dev_protocol device)) (dev_host device) (dev_port device) None
       (pv_session_id response) file_id (the (hm_get (pv_files response) file_id))
       (fst (upload_chunks 0 (se_receiver env (Content_Path path))))
       (se_cancelled env k) w"

definition send_cancel ::
  "('b, 'pk, 'w) send_env \<Rightarrow> device \<Rightarrow> prepare_upload_response_v2 \<Rightarrow> 'w \<Rightarrow> 'w" where
  "send_cancel env device response w =
     snd (client_cancel_v2 (se_network env (pinned_fingerprint (dev_protocol device) (dev_fingerprint device)))
       (to_protocol_type (dev_protocol device)) (dev_host device) (dev_port device) (pv_session_id response) w)"

text \<open>
  \<open>k\<close> uploads have been done before, of \<open>sent_bytes\<close> bytes. \<open>paths[file_id]\<close> panics when the file has no path.
\<close>

fun upload_files ::
  "('b, 'pk, 'w) send_env \<Rightarrow> device \<Rightarrow> prepare_upload_response_v2 \<Rightarrow> (string, file_dto) hmap \<Rightarrow> (string, string) hmap
     \<Rightarrow> nat \<Rightarrow> u64 \<Rightarrow> string list \<Rightarrow> 'w \<Rightarrow> send_outcome \<times> u64 list \<times> 'w" where
  "upload_files env device response files paths k sent_bytes [] w = (Sent k sent_bytes, [], w)"
| "upload_files env device response files paths k sent_bytes (file_id # ids) w =
     (let file = the (hm_get files file_id)
      in case hm_get paths file_id of
           None \<Rightarrow> (Send_Panicked, [], w)
         | Some path \<Rightarrow>
             (let progress = send_progress sent_bytes (se_consumed env k) (se_receiver env (Content_Path path))
              in case send_upload env device response path k file_id w of
                   (Inr _, w) \<Rightarrow>
                     (let amount = sent_bytes + fd_size file;
                          (outcome, rest, w) = upload_files env device response files paths (Suc k) amount ids w
                      in (outcome, progress @ amount # rest, w))
                 | (Inl Ce_Cancelled, w) \<Rightarrow>
                     if se_by_peer env then (Cancelled_By_Peer k, progress, w)
                     else (Send_Cancelled k, progress, send_cancel env device response w)
                 | (Inl e, w) \<Rightarrow>
                     (Upload_Failed (fd_file_name file) e, progress, send_cancel env device response w)))"

definition send_log :: "('b, 'pk, 'w) send_env \<Rightarrow> string \<Rightarrow> send_outcome \<Rightarrow> task_event list" where
  "send_log env alias outcome =
     (case outcome of
        Client_Failed e \<Rightarrow> [Send_Log (alias @ '': Failed to create HTTP client: '' @ se_show_error env e)]
      | Prepare_Failed e \<Rightarrow> [Send_Log (alias @ '': '' @ prepare_reason env e)]
      | All_Declined \<Rightarrow> [Send_Log (alias @ '': all files were declined'')]
      | Send_Panicked \<Rightarrow> []
      | Sent n bytes \<Rightarrow>
          [Send_Log (alias @ '': Sent '' @ nat_str 10 n @ '' file'' @ (if n = 1 then '''' else ''s'') @ '' ('' @
             se_show_bytes env bytes @ '', took '' @ format_duration (se_elapsed env) @ '')'')]
      | Send_Cancelled n \<Rightarrow> [Send_Log (alias @ '': cancelled ('' @ nat_str 10 n @ '' file(s) sent)'')]
      | Cancelled_By_Peer n \<Rightarrow>
          [Send_Log (alias @ '': cancelled by receiver ('' @ nat_str 10 n @ '' file(s) sent)'')]
      | Upload_Failed name e \<Rightarrow>
          [Send_Log (alias @ '': failed to upload '' @ name @ '': '' @ se_show_error env e)])"

definition accepted_bytes :: "(string, file_dto) hmap \<Rightarrow> (string, string) hmap \<Rightarrow> u64" where
  "accepted_bytes files accepted =
     sum_list (map fd_size (List.map_filter (hm_get files) (map fst accepted)))"

definition partly_accepted :: "string \<Rightarrow> nat \<Rightarrow> nat \<Rightarrow> task_event list" where
  "partly_accepted alias accepted offered =
     (if accepted < offered
      then [Send_Log (alias @ '': receiver accepted '' @ nat_str 10 accepted @ '' of '' @ nat_str 10 offered @ '' files'')]
      else [])"

section \<open>The task\<close>

text \<open>
  The result: how it ends, the events before its closing line, the progress, the world. Sorting by
  name and the loop index \<open>files\<close> with every accepted id.
\<close>

definition send_inner ::
  "('b, 'pk, 'w) send_env \<Rightarrow> identity \<Rightarrow> device \<Rightarrow> (string, file_dto) hmap \<Rightarrow> (string, string) hmap \<Rightarrow> 'w
     \<Rightarrow> send_outcome \<times> task_event list \<times> u64 list \<times> 'w" where
  "send_inner env identity device files paths w =
     (let fingerprint = pinned_fingerprint (dev_protocol device) (dev_fingerprint device)
      in case se_make env fingerprint of
           Some e \<Rightarrow> (Client_Failed e, [], [], w)
         | None \<Rightarrow>
             (case client_prepare_upload_v2 (se_certs env) (se_bodies env) (se_network env fingerprint)
                     (to_protocol_type (dev_protocol device)) (dev_host device) (dev_port device) None
                     \<lparr>pr_info = identity_register_dto identity, pr_files = files\<rparr> None
                     (se_prepare_cancelled env) w of
                (Inl e, w) \<Rightarrow> (Prepare_Failed e, [], [], w)
              | (Inr prepared, w) \<Rightarrow>
                  (case pv_response prepared of
                     None \<Rightarrow> (All_Declined, [], [], w)
                   | Some response \<Rightarrow>
                       (let accepted = map fst (pv_files response);
                            events = Session_Started (pv_session_id response)
                                (accepted_bytes files (pv_files response)) #
                              partly_accepted (dev_alias device) (length accepted) (length files)
                        in if list_ex (\<lambda>file_id. hm_get files file_id = None) accepted
                           then (Send_Panicked, events, [], w)
                           else
                             (let (outcome, progress, w) =
                                upload_files env device response files paths 0 0
                                  (sort_key (file_name_of files) accepted) w
                              in (outcome, events, progress, w))))))"

definition run_send ::
  "('b, 'pk, 'w) send_env \<Rightarrow> identity \<Rightarrow> device \<Rightarrow> (string, file_dto) hmap \<Rightarrow> (string, string) hmap \<Rightarrow> 'w
     \<Rightarrow> task_event list \<times> u64 list \<times> 'w" where
  "run_send env identity device files paths w =
     (let (outcome, events, progress, w) = send_inner env identity device files paths w
      in (events @ send_log env (dev_alias device) outcome @
            (if outcome = Send_Panicked then [] else [Send_Ended]), progress, w))"


section \<open>What is sent\<close>

text \<open>The receiver does not know that a session is over unless all was sent or it ended it itself.\<close>

definition must_notify :: "send_outcome \<Rightarrow> bool" where
  "must_notify outcome =
     (case outcome of Send_Cancelled _ \<Rightarrow> True | Upload_Failed _ _ \<Rightarrow> True | _ \<Rightarrow> False)"

lemma upload_files_Cons:
  obtains (no_path) "hm_get paths file_id = None"
      "upload_files env device response files paths k bytes (file_id # ids) w = (Send_Panicked, [], w)"
  | (sent) path progress w1 outcome rest w2 where "hm_get paths file_id = Some path"
      "send_upload env device response path k file_id w = (Inr (), w1)"
      "upload_files env device response files paths (Suc k) (bytes + fd_size (the (hm_get files file_id))) ids w1 =
         (outcome, rest, w2)"
      "upload_files env device response files paths k bytes (file_id # ids) w =
         (outcome, progress @ (bytes + fd_size (the (hm_get files file_id))) # rest, w2)"
  | (stopped) path e progress w1 outcome where "hm_get paths file_id = Some path"
      "send_upload env device response path k file_id w = (Inl e, w1)"
      "upload_files env device response files paths k bytes (file_id # ids) w =
         (outcome, progress, if must_notify outcome then send_cancel env device response w1 else w1)"
      "outcome \<noteq> Send_Panicked" "\<And>n amount. outcome \<noteq> Sent n amount"
proof (cases "hm_get paths file_id")
  case None
  then show thesis using no_path by simp
next
  case (Some path)
  obtain r w1 where up: "send_upload env device response path k file_id w = (r, w1)" by (rule prod.exhaust)
  show thesis
  proof (cases r)
    case (Inl e)
    let ?outcome = "if e \<noteq> Ce_Cancelled then Upload_Failed (fd_file_name (the (hm_get files file_id))) e
      else if se_by_peer env then Cancelled_By_Peer k else Send_Cancelled k"
    have "upload_files env device response files paths k bytes (file_id # ids) w =
      (?outcome, send_progress bytes (se_consumed env k) (se_receiver env (Content_Path path)),
       if must_notify ?outcome then send_cancel env device response w1 else w1)"
      by (cases e) (simp_all add: Some up Inl must_notify_def)
    then show thesis by (rule stopped [OF Some up [unfolded Inl]]) (simp_all split: if_splits)
  next
    case (Inr u)
    obtain outcome rest w2 where "upload_files env device response files paths (Suc k)
        (bytes + fd_size (the (hm_get files file_id))) ids w1 = (outcome, rest, w2)" by (rule prod_cases3)
    then show thesis using sent [of path w1 outcome rest w2] Some up Inr by (simp add: Let_def)
  qed
qed

lemma send_files_sent:
  "upload_files env device response files paths k bytes ids w = (outcome, progress, w') \<Longrightarrow> outcome = Sent n amount \<Longrightarrow>
     n = k + length ids \<and> amount = bytes + sum_list (map (\<lambda>i. fd_size (the (hm_get files i))) ids) \<and>
     (ids \<noteq> [] \<longrightarrow> progress \<noteq> [] \<and> last progress = amount)"
proof (induction ids arbitrary: k bytes w progress)
  case (Cons file_id ids)
  show ?case
  proof (rule upload_files_Cons [of paths file_id env device response files k bytes ids w])
    fix path progress1 w1 outcome1 rest w2
    let ?size = "fd_size (the (hm_get files file_id))"
    assume rest: "upload_files env device response files paths (Suc k) (bytes + ?size) ids w1 = (outcome1, rest, w2)"
      and all: "upload_files env device response files paths k bytes (file_id # ids) w =
        (outcome1, progress1 @ (bytes + ?size) # rest, w2)"
    have out: "outcome1 = outcome" "progress = progress1 @ (bytes + ?size) # rest" "w2 = w'"
      using Cons.prems unfolding all by simp_all
    from Cons.IH [OF rest [unfolded out(1,3)]] have "n = Suc k + length ids \<and>
        amount = bytes + ?size + sum_list (map (\<lambda>i. fd_size (the (hm_get files i))) ids) \<and>
        (ids \<noteq> [] \<longrightarrow> rest \<noteq> [] \<and> last rest = amount)" using Cons.prems(2) by simp
    moreover have "ids = [] \<Longrightarrow> rest = []" using rest by simp
    ultimately show ?case using out by (auto simp: add.assoc)
  qed (use Cons.prems in simp_all)
qed auto

text \<open>A network that keeps a record of the requests.\<close>

definition recorded :: "('b, 'w) network \<Rightarrow> ('b, client_request list \<times> 'w) network" where
  "recorded send req w = (let (res, w') = send req (snd w) in (res, fst w @ [req], w'))"

definition upload_request_url :: "device \<Rightarrow> prepare_upload_response_v2 \<Rightarrow> string \<Rightarrow> string" where
  "upload_request_url device response file_id =
     request_url Api_V2 (to_protocol_type (dev_protocol device)) (dev_host device) (dev_port device) ''/upload''
       [(''sessionId'', pv_session_id response), (''fileId'', file_id),
        (''token'', the (hm_get (pv_files response) file_id))]"

definition cancel_request_url :: "device \<Rightarrow> prepare_upload_response_v2 \<Rightarrow> string" where
  "cancel_request_url device response =
     request_url Api_V2 (to_protocol_type (dev_protocol device)) (dev_host device) (dev_port device) ''/cancel''
       [(''sessionId'', pv_session_id response)]"

lemma send_upload_recorded:
  assumes "se_network env fp = recorded send"
    and "fp = pinned_fingerprint (dev_protocol device) (dev_fingerprint device)"
    and "send_upload env device response path k file_id w = (r, w')"
  shows "map cq_url (fst w') = map cq_url (fst w) @ [upload_request_url device response file_id]"
  using assms
  by (auto simp: send_upload_def client_upload_v2_def recorded_def upload_request_url_def Let_def split: prod.splits)

lemma send_cancel_recorded:
  assumes "se_network env fp = recorded send"
    and "fp = pinned_fingerprint (dev_protocol device) (dev_fingerprint device)"
  shows "map cq_url (fst (send_cancel env device response w)) =
    map cq_url (fst w) @ [cancel_request_url device response]"
  using assms
  by (auto simp: send_cancel_def client_cancel_v2_def recorded_def cancel_request_url_def Let_def
      split: prod.splits option.splits)

lemma send_files_requests:
  assumes "se_network env (pinned_fingerprint (dev_protocol device) (dev_fingerprint device)) = recorded send"
    and "upload_files env device response files paths k bytes ids w = (outcome, progress, w')"
  shows "\<exists>m \<le> length ids. map cq_url (fst w') =
    map cq_url (fst w) @ map (upload_request_url device response) (take m ids) @
      (if must_notify outcome then [cancel_request_url device response] else []) \<and>
    (\<forall>n amount. outcome = Sent n amount \<longrightarrow> m = length ids)"
  using assms(2)
proof (induction ids arbitrary: k bytes w outcome progress w')
  case Nil
  then show ?case by (auto simp: must_notify_def)
next
  case (Cons file_id ids)
  note one = send_upload_recorded [OF assms(1) refl]
  show ?case
  proof (rule upload_files_Cons [of paths file_id env device response files k bytes ids w])
    assume "upload_files env device response files paths k bytes (file_id # ids) w = (Send_Panicked, [], w)"
    then show ?case using Cons.prems by (intro exI [of _ 0]) (auto simp: must_notify_def)
  next
    fix path progress1 w1 outcome1 rest w2
    let ?size = "fd_size (the (hm_get files file_id))"
    assume up: "send_upload env device response path k file_id w = (Inr (), w1)"
      and rest: "upload_files env device response files paths (Suc k) (bytes + ?size) ids w1 = (outcome1, rest, w2)"
      and all: "upload_files env device response files paths k bytes (file_id # ids) w =
        (outcome1, progress1 @ (bytes + ?size) # rest, w2)"
    have "outcome1 = outcome" "w2 = w'" using Cons.prems unfolding all by simp_all
    from Cons.IH [OF rest [unfolded this]] obtain m where "m \<le> length ids"
      "map cq_url (fst w') = map cq_url (fst w1) @ map (upload_request_url device response) (take m ids) @
        (if must_notify outcome then [cancel_request_url device response] else [])"
      "\<forall>n amount. outcome = Sent n amount \<longrightarrow> m = length ids" by blast
    then show ?case using one [OF up] by (intro exI [of _ "Suc m"]) auto
  next
    fix path e progress1 w1 outcome1
    assume up: "send_upload env device response path k file_id w = (Inl e, w1)"
      and all: "upload_files env device response files paths k bytes (file_id # ids) w =
         (outcome1, progress1, if must_notify outcome1 then send_cancel env device response w1 else w1)"
      and "\<And>n amount. outcome1 \<noteq> Sent n amount"
    then show ?case using one [OF up] Cons.prems send_cancel_recorded [OF assms(1) refl, of response w1]
      by (intro exI [of _ 1]) auto
  qed
qed

section \<open>Properties\<close>

text \<open>What the receiver has answered to the request to prepare.\<close>

definition prepared_response ::
  "('b, 'pk, 'w) send_env \<Rightarrow> identity \<Rightarrow> device \<Rightarrow> (string, file_dto) hmap \<Rightarrow> 'w
     \<Rightarrow> (prepare_upload_response_v2 \<times> 'w) option" where
  "prepared_response env identity device files w =
     (let fingerprint = pinned_fingerprint (dev_protocol device) (dev_fingerprint device)
      in case se_make env fingerprint of
           Some _ \<Rightarrow> None
         | None \<Rightarrow>
             (case client_prepare_upload_v2 (se_certs env) (se_bodies env) (se_network env fingerprint)
                     (to_protocol_type (dev_protocol device)) (dev_host device) (dev_port device) None
                     \<lparr>pr_info = identity_register_dto identity, pr_files = files\<rparr> None
                     (se_prepare_cancelled env) w of
                (Inr prepared, w) \<Rightarrow> map_option (\<lambda>r. (r, w)) (pv_response prepared)
              | _ \<Rightarrow> None))"

lemma upload_files_panicked:
  "fst (upload_files env device response files paths k bytes ids w) = Send_Panicked \<longleftrightarrow>
     (\<exists>before file_id rest n amount. ids = before @ file_id # rest \<and> hm_get paths file_id = None \<and>
        fst (upload_files env device response files paths k bytes before w) = Sent n amount)"
proof (induction ids arbitrary: k bytes w)
  case (Cons file_id ids)
  have split: "(\<exists>before x rest n amount. file_id # ids = before @ x # rest \<and> P x \<and> Q before n amount) \<longleftrightarrow>
      P file_id \<and> (\<exists>n amount. Q [] n amount) \<or>
      (\<exists>before x rest n amount. ids = before @ x # rest \<and> P x \<and> Q (file_id # before) n amount)" for P Q
  proof
    assume "\<exists>before x rest n amount. file_id # ids = before @ x # rest \<and> P x \<and> Q before n amount"
    then obtain before x rest n amount where "file_id # ids = before @ x # rest" "P x" "Q before n amount" by blast
    then show "P file_id \<and> (\<exists>n amount. Q [] n amount) \<or>
        (\<exists>before x rest n amount. ids = before @ x # rest \<and> P x \<and> Q (file_id # before) n amount)"
      by (cases before) (simp_all, blast+)
  next
    assume "P file_id \<and> (\<exists>n amount. Q [] n amount) \<or>
        (\<exists>before x rest n amount. ids = before @ x # rest \<and> P x \<and> Q (file_id # before) n amount)"
    then show "\<exists>before x rest n amount. file_id # ids = before @ x # rest \<and> P x \<and> Q before n amount"
      by (metis append_Cons append_Nil)
  qed
  show ?case
  proof (cases "hm_get paths file_id")
    case None
    then show ?thesis unfolding split by simp
  next
    case (Some path)
    obtain r w1 where up: "send_upload env device response path k file_id w = (r, w1)" by (rule prod.exhaust)
    let ?bytes = "bytes + fd_size (the (hm_get files file_id))"
    show ?thesis
    proof (cases r)
      case (Inr u)
      have "fst (upload_files env device response files paths k bytes (file_id # is) w) =
          fst (upload_files env device response files paths (Suc k) ?bytes is w1)" for "is"
        using Some up Inr by (simp add: Let_def split_beta)
      then show ?thesis unfolding split using Cons.IH [of "Suc k" ?bytes w1] Some by simp
    next
      case (Inl e)
      have "fst (upload_files env device response files paths k bytes (file_id # is) w) \<noteq> Send_Panicked \<and>
          fst (upload_files env device response files paths k bytes (file_id # is) w) \<noteq> Sent n amount" for "is" n amount
        using Some up Inl by (cases e) (simp_all add: Let_def)
      then show ?thesis unfolding split using Some by simp
    qed
  qed
qed simp

definition prepare_request ::
  "('b, 'pk, 'w) send_env \<Rightarrow> identity \<Rightarrow> device \<Rightarrow> (string, file_dto) hmap \<Rightarrow> 'w
     \<Rightarrow> prepare_upload_result_v2 client_result \<times> 'w" where
  "prepare_request env identity device files w =
     client_prepare_upload_v2 (se_certs env) (se_bodies env)
       (se_network env (pinned_fingerprint (dev_protocol device) (dev_fingerprint device)))
       (to_protocol_type (dev_protocol device)) (dev_host device) (dev_port device) None
       \<lparr>pr_info = identity_register_dto identity, pr_files = files\<rparr> None (se_prepare_cancelled env) w"

lemma send_inner_cases:
  obtains (no_client) e where "prepared_response env identity device files w = None"
      "send_inner env identity device files paths w = (Client_Failed e, [], [], w)"
  | (failed) e w1 where "prepared_response env identity device files w = None"
      "send_inner env identity device files paths w = (Prepare_Failed e, [], [], w1)"
  | (declined) w1 where "prepared_response env identity device files w = None"
      "send_inner env identity device files paths w = (All_Declined, [], [], w1)"
  | (prepared) response w1 where "prepared_response env identity device files w = Some (response, w1)"
      "send_inner env identity device files paths w =
         (let accepted = map fst (pv_files response);
              events = Session_Started (pv_session_id response) (accepted_bytes files (pv_files response)) #
                partly_accepted (dev_alias device) (length accepted) (length files)
          in if list_ex (\<lambda>file_id. hm_get files file_id = None) accepted then (Send_Panicked, events, [], w1)
             else
               (let (outcome, progress, w) =
                  upload_files env device response files paths 0 0 (sort_key (file_name_of files) accepted) w1
                in (outcome, events, progress, w)))"
proof -
  let ?fp = "pinned_fingerprint (dev_protocol device) (dev_fingerprint device)"
  obtain r w1 where req: "prepare_request env identity device files w = (r, w1)" by (rule prod.exhaust)
  show ?thesis
  proof (cases "se_make env ?fp")
    case None
    note defs = prepared_response_def send_inner_def None req [unfolded prepare_request_def]
    show ?thesis
    proof (cases r)
      case (Inl e)
      show ?thesis by (rule failed) (simp_all add: defs Inl)
    next
      case (Inr prepared)
      show ?thesis
      proof (cases "pv_response prepared")
        case declined': None
        show ?thesis by (rule declined) (simp_all add: defs Inr declined')
      next
        case (Some response)
        show ?thesis by (rule prepared) (simp_all add: defs Inr Some)
      qed
    qed
  next
    case (Some e)
    show ?thesis by (rule no_client) (simp_all add: prepared_response_def send_inner_def Some)
  qed
qed

lemma send_inner_prepared:
  "prepared_response env identity device files w = Some (response, w1) \<Longrightarrow>
   send_inner env identity device files paths w =
     (let accepted = map fst (pv_files response);
          events = Session_Started (pv_session_id response) (accepted_bytes files (pv_files response)) #
            partly_accepted (dev_alias device) (length accepted) (length files)
      in if list_ex (\<lambda>file_id. hm_get files file_id = None) accepted then (Send_Panicked, events, [], w1)
         else
           (let (outcome, progress, w) =
              upload_files env device response files paths 0 0 (sort_key (file_name_of files) accepted) w1
            in (outcome, events, progress, w)))"
  by (rule send_inner_cases [of env identity device files w paths]) simp_all

lemma send_inner_unprepared:
  "prepared_response env identity device files w = None \<Longrightarrow>
     fst (send_inner env identity device files paths w) \<noteq> Send_Panicked"
  by (rule send_inner_cases [of env identity device files w paths]) simp_all

lemma send_inner_events: "Send_Ended \<notin> set (fst (snd (send_inner env identity device files paths w)))"
  by (rule send_inner_cases [of env identity device files w paths])
    (simp_all add: Let_def partly_accepted_def split_beta)

lemma send_ended_iff:
  "Send_Ended \<in> set (fst (run_send env identity device files paths w)) \<longleftrightarrow>
     fst (send_inner env identity device files paths w) \<noteq> Send_Panicked"
proof -
  obtain outcome events progress w' where inner:
    "send_inner env identity device files paths w = (outcome, events, progress, w')" by (rule prod_cases4)
  have "Send_Ended \<notin> set events"
    using send_inner_events [of env identity device files paths w] by (simp add: inner)
  moreover have "Send_Ended \<notin> set (send_log env name outcome)" for name
    by (simp add: send_log_def split: send_outcome.split)
  ultimately show ?thesis by (simp add: run_send_def inner)
qed

text \<open>
  C14: The sending task tells the application that it has ended, except in two cases, where it panics and
  never does: the receiver grants a file that was not offered, or the task comes to a file that has no
  path, every file before it being sent.
\<close>

theorem send_ends_unless_unknown_file:
  "Send_Ended \<in> set (fst (run_send env identity device files paths w)) \<longleftrightarrow>
     (case prepared_response env identity device files w of
        None \<Rightarrow> True
      | Some (response, w1) \<Rightarrow>
          fst ` set (pv_files response) \<subseteq> fst ` set files \<and>
          (\<nexists>before file_id rest n amount.
             sort_key (file_name_of files) (map fst (pv_files response)) = before @ file_id # rest \<and>
             fst (upload_files env device response files paths 0 0 before w1) = Sent n amount \<and>
             file_id \<notin> fst ` set paths))"
proof (cases "prepared_response env identity device files w")
  case None
  then show ?thesis using send_inner_unprepared [OF None] by (simp add: send_ended_iff)
next
  case (Some rw)
  obtain response w1 where rw: "rw = (response, w1)" by fastforce
  let ?ids = "sort_key (file_name_of files) (map fst (pv_files response))"
  have "fst (send_inner env identity device files paths w) = Send_Panicked \<longleftrightarrow>
      list_ex (\<lambda>file_id. hm_get files file_id = None) (map fst (pv_files response)) \<or>
      fst (upload_files env device response files paths 0 0 ?ids w1) = Send_Panicked"
    unfolding send_inner_prepared [OF Some [unfolded rw]] by (simp add: Let_def split_beta)
  moreover have "hm_get paths i = None \<longleftrightarrow> i \<notin> fst ` set paths" for i by (simp add: map_of_eq_None_iff)
  moreover have "list_ex (\<lambda>file_id. hm_get files file_id = None) (map fst (pv_files response)) \<longleftrightarrow>
      \<not> fst ` set (pv_files response) \<subseteq> fst ` set files"
    by (auto simp: list_ex_iff map_of_eq_None_iff)
  ultimately show ?thesis
    unfolding send_ended_iff upload_files_panicked Some rw option.case prod.case by metis
qed

text \<open>The application gives the task a path for every file it offers; then only the receiver can break it.\<close>

lemma send_ends_with_paths:
  assumes "map fst files = map fst paths"
    and "prepared_response env identity device files w = Some (response, w1)"
  shows "fst (send_inner env identity device files paths w) = Send_Panicked \<longleftrightarrow>
    \<not> fst ` set (pv_files response) \<subseteq> fst ` set files"
proof -
  have "fst ` set files = fst ` set paths" using arg_cong [OF assms(1), of set] by simp
  then have path: "hm_get paths i = None \<longleftrightarrow> hm_get files i = None" for i by (simp add: map_of_eq_None_iff)
  have "fst (upload_files env device response files paths 0 0
      (sort_key (file_name_of files) (map fst (pv_files response))) w1) \<noteq> Send_Panicked"
    if "\<forall>i \<in> set (map fst (pv_files response)). hm_get files i \<noteq> None"
    using that unfolding upload_files_panicked path
    by (metis in_set_conv_decomp set_sort)
  then show ?thesis
    unfolding send_inner_prepared [OF assms(2)]
    by (auto simp: Let_def split_beta list_ex_iff map_of_eq_None_iff)
qed

text \<open>
  C13: What the sending task asks of the receiver: after it is prepared, one upload per granted file in
  the order of their names, for as long as they succeed, and a cancellation exactly when it stops
  early without the receiver knowing. If it reports that it has sent \<open>n\<close> files, these are all that
  were granted, with all their bytes.
\<close>

theorem send_requests_exact:
  assumes "se_network env (pinned_fingerprint (dev_protocol device) (dev_fingerprint device)) = recorded send"
    and "prepared_response env identity device files w = Some (response, w1)"
    and "fst ` set (pv_files response) \<subseteq> fst ` set files"
    and "send_inner env identity device files paths w = (outcome, events, progress, w')"
  shows "\<exists>m. map cq_url (fst w') = map cq_url (fst w1) @
      map (upload_request_url device response)
        (take m (sort_key (file_name_of files) (map fst (pv_files response)))) @
      (if must_notify outcome then [cancel_request_url device response] else []) \<and>
    (\<forall>n amount. outcome = Sent n amount \<longrightarrow> m = length (pv_files response) \<and> n = m \<and>
       amount = accepted_bytes files (pv_files response))"
proof -
  let ?ids = "map fst (pv_files response)" and ?size = "\<lambda>i. fd_size (the (hm_get files i))"
  have known: "\<forall>i \<in> set ?ids. hm_get files i \<noteq> None"
    using assms(3) by (auto simp: map_of_eq_None_iff)
  then have inner: "upload_files env device response files paths 0 0 (sort_key (file_name_of files) ?ids) w1 =
      (outcome, progress, w')"
  proof -
    have "\<not> list_ex (\<lambda>file_id. hm_get files file_id = None) ?ids" using known by (simp add: list_ex_iff)
    then show ?thesis
      using assms(4) unfolding send_inner_prepared [OF assms(2)] Let_def
      by (cases "upload_files env device response files paths 0 0 (sort_key (file_name_of files) ?ids) w1") simp
  qed
  have "List.map_filter (hm_get files) xs = map (\<lambda>i. the (hm_get files i)) xs"
    if "\<forall>i \<in> set xs. hm_get files i \<noteq> None" for xs
    using that by (induction xs) (auto simp: map_filter_simps)
  then have "accepted_bytes files (pv_files response) = sum_list (map ?size ?ids)"
    using known by (simp add: accepted_bytes_def comp_def)
  also have "\<dots> = sum_list (map ?size (sort_key (file_name_of files) ?ids))"
    by (simp add: image_mset.compositionality comp_def flip: sum_mset_sum_list)
  finally have bytes: "accepted_bytes files (pv_files response) =
      sum_list (map ?size (sort_key (file_name_of files) ?ids))" .
  obtain m where "map cq_url (fst w') = map cq_url (fst w1) @
      map (upload_request_url device response) (take m (sort_key (file_name_of files) ?ids)) @
      (if must_notify outcome then [cancel_request_url device response] else [])"
    and "\<forall>n amount. outcome = Sent n amount \<longrightarrow> m = length (sort_key (file_name_of files) ?ids)"
    using send_files_requests [OF assms(1) inner] by blast
  moreover have "n = length (pv_files response) \<and> amount = accepted_bytes files (pv_files response)"
    if "outcome = Sent n amount" for n amount
    using send_files_sent [OF inner that] bytes by simp
  ultimately show ?thesis by (intro exI [of _ m]) simp
qed

section \<open>Witnesses\<close>

definition sample_device :: device where
  "sample_device = \<lparr>dev_slot = Some 1, dev_alias = ''Phone'', dev_host = ''10.0.0.3'', dev_port = 53317,
     dev_protocol = Http, dev_fingerprint = ''AA''\<rparr>"

definition sample_identity :: identity where
  "sample_identity = \<lparr>in_alias = ''Laptop'', in_port = 53317, in_cert_pem = ''c'', in_key_pem = ''k'',
     in_fingerprint = ''BB''\<rparr>"

definition sample_offer :: "(string, file_dto) hmap" where
  "sample_offer = [(''f1'', \<lparr>fd_id = ''f1'', fd_file_name = ''b.txt'', fd_size = 2, fd_file_type = ''text/plain'',
     fd_sha256 = None, fd_preview = None, fd_metadata = None\<rparr>)]"

text \<open>A receiver that answers every request with 200 and grants the files of its argument.\<close>

definition granting :: "(string, string) hmap \<Rightarrow> (unit, unit, client_request list \<times> unit) send_env" where
  "granting tokens =
     \<lparr>se_certs = \<lparr>ct_parse_der = \<lambda>_. None, ct_parse_pem_key = \<lambda>_. None, ct_pem_encode = \<lambda>_. []\<rparr>,
      se_bodies = \<lparr>bl_text = \<lambda>_. [], bl_error = \<lambda>_. None, bl_register_v2 = \<lambda>_. None, bl_register = \<lambda>_. None,
        bl_prepare_v2 = \<lambda>_. Some \<lparr>pv_session_id = ''s'', pv_files = tokens\<rparr>, bl_prepare = \<lambda>_. None,
        bl_info = \<lambda>_. None, bl_download = \<lambda>_. None, bl_nonce = \<lambda>_. None, bl_chunks = \<lambda>_. []\<rparr>,
      se_make = \<lambda>_. None,
      se_network = \<lambda>_. recorded (\<lambda>_ w. (Some \<lparr>hr_status = 200, hr_tls = None, hr_remote = None, hr_body = Some ()\<rparr>, w)),
      se_receiver = \<lambda>_. [[1, 2]], se_consumed = \<lambda>_. 1, se_prepare_cancelled = False, se_cancelled = \<lambda>_. False,
      se_by_peer = False, se_show_error = \<lambda>_. ''error'', se_show_bytes = \<lambda>_. ''2 B'', se_elapsed = 1\<rparr>"

lemma granting_prepared:
  "\<exists>w1. prepared_response (granting tokens) sample_identity sample_device sample_offer ([], ()) =
     Some (\<lparr>pv_session_id = ''s'', pv_files = tokens\<rparr>, w1)"
  by (simp add: prepared_response_def granting_def sample_device_def client_prepare_upload_v2_def recorded_def
      to_protocol_type_def read_json_def)

theorem send_requests_exact_witness:
  "\<exists>events progress w'. send_inner (granting [(''f1'', ''t'')]) sample_identity sample_device sample_offer
      [(''f1'', ''/b.txt'')] ([], ()) = (Sent 1 2, events, progress, w') \<and>
    last (map cq_url (fst w')) =
      upload_request_url sample_device \<lparr>pv_session_id = ''s'', pv_files = [(''f1'', ''t'')]\<rparr> ''f1''"
proof -
  let ?r = "\<lparr>pv_session_id = ''s'', pv_files = [(''f1'', ''t'')]\<rparr>"
  let ?env = "granting [(''f1'', ''t'')]"
  obtain w1 where prep: "prepared_response ?env sample_identity sample_device sample_offer ([], ()) = Some (?r, w1)"
    using granting_prepared [of "[(''f1'', ''t'')]"] by blast
  obtain outcome events progress w' where inner: "send_inner ?env sample_identity sample_device sample_offer
      [(''f1'', ''/b.txt'')] ([], ()) = (outcome, events, progress, w')" by (rule prod_cases4)
  have sent: "outcome = Sent 1 2"
    using inner unfolding send_inner_prepared [OF prep]
    by (simp add: sample_offer_def send_upload_def client_upload_v2_def
        granting_def recorded_def upload_outcome_of_def sample_device_def to_protocol_type_def Let_def split_beta)
  have "se_network ?env (pinned_fingerprint (dev_protocol sample_device) (dev_fingerprint sample_device)) =
      recorded (\<lambda>_ w. (Some \<lparr>hr_status = 200, hr_tls = None, hr_remote = None, hr_body = Some ()\<rparr>, w))"
    by (simp add: granting_def)
  from send_requests_exact [OF this prep _ inner] obtain m where "map cq_url (fst w') = map cq_url (fst w1) @
      map (upload_request_url sample_device ?r) (take m [''f1''])" "m = 1"
    by (auto simp: sample_offer_def sent must_notify_def)
  then have "last (map cq_url (fst w')) = upload_request_url sample_device ?r ''f1''" by simp
  then show ?thesis using inner sent by blast
qed

theorem send_ends_unless_unknown_file_witness:
  "Send_Ended \<in> set (fst (run_send (granting [(''f1'', ''t'')]) sample_identity sample_device sample_offer
     [(''f1'', ''/b.txt'')] ([], ()))) \<and>
   Send_Ended \<notin> set (fst (run_send (granting [(''f1'', ''t'')]) sample_identity sample_device sample_offer [] ([], ()))) \<and>
   Send_Ended \<notin> set (fst (run_send (granting [(''x'', ''t'')]) sample_identity sample_device sample_offer
     [(''f1'', ''/b.txt'')] ([], ())))"
proof -
  have none: "\<nexists>before file_id rest n amount. sort_key (file_name_of sample_offer) (map fst [(''f1'', ''t'')]) =
      before @ file_id # rest \<and> fst (upload_files env sample_device response sample_offer [(''f1'', ''/b.txt'')] 0 0 before w) =
      Sent n amount \<and> file_id \<notin> fst ` set [(''f1'', ''/b.txt'')]" for env response w
    by (auto simp: Cons_eq_append_conv)
  have some: "\<exists>before file_id rest n amount. sort_key (file_name_of sample_offer) (map fst [(''f1'', ''t'')]) =
      before @ file_id # rest \<and> fst (upload_files env sample_device response sample_offer [] 0 0 before w) =
      Sent n amount \<and> file_id \<notin> fst ` set []" for env response w
    by (rule exI [of _ "[]"]) simp
  have known: "fst ` set [(''f1'', ''t'')] \<subseteq> fst ` set sample_offer" "\<not> fst ` set [(''x'', ''t'')] \<subseteq> fst ` set sample_offer"
    by (simp_all add: sample_offer_def)
  obtain w1 where prep1: "prepared_response (granting [(''f1'', ''t'')]) sample_identity sample_device sample_offer
      ([], ()) = Some (\<lparr>pv_session_id = ''s'', pv_files = [(''f1'', ''t'')]\<rparr>, w1)"
    using granting_prepared [of "[(''f1'', ''t'')]"] by blast
  obtain w2 where prep2: "prepared_response (granting [(''x'', ''t'')]) sample_identity sample_device sample_offer
      ([], ()) = Some (\<lparr>pv_session_id = ''s'', pv_files = [(''x'', ''t'')]\<rparr>, w2)"
    using granting_prepared [of "[(''x'', ''t'')]"] by blast
  show ?thesis
    by (simp only: send_ends_unless_unknown_file prep1 prep2 option.case prod.case prepare_upload_response_v2.select_convs
        known none some simp_thms)
qed

text \<open>A receiver that grants a file of its own invention ends the task without a word.\<close>

lemma unknown_file_silences_task:
  "Send_Ended \<notin> set (fst (run_send (granting [(''x'', ''t'')]) sample_identity sample_device sample_offer
     [(''f1'', ''/b.txt'')] ([], ())))"
proof -
  obtain w1 where prep: "prepared_response (granting [(''x'', ''t'')]) sample_identity sample_device sample_offer
      ([], ()) = Some (\<lparr>pv_session_id = ''s'', pv_files = [(''x'', ''t'')]\<rparr>, w1)"
    using granting_prepared [of "[(''x'', ''t'')]"] by blast
  then show ?thesis
    unfolding send_ended_iff send_inner_prepared [OF prep] by (simp add: sample_offer_def Let_def)
qed

end
