(* ===== verification/Cli_Picker.thy ===== *)
theory Cli_Picker
  imports Cli_Util "HOL-Library.Sublist"
begin

text \<open>
  The file picker of the command line client (\<open>cli/src/picker.rs\<close>): what each key does to the query, the
  visible entries, the highlight and the selection. The explorer is the crate \<open>ratatui_explorer\<close>: its
  state is the directory, its listing and the selected index, and \<open>nav\<close> is what it does with a key.
  The drawing is in \<open>Cli_Draw\<close>.
\<close>

section \<open>State\<close>

record explorer_file =
  ef_name :: chars
  ef_path :: string
  ef_is_dir :: bool

record explorer =
  ex_cwd :: string
  ex_files :: "explorer_file list"
  ex_selected :: nat

datatype key_code =
    Key_Esc | Key_Up | Key_Down | Key_Page_Up | Key_Page_Down | Key_Home | Key_End | Key_Left | Key_Right
  | Key_Backspace | Key_Enter | Key_Char nat | Key_Other

record key_event =
  ke_code :: key_code
  ke_control :: bool
  ke_alt :: bool

record picker =
  pk_slot :: u8
  pk_explorer :: explorer
  pk_selected :: "string list"
  pk_query :: chars
  pk_matches :: "nat list"
  pk_list :: "nat option"

datatype picker_outcome = Picker_Open | Picked "string list" | Picker_Cancelled

definition SCROLL_COUNT :: int where
  "SCROLL_COUNT = 12"

section \<open>Filtering\<close>

text \<open>The iterator over the name is advanced past each character that is found.\<close>

fun all_found :: "chars \<Rightarrow> chars \<Rightarrow> bool" where
  "all_found [] name = True"
| "all_found (needle # query) name =
     (case dropWhile (\<lambda>c. c \<noteq> needle) name of
        [] \<Rightarrow> False
      | _ # rest \<Rightarrow> all_found query rest)"

definition matches_query :: "(chars \<Rightarrow> chars) \<Rightarrow> chars \<Rightarrow> chars \<Rightarrow> bool" where
  "matches_query lowercase query name = all_found (lowercase query) (lowercase name)"

fun position :: "('a \<Rightarrow> bool) \<Rightarrow> 'a list \<Rightarrow> nat option" where
  "position P [] = None"
| "position P (x # xs) = (if P x then Some 0 else map_option Suc (position P xs))"

definition picker_cursor :: "picker \<Rightarrow> nat option" where
  "picker_cursor p = position (\<lambda>i. i = ex_selected (pk_explorer p)) (pk_matches p)"

definition cursor_or_0 :: "picker \<Rightarrow> nat" where
  "cursor_or_0 p = (case picker_cursor p of Some c \<Rightarrow> c | None \<Rightarrow> 0)"

definition picker_current :: "picker \<Rightarrow> explorer_file option" where
  "picker_current p =
     map_option (\<lambda>_. ex_files (pk_explorer p) ! ex_selected (pk_explorer p)) (picker_cursor p)"

definition select_match :: "nat \<Rightarrow> picker \<Rightarrow> picker" where
  "select_match cursor p =
     (if cursor < length (pk_matches p)
      then p\<lparr>pk_explorer := (pk_explorer p)\<lparr>ex_selected := pk_matches p ! cursor\<rparr>, pk_list := Some cursor\<rparr>
      else p\<lparr>pk_list := None\<rparr>)"

definition matching :: "(chars \<Rightarrow> chars) \<Rightarrow> picker \<Rightarrow> nat list" where
  "matching lowercase p =
     filter (\<lambda>i. matches_query lowercase (pk_query p) (ef_name (ex_files (pk_explorer p) ! i)))
       [0..<length (ex_files (pk_explorer p))]"

definition refresh_matches :: "(chars \<Rightarrow> chars) \<Rightarrow> picker \<Rightarrow> picker" where
  "refresh_matches lowercase p =
     (let p = p\<lparr>pk_matches := matching lowercase p\<rparr> in select_match (cursor_or_0 p) p)"

section \<open>Moving\<close>

text \<open>A directory other than the root has a parent.\<close>

definition select_first_entry :: "picker \<Rightarrow> picker" where
  "select_first_entry p =
     (let skip_parent = path_components (ex_cwd (pk_explorer p)) \<noteq> [] \<and> length (pk_matches p) > 1
      in select_match (if skip_parent then 1 else 0) p)"

definition move_cursor :: "int \<Rightarrow> bool \<Rightarrow> picker \<Rightarrow> picker" where
  "move_cursor delta wrap p =
     (if pk_matches p = [] then p
      else
        (let len = int (length (pk_matches p));
             cursor = int (cursor_or_0 p) + delta
         in select_match (nat (if wrap then cursor mod len else max 0 (min cursor (len - 1)))) p))"

definition picker_navigate ::
  "(chars \<Rightarrow> chars) \<Rightarrow> (key_event \<Rightarrow> explorer \<Rightarrow> explorer) \<Rightarrow> key_event \<Rightarrow> picker \<Rightarrow> picker" where
  "picker_navigate lowercase nav key p =
     (let previous = ex_cwd (pk_explorer p);
          p = p\<lparr>pk_explorer := nav key (pk_explorer p)\<rparr>
      in if ex_cwd (pk_explorer p) = previous then p
         else select_first_entry (refresh_matches lowercase (p\<lparr>pk_query := []\<rparr>)))"

section \<open>Keys\<close>

definition picker_open :: "(chars \<Rightarrow> chars) \<Rightarrow> u8 \<Rightarrow> explorer \<Rightarrow> picker" where
  "picker_open lowercase slot e =
     select_first_entry (refresh_matches lowercase
       \<lparr>pk_slot = slot, pk_explorer = e, pk_selected = [], pk_query = [], pk_matches = [], pk_list = None\<rparr>)"

text \<open>Space, on the highlighted file.\<close>

definition toggle_current :: "picker \<Rightarrow> picker" where
  "toggle_current p =
     (case picker_current p of
        Some f \<Rightarrow>
          if ef_is_dir f then p
          else if ef_path f \<in> set (pk_selected p) then p\<lparr>pk_selected := remove1 (ef_path f) (pk_selected p)\<rparr>
          else p\<lparr>pk_selected := pk_selected p @ [ef_path f]\<rparr>
      | None \<Rightarrow> p)"

definition picker_confirm ::
  "(chars \<Rightarrow> chars) \<Rightarrow> (key_event \<Rightarrow> explorer \<Rightarrow> explorer) \<Rightarrow> key_event \<Rightarrow> picker \<Rightarrow> picker_outcome \<times> picker" where
  "picker_confirm lowercase nav key p =
     (let selected = pk_selected p; taken = p\<lparr>pk_selected := []\<rparr>
      in case picker_current p of
           Some f \<Rightarrow>
             if ef_is_dir f then (Picker_Open, picker_navigate lowercase nav key p)
             else (Picked (if selected = [] then [ef_path f] else selected), taken)
         | None \<Rightarrow> if selected \<noteq> [] then (Picked selected, taken) else (Picker_Open, taken))"

definition picker_handle_key ::
  "(chars \<Rightarrow> chars) \<Rightarrow> (key_event \<Rightarrow> explorer \<Rightarrow> explorer) \<Rightarrow> key_event \<Rightarrow> picker \<Rightarrow> picker_outcome \<times> picker" where
  "picker_handle_key lowercase nav key p =
     (case ke_code key of
        Key_Esc \<Rightarrow>
          if pk_query p = [] then (Picker_Cancelled, p)
          else (Picker_Open, refresh_matches lowercase (p\<lparr>pk_query := []\<rparr>))
      | Key_Up \<Rightarrow> (Picker_Open, move_cursor (- 1) True p)
      | Key_Down \<Rightarrow> (Picker_Open, move_cursor 1 True p)
      | Key_Page_Up \<Rightarrow> (Picker_Open, move_cursor (- SCROLL_COUNT) False p)
      | Key_Page_Down \<Rightarrow> (Picker_Open, move_cursor SCROLL_COUNT False p)
      | Key_Home \<Rightarrow> (Picker_Open, select_match 0 p)
      | Key_End \<Rightarrow> (Picker_Open, select_match (length (pk_matches p) - 1) p)
      | Key_Left \<Rightarrow> (Picker_Open, picker_navigate lowercase nav key p)
      | Key_Right \<Rightarrow>
          (Picker_Open,
           case picker_current p of
             Some f \<Rightarrow> if ef_is_dir f then picker_navigate lowercase nav key p else p
           | None \<Rightarrow> p)
      | Key_Backspace \<Rightarrow>
          (Picker_Open,
           if pk_query p = [] then p else refresh_matches lowercase (p\<lparr>pk_query := butlast (pk_query p)\<rparr>))
      | Key_Enter \<Rightarrow> picker_confirm lowercase nav key p
      | Key_Char c \<Rightarrow>
          (Picker_Open,
           if c = 32 then toggle_current p
           else if ke_control key \<or> ke_alt key then p
           else refresh_matches lowercase (p\<lparr>pk_query := pk_query p @ [c]\<rparr>))
      | Key_Other \<Rightarrow> (Picker_Open, p))"

section \<open>What is highlighted\<close>

text \<open>\<open>nav\<close> leaves everything as it is when it does not change the directory.\<close>

definition nav_laws :: "(key_event \<Rightarrow> explorer \<Rightarrow> explorer) \<Rightarrow> bool" where
  "nav_laws nav \<longleftrightarrow> (\<forall>key e. ex_cwd (nav key e) = ex_cwd e \<longrightarrow> nav key e = e)"

definition highlight_ok :: "(chars \<Rightarrow> chars) \<Rightarrow> picker \<Rightarrow> bool" where
  "highlight_ok lowercase p \<longleftrightarrow>
     pk_matches p = matching lowercase p \<and>
     (pk_matches p \<noteq> [] \<longrightarrow>
        (\<exists>c. pk_list p = Some c \<and> c < length (pk_matches p) \<and> pk_matches p ! c = ex_selected (pk_explorer p))) \<and>
     (pk_matches p = [] \<longrightarrow> pk_list p = None)"

lemma position_Some: "position P xs = Some i \<Longrightarrow> i < length xs \<and> P (xs ! i)"
  by (induction xs arbitrary: i) (auto split: if_splits)

lemma position_None: "position P xs = None \<longleftrightarrow> (\<forall>x \<in> set xs. \<not> P x)"
  by (induction xs) auto

lemma select_match_frame [simp]:
  "pk_matches (select_match c p) = pk_matches p" "pk_query (select_match c p) = pk_query p"
  "pk_selected (select_match c p) = pk_selected p" "pk_slot (select_match c p) = pk_slot p"
  "ex_files (pk_explorer (select_match c p)) = ex_files (pk_explorer p)"
  "ex_cwd (pk_explorer (select_match c p)) = ex_cwd (pk_explorer p)"
  by (simp_all add: select_match_def)

lemma matching_frame [simp]:
  "matching lowercase (select_match c p) = matching lowercase p"
  "matching lowercase (p\<lparr>pk_matches := ms\<rparr>) = matching lowercase p"
  by (simp_all add: matching_def)

lemma highlight_matches: "highlight_ok lowercase p \<Longrightarrow> pk_matches p = matching lowercase p"
  by (simp add: highlight_ok_def)

lemma highlight_select:
  "pk_matches p = matching lowercase p \<Longrightarrow> pk_matches p \<noteq> [] \<longrightarrow> c < length (pk_matches p) \<Longrightarrow>
     highlight_ok lowercase (select_match c p)"
  unfolding highlight_ok_def by (auto simp: select_match_def matching_def)

lemma cursor_or_0_bound: "pk_matches p \<noteq> [] \<Longrightarrow> cursor_or_0 p < length (pk_matches p)"
  using position_Some [of _ "pk_matches p"]
  by (auto simp: cursor_or_0_def picker_cursor_def split: option.split)

lemma highlight_refresh: "highlight_ok lowercase (refresh_matches lowercase p)"
  unfolding refresh_matches_def Let_def
  using cursor_or_0_bound [of "p\<lparr>pk_matches := matching lowercase p\<rparr>"]
  by (intro highlight_select) auto

lemma highlight_first: "highlight_ok lowercase p \<Longrightarrow> highlight_ok lowercase (select_first_entry p)"
  unfolding select_first_entry_def Let_def
  by (rule highlight_select) (auto simp: highlight_ok_def)

lemma highlight_navigate:
  "nav_laws nav \<Longrightarrow> highlight_ok lowercase p \<Longrightarrow> highlight_ok lowercase (picker_navigate lowercase nav key p)"
proof (cases "ex_cwd (nav key (pk_explorer p)) = ex_cwd (pk_explorer p)")
  case True
  assume "nav_laws nav" "highlight_ok lowercase p"
  moreover from this True have "p\<lparr>pk_explorer := nav key (pk_explorer p)\<rparr> = p" by (simp add: nav_laws_def)
  ultimately show ?thesis using True by (simp add: picker_navigate_def)
qed (simp add: picker_navigate_def highlight_first highlight_refresh)

lemma highlight_move: "highlight_ok lowercase p \<Longrightarrow> highlight_ok lowercase (move_cursor delta wrap p)"
proof (cases "pk_matches p = []")
  case False
  assume ok: "highlight_ok lowercase p"
  let ?len = "int (length (pk_matches p))"
  have "nat (if wrap then c mod ?len else max 0 (min c (?len - 1))) < length (pk_matches p)" for c
    using False by (auto simp: nat_less_iff)
  then show ?thesis
    using False highlight_matches [OF ok] highlight_select unfolding move_cursor_def Let_def by simp
qed (simp add: move_cursor_def)

lemma highlight_other:
  "highlight_ok lowercase p \<Longrightarrow> highlight_ok lowercase (toggle_current p)"
  "highlight_ok lowercase p \<Longrightarrow> highlight_ok lowercase (p\<lparr>pk_selected := sel\<rparr>)"
  by (auto simp: highlight_ok_def toggle_current_def matching_def split: option.split)

lemma highlight_key:
  assumes "nav_laws nav" and "highlight_ok lowercase p"
  shows "highlight_ok lowercase (snd (picker_handle_key lowercase nav key p))"
proof -
  have ends: "highlight_ok lowercase (select_match 0 p)"
      "highlight_ok lowercase (select_match (length (pk_matches p) - 1) p)"
    using highlight_matches [OF assms(2)] by (auto intro!: highlight_select)
  show ?thesis
    using assms ends
    by (auto simp: picker_handle_key_def picker_confirm_def Let_def highlight_refresh highlight_navigate
        highlight_move highlight_other split: key_code.split option.split)
qed

section \<open>What is picked\<close>

text \<open>The explorers the picker comes to from the one it was opened with.\<close>

inductive visited :: "(key_event \<Rightarrow> explorer \<Rightarrow> explorer) \<Rightarrow> explorer \<Rightarrow> explorer \<Rightarrow> bool"
  for nav e0 where
  visited_start: "visited nav e0 e0"
| visited_select: "visited nav e0 e \<Longrightarrow> visited nav e0 (e\<lparr>ex_selected := i\<rparr>)"
| visited_nav: "visited nav e0 e \<Longrightarrow> visited nav e0 (nav key e)"

definition file_seen :: "(key_event \<Rightarrow> explorer \<Rightarrow> explorer) \<Rightarrow> explorer \<Rightarrow> string \<Rightarrow> bool" where
  "file_seen nav e0 path \<longleftrightarrow>
     (\<exists>e f. visited nav e0 e \<and> f \<in> set (ex_files e) \<and> ef_path f = path \<and> \<not> ef_is_dir f)"

definition selection_ok :: "(key_event \<Rightarrow> explorer \<Rightarrow> explorer) \<Rightarrow> explorer \<Rightarrow> picker \<Rightarrow> bool" where
  "selection_ok nav e0 p \<longleftrightarrow>
     visited nav e0 (pk_explorer p) \<and> distinct (pk_selected p) \<and> (\<forall>f \<in> set (pk_selected p). file_seen nav e0 f)"

lemma selection_select: "selection_ok nav e0 p \<Longrightarrow> selection_ok nav e0 (select_match c p)"
  by (auto simp: selection_ok_def select_match_def intro: visited_select)

lemma selection_update:
  "selection_ok nav e0 p \<Longrightarrow> selection_ok nav e0 (p\<lparr>pk_query := q\<rparr>)"
  "selection_ok nav e0 p \<Longrightarrow> selection_ok nav e0 (p\<lparr>pk_matches := ms\<rparr>)"
  "selection_ok nav e0 p \<Longrightarrow> selection_ok nav e0 (p\<lparr>pk_explorer := nav key (pk_explorer p)\<rparr>)"
  "selection_ok nav e0 p \<Longrightarrow> selection_ok nav e0 (p\<lparr>pk_selected := []\<rparr>)"
  by (auto simp: selection_ok_def intro: visited_nav)

lemma selection_steps:
  "selection_ok nav e0 p \<Longrightarrow> selection_ok nav e0 (refresh_matches lowercase p)"
  "selection_ok nav e0 p \<Longrightarrow> selection_ok nav e0 (select_first_entry p)"
  "selection_ok nav e0 p \<Longrightarrow> selection_ok nav e0 (move_cursor delta wrap p)"
  by (auto simp: refresh_matches_def select_first_entry_def move_cursor_def Let_def
      intro: selection_select selection_update)

lemma selection_navigate:
  "selection_ok nav e0 p \<Longrightarrow> selection_ok nav e0 (picker_navigate lowercase nav key p)"
  by (auto simp: picker_navigate_def Let_def intro!: selection_steps selection_update)

lemma current_file:
  assumes "highlight_ok lowercase p" and "picker_current p = Some f"
  shows "f \<in> set (ex_files (pk_explorer p))"
proof -
  have "ex_selected (pk_explorer p) \<in> set (pk_matches p)"
    using assms(2) position_Some [of "\<lambda>i. i = ex_selected (pk_explorer p)" "pk_matches p"]
    by (auto simp: picker_current_def picker_cursor_def) (metis nth_mem)
  then have "ex_selected (pk_explorer p) < length (ex_files (pk_explorer p))"
    using highlight_matches [OF assms(1)] by (auto simp: matching_def)
  then show ?thesis using assms(2) by (auto simp: picker_current_def)
qed

lemma current_seen:
  "highlight_ok lowercase p \<Longrightarrow> selection_ok nav e0 p \<Longrightarrow> picker_current p = Some f \<Longrightarrow> \<not> ef_is_dir f \<Longrightarrow>
     file_seen nav e0 (ef_path f)"
  unfolding file_seen_def selection_ok_def by (blast dest: current_file)

lemma selection_toggle:
  assumes "highlight_ok lowercase p" and "selection_ok nav e0 p"
  shows "selection_ok nav e0 (toggle_current p)"
  using assms current_seen [OF assms]
  by (auto simp: toggle_current_def selection_ok_def dest: notin_set_remove1 split: option.split)

lemma selection_key:
  assumes "highlight_ok lowercase p" and "selection_ok nav e0 p"
  shows "selection_ok nav e0 (snd (picker_handle_key lowercase nav key p))"
  using assms
  by (auto simp: picker_handle_key_def picker_confirm_def Let_def selection_navigate selection_toggle
      selection_steps selection_select selection_update split: key_code.split option.split)

lemma picked_files:
  assumes "highlight_ok lowercase p" and "selection_ok nav e0 p"
    and "picker_handle_key lowercase nav key p = (Picked files, p')"
  shows "files \<noteq> [] \<and> distinct files \<and> (\<forall>f \<in> set files. file_seen nav e0 f)"
proof -
  have "picker_confirm lowercase nav key p = (Picked files, p')"
    using assms(3) by (auto simp: picker_handle_key_def split: key_code.splits if_splits)
  then show ?thesis
    using assms(2) current_seen [OF assms(1,2)]
    by (auto simp: picker_confirm_def selection_ok_def Let_def split: option.splits if_splits)
qed

text \<open>The picker until it closes.\<close>

fun picker_run ::
  "(chars \<Rightarrow> chars) \<Rightarrow> (key_event \<Rightarrow> explorer \<Rightarrow> explorer) \<Rightarrow> key_event list \<Rightarrow> picker \<Rightarrow> picker_outcome \<times> picker" where
  "picker_run lowercase nav [] p = (Picker_Open, p)"
| "picker_run lowercase nav (key # keys) p =
     (case picker_handle_key lowercase nav key p of
        (Picker_Open, p) \<Rightarrow> picker_run lowercase nav keys p
      | (outcome, p) \<Rightarrow> (outcome, p))"

lemma all_found_step:
  "all_found (q # query) (n # name) = (if q = n then all_found query name else all_found (q # query) name)"
  by simp

lemma all_found_subseq: "all_found query name \<longleftrightarrow> subseq query name"
proof (induction name arbitrary: query)
  case Nil
  then show ?case by (cases query) auto
next
  case (Cons n name)
  then show ?case by (cases query) (auto simp only: all_found_step all_found.simps(1) subseq_Cons2_iff list_emb_Nil)
qed

text \<open>
  The filter shows exactly the entries whose name contains the characters of the query in order,
  without regard to case.
\<close>

theorem matches_query_exact: "matches_query lowercase query name \<longleftrightarrow> subseq (lowercase query) (lowercase name)"
  by (simp add: matches_query_def all_found_subseq)

text \<open>
  Whatever keys are pressed, the picker never acts on a hidden entry: as long as anything matches
  the query the highlight is on a match, and when it is confirmed it yields at least one file, none of
  them twice, each a file (no directory) of a listing it has shown.
\<close>

theorem picker_safe:
  assumes "nav_laws nav" and "picker_run lowercase nav keys (picker_open lowercase slot e0) = (outcome, p)"
  shows "(highlight_ok lowercase p \<or> outcome \<noteq> Picker_Open) \<and>
    (case outcome of Picked files \<Rightarrow> files \<noteq> [] \<and> distinct files \<and> (\<forall>f \<in> set files. file_seen nav e0 f)
     | _ \<Rightarrow> True)"
proof -
  let ?goal = "\<lambda>outcome p. (highlight_ok lowercase p \<or> outcome \<noteq> Picker_Open) \<and>
    (case outcome of Picked files \<Rightarrow> files \<noteq> [] \<and> distinct files \<and> (\<forall>f \<in> set files. file_seen nav e0 f) | _ \<Rightarrow> True)"
  have run: "highlight_ok lowercase q \<Longrightarrow> selection_ok nav e0 q \<Longrightarrow>
      picker_run lowercase nav keys q = (outcome, p) \<Longrightarrow> ?goal outcome p" for q
  proof (induction keys arbitrary: q)
    case (Cons key keys)
    obtain o' q' where key: "picker_handle_key lowercase nav key q = (o', q')" by fastforce
    then show ?case
      using Cons highlight_key [OF assms(1) Cons.prems(1), of key] selection_key [OF Cons.prems(1,2), of key]
        picked_files [OF Cons.prems(1,2)] by (cases o') auto
  qed auto
  have "selection_ok nav e0 (picker_open lowercase slot e0)"
    unfolding picker_open_def by (intro selection_steps) (simp add: selection_ok_def visited_start)
  moreover have "highlight_ok lowercase (picker_open lowercase slot e0)"
    unfolding picker_open_def by (intro highlight_first highlight_refresh)
  ultimately show ?thesis using run assms(2) by blast
qed

definition example_explorer :: explorer where
  "example_explorer = \<lparr>ex_cwd = ''/dl'', ex_files = [\<lparr>ef_name = [46, 46], ef_path = ''/'', ef_is_dir = True\<rparr>,
     \<lparr>ef_name = [97, 98], ef_path = ''/dl/ab'', ef_is_dir = False\<rparr>,
     \<lparr>ef_name = [98, 99], ef_path = ''/dl/bc'', ef_is_dir = False\<rparr>], ex_selected = 0\<rparr>"

theorem picker_safe_witness:
  "\<exists>p. picker_run id (\<lambda>_ e. e) [\<lparr>ke_code = Key_Char 99, ke_control = False, ke_alt = False\<rparr>,
      \<lparr>ke_code = Key_Enter, ke_control = False, ke_alt = False\<rparr>] (picker_open id 1 example_explorer) =
        (Picked [''/dl/bc''], p) \<and> file_seen (\<lambda>_ e. e) example_explorer ''/dl/bc''"
proof -
  let ?keys = "[\<lparr>ke_code = Key_Char 99, ke_control = False, ke_alt = False\<rparr>,
      \<lparr>ke_code = Key_Enter, ke_control = False, ke_alt = False\<rparr>]"
  obtain p where "picker_run id (\<lambda>_ e. e) ?keys (picker_open id 1 example_explorer) = (Picked [''/dl/bc''], p)"
    by (simp add: picker_open_def example_explorer_def refresh_matches_def select_first_entry_def Let_def
        matching_def matches_query_def select_match_def cursor_or_0_def picker_cursor_def upt_rec
        path_components_def picker_handle_key_def picker_confirm_def picker_current_def)
  moreover have "nav_laws (\<lambda>_ e. e)" by (simp add: nav_laws_def)
  ultimately show ?thesis
    using picker_safe [of "\<lambda>_ e. e" id ?keys 1 example_explorer "Picked [''/dl/bc'']" p] by simp
qed

end
