(* ===== verification/Cli_Ui.thy ===== *)
theory Cli_Ui
  imports Cli_Util
begin

text \<open>
  The log and the status line of the command line client (\<open>cli/src/ui.rs\<close>), and what a terminal shows of them.
  What is written is a list of commands; the colours of the tags are an argument, as is the width of the
  terminal. Flushing the output is left out.
\<close>

section \<open>Commands to the terminal\<close>

datatype category = Discovery | Receive | Send

fun category_tag :: "category \<Rightarrow> string" where
  "category_tag Discovery = ''D''"
| "category_tag Receive = ''R''"
| "category_tag Send = ''S''"

text \<open>A printed log line is complete, a status text is not; text of the status is a list of characters.\<close>

datatype term_op = Print_Line string | Print_Status chars | Move_To_Column_0 | Clear_Current_Line

record ui =
  ui_out :: "term_op list"
  ui_status :: "chars option"
  ui_suspended :: bool
  ui_buffer :: "string list"

definition ui_new :: ui where
  "ui_new = \<lparr>ui_out = [], ui_status = None, ui_suspended = False, ui_buffer = []\<rparr>"

definition queue :: "term_op list \<Rightarrow> ui \<Rightarrow> ui" where
  "queue ops u = u\<lparr>ui_out := ui_out u @ ops\<rparr>"

text \<open>\<open>str::lines\<close>.\<close>

definition drop_cr :: "string \<Rightarrow> string" where
  "drop_cr l = (if l \<noteq> [] \<and> last l = CHR 0x0D then butlast l else l)"

definition text_lines :: "string \<Rightarrow> string list" where
  "text_lines s =
     (let parts = split_on (CHR 0x0A) s
      in map drop_cr (butlast parts) @ (if last parts = [] then [] else [last parts]))"

section \<open>Operations\<close>

definition clear_status_line :: "ui \<Rightarrow> ui" where
  "clear_status_line u =
     (if \<not> ui_suspended u \<and> ui_status u \<noteq> None then queue [Move_To_Column_0, Clear_Current_Line] u else u)"

definition redraw_status :: "nat \<Rightarrow> ui \<Rightarrow> ui" where
  "redraw_status width u =
     (if ui_suspended u then u
      else
        (case ui_status u of
           None \<Rightarrow> u
         | Some s \<Rightarrow> queue [Print_Status (truncate_visible s (width - 1))] u))"

text \<open>The lines of a block as they are printed, without the line break.\<close>

definition block_lines :: "(category \<Rightarrow> string) \<Rightarrow> category option \<Rightarrow> string \<Rightarrow> string list" where
  "block_lines colored_tag c t =
     map (\<lambda>(i, line).
         case c of
           Some c \<Rightarrow> if i = 0 then colored_tag c @ '' '' @ line else ''  '' @ line
         | None \<Rightarrow> line)
       (enumerate 0 (text_lines t))"

definition print_lines :: "string list \<Rightarrow> ui \<Rightarrow> ui" where
  "print_lines ls u =
     (if ui_suspended u then u\<lparr>ui_buffer := ui_buffer u @ ls\<rparr> else queue (map Print_Line ls) u)"

definition print_block :: "(category \<Rightarrow> string) \<Rightarrow> nat \<Rightarrow> category option \<Rightarrow> string \<Rightarrow> ui \<Rightarrow> ui" where
  "print_block colored_tag width c t u =
     redraw_status width (print_lines (block_lines colored_tag c t) (clear_status_line u))"

definition ui_suspend :: "ui \<Rightarrow> ui" where
  "ui_suspend u = u\<lparr>ui_suspended := True\<rparr>"

definition ui_resume :: "nat \<Rightarrow> ui \<Rightarrow> ui" where
  "ui_resume width u =
     (let u = u\<lparr>ui_suspended := False\<rparr>
      in redraw_status width (queue (map Print_Line (ui_buffer u)) (u\<lparr>ui_buffer := []\<rparr>)))"

definition set_status :: "nat \<Rightarrow> chars option \<Rightarrow> ui \<Rightarrow> ui" where
  "set_status width status u =
     (if status = ui_status u then u
      else redraw_status width ((clear_status_line u)\<lparr>ui_status := status\<rparr>))"

datatype ui_op = Log "category option" string | Suspend | Resume | Status "chars option"

fun ui_step :: "(category \<Rightarrow> string) \<Rightarrow> nat \<Rightarrow> ui_op \<Rightarrow> ui \<Rightarrow> ui" where
  "ui_step colored_tag width (Log c t) u = print_block colored_tag width c t u"
| "ui_step colored_tag width Suspend u = ui_suspend u"
| "ui_step colored_tag width Resume u = ui_resume width u"
| "ui_step colored_tag width (Status s) u = set_status width s u"

text \<open>Each operation comes with the width the terminal has then.\<close>

definition ui_run :: "(category \<Rightarrow> string) \<Rightarrow> (nat \<times> ui_op) list \<Rightarrow> ui" where
  "ui_run colored_tag ops = fold (\<lambda>(width, op). ui_step colored_tag width op) ops ui_new"

section \<open>What the terminal shows\<close>

text \<open>
  The finished lines, and the line the cursor is on. While the picker is open it has the alternate screen, after
  which the cursor is where it was.
\<close>

datatype shown = Log_Text string | Status_Text chars

record screen =
  sc_lines :: "shown list list"
  sc_current :: "shown list"

fun show_op :: "term_op \<Rightarrow> screen \<Rightarrow> screen" where
  "show_op (Print_Line l) s = \<lparr>sc_lines = sc_lines s @ [sc_current s @ [Log_Text l]], sc_current = []\<rparr>"
| "show_op (Print_Status t) s = s\<lparr>sc_current := sc_current s @ [Status_Text t]\<rparr>"
| "show_op Move_To_Column_0 s = s"
| "show_op Clear_Current_Line s = s\<lparr>sc_current := []\<rparr>"

definition screen_of :: "ui \<Rightarrow> screen" where
  "screen_of u = fold show_op (ui_out u) \<lparr>sc_lines = [], sc_current = []\<rparr>"

fun logged :: "(category \<Rightarrow> string) \<Rightarrow> ui_op \<Rightarrow> string list" where
  "logged colored_tag (Log c t) = block_lines colored_tag c t"
| "logged colored_tag _ = []"

text \<open>The picker is opened only when no status is shown, and closed before a status is.\<close>

fun calm :: "bool \<Rightarrow> bool \<Rightarrow> (nat \<times> ui_op) list \<Rightarrow> bool" where
  "calm suspended status [] = True"
| "calm suspended status ((_, Log _ _) # ops) = calm suspended status ops"
| "calm suspended status ((_, Suspend) # ops) \<longleftrightarrow> \<not> suspended \<and> \<not> status \<and> calm True False ops"
| "calm suspended status ((_, Resume) # ops) \<longleftrightarrow> suspended \<and> calm False status ops"
| "calm suspended status ((_, Status s) # ops) = calm suspended (s \<noteq> None) ops"

definition screen_ok :: "string list \<Rightarrow> ui \<Rightarrow> bool" where
  "screen_ok ls u \<longleftrightarrow>
     map (\<lambda>l. [Log_Text l]) ls = sc_lines (screen_of u) @ map (\<lambda>l. [Log_Text l]) (ui_buffer u) \<and>
     (\<not> ui_suspended u \<longrightarrow> ui_buffer u = []) \<and>
     (if ui_suspended u \<or> ui_status u = None then sc_current (screen_of u) = []
      else \<exists>width. sc_current (screen_of u) = [Status_Text (truncate_visible (the (ui_status u)) (width - 1))])"

lemma screen_of_queue: "screen_of (queue ops u) = fold show_op ops (screen_of u)"
  by (simp add: screen_of_def queue_def)

lemma show_lines:
  "sc_current s = [] \<Longrightarrow> fold show_op (map Print_Line ls) s =
     \<lparr>sc_lines = sc_lines s @ map (\<lambda>l. [Log_Text l]) ls, sc_current = []\<rparr>"
  by (induction ls arbitrary: s) auto

lemma queue_fields [simp]:
  "ui_status (queue ops u) = ui_status u" "ui_suspended (queue ops u) = ui_suspended u"
  "ui_buffer (queue ops u) = ui_buffer u"
  by (simp_all add: queue_def)

lemma screen_of_update [simp]:
  "screen_of (u\<lparr>ui_status := st\<rparr>) = screen_of u" "screen_of (u\<lparr>ui_suspended := b\<rparr>) = screen_of u"
  "screen_of (u\<lparr>ui_buffer := ls\<rparr>) = screen_of u"
  by (simp_all add: screen_of_def)

lemma clear_status_screen:
  "screen_ok ls u \<Longrightarrow> screen_of (clear_status_line u) = (screen_of u)\<lparr>sc_current := []\<rparr>"
  by (auto simp: screen_ok_def clear_status_line_def screen_of_queue)

lemma clear_status_fields [simp]:
  "ui_status (clear_status_line u) = ui_status u" "ui_suspended (clear_status_line u) = ui_suspended u"
  "ui_buffer (clear_status_line u) = ui_buffer u"
  by (simp_all add: clear_status_line_def)

lemma redraw_status_fields [simp]:
  "ui_status (redraw_status width u) = ui_status u" "ui_suspended (redraw_status width u) = ui_suspended u"
  "ui_buffer (redraw_status width u) = ui_buffer u"
  by (simp_all add: redraw_status_def split: option.split)

lemma redraw_status_screen:
  "screen_of (redraw_status width u) =
     (if ui_suspended u \<or> ui_status u = None then screen_of u
      else (screen_of u)\<lparr>sc_current := sc_current (screen_of u) @
        [Status_Text (truncate_visible (the (ui_status u)) (width - 1))]\<rparr>)"
  by (auto simp: redraw_status_def screen_of_queue split: option.split)

text \<open>Lines printed and then the status drawn, from an empty line.\<close>

lemma redraw_ok:
  assumes "sc_current (screen_of u) = []" and "\<not> ui_suspended u \<longrightarrow> ui_buffer u = []"
    and "map (\<lambda>l. [Log_Text l]) ls = sc_lines (screen_of u) @ map (\<lambda>l. [Log_Text l]) (ui_buffer u)"
  shows "screen_ok ls (redraw_status width u)"
  using assms by (auto simp: screen_ok_def redraw_status_screen)

lemma print_lines_fields [simp]:
  "ui_status (print_lines ls u) = ui_status u" "ui_suspended (print_lines ls u) = ui_suspended u"
  by (simp_all add: print_lines_def)

lemma print_lines_screen:
  "sc_current (screen_of u) = [] \<Longrightarrow>
   screen_of (print_lines ns u) =
     (if ui_suspended u then screen_of u
      else \<lparr>sc_lines = sc_lines (screen_of u) @ map (\<lambda>l. [Log_Text l]) ns, sc_current = []\<rparr>)"
  by (simp add: print_lines_def screen_of_queue show_lines)

lemma print_block_ok:
  assumes "screen_ok ls u"
  shows "screen_ok (ls @ block_lines tag c t) (print_block tag width c t u)"
proof -
  define v where "v = clear_status_line u"
  have v: "sc_current (screen_of v) = []" "sc_lines (screen_of v) = sc_lines (screen_of u)"
    and fields: "ui_suspended v = ui_suspended u" "ui_buffer v = ui_buffer u"
    using clear_status_screen [OF assms] by (simp_all add: v_def)
  show ?thesis unfolding print_block_def v_def [symmetric]
  proof (rule redraw_ok)
    show "sc_current (screen_of (print_lines (block_lines tag c t) v)) = []"
      using v by (simp add: print_lines_screen)
    show "\<not> ui_suspended (print_lines (block_lines tag c t) v) \<longrightarrow>
        ui_buffer (print_lines (block_lines tag c t) v) = []"
      using assms fields by (simp add: print_lines_def screen_ok_def)
    show "map (\<lambda>l. [Log_Text l]) (ls @ block_lines tag c t) =
        sc_lines (screen_of (print_lines (block_lines tag c t) v)) @
        map (\<lambda>l. [Log_Text l]) (ui_buffer (print_lines (block_lines tag c t) v))"
      using assms v fields
      by (cases "ui_suspended u") (simp_all add: print_lines_screen, simp_all add: print_lines_def screen_ok_def)
  qed
qed

lemma resume_ok:
  assumes "screen_ok ls u" and "ui_suspended u"
  shows "screen_ok ls (ui_resume width u)"
proof -
  let ?v = "u\<lparr>ui_suspended := False, ui_buffer := []\<rparr>"
  have "sc_current (screen_of u) = []" using assms by (simp add: screen_ok_def)
  from show_lines [OF this, of "ui_buffer u"]
  have screen: "screen_of (queue (map Print_Line (ui_buffer u)) ?v) =
      \<lparr>sc_lines = sc_lines (screen_of u) @ map (\<lambda>l. [Log_Text l]) (ui_buffer u), sc_current = []\<rparr>"
    by (simp add: screen_of_queue)
  have "screen_ok ls (redraw_status width (queue (map Print_Line (ui_buffer u)) ?v))"
    by (rule redraw_ok) (use assms in \<open>simp_all add: screen screen_ok_def\<close>)
  then show ?thesis by (simp add: ui_resume_def)
qed

lemma set_status_ok:
  assumes "screen_ok ls u"
  shows "screen_ok ls (set_status width st u)"
proof -
  have "screen_of (clear_status_line u) = (screen_of u)\<lparr>sc_current := []\<rparr>"
    by (rule clear_status_screen [OF assms])
  then have "screen_ok ls (redraw_status width ((clear_status_line u)\<lparr>ui_status := st\<rparr>))"
    by (intro redraw_ok) (use assms in \<open>simp_all add: screen_ok_def\<close>)
  then show ?thesis using assms by (simp add: set_status_def)
qed

lemma suspend_ok: "screen_ok ls u \<Longrightarrow> ui_status u = None \<Longrightarrow> screen_ok ls (ui_suspend u)"
  by (simp add: screen_ok_def ui_suspend_def)

lemma op_fields [simp]:
  "ui_suspended (print_block tag width c t u) = ui_suspended u"
  "ui_status (print_block tag width c t u) = ui_status u"
  "ui_suspended (ui_suspend u)" "ui_status (ui_suspend u) = ui_status u"
  "\<not> ui_suspended (ui_resume width u)" "ui_status (ui_resume width u) = ui_status u"
  "ui_suspended (set_status width st u) = ui_suspended u" "ui_status (set_status width st u) = st"
  by (simp_all add: print_block_def ui_suspend_def ui_resume_def Let_def set_status_def)

lemma calm_run:
  assumes "screen_ok ls u" and "calm (ui_suspended u) (ui_status u \<noteq> None) ops"
  shows "screen_ok (ls @ concat (map (logged tag \<circ> snd) ops)) (fold (\<lambda>(width, op). ui_step tag width op) ops u)"
  using assms
proof (induction ops arbitrary: ls u)
  case (Cons x ops)
  obtain width op where x: "x = (width, op)" by (cases x)
  let ?u = "ui_step tag width op u"
  have "screen_ok (ls @ logged tag op) ?u"
    using Cons.prems by (cases op) (auto simp: x print_block_ok resume_ok set_status_ok suspend_ok)
  moreover have "calm (ui_suspended ?u) (ui_status ?u \<noteq> None) ops"
    using Cons.prems(2) by (cases op) (auto simp: x)
  ultimately show ?case using Cons.IH [of "ls @ logged tag op" ?u] by (simp add: x)
qed simp

text \<open>
  If the picker is only opened while no status is shown, the terminal shows every logged line once, whole and in
  order, below them the current status cut to the width, and nothing else; lines logged while the picker was
  open appear when it is closed.
\<close>

theorem screen_shows_log:
  assumes "calm False False ops" and "\<not> ui_suspended (ui_run tag ops)"
  shows "sc_lines (screen_of (ui_run tag ops)) = map (\<lambda>l. [Log_Text l]) (concat (map (logged tag \<circ> snd) ops)) \<and>
    (case ui_status (ui_run tag ops) of
       None \<Rightarrow> sc_current (screen_of (ui_run tag ops)) = []
     | Some s \<Rightarrow> \<exists>width. sc_current (screen_of (ui_run tag ops)) = [Status_Text (truncate_visible s (width - 1))])"
proof -
  have "screen_ok [] ui_new" by (simp add: screen_ok_def screen_of_def ui_new_def)
  from calm_run [OF this, of ops tag] assms show ?thesis
    by (auto simp: screen_ok_def ui_run_def ui_new_def split: option.split)
qed

theorem screen_shows_log_witness:
  "sc_lines (screen_of (ui_run category_tag [(80, Log (Some Send) ''a''), (80, Suspend), (80, Log (Some Receive) ''b''),
     (80, Status (Some [99])), (80, Resume)])) = [[Log_Text ''S a''], [Log_Text ''R b'']]"
proof -
  let ?ops = "[(80, Log (Some Send) ''a''), (80, Suspend), (80, Log (Some Receive) ''b''), (80, Status (Some [99])),
     (80, Resume)]"
  have "\<not> ui_suspended (ui_run category_tag ?ops)" by (simp add: ui_run_def)
  from screen_shows_log [OF _ this] show ?thesis
    by (simp add: block_lines_def text_lines_def)
qed

text \<open>
  The picker opened while a transfer is received: its status is still on the line when the log is resumed, so the first
  line logged meanwhile, or the next status, is written behind it.
\<close>

lemma resume_writes_behind_status:
  "sc_lines (screen_of (ui_run category_tag [(80, Status (Some [99])), (80, Suspend), (80, Log (Some Receive) ''b''),
     (80, Status None), (80, Resume)])) = [[Status_Text [99], Log_Text ''R b'']] \<and>
   sc_current (screen_of (ui_run category_tag [(80, Status (Some [99])), (80, Suspend), (80, Status (Some [100])),
     (80, Resume)])) = [Status_Text [99], Status_Text [100]]"
  by code_simp

end
