(* ===== verification/Cli_App.thy ===== *)
theory Cli_App
  imports Cli_Send Cli_Picker Cli_Ui Upload_Server
begin

text \<open>
  The command line client (\<open>cli/src/app/\<close>): one loop handles keys, events of the server, announcements
  and reports of its own tasks, one after the other, on one state. \<open>app_step\<close> is the handling of one
  input; it gives the new state, what the client does to others (\<open>app_action\<close>) and whether it quits.
  The status line is in \<open>Cli_Status\<close>; the log is kept as text.
\<close>

section \<open>State\<close>

record sender_target =
  sd_host :: string
  sd_port :: u16
  sd_protocol :: protocol_type_v2
  sd_fingerprint :: string

record pending_receive =
  pe_session_id :: string
  pe_alias :: string
  pe_sender :: sender_target
  pe_files :: "(string, file_dto) hmap"

record receive_session =
  rs_session_id :: string
  rs_alias :: string
  rs_sender :: sender_target
  rs_files :: "(string, file_dto) hmap"
  rs_total_bytes :: u64
  rs_finished_files :: nat
  rs_failed_files :: nat
  rs_finalized_bytes :: u64
  rs_in_progress :: "(string, u64) hmap"
  rs_ended :: "session_end_reason option"

definition receive_session_new ::
  "string \<Rightarrow> string \<Rightarrow> sender_target \<Rightarrow> (string, file_dto) hmap \<Rightarrow> receive_session" where
  "receive_session_new session_id alias sender files =
     \<lparr>rs_session_id = session_id, rs_alias = alias, rs_sender = sender, rs_files = files,
      rs_total_bytes = sum_list (map (fd_size \<circ> snd) files), rs_finished_files = 0, rs_failed_files = 0,
      rs_finalized_bytes = 0, rs_in_progress = [], rs_ended = None\<rparr>"

definition done_bytes :: "receive_session \<Rightarrow> u64" where
  "done_bytes s = rs_finalized_bytes s + sum_list (map snd (rs_in_progress s))"

text \<open>\<open>sn_cancelled\<close> and \<open>sn_by_peer\<close> are the flags of \<open>SendCancel\<close>, shared with the sending task.\<close>

record send_state =
  sn_session_id :: "string option"
  sn_alias :: string
  sn_host :: string
  sn_total_bytes :: u64
  sn_cancelled :: bool
  sn_by_peer :: bool

record app =
  ap_registry :: registry
  ap_storage :: repository
  ap_fs :: fs
  ap_pending :: "pending_receive option"
  ap_receive :: "receive_session option"
  ap_send :: "send_state option"
  ap_picker :: "picker option"
  ap_log :: "(category \<times> string) list"

text \<open>
  What the client does to others. A decision or a target goes to the waiting request; a request whose
  channel is dropped is not answered. \<open>No_Return\<close> is the search for a
  free path that panics or does not end: it takes the loop with it.
\<close>

datatype app_action =
    Decide string prepare_upload_decision
  | Drop_Decision string
  | Give_Target string string string
  | Drop_Target string string
  | Cancel_Session sender_target string
  | Register_With discovered string
  | Spawn_Send device "(string, file_dto) hmap" "(string, string) hmap"
  | No_Return

datatype app_input =
    In_Key key_event
  | In_Device_Up string string u16 protocol_type_v2 string
  | In_File_Result string string "string + unit"
  | In_Session_Started string u64
  | In_Send_Ended
  | In_Log category string
  | In_Server server_event
  | In_Multicast discovered
  | In_Progress string string u64

text \<open>
  What the client finds around it: whether the request of a session still waits, whether the build checks
  for overflow, which paths exist, what
  the user's files are, the explorer, the random ids of the files picked at once, parsers, texts.
\<close>

record app_env =
  ae_waiting :: "string \<Rightarrow> bool"
  ae_overflow_checks :: bool
  ae_exists :: "string \<Rightarrow> bool"
  ae_metadata :: "string \<Rightarrow> u64 option"
  ae_uuid :: "nat \<Rightarrow> string"
  ae_mime :: "string \<Rightarrow> string"
  ae_explorer :: "string + explorer"
  ae_nav :: "key_event \<Rightarrow> explorer \<Rightarrow> explorer"
  ae_lowercase :: "chars \<Rightarrow> chars"
  ae_store :: store_lib
  ae_show_bytes :: "u64 \<Rightarrow> string"
  ae_show_store_error :: "store_error \<Rightarrow> string"
  ae_elapsed :: u64

definition log_line :: "category \<Rightarrow> string \<Rightarrow> app \<Rightarrow> app" where
  "log_line c t a = a\<lparr>ap_log := ap_log a @ [(c, t)]\<rparr>"

section \<open>Discovery\<close>

definition device_up ::
  "string \<Rightarrow> string \<Rightarrow> u16 \<Rightarrow> protocol_type_v2 \<Rightarrow> string \<Rightarrow> app \<Rightarrow> app" where
  "device_up alias host port protocol fingerprint a =
     (if fingerprint = in_fingerprint (re_identity (ap_storage a)) then a
      else
        (let (new, devices) = upsert alias host port protocol fingerprint (ap_registry a);
             a = a\<lparr>ap_registry := devices\<rparr>
         in case new of
              None \<Rightarrow> a
            | Some d \<Rightarrow>
                log_line Discovery (''['' @ slot_label d @ ''] '' @ dev_alias d @ '' ('' @ dev_host d @ '')'') a))"

definition handle_multicast :: "discovered \<Rightarrow> app \<Rightarrow> app \<times> app_action list" where
  "handle_multicast e a =
     (if mm_fingerprint (dv_message e) = in_fingerprint (re_identity (ap_storage a)) then (a, [])
      else
        (a, [Register_With e
               (case dv_scope_id e of
                  Some scope \<Rightarrow> ip_to_string (dv_ip e) @ ''%'' @ nat_str 10 (unat scope)
                | None \<Rightarrow> ip_to_string (dv_ip e))]))"

text \<open>The task that answers an announcement, and what it reports.\<close>

definition answer_announcement ::
  "('b, 'pk, 'w) send_env \<Rightarrow> identity \<Rightarrow> discovered \<Rightarrow> string \<Rightarrow> 'w \<Rightarrow> app_input option \<times> 'w" where
  "answer_announcement env identity e host w =
     (let m = dv_message e; fingerprint = pinned_fingerprint (mm_protocol m) (mm_fingerprint m)
      in if se_make env fingerprint \<noteq> None then (None, w)
         else
           (case client_register_v2 (se_certs env) (se_bodies env) (se_network env fingerprint)
                   (to_protocol_type (mm_protocol m)) host (mm_port m) (identity_register_dto identity) w of
              (Inl _, w) \<Rightarrow> (None, w)
            | (Inr (_, body), w) \<Rightarrow>
                (Some (In_Device_Up (id_alias body) host (mm_port m) (mm_protocol m) (mm_fingerprint m)), w)))"

section \<open>Receiving\<close>

definition request_lines :: "app_env \<Rightarrow> string \<Rightarrow> (string, file_dto) hmap \<Rightarrow> string" where
  "request_lines env alias files =
     join [CHR 0x0A]
       ([alias, CHR 0x0A # ''Files:''] @
        map (\<lambda>f. ''  '' @ fd_file_name f @ '' ('' @ ae_show_bytes env (fd_size f) @ '')'')
          (sort_key fd_file_name (map snd files)) @
        [''Total size: '' @ ae_show_bytes env (sum_list (map (fd_size \<circ> snd) files)),
         CHR 0x0A # ''Accept? Y/N/P (P = accept and pair)''])"

definition on_prepare_upload ::
  "app_env \<Rightarrow> string \<Rightarrow> peer_ip \<Rightarrow> register_dto_v2 \<Rightarrow> string option \<Rightarrow> (string, file_dto) hmap \<Rightarrow> app
     \<Rightarrow> app \<times> app_action list" where
  "on_prepare_upload env session_id ip info cert_fp files a =
     (let a = device_up (rd_alias info) (peer_to_string ip) (rd_port info) (rd_protocol info) (rd_fingerprint info) a;
          sender = \<lparr>sd_host = peer_to_string ip, sd_port = rd_port info, sd_protocol = rd_protocol info,
            sd_fingerprint = (case cert_fp of Some f \<Rightarrow> f | None \<Rightarrow> rd_fingerprint info)\<rparr>
      in if paired_contains (sd_fingerprint sender) (re_paired (ap_storage a))
         then
           (if ae_waiting env session_id
            then (a\<lparr>ap_receive := Some (receive_session_new session_id (rd_alias info) sender files)\<rparr>,
                  [Decide session_id (Accept (map fst files))])
            else (a, []))
         else
           ((log_line Receive (request_lines env (rd_alias info) files) a)
              \<lparr>ap_pending := Some \<lparr>pe_session_id = session_id, pe_alias = rd_alias info, pe_sender = sender,
                 pe_files = files\<rparr>\<rparr>,
            (case ap_pending a of Some p \<Rightarrow> [Drop_Decision (pe_session_id p)] | None \<Rightarrow> [])))"

definition my_session :: "string \<Rightarrow> app \<Rightarrow> receive_session option" where
  "my_session session_id a =
     (case ap_receive a of
        Some s \<Rightarrow> if rs_session_id s = session_id then Some s else None
      | None \<Rightarrow> None)"

definition handle_file_upload ::
  "app_env \<Rightarrow> string \<Rightarrow> string \<Rightarrow> file_dto \<Rightarrow> app \<Rightarrow> app \<times> app_action list" where
  "handle_file_upload env session_id file_id file a =
     (case my_session session_id a of
        None \<Rightarrow> (a, [Drop_Target session_id file_id])
      | Some s \<Rightarrow>
          (case unique_path (ae_overflow_checks env) (ae_exists env) (re_destination (ap_storage a)) (fd_file_name file) of
             Some (Done path) \<Rightarrow>
               (a\<lparr>ap_receive := Some (s\<lparr>rs_in_progress := hm_put file_id 0 (rs_in_progress s)\<rparr>)\<rparr>,
                [Give_Target session_id file_id path])
           | _ \<Rightarrow> (a, [No_Return])))"

definition session_summary :: "app_env \<Rightarrow> receive_session \<Rightarrow> session_end_reason \<Rightarrow> string" where
  "session_summary env s reason =
     (case reason of
        End_Finished \<Rightarrow>
          rs_alias s @ '': Received '' @ nat_str 10 (rs_finished_files s) @ '' file'' @
          (if rs_finished_files s = 1 then [] else ''s'') @ '' ('' @ ae_show_bytes env (rs_finalized_bytes s) @
          '', took '' @ format_duration (ae_elapsed env) @ '')'' @
          (if rs_failed_files s > 0 then '', '' @ nat_str 10 (rs_failed_files s) @ '' failed'' else [])
      | End_Cancelled \<Rightarrow>
          rs_alias s @ '': cancelled by sender ('' @ nat_str 10 (rs_finished_files s) @ '' of '' @
          nat_str 10 (length (rs_files s)) @ '' files received)'')"

definition finish_receive_if_done :: "app_env \<Rightarrow> app \<Rightarrow> app" where
  "finish_receive_if_done env a =
     (case ap_receive a of
        None \<Rightarrow> a
      | Some s \<Rightarrow>
          (case rs_ended s of
             None \<Rightarrow> a
           | Some reason \<Rightarrow>
               if rs_in_progress s \<noteq> [] then a
               else log_line Receive (session_summary env s reason) (a\<lparr>ap_receive := None\<rparr>)))"

definition receive_file_result ::
  "app_env \<Rightarrow> string \<Rightarrow> string \<Rightarrow> string + unit \<Rightarrow> app \<Rightarrow> app" where
  "receive_file_result env session_id file_id result a =
     (case my_session session_id a of
        None \<Rightarrow> a
      | Some s \<Rightarrow>
          (let s = s\<lparr>rs_in_progress := hm_del file_id (rs_in_progress s)\<rparr>
           in finish_receive_if_done env
                (case result of
                   Inr _ \<Rightarrow>
                     a\<lparr>ap_receive := Some (s\<lparr>rs_finished_files := Suc (rs_finished_files s),
                        rs_finalized_bytes := rs_finalized_bytes s +
                          (case hm_get (rs_files s) file_id of Some f \<Rightarrow> fd_size f | None \<Rightarrow> 0)\<rparr>)\<rparr>
                 | Inl err \<Rightarrow>
                     log_line Receive (rs_alias s @ '': failed to receive '' @
                         (case hm_get (rs_files s) file_id of Some f \<Rightarrow> fd_file_name f | None \<Rightarrow> file_id) @ '': '' @ err)
                       (a\<lparr>ap_receive := Some (s\<lparr>rs_failed_files := Suc (rs_failed_files s)\<rparr>)\<rparr>))))"

definition cancel_receive :: "app \<Rightarrow> app \<times> app_action list" where
  "cancel_receive a =
     (case ap_receive a of
        None \<Rightarrow> (a, [])
      | Some s \<Rightarrow>
          (log_line Receive (rs_alias s @ '': cancelled ('' @ nat_str 10 (rs_finished_files s) @ '' of '' @
               nat_str 10 (length (rs_files s)) @ '' files received)'') (a\<lparr>ap_receive := None\<rparr>),
           [Cancel_Session (rs_sender s) (rs_session_id s)]))"

text \<open>The task of \<open>Cancel_Session\<close>, on the server's upload state and the network.\<close>

definition run_cancel_session ::
  "('b, 'pk, 'w) send_env \<Rightarrow> sender_target \<Rightarrow> string \<Rightarrow> ('c, 'z) v2_state_scheme \<Rightarrow> 'w
     \<Rightarrow> ('c, 'z) v2_state_scheme \<times> 'w" where
  "run_cancel_session env sender session_id s w =
     (let s = snd (cancel_v2_session session_id s);
          fingerprint = pinned_fingerprint (sd_protocol sender) (sd_fingerprint sender)
      in if se_make env fingerprint \<noteq> None then (s, w)
         else (s, snd (client_cancel_v2 (se_network env fingerprint) (to_protocol_type (sd_protocol sender))
                 (sd_host sender) (sd_port sender) session_id w)))"

datatype answer = Answer_Accept | Answer_Decline | Answer_Accept_And_Pair

definition pair_sender :: "app_env \<Rightarrow> pending_receive \<Rightarrow> app \<Rightarrow> app" where
  "pair_sender env p a =
     (let (r, paired, fs) =
        paired_insert (ae_store env) (sd_fingerprint (pe_sender p)) (pe_alias p) (re_paired (ap_storage a)) (ap_fs a)
      in log_line Receive
           (case r of
              Inr _ \<Rightarrow> pe_alias p @ '': Paired. Future requests are auto-accepted.''
            | Inl e \<Rightarrow> pe_alias p @ '': Paired for this run, but saving failed: '' @ ae_show_store_error env e)
           (a\<lparr>ap_storage := (ap_storage a)\<lparr>re_paired := paired\<rparr>, ap_fs := fs\<rparr>))"

definition answer_pending :: "app_env \<Rightarrow> answer \<Rightarrow> app \<Rightarrow> app \<times> app_action list" where
  "answer_pending env answer a =
     (case ap_pending a of
        None \<Rightarrow> (a, [])
      | Some p \<Rightarrow>
          (let a = a\<lparr>ap_pending := None\<rparr>
           in case answer of
                Answer_Decline \<Rightarrow>
                  (log_line Receive (pe_alias p @ '': Declined'') a, [Decide (pe_session_id p) Decline])
              | _ \<Rightarrow>
                  (let a = log_line Receive (pe_alias p @ '': Accepted'') a;
                       a = (if answer = Answer_Accept_And_Pair then pair_sender env p a else a)
                   in if ae_waiting env (pe_session_id p)
                      then (a\<lparr>ap_receive := Some (receive_session_new (pe_session_id p) (pe_alias p)
                               (pe_sender p) (pe_files p))\<rparr>,
                            [Decide (pe_session_id p) (Accept (map fst (pe_files p)))])
                      else (log_line Receive (pe_alias p @ '': request already ended'') a, []))))"

definition handle_server_event :: "app_env \<Rightarrow> server_event \<Rightarrow> app \<Rightarrow> app \<times> app_action list" where
  "handle_server_event env event a =
     (case event of
        Ev_Register ip info \<Rightarrow>
          (device_up (rd_alias info) (peer_to_string ip) (rd_port info) (rd_protocol info) (rd_fingerprint info) a, [])
      | Ev_Prepare_Upload session_id ip info cert_fp files \<Rightarrow>
          on_prepare_upload env session_id ip info cert_fp files a
      | Ev_File_Upload session_id file_id file \<Rightarrow> handle_file_upload env session_id file_id file a
      | Ev_Session_End session_id reason \<Rightarrow>
          (case my_session session_id a of
             None \<Rightarrow> (a, [])
           | Some s \<Rightarrow>
               (finish_receive_if_done env (a\<lparr>ap_receive := Some (s\<lparr>rs_ended := Some reason\<rparr>)\<rparr>), []))
      | Ev_Prepare_Upload_Aborted session_id \<Rightarrow>
          (case ap_pending a of
             Some p \<Rightarrow>
               if pe_session_id p = session_id
               then (log_line Receive (pe_alias p @ '': Aborted by sender'') (a\<lparr>ap_pending := None\<rparr>), [])
               else (a, [])
           | None \<Rightarrow> (a, []))
      | Ev_Cancel_Received ip session_id \<Rightarrow>
          (case ap_send a of
             Some s \<Rightarrow>
               if sn_session_id s = Some session_id \<and> sn_host s = peer_to_string ip
               then (a\<lparr>ap_send := Some (s\<lparr>sn_by_peer := True, sn_cancelled := True\<rparr>)\<rparr>, [])
               else (a, [])
           | None \<Rightarrow> (a, [])))"

section \<open>Sending\<close>

definition start_picking :: "app_env \<Rightarrow> u8 \<Rightarrow> app \<Rightarrow> app" where
  "start_picking env slot a =
     (case by_slot slot (ap_registry a) of
        None \<Rightarrow> log_line Send (''No device on ['' @ nat_str 10 (unat slot) @ '']'') a
      | Some device \<Rightarrow>
          if ap_send a \<noteq> None then log_line Send ''A send is already in progress'' a
          else
            (case ae_explorer env of
               Inr e \<Rightarrow> a\<lparr>ap_picker := Some (picker_open (ae_lowercase env) slot e)\<rparr>
             | Inl err \<Rightarrow>
                 log_line Send (dev_alias device @ '': could not open the file picker: '' @ err) a))"

text \<open>The files that can be read, each under a new id, and the lines about the others.\<close>

record offer =
  of_files :: "(string, file_dto) hmap"
  of_paths :: "(string, string) hmap"
  of_total :: u64
  of_skipped :: "string list"

fun picked_offer :: "app_env \<Rightarrow> nat \<Rightarrow> string list \<Rightarrow> offer \<Rightarrow> offer" where
  "picked_offer env k [] f = f"
| "picked_offer env k (path # picked) f =
     picked_offer env (Suc k) picked
       (case ae_metadata env path of
          None \<Rightarrow> f\<lparr>of_skipped := of_skipped f @ [''Skipping unreadable file: '' @ path]\<rparr>
        | Some sz \<Rightarrow>
            (let id = ae_uuid env k;
                 file = \<lparr>fd_id = id,
                   fd_file_name = (case path_file_name path of Some n \<Rightarrow> n | None \<Rightarrow> ''unnamed''),
                   fd_size = sz, fd_file_type = ae_mime env path, fd_sha256 = None, fd_preview = None,
                   fd_metadata = None\<rparr>
             in f\<lparr>of_files := hm_put id file (of_files f), of_paths := hm_put id path (of_paths f),
                  of_total := of_total f + sz\<rparr>))"

definition start_send :: "app_env \<Rightarrow> u8 \<Rightarrow> string list \<Rightarrow> app \<Rightarrow> app \<times> app_action list" where
  "start_send env slot picked a =
     (case by_slot slot (ap_registry a) of
        None \<Rightarrow> (a, [])
      | Some device \<Rightarrow>
          (let f = picked_offer env 0 picked \<lparr>of_files = [], of_paths = [], of_total = 0, of_skipped = []\<rparr>;
               a = a\<lparr>ap_log := ap_log a @ map (Pair Send) (of_skipped f)\<rparr>
           in if of_files f = [] then (log_line Send ''No files selected'' a, [])
              else (a\<lparr>ap_send := Some \<lparr>sn_session_id = None, sn_alias = dev_alias device, sn_host = dev_host device,
                        sn_total_bytes = of_total f, sn_cancelled = False, sn_by_peer = False\<rparr>\<rparr>,
                    [Spawn_Send device (of_files f) (of_paths f)])))"

definition handle_picker_key :: "app_env \<Rightarrow> key_event \<Rightarrow> app \<Rightarrow> app \<times> app_action list" where
  "handle_picker_key env key a =
     (case ap_picker a of
        None \<Rightarrow> (a, [])
      | Some p \<Rightarrow>
          (case picker_handle_key (ae_lowercase env) (ae_nav env) key p of
             (Picker_Open, p) \<Rightarrow> (a\<lparr>ap_picker := Some p\<rparr>, [])
           | (Picked files, _) \<Rightarrow> start_send env (pk_slot p) files (a\<lparr>ap_picker := None\<rparr>)
           | (Picker_Cancelled, _) \<Rightarrow> (a\<lparr>ap_picker := None\<rparr>, [])))"

section \<open>Keys and the loop\<close>

definition handle_ctrl_c :: "app_env \<Rightarrow> app \<Rightarrow> app \<times> app_action list \<times> bool" where
  "handle_ctrl_c env a =
     (if ap_picker a \<noteq> None then (a\<lparr>ap_picker := None\<rparr>, [], False)
      else
        (let (a1, acts1) = (if ap_pending a \<noteq> None then answer_pending env Answer_Decline a else (a, []));
             a2 = (case ap_send a1 of Some s \<Rightarrow> a1\<lparr>ap_send := Some (s\<lparr>sn_cancelled := True\<rparr>)\<rparr> | None \<Rightarrow> a1);
             (a3, acts3) = cancel_receive a2
         in (a3, acts1 @ acts3,
             \<not> (ap_pending a \<noteq> None \<or> ap_send a1 \<noteq> None \<or> ap_receive a2 \<noteq> None))))"

definition lower_ascii :: "nat \<Rightarrow> nat" where
  "lower_ascii c = (if 65 \<le> c \<and> c \<le> 90 then c + 32 else c)"

definition handle_key :: "app_env \<Rightarrow> key_event \<Rightarrow> app \<Rightarrow> app \<times> app_action list \<times> bool" where
  "handle_key env key a =
     (if ke_code key = Key_Char 99 \<and> ke_control key then handle_ctrl_c env a
      else
        (let (a', acts) =
           (if ap_picker a \<noteq> None then handle_picker_key env key a
            else
              (case ke_code key of
                 Key_Char c \<Rightarrow>
                   (if lower_ascii c = 121 then answer_pending env Answer_Accept a
                    else if lower_ascii c = 110 then answer_pending env Answer_Decline a
                    else if lower_ascii c = 112 then answer_pending env Answer_Accept_And_Pair a
                    else if 49 \<le> c \<and> c \<le> 57 then (start_picking env (of_nat (c - 48)) a, [])
                    else (a, []))
               | _ \<Rightarrow> (a, [])))
         in (a', acts, False)))"

definition app_step :: "app_env \<Rightarrow> app_input \<Rightarrow> app \<Rightarrow> app \<times> app_action list \<times> bool" where
  "app_step env input a =
     (case input of
        In_Key key \<Rightarrow> handle_key env key a
      | In_Device_Up alias host port protocol fingerprint \<Rightarrow> (device_up alias host port protocol fingerprint a, [], False)
      | In_File_Result session_id file_id result \<Rightarrow> (receive_file_result env session_id file_id result a, [], False)
      | In_Session_Started session_id bytes \<Rightarrow>
          ((case ap_send a of
              Some s \<Rightarrow> a\<lparr>ap_send := Some (s\<lparr>sn_session_id := Some session_id, sn_total_bytes := bytes\<rparr>)\<rparr>
            | None \<Rightarrow> a), [], False)
      | In_Send_Ended \<Rightarrow> (a\<lparr>ap_send := None\<rparr>, [], False)
      | In_Log c t \<Rightarrow> (log_line c t a, [], False)
      | In_Server event \<Rightarrow> (let (a, acts) = handle_server_event env event a in (a, acts, False))
      | In_Multicast e \<Rightarrow> (let (a, acts) = handle_multicast e a in (a, acts, False))
      | In_Progress session_id file_id written \<Rightarrow>
          ((case my_session session_id a of
              Some s \<Rightarrow> a\<lparr>ap_receive := Some (s\<lparr>rs_in_progress := hm_upd file_id (\<lambda>_. written) (rs_in_progress s)\<rparr>)\<rparr>
            | None \<Rightarrow> a), [], False))"

text \<open>The loop ends with the first input that makes it quit or does not come back.\<close>

fun app_run :: "(app_env \<times> app_input) list \<Rightarrow> app \<Rightarrow> app \<times> app_action list \<times> bool" where
  "app_run [] a = (a, [], False)"
| "app_run ((env, input) # inputs) a =
     (let (a, acts, quit) = app_step env input a
      in if quit \<or> No_Return \<in> set acts then (a, acts, quit)
         else (let (a, acts', quit) = app_run inputs a in (a, acts @ acts', quit)))"

definition app_start :: "repository \<Rightarrow> fs \<Rightarrow> app" where
  "app_start storage fs =
     \<lparr>ap_registry = [], ap_storage = storage, ap_fs = fs, ap_pending = None, ap_receive = None, ap_send = None,
      ap_picker = None, ap_log = []\<rparr>"

end
