(* ===== verification/Cli_App_Safety.thy ===== *)
theory Cli_App_Safety
  imports Cli_App
begin

text \<open>
  What the loop of the command line client keeps: a file is accepted only with consent, one send at a time
  and to the device that was chosen, quitting only when nothing is going on, and a receive session is closed
  once its end and its last result are in. The last section holds runs that show what the code does when
  reports overtake each other.
\<close>

section \<open>Runs\<close>

lemma app_run_append:
  "app_run (xs @ ys) a =
     (let (a1, acts1, quit) = app_run xs a
      in if quit \<or> No_Return \<in> set acts1 then (a1, acts1, quit)
         else (let (a2, acts2, quit) = app_run ys a1 in (a2, acts1 @ acts2, quit)))"
  by (induction xs arbitrary: a) (auto simp: Let_def split: prod.splits)

text \<open>The state before the next input, of a loop that is still going.\<close>

definition app_before :: "(app_env \<times> app_input) list \<Rightarrow> app \<Rightarrow> app \<Rightarrow> bool" where
  "app_before inputs a0 a \<longleftrightarrow> (\<exists>acts. app_run inputs a0 = (a, acts, False) \<and> No_Return \<notin> set acts)"

lemma app_before_Nil [simp]: "app_before [] a0 a \<longleftrightarrow> a = a0"
  by (auto simp: app_before_def)

lemma app_before_snoc:
  assumes "app_before (inputs @ [(env, input)]) a0 a'"
  obtains a acts where "app_before inputs a0 a" and "app_step env input a = (a', acts, False)"
  using assms by (auto simp: app_before_def app_run_append Let_def split: prod.splits if_splits)

text \<open>An invariant of the steps holds before every input.\<close>

lemma app_invariant:
  assumes "app_before inputs a0 a" and "P a0"
    and "\<And>env input a a' acts quit. P a \<Longrightarrow> app_step env input a = (a', acts, quit) \<Longrightarrow> P a'"
  shows "P a"
  using assms(1)
proof (induction inputs arbitrary: a rule: rev_induct)
  case Nil
  then show ?case using assms(2) by simp
next
  case (snoc x xs)
  then show ?case by (cases x) (metis app_before_snoc assms(3))
qed

section \<open>What each step leaves alone\<close>

named_theorems app_defs \<open>the handlers of the client's loop\<close>

lemmas [app_defs] = log_line_def device_up_def handle_multicast_def on_prepare_upload_def my_session_def
  handle_file_upload_def finish_receive_if_done_def receive_file_result_def cancel_receive_def
  pair_sender_def answer_pending_def handle_server_event_def start_picking_def start_send_def
  handle_picker_key_def handle_ctrl_c_def handle_key_def

lemma device_up_frame [simp]:
  "ap_storage (device_up al h p pr f a) = ap_storage a" "ap_pending (device_up al h p pr f a) = ap_pending a"
  "ap_receive (device_up al h p pr f a) = ap_receive a" "ap_send (device_up al h p pr f a) = ap_send a"
  "ap_picker (device_up al h p pr f a) = ap_picker a"
  by (auto simp: device_up_def log_line_def Let_def split: prod.splits option.splits)

lemma log_line_frame [simp]:
  "ap_registry (log_line c t a) = ap_registry a"
  "ap_storage (log_line c t a) = ap_storage a" "ap_pending (log_line c t a) = ap_pending a"
  "ap_receive (log_line c t a) = ap_receive a" "ap_send (log_line c t a) = ap_send a"
  "ap_picker (log_line c t a) = ap_picker a"
  by (simp_all add: log_line_def)

lemma handle_multicast_frame [simp]: "fst (handle_multicast e a) = a"
  by (simp add: handle_multicast_def)

lemma finish_receive_frame [simp]:
  "ap_storage (finish_receive_if_done env a) = ap_storage a"
  "ap_pending (finish_receive_if_done env a) = ap_pending a" "ap_send (finish_receive_if_done env a) = ap_send a"
  "ap_picker (finish_receive_if_done env a) = ap_picker a"
  by (auto simp: finish_receive_if_done_def split: option.splits)

lemma receive_result_frame [simp]:
  "ap_storage (receive_file_result env sid f r a) = ap_storage a"
  "ap_pending (receive_file_result env sid f r a) = ap_pending a"
  "ap_send (receive_file_result env sid f r a) = ap_send a"
  "ap_picker (receive_file_result env sid f r a) = ap_picker a"
  by (auto simp: receive_file_result_def Let_def split: option.splits sum.splits)

lemma file_upload_frame [simp]:
  "ap_storage (fst (handle_file_upload env sid f d a)) = ap_storage a"
  "ap_pending (fst (handle_file_upload env sid f d a)) = ap_pending a"
  "ap_send (fst (handle_file_upload env sid f d a)) = ap_send a"
  "ap_picker (fst (handle_file_upload env sid f d a)) = ap_picker a"
  by (auto simp: handle_file_upload_def split: option.splits run.splits)

lemma cancel_receive_frame [simp]:
  "ap_storage (fst (cancel_receive a)) = ap_storage a" "ap_pending (fst (cancel_receive a)) = ap_pending a"
  "ap_send (fst (cancel_receive a)) = ap_send a" "ap_picker (fst (cancel_receive a)) = ap_picker a"
  "ap_receive (fst (cancel_receive a)) = None"
  by (auto simp: cancel_receive_def split: option.splits)

lemma pair_sender_frame [simp]:
  "ap_registry (pair_sender env p a) = ap_registry a"
  "ap_pending (pair_sender env p a) = ap_pending a" "ap_send (pair_sender env p a) = ap_send a"
  "ap_picker (pair_sender env p a) = ap_picker a" "ap_receive (pair_sender env p a) = ap_receive a"
  by (auto simp: pair_sender_def Let_def split: prod.splits)

lemma answer_pending_frame [simp]:
  "ap_pending (fst (answer_pending env w a)) = None" "ap_send (fst (answer_pending env w a)) = ap_send a"
  "ap_picker (fst (answer_pending env w a)) = ap_picker a"
  by (auto simp: answer_pending_def Let_def split: option.splits answer.splits)

lemma on_prepare_frame [simp]:
  "ap_storage (fst (on_prepare_upload env sid ip info cert files a)) = ap_storage a"
  "ap_send (fst (on_prepare_upload env sid ip info cert files a)) = ap_send a"
  "ap_picker (fst (on_prepare_upload env sid ip info cert files a)) = ap_picker a"
  by (auto simp: on_prepare_upload_def Let_def split: option.splits)

lemma start_picking_frame [simp]:
  "ap_storage (start_picking env slot a) = ap_storage a" "ap_pending (start_picking env slot a) = ap_pending a"
  "ap_send (start_picking env slot a) = ap_send a" "ap_receive (start_picking env slot a) = ap_receive a"
  by (auto simp: start_picking_def split: option.splits sum.splits)

lemma start_send_frame [simp]:
  "ap_storage (fst (start_send env slot fs a)) = ap_storage a"
  "ap_pending (fst (start_send env slot fs a)) = ap_pending a"
  "ap_picker (fst (start_send env slot fs a)) = ap_picker a"
  "ap_receive (fst (start_send env slot fs a)) = ap_receive a"
  by (auto simp: start_send_def Let_def split: option.splits)

lemma picker_key_frame [simp]:
  "ap_storage (fst (handle_picker_key env k a)) = ap_storage a"
  "ap_pending (fst (handle_picker_key env k a)) = ap_pending a"
  "ap_receive (fst (handle_picker_key env k a)) = ap_receive a"
  by (auto simp: handle_picker_key_def split: option.splits prod.splits picker_outcome.splits)

section \<open>Cases of a key\<close>

text \<open>The answer a typed letter stands for.\<close>

definition answer_key :: "key_event \<Rightarrow> answer option" where
  "answer_key key =
     (case ke_code key of
        Key_Char c \<Rightarrow>
          if lower_ascii c = 121 then Some Answer_Accept
          else if lower_ascii c = 110 then Some Answer_Decline
          else if lower_ascii c = 112 then Some Answer_Accept_And_Pair
          else None
      | _ \<Rightarrow> None)"

definition ctrl_c :: "key_event \<Rightarrow> bool" where
  "ctrl_c key \<longleftrightarrow> ke_code key = Key_Char 99 \<and> ke_control key"

lemma handle_key_ctrl_c: "ctrl_c key \<Longrightarrow> handle_key env key a = handle_ctrl_c env a"
  by (simp add: handle_key_def ctrl_c_def)

lemma handle_key_picker:
  "\<lbrakk>\<not> ctrl_c key; ap_picker a \<noteq> None\<rbrakk> \<Longrightarrow>
   handle_key env key a = (fst (handle_picker_key env key a), snd (handle_picker_key env key a), False)"
  by (auto simp: handle_key_def ctrl_c_def split: prod.splits)

lemma handle_key_answer:
  "\<lbrakk>\<not> ctrl_c key; ap_picker a = None; answer_key key = Some w\<rbrakk> \<Longrightarrow>
   handle_key env key a = (fst (answer_pending env w a), snd (answer_pending env w a), False)"
  by (auto simp: handle_key_def ctrl_c_def answer_key_def split: prod.splits key_code.splits if_splits)

lemma handle_key_other:
  assumes "\<not> ctrl_c key" and "ap_picker a = None" and "answer_key key = None"
  shows "(\<exists>slot. handle_key env key a = (start_picking env slot a, [], False)) \<or>
    handle_key env key a = (a, [], False)"
proof (cases "ke_code key")
  case (Key_Char c)
  then have "handle_key env key a =
      (if 49 \<le> c \<and> c \<le> 57 then (start_picking env (of_nat (c - 48)) a, [], False) else (a, [], False))"
    using assms by (auto simp: handle_key_def ctrl_c_def answer_key_def split: if_splits)
  then show ?thesis by (auto split: if_splits)
qed (use assms in \<open>auto simp: handle_key_def ctrl_c_def\<close>)

lemma handle_key_cases [case_names ctrl_c picker answer pick ignored]:
  obtains (ctrl_c) "ctrl_c key" "handle_key env key a = handle_ctrl_c env a"
  | (picker) "\<not> ctrl_c key" "ap_picker a \<noteq> None"
      "handle_key env key a = (fst (handle_picker_key env key a), snd (handle_picker_key env key a), False)"
  | (answer) w where "\<not> ctrl_c key" "ap_picker a = None" "answer_key key = Some w"
      "handle_key env key a = (fst (answer_pending env w a), snd (answer_pending env w a), False)"
  | (pick) slot where "\<not> ctrl_c key" "ap_picker a = None" "handle_key env key a = (start_picking env slot a, [], False)"
  | (ignored) "\<not> ctrl_c key" "ap_picker a = None" "handle_key env key a = (a, [], False)"
proof (cases "ctrl_c key")
  case False
  note no_c = this
  show thesis
  proof (cases "ap_picker a")
    case None
    show thesis
    proof (cases "answer_key key")
      case none: None
      show thesis using handle_key_other [OF no_c None none] pick ignored no_c None by blast
    qed (use no_c None answer handle_key_answer in blast)
  qed (use no_c picker handle_key_picker in blast)
qed (use ctrl_c handle_key_ctrl_c in blast)

lemma step_server:
  "app_step env (In_Server event) a =
     (fst (handle_server_event env event a), snd (handle_server_event env event a), False)"
  by (simp add: app_step_def split: prod.splits)

lemma step_multicast: "app_step env (In_Multicast e) a = (a, snd (handle_multicast e a), False)"
  by (simp add: app_step_def handle_multicast_def)

section \<open>Sending\<close>

lemma server_event_frame [simp]:
  "ap_storage (fst (handle_server_event env ev a)) = ap_storage a"
  "ap_picker (fst (handle_server_event env ev a)) = ap_picker a"
  "ap_send (fst (handle_server_event env ev a)) = None \<longleftrightarrow> ap_send a = None"
  by (auto simp: handle_server_event_def split: server_event.splits option.splits)

lemma decline_frame [simp]:
  "ap_storage (fst (answer_pending env Answer_Decline a)) = ap_storage a"
  "ap_receive (fst (answer_pending env Answer_Decline a)) = ap_receive a"
  by (auto simp: answer_pending_def Let_def split: option.splits)

lemma send_update_same: "ap_send a = None \<Longrightarrow> a\<lparr>ap_send := None\<rparr> = a"
  by (cases a) simp

text \<open>Ctrl+C, written without the intermediate states.\<close>

lemma handle_ctrl_c_eq:
  "handle_ctrl_c env a =
     (if ap_picker a \<noteq> None then (a\<lparr>ap_picker := None\<rparr>, [], False)
      else
        (let b = (if ap_pending a \<noteq> None then answer_pending env Answer_Decline a else (a, []));
             c = cancel_receive ((fst b)\<lparr>ap_send := map_option (\<lambda>s. s\<lparr>sn_cancelled := True\<rparr>) (ap_send a)\<rparr>)
         in (fst c, snd b @ snd c, ap_pending a = None \<and> ap_send a = None \<and> ap_receive a = None)))"
proof -
  define b where "b = (if ap_pending a \<noteq> None then answer_pending env Answer_Decline a else (a, []))"
  have b: "ap_send (fst b) = ap_send a" "ap_receive (fst b) = ap_receive a" by (simp_all add: b_def)
  have "(case ap_send (fst b) of Some s \<Rightarrow> (fst b)\<lparr>ap_send := Some (s\<lparr>sn_cancelled := True\<rparr>)\<rparr> | None \<Rightarrow> fst b) =
      (fst b)\<lparr>ap_send := map_option (\<lambda>s. s\<lparr>sn_cancelled := True\<rparr>) (ap_send a)\<rparr>"
    using b send_update_same [of "fst b"] by (auto split: option.split)
  then show ?thesis
    unfolding handle_ctrl_c_def b_def [symmetric] using b by (simp add: Let_def case_prod_beta)
qed

lemma ctrl_c_frame [simp]:
  "ap_storage (fst (handle_ctrl_c env a)) = ap_storage a"
  "ap_send (fst (handle_ctrl_c env a)) = None \<longleftrightarrow> ap_send a = None"
  "ap_picker (fst (handle_ctrl_c env a)) = None"
  by (simp_all add: handle_ctrl_c_eq Let_def)

lemma ctrl_c_send [simp]: "ap_send a = Some s \<Longrightarrow> \<exists>s'. ap_send (fst (handle_ctrl_c env a)) = Some s'"
  by (metis ctrl_c_frame(2) option.exhaust option.distinct(1))

lemma start_picking_exclusive:
  "ap_picker a = None \<Longrightarrow> ap_picker (start_picking env slot a) \<noteq> None \<longrightarrow> ap_send a = None"
  by (auto simp: start_picking_def split: option.splits sum.splits)

lemma picker_key_exclusive:
  "ap_send a = None \<Longrightarrow> ap_picker (fst (handle_picker_key env key a)) \<noteq> None \<longrightarrow>
     ap_send (fst (handle_picker_key env key a)) = None"
  by (auto simp: handle_picker_key_def split: option.splits prod.splits picker_outcome.splits)

lemma one_send_step:
  assumes "ap_picker a \<noteq> None \<longrightarrow> ap_send a = None" and "app_step env input a = (a', acts, quit)"
  shows "ap_picker a' \<noteq> None \<longrightarrow> ap_send a' = None"
proof (cases input)
  case (In_Key key)
  then have a': "a' = fst (handle_key env key a)" using assms(2) by (simp add: app_step_def)
  show ?thesis unfolding a'
    by (cases rule: handle_key_cases [of key env a])
      (use assms(1) start_picking_exclusive [of a env] picker_key_exclusive [of a env key] in auto)
next
  case (In_Server event)
  then show ?thesis using assms by (auto simp: step_server)
next
  case (In_Multicast e)
  then show ?thesis using assms by (auto simp: step_multicast)
qed (use assms in \<open>auto simp: app_step_def split: option.splits\<close>)

lemma one_send:
  assumes "app_before inputs (app_start storage fs) a"
  shows "ap_picker a \<noteq> None \<longrightarrow> ap_send a = None"
  by (rule app_invariant [OF assms]) (simp add: app_start_def, use one_send_step in blast)

lemma picked_offer_keys:
  "map fst (of_files f) = map fst (of_paths f) \<Longrightarrow>
   map fst (of_files (picked_offer env k picked f)) = map fst (of_paths (picked_offer env k picked f))"
  by (induction picked arbitrary: k f) (auto simp: Let_def update_keys split: option.split)

lemma start_send_spawns:
  assumes "Spawn_Send d files paths \<in> set (snd (start_send env slot picked a))"
  shows "by_slot slot (ap_registry a) = Some d \<and> ap_send (fst (start_send env slot picked a)) \<noteq> None \<and>
    files \<noteq> [] \<and> map fst files = map fst paths"
  using assms picked_offer_keys [of "\<lparr>of_files = [], of_paths = [], of_total = 0, of_skipped = []\<rparr>" env 0 picked]
  by (auto simp: start_send_def Let_def split: option.splits if_splits)

lemma no_spawn [simp]:
  "Spawn_Send d files paths \<notin> set (snd (answer_pending env w a))"
  "Spawn_Send d files paths \<notin> set (snd (cancel_receive a))"
  "Spawn_Send d files paths \<notin> set (snd (handle_multicast e a))"
  "Spawn_Send d files paths \<notin> set (snd (handle_server_event env event a))"
  by (auto simp: app_defs Let_def split: option.splits run.splits answer.splits server_event.splits)

lemma picker_slot_kept: "picker_handle_key lowercase nav key p = (r, p') \<Longrightarrow> pk_slot p' = pk_slot p"
  by (auto simp: picker_handle_key_def picker_confirm_def picker_navigate_def move_cursor_def refresh_matches_def
      select_first_entry_def toggle_current_def Let_def
      split: key_code.splits option.splits if_splits prod.splits)

lemma picker_key_spawns:
  assumes "Spawn_Send d files paths \<in> set (snd (handle_picker_key env key a))"
  shows "\<exists>p. ap_picker a = Some p \<and> by_slot (pk_slot p) (ap_registry a) = Some d \<and>
    ap_send (fst (handle_picker_key env key a)) \<noteq> None \<and> files \<noteq> [] \<and> map fst files = map fst paths"
proof -
  from assms obtain p r p' where p: "ap_picker a = Some p"
      and r: "picker_handle_key (ae_lowercase env) (ae_nav env) key p = (r, p')"
    by (cases "ap_picker a"; cases "picker_handle_key (ae_lowercase env) (ae_nav env) key (the (ap_picker a))")
      (auto simp: handle_picker_key_def)
  then obtain picked where picked: "r = Picked picked"
    using assms by (cases r) (auto simp: handle_picker_key_def)
  have key: "handle_picker_key env key a = start_send env (pk_slot p) picked (a\<lparr>ap_picker := None\<rparr>)"
    using p r picked picker_slot_kept [OF r] by (simp add: handle_picker_key_def)
  show ?thesis using start_send_spawns [of d files paths env "pk_slot p" picked "a\<lparr>ap_picker := None\<rparr>"] assms p by (auto simp: key)
qed

lemma step_spawns:
  assumes "app_step env input a = (a', acts, quit)" and "Spawn_Send d files paths \<in> set acts"
  shows "\<exists>p. ap_picker a = Some p \<and> by_slot (pk_slot p) (ap_registry a) = Some d \<and> ap_send a' \<noteq> None \<and>
    files \<noteq> [] \<and> map fst files = map fst paths"
proof (cases input)
  case (In_Key key)
  then have key: "handle_key env key a = (a', acts, quit)" using assms(1) by (simp add: app_step_def)
  show ?thesis
    by (cases rule: handle_key_cases [of key env a])
      (use key assms(2) picker_key_spawns in \<open>auto simp: handle_ctrl_c_eq Let_def split: if_splits\<close>)
next
  case (In_Server event)
  then show ?thesis using assms by (auto simp: step_server)
next
  case (In_Multicast e)
  then show ?thesis using assms by (auto simp: step_multicast)
qed (use assms in \<open>auto simp: app_step_def\<close>)

text \<open>The number a key stands for, when no picker is open.\<close>

definition digit_slot :: "key_event \<Rightarrow> u8 option" where
  "digit_slot key =
     (case ke_code key of
        Key_Char c \<Rightarrow> if 49 \<le> c \<and> c \<le> 57 then Some (of_nat (c - 48)) else None
      | _ \<Rightarrow> None)"

text \<open>Only a number opens the picker, and only that of a known device.\<close>

lemma start_picking_opens:
  "ap_picker (start_picking env slot a) = Some p \<Longrightarrow> ap_picker a = None \<Longrightarrow>
     pk_slot p = slot \<and> (\<exists>d. by_slot slot (ap_registry a) = Some d)"
  by (auto simp: start_picking_def picker_open_def refresh_matches_def select_first_entry_def Let_def
      split: option.splits sum.splits if_splits)

lemma handle_key_opens:
  assumes "ap_picker a = None" and "ap_picker (fst (handle_key env key a)) = Some p"
  shows "digit_slot key = Some (pk_slot p) \<and> (\<exists>d. by_slot (pk_slot p) (ap_registry a) = Some d)"
proof (cases "ctrl_c key \<or> answer_key key \<noteq> None")
  case True
  then show ?thesis using assms by (cases "ctrl_c key") (auto simp: handle_key_ctrl_c handle_key_answer)
next
  case False
  then have no: "\<not> ctrl_c key" "answer_key key = None" by simp_all
  show ?thesis
  proof (cases "digit_slot key")
    case None
    then have "fst (handle_key env key a) = a"
      using no assms(1)
      by (auto simp: handle_key_def ctrl_c_def answer_key_def digit_slot_def split: key_code.splits if_splits)
    then show ?thesis using assms by simp
  next
    case (Some slot)
    then have "fst (handle_key env key a) = start_picking env slot a"
      using no assms(1)
      by (auto simp: handle_key_def ctrl_c_def answer_key_def digit_slot_def split: key_code.splits if_splits)
    then show ?thesis using assms start_picking_opens [of env slot a p] Some by simp
  qed
qed

lemma step_opens:
  assumes "app_step env input a = (a', acts, quit)" and "ap_picker a = None" and "ap_picker a' = Some p"
  shows "\<exists>key d. input = In_Key key \<and> digit_slot key = Some (pk_slot p) \<and> by_slot (pk_slot p) (ap_registry a) = Some d"
proof (cases input)
  case (In_Key key)
  then show ?thesis using assms handle_key_opens [of a env key p] by (simp add: app_step_def)
next
  case (In_Server event)
  then have "ap_picker a' = ap_picker a"
    using assms(1) server_event_frame(2) [of env event a] by (simp add: step_server)
  then show ?thesis using assms by simp
next
  case (In_Multicast e)
  then show ?thesis using assms by (simp add: step_multicast)
qed (use assms in \<open>auto simp: app_step_def split: option.splits\<close>)

text \<open>While it is open, it is for the same number.\<close>

lemma picker_key_same:
  "\<lbrakk>ap_picker a = Some p; ap_picker (fst (handle_picker_key env key a)) = Some p'\<rbrakk> \<Longrightarrow> pk_slot p' = pk_slot p"
  by (auto simp: handle_picker_key_def picker_slot_kept split: prod.splits picker_outcome.splits)

lemma step_same_picker:
  assumes "app_step env input a = (a', acts, quit)" and "ap_picker a = Some p" and "ap_picker a' = Some p'"
  shows "pk_slot p' = pk_slot p"
proof (cases input)
  case (In_Key key)
  then show ?thesis
    using assms picker_key_same [OF assms(2), of env key p'] handle_key_picker [of key a env]
    by (cases "ctrl_c key") (auto simp: app_step_def handle_key_ctrl_c handle_ctrl_c_eq)
next
  case (In_Server event)
  then have "ap_picker a' = ap_picker a"
    using assms(1) server_event_frame(2) [of env event a] by (simp add: step_server)
  then show ?thesis using assms by simp
next
  case (In_Multicast e)
  then show ?thesis using assms by (simp add: step_multicast)
qed (use assms in \<open>auto simp: app_step_def split: option.splits\<close>)

text \<open>A number keeps its device.\<close>

definition keeps_devices :: "registry \<Rightarrow> registry \<Rightarrow> bool" where
  "keeps_devices r r' \<longleftrightarrow>
     (\<forall>slot d. by_slot slot r = Some d \<longrightarrow> (\<exists>d'. by_slot slot r' = Some d' \<and> dev_fingerprint d' = dev_fingerprint d))"

lemma keeps_devices_refl [simp]: "keeps_devices r r"
  by (simp add: keeps_devices_def)

lemma keeps_devices_upsert [simp]: "keeps_devices r (snd (upsert al h p pr f r))"
  by (simp add: keeps_devices_def by_slot_upsert)

lemma keeps_devices_device_up [simp]: "keeps_devices (ap_registry a) (ap_registry (device_up al h p pr f a))"
proof -
  obtain new ds where upsert: "upsert al h p pr f (ap_registry a) = (new, ds)" by (rule prod.exhaust)
  have "keeps_devices (ap_registry a) ds"
    using keeps_devices_upsert [of "ap_registry a" al h p pr f] unfolding upsert snd_conv .
  then show ?thesis by (auto simp: device_up_def Let_def upsert split: option.split)
qed

lemma registry_frame [simp]:
  "ap_registry (finish_receive_if_done env a) = ap_registry a"
  "ap_registry (receive_file_result env sid fid res a) = ap_registry a"
  "ap_registry (fst (handle_file_upload env sid fid f a)) = ap_registry a"
  "ap_registry (fst (cancel_receive a)) = ap_registry a"
  "ap_registry (fst (answer_pending env w a)) = ap_registry a"
  "ap_registry (start_picking env slot a) = ap_registry a"
  "ap_registry (fst (start_send env slot picked a)) = ap_registry a"
  "ap_registry (fst (handle_picker_key env key a)) = ap_registry a"
  "ap_registry (fst (handle_ctrl_c env a)) = ap_registry a"
  by (auto simp: finish_receive_if_done_def receive_file_result_def handle_file_upload_def cancel_receive_def
      answer_pending_def start_picking_def start_send_def handle_picker_key_def handle_ctrl_c_eq Let_def
      split: option.splits sum.splits run.splits answer.splits prod.splits picker_outcome.splits)

lemma on_prepare_registry:
  "ap_registry (fst (on_prepare_upload env sid ip info cert files a)) =
     ap_registry (device_up (rd_alias info) (peer_to_string ip) (rd_port info) (rd_protocol info) (rd_fingerprint info) a)"
  by (auto simp: on_prepare_upload_def Let_def split: option.splits)

lemma step_keeps_devices:
  assumes "app_step env input a = (a', acts, quit)"
  shows "keeps_devices (ap_registry a) (ap_registry a')"
proof (cases input)
  case (In_Key key)
  then have "a' = fst (handle_key env key a)" using assms by (simp add: app_step_def)
  then show ?thesis by (cases rule: handle_key_cases [of key env a]) simp_all
next
  case (In_Server event)
  then have "a' = fst (handle_server_event env event a)" using assms by (simp add: step_server)
  then show ?thesis
    by (auto simp: handle_server_event_def on_prepare_registry split: server_event.splits option.splits)
next
  case (In_Multicast e)
  then show ?thesis using assms by (simp add: step_multicast)
qed (use assms in \<open>auto simp: app_step_def split: option.splits\<close>)

text \<open>
  How an open picker came about: a number was typed while none was open, for a device known then, and it has been
  open ever since.
\<close>

definition picker_opened :: "app \<Rightarrow> (app_env \<times> app_input) list \<Rightarrow> u8 \<Rightarrow> device \<Rightarrow> bool" where
  "picker_opened start inputs slot device \<longleftrightarrow>
     (\<exists>xs env key ys a. inputs = xs @ (env, In_Key key) # ys \<and> app_before xs start a \<and> ap_picker a = None \<and>
        digit_slot key = Some slot \<and> by_slot slot (ap_registry a) = Some device \<and>
        (\<forall>zs b. prefix zs ys \<and> app_before (xs @ (env, In_Key key) # zs) start b \<longrightarrow> ap_picker b \<noteq> None))"

lemma app_before_unique: "app_before inputs start a \<Longrightarrow> app_before inputs start b \<Longrightarrow> a = b"
  by (auto simp: app_before_def)

lemma picker_opened_now:
  assumes "app_before inputs start a" and "app_before (inputs @ [(env, In_Key key)]) start a'"
    and "ap_picker a = None" and "ap_picker a' \<noteq> None" and "digit_slot key = Some slot"
    and "by_slot slot (ap_registry a) = Some d"
  shows "picker_opened start (inputs @ [(env, In_Key key)]) slot d"
proof -
  have "ap_picker b \<noteq> None" if "prefix zs []" "app_before (inputs @ (env, In_Key key) # zs) start b" for zs b
    using that app_before_unique [OF assms(2), of b] assms(4) by simp
  then show ?thesis unfolding picker_opened_def using assms(1,3,5,6) by blast
qed

lemma picker_opened_later:
  assumes "picker_opened start inputs slot d" and "app_before (inputs @ [x]) start a'" and "ap_picker a' \<noteq> None"
  shows "picker_opened start (inputs @ [x]) slot d"
proof -
  from assms(1) obtain xs env key ys a where opened: "inputs = xs @ (env, In_Key key) # ys" "app_before xs start a"
      "ap_picker a = None" "digit_slot key = Some slot" "by_slot slot (ap_registry a) = Some d"
    and stays: "\<And>zs b. prefix zs ys \<Longrightarrow> app_before (xs @ (env, In_Key key) # zs) start b \<Longrightarrow> ap_picker b \<noteq> None"
    unfolding picker_opened_def by blast
  have "ap_picker b \<noteq> None" if "prefix zs (ys @ [x])" "app_before (xs @ (env, In_Key key) # zs) start b" for zs b
  proof (cases "prefix zs ys")
    case True
    then show ?thesis using stays that(2) by blast
  next
    case False
    then have "xs @ (env, In_Key key) # zs = inputs @ [x]" using that(1) opened(1) by (simp add: prefix_snoc)
    then show ?thesis using that(2) app_before_unique [OF assms(2), of b] assms(3) by simp
  qed
  then show ?thesis unfolding picker_opened_def using opened by (metis append_Cons append_assoc)
qed

lemma picker_origin:
  assumes "app_before inputs start a" and "ap_picker start = None" and "ap_picker a = Some p"
  shows "\<exists>d0 d. picker_opened start inputs (pk_slot p) d0 \<and> by_slot (pk_slot p) (ap_registry a) = Some d \<and>
    dev_fingerprint d = dev_fingerprint d0"
  using assms(1,3)
proof (induction inputs arbitrary: a p rule: rev_induct)
  case Nil
  then show ?case using assms(2) by simp
next
  case (snoc x xs)
  obtain env input where x: "x = (env, input)" by (cases x)
  from snoc.prems(1) [unfolded x] obtain a0 acts where before: "app_before xs start a0"
      and step: "app_step env input a0 = (a, acts, False)" by (rule app_before_snoc)
  have keeps: "\<exists>d'. by_slot slot (ap_registry a) = Some d' \<and> dev_fingerprint d' = dev_fingerprint d"
    if "by_slot slot (ap_registry a0) = Some d" for slot d
    using step_keeps_devices [OF step] that by (simp add: keeps_devices_def)
  show ?case
  proof (cases "ap_picker a0")
    case None
    from step_opens [OF step None snoc.prems(2)] obtain key d where "input = In_Key key"
        "digit_slot key = Some (pk_slot p)" and d: "by_slot (pk_slot p) (ap_registry a0) = Some d" by blast
    then have "picker_opened start (xs @ [x]) (pk_slot p) d"
      using picker_opened_now [OF before _ None] snoc.prems x by simp
    then show ?thesis using keeps [OF d] by blast
  next
    case (Some p0)
    have same: "pk_slot p = pk_slot p0" by (rule step_same_picker [OF step Some snoc.prems(2)])
    from snoc.IH [OF before Some] obtain d0 d where "picker_opened start xs (pk_slot p) d0"
        and d: "by_slot (pk_slot p) (ap_registry a0) = Some d" and fp: "dev_fingerprint d = dev_fingerprint d0"
      unfolding same by blast
    then have "picker_opened start (xs @ [x]) (pk_slot p) d0"
      using picker_opened_later [OF _ snoc.prems(1)] snoc.prems(2) by simp
    then show ?thesis using keeps [OF d] fp by metis
  qed
qed

text \<open>
  C15: Files are sent only while no other send runs, and to the device that was chosen: the picker that is open
  was opened by typing a number that belonged to a known device and has been open since, and what is sent goes
  to the device with that number and the same fingerprint, at the address last reported for it. There is at
  least one file and every file offered has a path to read it from.
\<close>

theorem one_send_to_the_chosen_device:
  assumes "app_before inputs (app_start storage fs) a" and "app_step env input a = (a', acts, quit)"
    and "Spawn_Send d files paths \<in> set acts"
  shows "ap_send a = None \<and> ap_send a' \<noteq> None \<and> files \<noteq> [] \<and> map fst files = map fst paths \<and>
    (\<exists>slot chosen. picker_opened (app_start storage fs) inputs slot chosen \<and> by_slot slot (ap_registry a) = Some d \<and>
       dev_fingerprint d = dev_fingerprint chosen)"
proof -
  from step_spawns [OF assms(2,3)] obtain p where p: "ap_picker a = Some p"
      and d: "by_slot (pk_slot p) (ap_registry a) = Some d"
      and rest: "ap_send a' \<noteq> None" "files \<noteq> []" "map fst files = map fst paths" by blast
  have "ap_picker (app_start storage fs) = None" by (simp add: app_start_def)
  from picker_origin [OF assms(1) this p] have "\<exists>slot chosen. picker_opened (app_start storage fs) inputs slot chosen \<and>
      by_slot slot (ap_registry a) = Some d \<and> dev_fingerprint d = dev_fingerprint chosen" using d by auto
  then show ?thesis using one_send [OF assms(1)] p rest by simp
qed

section \<open>Consent\<close>

text \<open>The fingerprint a request counts under: of the certificate, else the one it states.\<close>

definition request_fingerprint :: "register_dto_v2 \<Rightarrow> string option \<Rightarrow> string" where
  "request_fingerprint info cert = (case cert of Some f \<Rightarrow> f | None \<Rightarrow> rd_fingerprint info)"

definition offered :: "app_input list \<Rightarrow> string \<Rightarrow> string \<Rightarrow> (string, file_dto) hmap \<Rightarrow> bool" where
  "offered inputs sid fingerprint files \<longleftrightarrow>
     (\<exists>ip info cert. In_Server (Ev_Prepare_Upload sid ip info cert files) \<in> set inputs \<and>
        request_fingerprint info cert = fingerprint)"

text \<open>
  The user has typed P while a request of that fingerprint was the one shown: no picker was open and it
  was the pending one.
\<close>

definition pairing_typed :: "app \<Rightarrow> (app_env \<times> app_input) list \<Rightarrow> string \<Rightarrow> bool" where
  "pairing_typed start inputs fingerprint \<longleftrightarrow>
     (\<exists>xs env key ys a p. inputs = xs @ (env, In_Key key) # ys \<and> app_before xs start a \<and>
        answer_key key = Some Answer_Accept_And_Pair \<and> ap_picker a = None \<and> ap_pending a = Some p \<and>
        sd_fingerprint (pe_sender p) = fingerprint \<and>
        offered (map snd xs) (pe_session_id p) fingerprint (pe_files p))"

definition consent_ok :: "app \<Rightarrow> (app_env \<times> app_input) list \<Rightarrow> app \<Rightarrow> bool" where
  "consent_ok start inputs a \<longleftrightarrow>
     (\<forall>p. ap_pending a = Some p \<longrightarrow>
        offered (map snd inputs) (pe_session_id p) (sd_fingerprint (pe_sender p)) (pe_files p)) \<and>
     (\<forall>f. paired_contains f (re_paired (ap_storage a)) \<longrightarrow>
        paired_contains f (re_paired (ap_storage start)) \<or> pairing_typed start inputs f)"

lemma offered_snoc:
  "offered (inputs @ [i]) sid f files \<longleftrightarrow> offered inputs sid f files \<or>
     (\<exists>ip info cert. i = In_Server (Ev_Prepare_Upload sid ip info cert files) \<and> request_fingerprint info cert = f)"
  by (auto simp: offered_def)

lemma pairing_typed_later: "pairing_typed start inputs f \<Longrightarrow> pairing_typed start (inputs @ [i]) f"
  unfolding pairing_typed_def by (metis append_Cons append_assoc)

lemma pairing_typed_now:
  "\<lbrakk>app_before inputs start a; answer_key key = Some Answer_Accept_And_Pair; ap_picker a = None;
    ap_pending a = Some p; offered (map snd inputs) (pe_session_id p) (sd_fingerprint (pe_sender p)) (pe_files p)\<rbrakk> \<Longrightarrow>
   pairing_typed start (inputs @ [(env, In_Key key)]) (sd_fingerprint (pe_sender p))"
  unfolding pairing_typed_def by blast

text \<open>Which answers accept, and what pairing does to the paired devices.\<close>

lemma paired_after_answer:
  assumes "paired_contains f (re_paired (ap_storage (fst (answer_pending env w a))))"
  shows "paired_contains f (re_paired (ap_storage a)) \<or>
    (w = Answer_Accept_And_Pair \<and> (\<exists>p. ap_pending a = Some p \<and> f = sd_fingerprint (pe_sender p)))"
  using assms
  by (auto simp: answer_pending_def pair_sender_def paired_insert_def paired_contains_def Let_def
      split: option.splits answer.splits if_splits prod.splits)

lemma answer_accepts:
  assumes "Decide sid (Accept ids) \<in> set (snd (answer_pending env w a))"
  shows "w \<noteq> Answer_Decline \<and> (\<exists>p. ap_pending a = Some p \<and> pe_session_id p = sid \<and> ids = map fst (pe_files p))"
  using assms by (auto simp: answer_pending_def Let_def split: option.splits answer.splits if_splits)

lemma no_accept [simp]:
  "Decide sid (Accept ids) \<notin> set (snd (answer_pending env Answer_Decline a))"
  "Decide sid (Accept ids) \<notin> set (snd (cancel_receive a))"
  "Decide sid (Accept ids) \<notin> set (snd (handle_multicast e a))"
  "Decide sid (Accept ids) \<notin> set (snd (handle_picker_key env key a))"
  by (auto simp: app_defs Let_def split: option.splits prod.splits picker_outcome.splits)

lemma pending_after_event:
  assumes "ap_pending (fst (handle_server_event env event a)) = Some p"
  shows "ap_pending a = Some p \<or>
    (\<exists>ip info cert. event = Ev_Prepare_Upload (pe_session_id p) ip info cert (pe_files p) \<and>
       request_fingerprint info cert = sd_fingerprint (pe_sender p))"
  using assms
  by (auto simp: handle_server_event_def on_prepare_upload_def Let_def request_fingerprint_def
      split: server_event.splits option.splits if_splits)

lemma event_accepts:
  assumes "Decide sid (Accept ids) \<in> set (snd (handle_server_event env event a))"
  shows "\<exists>ip info cert files. event = Ev_Prepare_Upload sid ip info cert files \<and> ids = map fst files \<and>
    paired_contains (request_fingerprint info cert) (re_paired (ap_storage a))"
  using assms
  by (auto simp: handle_server_event_def on_prepare_upload_def handle_file_upload_def Let_def request_fingerprint_def
      split: server_event.splits option.splits run.splits if_splits)

lemma pending_after_ctrl_c:
  "ap_pending (fst (handle_ctrl_c env a)) = Some p \<Longrightarrow> ap_pending a = Some p"
  by (auto simp: handle_ctrl_c_eq Let_def split: if_splits)

lemma consent_step:
  assumes ok: "consent_ok start inputs a" and before: "app_before inputs start a"
    and step: "app_step env input a = (a', acts, quit)"
  shows "consent_ok start (inputs @ [(env, input)]) a'"
proof -
  have later: "consent_ok start (inputs @ [(env, input)]) a'"
    if "ap_storage a' = ap_storage a" and "\<And>p. ap_pending a' = Some p \<Longrightarrow> ap_pending a = Some p \<or>
      offered (map snd inputs @ [input]) (pe_session_id p) (sd_fingerprint (pe_sender p)) (pe_files p)"
    using ok that pairing_typed_later unfolding consent_ok_def map_append list.map snd_conv by (metis offered_snoc)
  show ?thesis
  proof (cases input)
    case (In_Key key)
    then have key: "handle_key env key a = (a', acts, quit)" using step by (simp add: app_step_def)
    show ?thesis
    proof (cases rule: handle_key_cases [of key env a])
      case ctrl_c
      then have "a' = fst (handle_ctrl_c env a)" using key by (metis fst_conv)
      then show ?thesis by (intro later) (auto dest: pending_after_ctrl_c)
    next
      case (answer w)
      then have a': "a' = fst (answer_pending env w a)" using key by simp
      have "paired_contains f (re_paired (ap_storage start)) \<or> pairing_typed start (inputs @ [(env, input)]) f"
        if "paired_contains f (re_paired (ap_storage a'))" for f
        using paired_after_answer [OF that [unfolded a']] ok answer(2,3) pairing_typed_now [OF before] pairing_typed_later
        unfolding consent_ok_def In_Key by blast
      then show ?thesis by (simp add: consent_ok_def a')
    next
      case picker
      then show ?thesis using key by (intro later) auto
    next
      case (pick slot)
      then show ?thesis using key by (intro later) auto
    next
      case ignored
      then show ?thesis using key by (intro later) auto
    qed
  next
    case (In_Server event)
    then have a': "a' = fst (handle_server_event env event a)" using step by (simp add: step_server)
    show ?thesis
      using pending_after_event [of env event a] by (intro later) (auto simp: a' In_Server offered_snoc)
  next
    case (In_Multicast e)
    then show ?thesis using step by (intro later) (auto simp: step_multicast)
  qed (rule later; use step in \<open>auto simp: app_step_def split: option.splits\<close>)+
qed

lemma app_start_storage: "ap_storage (app_start storage fs) = storage"
  by (simp add: app_start_def)

lemma consent_before:
  assumes "app_before inputs (app_start storage fs) a"
  shows "consent_ok (app_start storage fs) inputs a"
  using assms
proof (induction inputs arbitrary: a rule: rev_induct)
  case Nil
  then show ?case by (simp add: consent_ok_def app_start_def)
next
  case (snoc x xs)
  obtain env input where x: "x = (env, input)" by (cases x)
  from snoc.prems [unfolded x] obtain a0 acts where "app_before xs (app_start storage fs) a0"
      and "app_step env input a0 = (a, acts, False)"
    by (rule app_before_snoc)
  then show ?case using consent_step [OF snoc.IH] by (simp add: x)
qed

lemma step_accepts:
  assumes "app_step env input a = (a', acts, quit)" and "Decide sid (Accept ids) \<in> set acts"
  shows "(\<exists>ip info cert files. input = In_Server (Ev_Prepare_Upload sid ip info cert files) \<and> ids = map fst files \<and>
      paired_contains (request_fingerprint info cert) (re_paired (ap_storage a))) \<or>
    (\<exists>key p. input = In_Key key \<and> \<not> ctrl_c key \<and> ap_picker a = None \<and>
      answer_key key \<in> {Some Answer_Accept, Some Answer_Accept_And_Pair} \<and>
      ap_pending a = Some p \<and> pe_session_id p = sid \<and> ids = map fst (pe_files p))"
proof (cases input)
  case (In_Key key)
  then have key: "handle_key env key a = (a', acts, quit)" using assms(1) by (simp add: app_step_def)
  show ?thesis
  proof (cases rule: handle_key_cases [of key env a])
    case (answer w)
    then show ?thesis using key assms(2) answer_accepts [of sid ids env w a] In_Key by (cases w) auto
  qed (use key assms(2) in \<open>auto simp: handle_ctrl_c_eq Let_def split: if_splits\<close>)
next
  case (In_Server event)
  then show ?thesis using assms event_accepts [of sid ids env event a] by (auto simp: step_server)
next
  case (In_Multicast e)
  then show ?thesis using assms by (auto simp: step_multicast)
qed (use assms in \<open>auto simp: app_step_def\<close>)

lemma accept_has_consent:
  assumes "app_before inputs (app_start storage fs) a" and "app_step env input a = (a', acts, quit)"
    and "Decide sid (Accept ids) \<in> set acts"
  shows "\<exists>fingerprint files. ids = map fst files \<and> offered (map snd inputs @ [input]) sid fingerprint files \<and>
    ((\<exists>key p. input = In_Key key \<and> ap_picker a = None \<and>
        answer_key key \<in> {Some Answer_Accept, Some Answer_Accept_And_Pair} \<and>
        ap_pending a = Some p \<and> pe_session_id p = sid) \<or>
     paired_contains fingerprint (re_paired storage) \<or> pairing_typed (app_start storage fs) inputs fingerprint)"
  using step_accepts [OF assms(2,3)]
proof
  assume "\<exists>key p. input = In_Key key \<and> \<not> ctrl_c key \<and> ap_picker a = None \<and>
      answer_key key \<in> {Some Answer_Accept, Some Answer_Accept_And_Pair} \<and>
      ap_pending a = Some p \<and> pe_session_id p = sid \<and> ids = map fst (pe_files p)"
  then show ?thesis using consent_before [OF assms(1)] unfolding consent_ok_def offered_snoc app_start_storage by blast
next
  assume "\<exists>ip info cert files. input = In_Server (Ev_Prepare_Upload sid ip info cert files) \<and>
      ids = map fst files \<and> paired_contains (request_fingerprint info cert) (re_paired (ap_storage a))"
  then show ?thesis using consent_before [OF assms(1)] unfolding consent_ok_def offered_snoc app_start_storage by blast
qed

text \<open>The same for a decision anywhere in a run.\<close>

lemma accepted_at:
  assumes "app_run inputs a0 = (a, acts, quit)" and "Decide sid (Accept ids) \<in> set acts"
  shows "\<exists>xs env i ys a1 a2 acts2 quit2. inputs = xs @ (env, i) # ys \<and> app_before xs a0 a1 \<and>
    app_step env i a1 = (a2, acts2, quit2) \<and> Decide sid (Accept ids) \<in> set acts2"
  using assms
proof (induction inputs arbitrary: a acts quit rule: rev_induct)
  case (snoc x xs)
  obtain env i where x: "x = (env, i)" by (cases x)
  obtain a1 acts1 quit1 where before: "app_run xs a0 = (a1, acts1, quit1)" by (metis prod_cases3)
  show ?case
  proof (cases "Decide sid (Accept ids) \<in> set acts1")
    case True
    from snoc.IH [OF before True] show ?thesis by (metis append_Cons append_assoc)
  next
    case False
    then have "\<not> quit1 \<and> No_Return \<notin> set acts1"
      using snoc.prems before by (auto simp: app_run_append split: if_splits)
    moreover obtain a2 acts2 quit2 where step: "app_step env i a1 = (a2, acts2, quit2)" by (metis prod_cases3)
    ultimately have "app_before xs a0 a1" and "Decide sid (Accept ids) \<in> set acts2"
      using snoc.prems before False by (auto simp: app_before_def app_run_append x Let_def split: if_splits)
    then show ?thesis using step x by blast
  qed
qed simp

text \<open>
  A request is accepted only with consent, and always with all the files it offered: either the user typed
  Y or P while this request was shown, or its sender is known under a fingerprint that was stored as paired
  when the client started or that was the one of the request shown when the user typed P.
\<close>

theorem accepted_only_with_consent:
  assumes "app_before inputs (app_start storage fs) a" and "app_step env input a = (a', acts, quit)"
    and "Decide sid (Accept ids) \<in> set acts"
  shows "\<exists>fingerprint files. ids = map fst files \<and> offered (map snd inputs @ [input]) sid fingerprint files \<and>
    ((\<exists>key p. input = In_Key key \<and> ap_picker a = None \<and>
        answer_key key \<in> {Some Answer_Accept, Some Answer_Accept_And_Pair} \<and>
        ap_pending a = Some p \<and> pe_session_id p = sid) \<or>
     paired_contains fingerprint (re_paired storage) \<or> pairing_typed (app_start storage fs) inputs fingerprint)"
  by (rule accept_has_consent [OF assms])

section \<open>Quitting\<close>

lemma step_quits:
  assumes "app_step env input a = (a', acts, quit)"
  shows "quit \<longleftrightarrow> (\<exists>key. input = In_Key key \<and> ctrl_c key) \<and> ap_picker a = None \<and> ap_pending a = None \<and>
    ap_send a = None \<and> ap_receive a = None"
proof (cases input)
  case (In_Key key)
  then have key: "handle_key env key a = (a', acts, quit)" using assms(1) by (simp add: app_step_def)
  show ?thesis
    by (cases rule: handle_key_cases [of key env a])
      (use key In_Key in \<open>auto simp: handle_ctrl_c_eq Let_def split: if_splits\<close>)
qed (use assms in \<open>auto simp: app_step_def step_multicast split: prod.splits\<close>)

text \<open>Ctrl+C leaves nothing but the send.\<close>

lemma ctrl_c_clears:
  "ap_picker a = None \<Longrightarrow> ap_receive (fst (handle_ctrl_c env a)) = None \<and>
     ap_pending (fst (handle_ctrl_c env a)) = None"
  by (auto simp: handle_ctrl_c_eq Let_def)

lemma ctrl_c_no_hang: "No_Return \<notin> set (fst (snd (handle_ctrl_c env a)))"
  by (auto simp: handle_ctrl_c_eq answer_pending_def cancel_receive_def Let_def split: option.splits)

lemma ctrl_c_step:
  assumes "ctrl_c key"
  obtains a' acts where
    "app_step env (In_Key key) a = (a', acts,
       ap_picker a = None \<and> ap_pending a = None \<and> ap_send a = None \<and> ap_receive a = None)"
    and "No_Return \<notin> set acts" and "ap_picker a' = None" and "ap_send a' = None \<longleftrightarrow> ap_send a = None"
    and "ap_picker a = None \<longrightarrow> ap_pending a' = None \<and> ap_receive a' = None"
proof -
  obtain a' acts quit where step: "app_step env (In_Key key) a = (a', acts, quit)"
    by (metis prod_cases3)
  then have c: "handle_ctrl_c env a = (a', acts, quit)"
    using assms by (simp add: app_step_def handle_key_ctrl_c)
  show thesis
    by (rule that [of a' acts])
      (use step step_quits [OF step] assms c ctrl_c_frame [of env a] ctrl_c_clears [of a env]
        ctrl_c_no_hang [of env a] in auto)
qed

text \<open>
  Ctrl+C pressed three times ends the client exactly when no send is running: the first closes the picker, the
  second declines the request that is shown and cancels the transfer that is received, the third finds nothing
  left; a send stays until its task reports its end.
\<close>

theorem three_ctrl_c_quit:
  assumes "ctrl_c key"
  shows "snd (snd (app_run [(e1, In_Key key), (e2, In_Key key), (e3, In_Key key)] a)) \<longleftrightarrow> ap_send a = None"
proof -
  obtain a1 acts1 where 1: "app_step e1 (In_Key key) a = (a1, acts1,
       ap_picker a = None \<and> ap_pending a = None \<and> ap_send a = None \<and> ap_receive a = None)"
    "No_Return \<notin> set acts1" "ap_picker a1 = None" "ap_send a1 = None \<longleftrightarrow> ap_send a = None"
    "ap_picker a = None \<longrightarrow> ap_pending a1 = None \<and> ap_receive a1 = None"
    by (rule ctrl_c_step [OF assms, of e1 a])
  obtain a2 acts2 where 2: "app_step e2 (In_Key key) a1 = (a2, acts2,
       ap_picker a1 = None \<and> ap_pending a1 = None \<and> ap_send a1 = None \<and> ap_receive a1 = None)"
    "No_Return \<notin> set acts2" "ap_picker a2 = None" "ap_send a2 = None \<longleftrightarrow> ap_send a1 = None"
    "ap_picker a1 = None \<longrightarrow> ap_pending a2 = None \<and> ap_receive a2 = None"
    by (rule ctrl_c_step [OF assms, of e2 a1])
  obtain a3 acts3 where 3: "app_step e3 (In_Key key) a2 = (a3, acts3,
       ap_picker a2 = None \<and> ap_pending a2 = None \<and> ap_send a2 = None \<and> ap_receive a2 = None)"
    by (rule ctrl_c_step [OF assms, of e3 a2])
  show ?thesis using 1 2 3 by (auto simp: Let_def)
qed

lemma send_stays:
  assumes "ap_send a \<noteq> None" and "input \<noteq> In_Send_Ended" and "app_step env input a = (a', acts, quit)"
  shows "ap_send a' \<noteq> None \<and> \<not> quit"
proof
  show "\<not> quit" using step_quits [OF assms(3)] assms(1) by simp
  show "ap_send a' \<noteq> None"
  proof (cases input)
    case (In_Key key)
    then have key: "handle_key env key a = (a', acts, quit)" using assms(3) by (simp add: app_step_def)
    have picker: "ap_send (fst (handle_picker_key env key a)) \<noteq> None"
      using assms(1) by (auto simp: handle_picker_key_def start_send_def Let_def
          split: option.splits prod.splits picker_outcome.splits)
    show ?thesis
      by (cases rule: handle_key_cases [of key env a])
        (use key assms(1) picker in \<open>auto dest!: arg_cong [of _ _ fst]\<close>)
  next
    case (In_Server event)
    then show ?thesis using assms server_event_frame(3) [of env event a] by (simp add: step_server)
  qed (use assms in \<open>auto simp: app_step_def step_multicast handle_multicast_def split: option.splits if_splits\<close>)
qed

text \<open>
  Once a send runs, the client does not quit, whatever is typed and whatever happens, until the task reports its
  end. Together with a task that panics (\<open>unknown_file_silences_task\<close>) this makes a client that only a
  kill ends.
\<close>

theorem no_quit_before_send_ended:
  assumes "ap_send a \<noteq> None" and "list_all (\<lambda>i. i \<noteq> In_Send_Ended) (map snd inputs)"
  shows "\<not> snd (snd (app_run inputs a)) \<and> ap_send (fst (app_run inputs a)) \<noteq> None"
  using assms
proof (induction inputs arbitrary: a)
  case (Cons x inputs)
  obtain env input where x: "x = (env, input)" by (cases x)
  obtain a1 acts1 quit1 where step: "app_step env input a = (a1, acts1, quit1)" by (metis prod_cases3)
  have stay: "ap_send a1 \<noteq> None \<and> \<not> quit1" using send_stays [OF Cons.prems(1) _ step] Cons.prems(2) by (simp add: x)
  then show ?case using Cons.IH [of a1] Cons.prems(2) by (auto simp: x step Let_def split: prod.splits)
qed simp

section \<open>The end of a receive session\<close>

text \<open>No session stays once its end is reported and no result is awaited.\<close>

definition receive_settled :: "app \<Rightarrow> bool" where
  "receive_settled a \<longleftrightarrow> (\<forall>s. ap_receive a = Some s \<longrightarrow> rs_ended s = None \<or> rs_in_progress s \<noteq> [])"

lemma settled_cong: "ap_receive a' = ap_receive a \<Longrightarrow> receive_settled a' = receive_settled a"
  by (simp add: receive_settled_def)

lemma settled_finish [simp]: "receive_settled (finish_receive_if_done env a)"
  by (auto simp: receive_settled_def finish_receive_if_done_def split: option.splits)

lemma settled_new [simp]: "receive_settled (a\<lparr>ap_receive := Some (receive_session_new sid al sd fs)\<rparr>)"
  by (simp add: receive_settled_def receive_session_new_def)

lemma settled_result: "receive_settled a \<Longrightarrow> receive_settled (receive_file_result env sid f r a)"
  by (auto simp: receive_file_result_def Let_def split: option.split)

lemma settled_simps [simp]:
  "receive_settled (log_line c t a) = receive_settled a"
  "receive_settled (a\<lparr>ap_pending := p\<rparr>) = receive_settled a"
  "receive_settled (a\<lparr>ap_send := sn\<rparr>) = receive_settled a"
  "receive_settled (a\<lparr>ap_picker := pk\<rparr>) = receive_settled a"
  "receive_settled (pair_sender env pe a) = receive_settled a"
  "receive_settled (device_up al h po pr fp a) = receive_settled a"
  by (simp_all add: receive_settled_def)

lemma hm_put_not_Nil [simp]: "hm_put k v m \<noteq> []"
  by (induction m) auto

lemma hm_upd_Nil [simp]: "hm_upd k f m = [] \<longleftrightarrow> m = []"
  by (cases m) auto

lemma settled_upload: "receive_settled a \<Longrightarrow> receive_settled (fst (handle_file_upload env sid f d a))"
  by (auto simp: handle_file_upload_def receive_settled_def split: option.split run.split)

lemma settled_answer: "receive_settled a \<Longrightarrow> receive_settled (fst (answer_pending env w a))"
  by (simp add: answer_pending_def Let_def split: option.split answer.split)

lemma settled_prepare: "receive_settled a \<Longrightarrow> receive_settled (fst (on_prepare_upload env sid ip info cert files a))"
  by (simp add: on_prepare_upload_def Let_def split: option.split)

lemma settled_event: "receive_settled a \<Longrightarrow> receive_settled (fst (handle_server_event env event a))"
  by (simp add: handle_server_event_def settled_upload settled_prepare split: server_event.split option.split)

lemma settled_step:
  assumes "receive_settled a" and "app_step env input a = (a', acts, quit)"
  shows "receive_settled a'"
proof (cases input)
  case (In_Key key)
  then have a': "a' = fst (handle_key env key a)" using assms(2) by (simp add: app_step_def)
  show ?thesis unfolding a'
    by (cases rule: handle_key_cases [of key env a])
      (use assms(1) settled_answer in \<open>auto simp: handle_ctrl_c_eq receive_settled_def Let_def\<close>)
next
  case (In_Server event)
  then show ?thesis using assms settled_event by (auto simp: step_server)
next
  case (In_Multicast e)
  then show ?thesis using assms by (auto simp: step_multicast)
next
  case (In_Progress sid f n)
  then show ?thesis using assms
    by (auto simp: app_step_def my_session_def receive_settled_def split: option.splits if_splits)
qed (use assms in \<open>auto simp: app_step_def settled_result split: option.splits\<close>)

lemma settled_before: "app_before inputs (app_start storage fs) a \<Longrightarrow> receive_settled a"
  by (erule app_invariant) (simp add: app_start_def receive_settled_def, use settled_step in blast)

text \<open>The reports that do not touch the receive session, or only about this one's files and its end.\<close>

fun about_session :: "string \<Rightarrow> app_input \<Rightarrow> bool" where
  "about_session sid (In_File_Result sid' f r) \<longleftrightarrow> sid' = sid"
| "about_session sid (In_Server event) \<longleftrightarrow> (case event of Ev_Session_End sid' _ \<Rightarrow> sid' = sid | _ \<Rightarrow> False)"
| "about_session sid (In_Key key) \<longleftrightarrow> False"
| "about_session sid _ \<longleftrightarrow> True"

definition result_in :: "string \<Rightarrow> app_input list \<Rightarrow> string \<Rightarrow> bool" where
  "result_in sid inputs f \<longleftrightarrow> list_ex (\<lambda>i. case i of In_File_Result sid' f' _ \<Rightarrow> sid' = sid \<and> f' = f | _ \<Rightarrow> False) inputs"

definition end_in :: "string \<Rightarrow> app_input list \<Rightarrow> bool" where
  "end_in sid inputs \<longleftrightarrow>
     list_ex (\<lambda>i. case i of In_Server (Ev_Session_End sid' _) \<Rightarrow> sid' = sid | _ \<Rightarrow> False) inputs"

lemma reports_Nil [simp]: "\<not> result_in sid [] f" "\<not> end_in sid []"
  by (simp_all add: result_in_def end_in_def)

lemma reports_Cons:
  "result_in sid (i # inputs) f \<longleftrightarrow> (\<exists>r. i = In_File_Result sid f r) \<or> result_in sid inputs f"
  "end_in sid (i # inputs) \<longleftrightarrow> (\<exists>r. i = In_Server (Ev_Session_End sid r)) \<or> end_in sid inputs"
  by (auto simp: result_in_def end_in_def split: app_input.splits server_event.splits)

text \<open>What is still to come closes the session.\<close>

definition awaits :: "string \<Rightarrow> app_input list \<Rightarrow> receive_session option \<Rightarrow> bool" where
  "awaits sid inputs receive \<longleftrightarrow>
     (\<forall>s. receive = Some s \<longrightarrow> rs_session_id s = sid \<and> (rs_ended s \<noteq> None \<or> end_in sid inputs) \<and>
        (\<forall>f. hm_get (rs_in_progress s) f \<noteq> None \<longrightarrow> result_in sid inputs f))"

definition closing :: "string \<Rightarrow> app_input list \<Rightarrow> app \<Rightarrow> bool" where
  "closing sid inputs a \<longleftrightarrow> receive_settled a \<and> awaits sid inputs (ap_receive a)"

lemma awaits_None [simp]: "awaits sid inputs None"
  by (simp add: awaits_def)

lemma closing_finish: "awaits sid inputs (ap_receive a) \<Longrightarrow> closing sid inputs (finish_receive_if_done env a)"
  by (simp add: closing_def, auto simp: finish_receive_if_done_def split: option.split)

lemma closing_Nil: "closing sid [] a \<Longrightarrow> ap_receive a = None"
proof (rule ccontr)
  assume closing: "closing sid [] a" and "ap_receive a \<noteq> None"
  then obtain s where s: "ap_receive a = Some s" by blast
  then have "rs_in_progress s \<noteq> []" using closing by (auto simp: closing_def receive_settled_def awaits_def)
  then obtain f n rest where "rs_in_progress s = (f, n) # rest" by (metis neq_Nil_conv surj_pair)
  then show False using closing s by (auto simp: closing_def awaits_def split: if_splits)
qed

lemma closing_result:
  assumes "awaits sid (In_File_Result sid f r # inputs) (ap_receive a)"
  shows "closing sid inputs (receive_file_result env sid f r a)"
proof (cases "ap_receive a")
  case None
  then show ?thesis by (simp add: receive_file_result_def my_session_def closing_def receive_settled_def)
next
  case (Some s)
  then have sid: "rs_session_id s = sid" and ended: "rs_ended s \<noteq> None \<or> end_in sid inputs"
      and rest: "\<And>g. hm_get (rs_in_progress s) g \<noteq> None \<Longrightarrow> g = f \<or> result_in sid inputs g"
    using assms by (auto simp: awaits_def reports_Cons)
  then have "awaits sid inputs (Some (s\<lparr>rs_in_progress := hm_del f (rs_in_progress s), rs_finished_files := x,
      rs_finalized_bytes := y\<rparr>))" "awaits sid inputs (Some (s\<lparr>rs_in_progress := hm_del f (rs_in_progress s),
      rs_failed_files := x\<rparr>))" for x y
    by (auto simp: awaits_def)
  then show ?thesis
    by (simp add: receive_file_result_def my_session_def Some sid Let_def closing_finish split: sum.split)
qed

lemma closing_end:
  assumes "awaits sid (In_Server (Ev_Session_End sid reason) # inputs) (ap_receive a)"
  shows "closing sid inputs (fst (handle_server_event env (Ev_Session_End sid reason) a))"
proof (cases "ap_receive a")
  case None
  then show ?thesis by (simp add: handle_server_event_def my_session_def closing_def receive_settled_def)
next
  case (Some s)
  then have sid: "rs_session_id s = sid" and "awaits sid inputs (Some (s\<lparr>rs_ended := Some reason\<rparr>))"
    using assms by (auto simp: awaits_def reports_Cons)
  then show ?thesis by (simp add: handle_server_event_def my_session_def Some sid closing_finish)
qed

lemma closing_step:
  assumes closing: "closing sid (input # inputs) a" and about: "about_session sid input"
    and step: "app_step env input a = (a', acts, quit)"
  shows "closing sid inputs a' \<and> \<not> quit \<and> No_Return \<notin> set acts"
proof -
  have waits: "awaits sid (input # inputs) (ap_receive a)" using closing by (simp add: closing_def)
  have same: "closing sid inputs a'"
    if "ap_receive a' = ap_receive a" and "\<And>f r. input \<noteq> In_File_Result sid f r"
      and "\<And>r. input \<noteq> In_Server (Ev_Session_End sid r)"
    using that closing by (simp add: closing_def settled_cong [of a' a] awaits_def reports_Cons)
  show ?thesis
  proof (cases input)
    case (In_File_Result sid' f r)
    then show ?thesis using about step closing_result [of sid f r inputs a env] waits by (auto simp: app_step_def)
  next
    case (In_Server event)
    then obtain reason where event: "event = Ev_Session_End sid reason"
      using about by (cases event) auto
    then have "snd (handle_server_event env event a) = []"
      by (simp add: handle_server_event_def split: option.split)
    then show ?thesis using closing_end [of sid reason inputs a env] waits step
      by (auto simp: step_server In_Server event)
  next
    case (In_Progress sid' f n)
    then show ?thesis using step waits closing
      by (auto simp: app_step_def closing_def awaits_def reports_Cons my_session_def receive_settled_def
          split: option.splits if_splits)
  next
    case (In_Multicast e)
    moreover have "No_Return \<notin> set (snd (handle_multicast e a))" by (simp add: handle_multicast_def)
    ultimately show ?thesis using step same by (auto simp: step_multicast)
  qed (use step about same in \<open>auto simp: app_step_def split: option.splits\<close>)
qed

text \<open>
  C12: When the server has reported the end of a session, or will, and every file in progress reports its result,
  then the session is closed, in whatever order the reports come and whatever other reports come between.
\<close>

theorem receive_session_closes:
  assumes "app_before inputs (app_start storage fs) a" and "ap_receive a = Some s"
    and "list_all (about_session (rs_session_id s)) (map snd later)"
    and "rs_ended s \<noteq> None \<or> end_in (rs_session_id s) (map snd later)"
    and "list_all (result_in (rs_session_id s) (map snd later)) (map fst (rs_in_progress s))"
  shows "ap_receive (fst (app_run later a)) = None"
proof -
  have run: "ap_receive (fst (app_run later a)) = None"
    if "closing sid (map snd later) a" and "list_all (about_session sid) (map snd later)" for sid a
    using that
  proof (induction later arbitrary: a)
    case Nil
    then show ?case using closing_Nil by simp
  next
    case (Cons x later)
    obtain env input where x: "x = (env, input)" by (cases x)
    obtain a1 acts quit where step: "app_step env input a = (a1, acts, quit)" by (metis prod_cases3)
    from closing_step [OF _ _ step, of sid "map snd later"] Cons show ?case
      by (simp add: x step Let_def case_prod_beta)
  qed
  show ?thesis
    by (rule run [of "rs_session_id s"])
      (use assms settled_before [OF assms(1)] in
        \<open>auto simp: closing_def awaits_def list_all_iff dest!: hm_get_in_set\<close>)
qed

section \<open>Runs\<close>

definition sample_app_env :: app_env where
  "sample_app_env =
     \<lparr>ae_waiting = \<lambda>_. True, ae_overflow_checks = True, ae_exists = \<lambda>_. False, ae_metadata = \<lambda>_. Some 2, ae_uuid = \<lambda>_. ''u'',
      ae_mime = \<lambda>_. ''text/plain'',
      ae_explorer = Inr \<lparr>ex_cwd = ''/'', ex_files = [\<lparr>ef_name = [97], ef_path = ''/a'', ef_is_dir = False\<rparr>],
        ex_selected = 0\<rparr>,
      ae_nav = \<lambda>_ e. e, ae_lowercase = \<lambda>c. c, ae_store = sample_store, ae_show_bytes = \<lambda>_. ''bytes'',
      ae_show_store_error = \<lambda>_. ''error'', ae_elapsed = 3\<rparr>"

definition sample_repository :: repository where
  "sample_repository = \<lparr>re_dir = ''/c'', re_destination = ''/d'', re_identity = sample_identity,
     re_paired = \<lparr>pa_path = ''/c/paired.json'', pa_devices = []\<rparr>\<rparr>"

abbreviation typed_char :: "nat \<Rightarrow> app_input" where
  "typed_char c \<equiv> In_Key \<lparr>ke_code = Key_Char c, ke_control = False, ke_alt = False\<rparr>"

definition sample_sender :: register_dto_v2 where
  "sample_sender = \<lparr>rd_alias = ''Phone'', rd_version = ''2.1'', rd_device_model = None, rd_device_type = None,
     rd_fingerprint = ''AA'', rd_port = 53317, rd_protocol = Https, rd_download = False\<rparr>"

definition sample_sender_ip :: peer_ip where
  "sample_sender_ip = \<lparr>p_ip = V4 10 0 0 3, p_scope_id = None\<rparr>"

definition sample_asked :: "(app_env \<times> app_input) list" where
  "sample_asked = [(sample_app_env, In_Server (Ev_Prepare_Upload ''s'' sample_sender_ip sample_sender None sample_offer))]"

lemma app_before_single:
  "app_step env input a0 = (a, acts, False) \<Longrightarrow> No_Return \<notin> set acts \<Longrightarrow> app_before [(env, input)] a0 a"
  by (simp add: app_before_def)

lemma app_before_further:
  "app_before inputs a0 a1 \<Longrightarrow> app_step env input a1 = (a, acts, False) \<Longrightarrow> No_Return \<notin> set acts \<Longrightarrow>
   app_before (inputs @ [(env, input)]) a0 a"
  by (auto simp: app_before_def app_run_append)

lemma asked:
  obtains a p where "app_before sample_asked (app_start sample_repository empty_fs) a" and "ap_picker a = None"
    and "ap_pending a = Some p" and "pe_session_id p = ''s''" and "pe_files p = sample_offer"
proof -
  let ?a0 = "app_start sample_repository empty_fs"
  let ?r = "on_prepare_upload sample_app_env ''s'' sample_sender_ip sample_sender None sample_offer ?a0"
  have step: "app_step sample_app_env (In_Server (Ev_Prepare_Upload ''s'' sample_sender_ip sample_sender None sample_offer)) ?a0 =
      (fst ?r, snd ?r, False)"
    by (simp add: step_server handle_server_event_def)
  have new: "\<not> paired_contains (rd_fingerprint sample_sender) (re_paired sample_repository)"
    by (simp add: sample_repository_def paired_contains_def)
  show thesis
  proof (rule that [of "fst ?r" "the (ap_pending (fst ?r))"])
    show "app_before sample_asked ?a0 (fst ?r)" unfolding sample_asked_def
      by (rule app_before_single [OF step]) (use new in \<open>simp add: on_prepare_upload_def Let_def app_start_def\<close>)
    show "ap_picker (fst ?r) = None" by (simp add: app_start_def)
  qed (use new in \<open>simp_all add: on_prepare_upload_def Let_def app_start_def\<close>)
qed

theorem accepted_only_with_consent_witness:
  "\<exists>a a' acts. app_step sample_app_env (typed_char 121) a = (a', acts, False) \<and>
    Decide ''s'' (Accept [''f1'']) \<in> set acts \<and>
    (\<exists>fingerprint files. [''f1''] = map fst files \<and>
       offered (map snd sample_asked @ [typed_char 121]) ''s'' fingerprint files)"
proof -
  obtain a p where before: "app_before sample_asked (app_start sample_repository empty_fs) a"
      and a: "ap_picker a = None" "ap_pending a = Some p" "pe_session_id p = ''s''" "pe_files p = sample_offer"
    by (rule asked)
  have "\<exists>a' acts. app_step sample_app_env (typed_char 121) a = (a', acts, False) \<and>
      Decide ''s'' (Accept [''f1'']) \<in> set acts"
    using a by (simp add: app_step_def handle_key_answer answer_key_def ctrl_c_def lower_ascii_def answer_pending_def
        Let_def sample_app_env_def sample_offer_def)
  then obtain a' acts where step: "app_step sample_app_env (typed_char 121) a = (a', acts, False)"
      and accept: "Decide ''s'' (Accept [''f1'']) \<in> set acts" by blast
  from accepted_only_with_consent [OF before step accept] obtain fingerprint files where
    "[''f1''] = map fst files" and "offered (map snd sample_asked @ [typed_char 121]) ''s'' fingerprint files"
    by (elim exE conjE) (rule that)
  with step accept show ?thesis by (intro exI conjI) (assumption | rule)+
qed

definition sample_picking :: "(app_env \<times> app_input) list" where
  "sample_picking = [(sample_app_env, In_Device_Up ''Phone'' ''10.0.0.3'' 53317 Https ''AA''),
     (sample_app_env, typed_char 49)]"

lemma picking:
  "\<exists>a a' acts. app_before sample_picking (app_start sample_repository empty_fs) a \<and>
     app_step sample_app_env (In_Key \<lparr>ke_code = Key_Enter, ke_control = False, ke_alt = False\<rparr>) a = (a', acts, False) \<and>
     (\<exists>d files paths. Spawn_Send d files paths \<in> set acts)"
proof -
  let ?a0 = "app_start sample_repository empty_fs"
  let ?a1 = "device_up ''Phone'' ''10.0.0.3'' 53317 Https ''AA'' ?a0"
  let ?a2 = "start_picking sample_app_env 1 ?a1"
  let ?enter = "\<lparr>ke_code = Key_Enter, ke_control = False, ke_alt = False\<rparr>"
  have none: "ap_picker ?a1 = None" by (simp add: app_start_def)
  have step1: "app_step sample_app_env (In_Device_Up ''Phone'' ''10.0.0.3'' 53317 Https ''AA'') ?a0 = (?a1, [], False)"
    by (simp add: app_step_def)
  have step2: "app_step sample_app_env (typed_char 49) ?a1 = (?a2, [], False)"
    using none by (simp add: app_step_def handle_key_def lower_ascii_def)
  have "app_before [(sample_app_env, In_Device_Up ''Phone'' ''10.0.0.3'' 53317 Https ''AA'')] ?a0 ?a1"
    by (rule app_before_single [OF step1]) simp
  from app_before_further [OF this step2] have before: "app_before sample_picking ?a0 ?a2"
    by (simp add: sample_picking_def)
  obtain d where slot: "by_slot 1 (ap_registry ?a1) = Some d"
    by (simp add: device_up_def upsert_def app_start_def sample_repository_def sample_identity_def free_slot_def
        SLOTS_def by_slot_def Let_def log_line_def)
  then have picker: "ap_picker ?a2 = Some (picker_open (\<lambda>c. c) 1 \<lparr>ex_cwd = ''/'',
      ex_files = [\<lparr>ef_name = [97], ef_path = ''/a'', ef_is_dir = False\<rparr>], ex_selected = 0\<rparr>)"
    by (simp add: start_picking_def sample_app_env_def app_start_def)
  have "fst (picker_handle_key (\<lambda>c. c) (\<lambda>_ e. e) ?enter (picker_open (\<lambda>c. c) 1 \<lparr>ex_cwd = ''/'',
      ex_files = [\<lparr>ef_name = [97], ef_path = ''/a'', ef_is_dir = False\<rparr>], ex_selected = 0\<rparr>)) = Picked [''/a'']"
    and slot': "pk_slot (picker_open (\<lambda>c. c) 1 \<lparr>ex_cwd = ''/'',
      ex_files = [\<lparr>ef_name = [97], ef_path = ''/a'', ef_is_dir = False\<rparr>], ex_selected = 0\<rparr>) = 1"
    by (code_simp, code_simp)
  then obtain p' where outcome: "picker_handle_key (\<lambda>c. c) (\<lambda>_ e. e) ?enter (picker_open (\<lambda>c. c) 1 \<lparr>ex_cwd = ''/'',
      ex_files = [\<lparr>ef_name = [97], ef_path = ''/a'', ef_is_dir = False\<rparr>], ex_selected = 0\<rparr>) = (Picked [''/a''], p')"
    by (metis prod.collapse)
  have "ap_registry ?a2 = ap_registry ?a1" by (simp add: start_picking_def split: option.split sum.split)
  then have "\<exists>d files paths. Spawn_Send d files paths \<in> set (snd (handle_picker_key sample_app_env ?enter ?a2))"
    using slot slot' picker outcome
    by (simp add: handle_picker_key_def sample_app_env_def start_send_def Let_def)
  moreover have "app_step sample_app_env (In_Key ?enter) ?a2 =
      (fst (handle_picker_key sample_app_env ?enter ?a2), snd (handle_picker_key sample_app_env ?enter ?a2), False)"
    using handle_key_picker [of ?enter ?a2 sample_app_env] picker by (simp add: app_step_def ctrl_c_def)
  ultimately show ?thesis using before by blast
qed

theorem one_send_to_the_chosen_device_witness:
  "\<exists>a d chosen. app_before sample_picking (app_start sample_repository empty_fs) a \<and> ap_send a = None \<and>
     picker_opened (app_start sample_repository empty_fs) sample_picking 1 chosen \<and>
     by_slot 1 (ap_registry a) = Some d \<and> dev_fingerprint d = dev_fingerprint chosen"
proof -
  obtain a a' acts d files paths where run: "app_before sample_picking (app_start sample_repository empty_fs) a"
      "app_step sample_app_env (In_Key \<lparr>ke_code = Key_Enter, ke_control = False, ke_alt = False\<rparr>) a = (a', acts, False)"
      "Spawn_Send d files paths \<in> set acts" using picking by blast
  from one_send_to_the_chosen_device [OF run] obtain slot chosen where "ap_send a = None"
      and opened: "picker_opened (app_start sample_repository empty_fs) sample_picking slot chosen"
      and "by_slot slot (ap_registry a) = Some d" "dev_fingerprint d = dev_fingerprint chosen" by blast
  moreover from opened have "slot = 1"
    by (auto simp: picker_opened_def sample_picking_def digit_slot_def Cons_eq_append_conv split: if_splits)
  ultimately show ?thesis using run(1) by blast
qed

theorem three_ctrl_c_quit_witness:
  "snd (snd (app_run (replicate 3 (sample_app_env, In_Key \<lparr>ke_code = Key_Char 99, ke_control = True, ke_alt = False\<rparr>))
     (app_start sample_repository empty_fs)))"
  using three_ctrl_c_quit [of "\<lparr>ke_code = Key_Char 99, ke_control = True, ke_alt = False\<rparr>" sample_app_env
      sample_app_env sample_app_env "app_start sample_repository empty_fs"]
  by (simp add: ctrl_c_def numeral_3_eq_3 app_start_def)

abbreviation sending_app :: app where
  "sending_app \<equiv> (app_start sample_repository empty_fs)\<lparr>ap_send := Some \<lparr>sn_session_id = None, sn_alias = ''Phone'',
     sn_host = ''10.0.0.3'', sn_total_bytes = 2, sn_cancelled = False, sn_by_peer = False\<rparr>\<rparr>"

theorem no_quit_before_send_ended_witness:
  "\<not> snd (snd (app_run (replicate 5 (sample_app_env, In_Key \<lparr>ke_code = Key_Char 99, ke_control = True, ke_alt = False\<rparr>))
     sending_app))"
  using no_quit_before_send_ended [of sending_app "replicate 5 (sample_app_env,
      In_Key \<lparr>ke_code = Key_Char 99, ke_control = True, ke_alt = False\<rparr>)"]
  by (simp add: list_all_iff)

text \<open>A session that is being received, with one file announced.\<close>

definition sample_receiving :: app where
  "sample_receiving = (app_start sample_repository empty_fs)\<lparr>ap_receive := Some
     (receive_session_new ''s'' ''Phone'' \<lparr>sd_host = ''10.0.0.3'', sd_port = 53317, sd_protocol = Https,
       sd_fingerprint = ''AA''\<rparr> sample_offer)\<rparr>"

abbreviation one_file :: file_dto where
  "one_file \<equiv> snd (hd sample_offer)"

text \<open>
  A sender that tries a file again before the first attempt has reported: the report of the first removes the entry
  of the second, so the summary counts no file, and the success of the second finds no session.
\<close>

lemma late_result_lost:
  "let run = \<lambda>inputs. fst (app_run (map (Pair sample_app_env) inputs) sample_receiving);
       before = [In_Server (Ev_File_Upload ''s'' ''f1'' one_file), In_Server (Ev_File_Upload ''s'' ''f1'' one_file),
         In_File_Result ''s'' ''f1'' (Inl ''reset''), In_Server (Ev_Session_End ''s'' End_Finished)]
   in ap_receive (run before) = None \<and>
      last (ap_log (run before)) = (Receive, ''Phone: Received 0 files (bytes, took 3s), 1 failed'') \<and>
      ap_log (run (before @ [In_File_Result ''s'' ''f1'' (Inr ())])) = ap_log (run before)"
  by code_simp

text \<open>
  A request to send is enough to move a known device: the registry takes the address and the protocol of the
  request under the fingerprint the request states, not the one of its certificate. A send to that number then goes
  to the new address, over HTTP with no certificate pinned.
\<close>

lemma unproven_request_moves_device:
  "by_slot 1 (ap_registry (fst (app_run (map (Pair sample_app_env)
       [In_Device_Up ''Phone'' ''10.0.0.3'' 53317 Https ''AA'',
        In_Server (Ev_Prepare_Upload ''s'' \<lparr>p_ip = V4 10 0 0 9, p_scope_id = None\<rparr>
          (sample_sender\<lparr>rd_protocol := Http\<rparr>) (Some ''EE'') sample_offer)])
      (app_start sample_repository empty_fs)))) =
     Some \<lparr>dev_slot = Some 1, dev_alias = ''Phone'', dev_host = ''10.0.0.9'', dev_port = 53317,
       dev_protocol = Http, dev_fingerprint = ''AA''\<rparr> \<and>
   pinned_fingerprint Http ''AA'' = None"
  by code_simp

text \<open>
  Two files of the same name that are announced before the first exists on disk are given the same path.
\<close>

lemma same_name_same_path:
  assumes "handle_file_upload env1 sid f file a = (a1, [Give_Target sid f p])"
    and "handle_file_upload env2 sid g file' a1 = (a2, [Give_Target sid g q])"
    and "path_file_name (fd_file_name file') = path_file_name (fd_file_name file)" and "ae_exists env2 = ae_exists env1"
    and "ae_overflow_checks env2 = ae_overflow_checks env1"
  shows "q = p"
proof -
  have path: "unique_path (ae_overflow_checks env) (ae_exists env) (re_destination (ap_storage a)) (fd_file_name file) =
      Some (Done p)"
    if "handle_file_upload env sid f file a = (a', [Give_Target sid f p])" for env a a' f "file" p
    using that by (auto simp: handle_file_upload_def split: option.splits run.splits)
  have "ap_storage a1 = ap_storage a" using file_upload_frame(1) [of env1 sid f "file" a] assms(1) by simp
  with path [OF assms(1)] path [OF assms(2)] show ?thesis using assms(3-5) by (simp add: unique_path_def)
qed

theorem receive_session_closes_witness:
  "\<exists>a s. ap_receive a = Some s \<and> ap_receive (fst (app_run
     [(sample_app_env, In_Server (Ev_Session_End ''s'' End_Finished)), (sample_app_env, In_Log Discovery ''hello'')] a)) = None"
proof -
  obtain a p where before: "app_before sample_asked (app_start sample_repository empty_fs) a"
      and a: "ap_picker a = None" "ap_pending a = Some p" "pe_session_id p = ''s''" "pe_files p = sample_offer"
    by (rule asked)
  let ?s = "receive_session_new ''s'' (pe_alias p) (pe_sender p) sample_offer"
  obtain a1 acts where step: "app_step sample_app_env (typed_char 121) a = (a1, acts, False)" "No_Return \<notin> set acts"
      "ap_receive a1 = Some ?s"
    using a by (simp add: app_step_def handle_key_answer answer_key_def ctrl_c_def lower_ascii_def answer_pending_def
        Let_def sample_app_env_def)
  have "ap_receive (fst (app_run
     [(sample_app_env, In_Server (Ev_Session_End ''s'' End_Finished)), (sample_app_env, In_Log Discovery ''hello'')] a1)) = None"
    by (rule receive_session_closes [OF app_before_further [OF before step(1,2)] step(3)])
      (simp_all add: receive_session_new_def end_in_def)
  then show ?thesis using step(3) by blast
qed

end
