(* ===== verification/Cli_Consent.thy ===== *)
theory Cli_Consent
  imports Cli_App_Safety Upload_Contract
begin

text \<open>
  The command line client and the server together: the server asks the application by an event and waits
  for its decision, the loop of the client gives it. What the server then opens for uploads, it opens with consent.
\<close>

text \<open>What the handler of a request gets from the client: its decision, or a channel that is dropped.\<close>

fun app_outcome :: "app_action list \<Rightarrow> string \<Rightarrow> decision_outcome" where
  "app_outcome [] sid = Decision_Dropped"
| "app_outcome (act # acts) sid =
     (case act of
        Decide sid' d \<Rightarrow> if sid' = sid then Decided d else app_outcome acts sid
      | Drop_Decision sid' \<Rightarrow> if sid' = sid then Decision_Dropped else app_outcome acts sid
      | _ \<Rightarrow> app_outcome acts sid)"

lemma app_outcome_decided: "app_outcome acts sid = Decided d \<Longrightarrow> Decide sid d \<in> set acts"
  by (induction acts) (auto split: app_action.splits if_splits)

text \<open>Session ids are fresh: the only event of this session is the one of this request.\<close>

definition only_request ::
  "('sk, 'ek, 'rk, 'y) crypto_lib_scheme \<Rightarrow> string \<Rightarrow> request_client_info \<Rightarrow> prepare_upload_request
     \<Rightarrow> app_input list \<Rightarrow> bool" where
  "only_request lib sid ci payload inputs \<longleftrightarrow>
     list_all (\<lambda>i. case i of
         In_Server (Ev_Prepare_Upload sid' ip info cert files) \<Rightarrow>
           sid' = sid \<longrightarrow> Ev_Prepare_Upload sid' ip info cert files = pu_event lib sid ci payload
       | _ \<Rightarrow> True) inputs"

lemma only_request_offered:
  assumes "only_request lib sid ci payload inputs" and "offered inputs' sid fingerprint files"
    and "set inputs' \<subseteq> set inputs"
  shows "files = pr_files payload \<and> fingerprint = request_fingerprint (pr_info payload) (cert_fingerprint lib ci)"
  using assms by (fastforce simp: only_request_def offered_def list_all_iff pu_event_def)

lemma pu_files_all: "map fst (pu_files payload (map fst (pr_files payload)) tok) = map fst (pr_files payload)"
proof -
  have "filter (\<lambda>(id, _). id \<in> set (map fst m)) m = m" for m :: "(string, file_dto) hmap"
    by (auto simp: filter_id_conv intro: rev_image_eqI)
  then show ?thesis by (simp add: pu_files_def comp_def case_prod_beta)
qed

text \<open>
  C1: When the server of the command line client opens a session, it opens it for all files of the request, and the user
  has typed Y or P while this request was the one shown, or its sender was paired: its fingerprint was stored as paired when the
  client started, or the user typed P while a request with this fingerprint was the one shown. The
  fingerprint is that of the certificate of the connection, which the client's server demands; on a
  connection without a certificate it would be the one the request states.
\<close>

theorem session_opened_with_consent:
  assumes "v2_session s = None" and "app_run inputs (app_start storage fs) = (a, acts, quit)"
    and "only_request lib sid ci payload (map snd inputs)"
    and "prepare_upload ops lib query ci (Body_Json payload) sid tok (app_outcome acts sid) s = (Inr response, s')"
    and "rs_status response = 200"
  shows "\<exists>us xs env i ys a1. v2_session s' = Some (Active us) \<and> map fst (us_files us) = map fst (pr_files payload) \<and>
    inputs = xs @ (env, i) # ys \<and> app_before xs (app_start storage fs) a1 \<and>
    ((\<exists>key p. i = In_Key key \<and> answer_key key \<in> {Some Answer_Accept, Some Answer_Accept_And_Pair} \<and>
        ap_picker a1 = None \<and> ap_pending a1 = Some p \<and> pe_session_id p = sid) \<or>
     paired_contains (request_fingerprint (pr_info payload) (cert_fingerprint lib ci)) (re_paired storage) \<or>
     pairing_typed (app_start storage fs) xs (request_fingerprint (pr_info payload) (cert_fingerprint lib ci)))"
proof -
  obtain c where rest: "prepare_upload_rest lib ci (Body_Json payload) sid tok (app_outcome acts sid)
      (s\<lparr>v2_pin_attempts := c\<rparr>) = (Inr response, s')"
    using assms(4) by (auto simp: prepare_upload_guarded split: prod.splits sum.splits)
  have "v2_session (s\<lparr>v2_pin_attempts := c\<rparr>) = None" using assms(1) by simp
  from prepare_upload_rest_free [OF this rest] assms(5) obtain ids where
      outcome: "app_outcome acts sid = Decided (Accept ids)" and
      active: "v2_session s' = Some (Active \<lparr>us_session_id = sid, us_sender_ip = rc_ip ci,
        us_files = pu_files payload ids tok\<rparr>)"
    by (auto simp: empty_response_def)
  from accepted_at [OF assms(2) app_outcome_decided [OF outcome]] obtain xs env i ys a1 a2 acts2 quit2 where
      inputs: "inputs = xs @ (env, i) # ys" and before: "app_before xs (app_start storage fs) a1"
      and step: "app_step env i a1 = (a2, acts2, quit2)" and accept: "Decide sid (Accept ids) \<in> set acts2"
    by blast
  from accept_has_consent [OF before step accept] obtain fingerprint files where
      ids: "ids = map fst files" and offer: "offered (map snd xs @ [i]) sid fingerprint files"
      and consent: "(\<exists>key p. i = In_Key key \<and> ap_picker a1 = None \<and>
          answer_key key \<in> {Some Answer_Accept, Some Answer_Accept_And_Pair} \<and>
          ap_pending a1 = Some p \<and> pe_session_id p = sid) \<or>
        paired_contains fingerprint (re_paired storage) \<or> pairing_typed (app_start storage fs) xs fingerprint"
    by blast
  have same: "files = pr_files payload \<and> fingerprint = request_fingerprint (pr_info payload) (cert_fingerprint lib ci)"
    by (rule only_request_offered [OF assms(3) offer]) (auto simp: inputs)
  then have "map fst (pu_files payload ids tok) = map fst (pr_files payload)" using ids pu_files_all by simp
  moreover have "fingerprint = request_fingerprint (pr_info payload) (cert_fingerprint lib ci)" using same by simp
  ultimately show ?thesis using active inputs before consent by fastforce
qed

text \<open>The user types Y on the request of a client the application has not paired with.\<close>

definition sample_consent :: "(app_env \<times> app_input) list" where
  "sample_consent = [(sample_app_env, In_Server (pu_event sample_lib ''s'' sample_client sample_payload)),
     (sample_app_env, typed_char 121)]"

lemma consent_run:
  "\<exists>a acts. app_run sample_consent (app_start sample_repository empty_fs) = (a, acts, False) \<and>
     app_outcome acts ''s'' = Decided (Accept [''a'', ''b''])"
proof -
  have new: "\<not> paired_contains f (re_paired sample_repository)" for f
    by (simp add: sample_repository_def paired_contains_def)
  show ?thesis
    by (simp add: sample_consent_def pu_event_def app_step_def handle_server_event_def on_prepare_upload_def new Let_def
        handle_key_answer answer_key_def ctrl_c_def lower_ascii_def answer_pending_def app_start_def sample_app_env_def
        sample_payload_def)
qed

theorem session_opened_with_consent_witness:
  "\<exists>us s'. prepare_upload list_lru sample_lib [] sample_client (Body_Json sample_payload) ''s'' (\<lambda>fid. ''t'' @ fid)
      (Decided (Accept [''a'', ''b''])) sample_v2 = 
     (Inr (json_response 200 (Prepare_Upload_Body ''s'' [(''a'', ''ta''), (''b'', ''tb'')])), s') \<and>
    v2_session s' = Some (Active us) \<and> map fst (us_files us) = [''a'', ''b'']"
proof -
  let ?resp = "json_response 200 (Prepare_Upload_Body ''s'' [(''a'', ''ta''), (''b'', ''tb'')])"
  obtain a acts where app: "app_run sample_consent (app_start sample_repository empty_fs) = (a, acts, False)"
      "app_outcome acts ''s'' = Decided (Accept [''a'', ''b''])" using consent_run by blast
  have free: "v2_session sample_v2 = None" by (simp add: sample_v2_def)
  have only: "only_request sample_lib ''s'' sample_client sample_payload (map snd sample_consent)"
    by (simp add: only_request_def sample_consent_def pu_event_def)
  obtain s' where run: "prepare_upload list_lru sample_lib [] sample_client (Body_Json sample_payload) ''s''
      (\<lambda>fid. ''t'' @ fid) (app_outcome acts ''s'') sample_v2 = (Inr ?resp, s')"
    using app(2) by (auto simp: prepare_upload_guarded prepare_upload_rest_def pu_parse_def
        pu_claim_def emit_def pu_files_def pu_tokens_def sample_defs)
  have "rs_status ?resp = 200" by (simp add: json_response_def)
  from session_opened_with_consent [OF free app(1) only run this] obtain us where
      "v2_session s' = Some (Active us)" "map fst (us_files us) = map fst (pr_files sample_payload)" by blast
  then show ?thesis using run app(2) by (auto simp: sample_payload_def)
qed

end
