(* ===== verification/Cli_Status.thy ===== *)
theory Cli_Status
  imports Cli_App
begin

text \<open>
  The status line of the command line client (\<open>cli/src/app/status.rs\<close>) with the texts of sizes, speeds and progress
  (\<open>cli/src/util.rs\<close>). Floating point numbers are an argument: a type with the operations the code uses. The time since
  a meter was last set is an input, as is the width of the terminal.
\<close>

section \<open>Floating point numbers\<close>

text \<open>
  \<open>fl_lit a b\<close> is the literal \<open>a / 10 ^ b\<close>; \<open>fl_to_u64\<close> is the cast, which saturates; \<open>fl_show1\<close> prints one decimal.
\<close>

record 'f f64_lib =
  fl_lit :: "nat \<Rightarrow> nat \<Rightarrow> 'f"
  fl_of_u64 :: "u64 \<Rightarrow> 'f"
  fl_to_u64 :: "'f \<Rightarrow> u64"
  fl_add :: "'f \<Rightarrow> 'f \<Rightarrow> 'f"
  fl_mul :: "'f \<Rightarrow> 'f \<Rightarrow> 'f"
  fl_div :: "'f \<Rightarrow> 'f \<Rightarrow> 'f"
  fl_eq :: "'f \<Rightarrow> 'f \<Rightarrow> bool"
  fl_less :: "'f \<Rightarrow> 'f \<Rightarrow> bool"
  fl_le :: "'f \<Rightarrow> 'f \<Rightarrow> bool"
  fl_max :: "'f \<Rightarrow> 'f \<Rightarrow> 'f"
  fl_clamp :: "'f \<Rightarrow> 'f \<Rightarrow> 'f \<Rightarrow> 'f"
  fl_round :: "'f \<Rightarrow> 'f"
  fl_show1 :: "'f \<Rightarrow> string"

section \<open>Texts\<close>

definition UNITS :: "string list" where
  "UNITS = [''B'', ''KB'', ''MB'', ''GB'', ''TB'']"

function scale_bytes :: "('f, 'y) f64_lib_scheme \<Rightarrow> 'f \<Rightarrow> nat \<Rightarrow> 'f \<times> nat" where
  "scale_bytes fl v unit =
     (if fl_le fl (fl_lit fl 1000 0) v \<and> unit < length UNITS - 1
      then scale_bytes fl (fl_div fl v (fl_lit fl 1000 0)) (Suc unit) else (v, unit))"
  by pat_completeness auto
termination by (relation "measure (\<lambda>(fl, v, unit). length UNITS - unit)") auto

declare scale_bytes.simps [simp del]

definition format_bytes :: "('f, 'y) f64_lib_scheme \<Rightarrow> u64 \<Rightarrow> string" where
  "format_bytes fl bytes =
     (case scale_bytes fl (fl_of_u64 fl bytes) 0 of
        (v, unit) \<Rightarrow>
          if unit = 0 then nat_str 10 (unat bytes) @ '' B'' else fl_show1 fl v @ '' '' @ UNITS ! unit)"

definition format_speed :: "('f, 'y) f64_lib_scheme \<Rightarrow> 'f \<Rightarrow> string" where
  "format_speed fl bytes_per_sec =
     format_bytes fl (fl_to_u64 fl (fl_max fl bytes_per_sec (fl_lit fl 0 0))) @ ''/s''"

text \<open>The subtraction panics when more than the whole bar would be filled.\<close>

definition filled_cells :: "('f, 'y) f64_lib_scheme \<Rightarrow> 'f \<Rightarrow> nat \<Rightarrow> nat" where
  "filled_cells fl fraction width =
     unat (fl_to_u64 fl (fl_round fl
       (fl_mul fl (fl_clamp fl fraction (fl_lit fl 0 0) (fl_lit fl 1 0)) (fl_of_u64 fl (of_nat width)))))"

definition progress_bar :: "('f, 'y) f64_lib_scheme \<Rightarrow> 'f \<Rightarrow> nat \<Rightarrow> string run" where
  "progress_bar fl fraction width =
     (let filled = filled_cells fl fraction width
      in if filled \<le> width then Done (replicate filled (CHR ''#'') @ replicate (width - filled) (CHR ''-''))
         else Panicked)"

text \<open>The smoothed speed; within a tenth of a second it is not computed anew.\<close>

record 'f speed_meter =
  sm_last_bytes :: u64
  sm_ema :: 'f

definition speed_meter_new :: "('f, 'y) f64_lib_scheme \<Rightarrow> 'f speed_meter" where
  "speed_meter_new fl = \<lparr>sm_last_bytes = 0, sm_ema = fl_lit fl 0 0\<rparr>"

definition saturating_sub :: "u64 \<Rightarrow> u64 \<Rightarrow> u64" where
  "saturating_sub a b = (if b \<le> a then a - b else 0)"

definition speed_update ::
  "('f, 'y) f64_lib_scheme \<Rightarrow> 'f \<Rightarrow> u64 \<Rightarrow> 'f speed_meter \<Rightarrow> 'f \<times> 'f speed_meter" where
  "speed_update fl dt bytes_now m =
     (if fl_less fl dt (fl_lit fl 1 1) then (sm_ema m, m)
      else
        (let instantaneous = fl_div fl (fl_of_u64 fl (saturating_sub bytes_now (sm_last_bytes m))) dt;
             ema = (if fl_eq fl (sm_ema m) (fl_lit fl 0 0) then instantaneous
                    else fl_add fl (fl_mul fl (sm_ema m) (fl_lit fl 7 1)) (fl_mul fl instantaneous (fl_lit fl 3 1)))
         in (ema, \<lparr>sm_last_bytes = bytes_now, sm_ema = ema\<rparr>)))"

section \<open>The status line\<close>

definition ascii_chars :: "string \<Rightarrow> chars" where
  "ascii_chars s = map of_char s"

record 'f transfer =
  tf_category :: category
  tf_alias :: chars
  tf_done :: u64
  tf_total :: u64
  tf_speed :: 'f

definition transfer_eta :: "('f, 'y) f64_lib_scheme \<Rightarrow> 'f transfer \<Rightarrow> string" where
  "transfer_eta fl t =
     (if fl_less fl (fl_lit fl 1 0) (tf_speed t) \<and> tf_done t < tf_total t
      then format_duration (fl_to_u64 fl (fl_div fl (fl_of_u64 fl (tf_total t - tf_done t)) (tf_speed t)))
      else ''--'')"

definition transfer_tail :: "('f, 'y) f64_lib_scheme \<Rightarrow> 'f transfer \<Rightarrow> chars" where
  "transfer_tail fl t =
     ascii_chars ('' '' @ format_bytes fl (tf_done t) @ '' / '' @ format_bytes fl (tf_total t) @
       '' ['' @ format_speed fl (tf_speed t) @ ''] [ETA: '' @ transfer_eta fl t @ '']'')"

definition transfer_status ::
  "('f, 'y) f64_lib_scheme \<Rightarrow> (category \<Rightarrow> chars) \<Rightarrow> nat \<Rightarrow> 'f transfer \<Rightarrow> chars run" where
  "transfer_status fl colored_tag width t =
     (let fraction = (if tf_total t = 0 then fl_lit fl 1 0
                      else fl_div fl (fl_of_u64 fl (tf_done t)) (fl_of_u64 fl (tf_total t)));
          tail = transfer_tail fl t;
          bar_width = max (width - (length (tf_alias t) + 5 + length tail)) 10
      in run_bind (progress_bar fl fraction bar_width) (\<lambda>bar.
           Done (colored_tag (tf_category t) @ ascii_chars '' '' @ tf_alias t @ ascii_chars '' ['' @ ascii_chars bar @
             ascii_chars '']'' @ tail)))"

definition SEPARATOR :: chars where
  "SEPARATOR = ascii_chars ''  |  ''"

fun join_chars :: "chars \<Rightarrow> chars list \<Rightarrow> chars" where
  "join_chars sep [] = []"
| "join_chars sep [p] = p"
| "join_chars sep (p # q # ps) = p @ sep @ join_chars sep (q # ps)"

definition part_width :: "nat \<Rightarrow> nat \<Rightarrow> nat" where
  "part_width width n = (width - (1 + length SEPARATOR * (n - 1))) div n"

fun transfer_parts :: "('t \<Rightarrow> chars run) \<Rightarrow> 't list \<Rightarrow> chars list run" where
  "transfer_parts f [] = Done []"
| "transfer_parts f (t # ts) = run_bind (f t) (\<lambda>p. run_bind (transfer_parts f ts) (\<lambda>ps. Done (p # ps)))"

definition status_line ::
  "('f, 'y) f64_lib_scheme \<Rightarrow> (category \<Rightarrow> chars) \<Rightarrow> nat \<Rightarrow> 'f transfer list \<Rightarrow> chars option run" where
  "status_line fl colored_tag width transfers =
     (if transfers = [] then Done None
      else run_bind (transfer_parts (transfer_status fl colored_tag (part_width width (length transfers))) transfers)
        (\<lambda>parts. Done (Some (join_chars SEPARATOR parts))))"

text \<open>
  The transfers that are shown: the receive session and the send, each with its meter and the time since that was set;
  \<open>sent\<close> is the counter of the sending task, \<open>to_chars\<close> the characters of a text.
\<close>

definition receive_transfer ::
  "('f, 'y) f64_lib_scheme \<Rightarrow> (string \<Rightarrow> chars) \<Rightarrow> 'f \<Rightarrow> receive_session \<Rightarrow> 'f speed_meter
     \<Rightarrow> 'f transfer \<times> 'f speed_meter" where
  "receive_transfer fl to_chars dt session meter =
     (let (speed, meter) = speed_update fl dt (done_bytes session) meter
      in (\<lparr>tf_category = Receive, tf_alias = to_chars (rs_alias session), tf_done = done_bytes session,
           tf_total = rs_total_bytes session, tf_speed = speed\<rparr>, meter))"

definition send_transfer ::
  "('f, 'y) f64_lib_scheme \<Rightarrow> (string \<Rightarrow> chars) \<Rightarrow> 'f \<Rightarrow> u64 \<Rightarrow> send_state \<Rightarrow> 'f speed_meter
     \<Rightarrow> 'f transfer \<times> 'f speed_meter" where
  "send_transfer fl to_chars dt sent send meter =
     (let (speed, meter) = speed_update fl dt sent meter
      in (\<lparr>tf_category = Send, tf_alias = to_chars (sn_alias send), tf_done = sent, tf_total = sn_total_bytes send,
           tf_speed = speed\<rparr>, meter))"

record 'f meters =
  mt_receive :: "'f speed_meter"
  mt_send :: "'f speed_meter"

definition shown_transfers ::
  "('f, 'y) f64_lib_scheme \<Rightarrow> (string \<Rightarrow> chars) \<Rightarrow> 'f \<Rightarrow> 'f \<Rightarrow> u64 \<Rightarrow> app \<Rightarrow> 'f meters \<Rightarrow> 'f transfer list \<times> 'f meters" where
  "shown_transfers fl to_chars dt dt' sent a m =
     (let (receiving, m) = (case ap_receive a of
            None \<Rightarrow> ([], m)
          | Some session \<Rightarrow> (let (t, meter) = receive_transfer fl to_chars dt session (mt_receive m)
                             in ([t], m\<lparr>mt_receive := meter\<rparr>)));
          (sending, m) = (case ap_send a of
            None \<Rightarrow> ([], m)
          | Some send \<Rightarrow> (let (t, meter) = send_transfer fl to_chars dt' sent send (mt_send m)
                          in ([t], m\<lparr>mt_send := meter\<rparr>)))
      in (receiving @ sending, m))"

text \<open>A tick: with the picker open it only draws the picker; else it sets the status.\<close>

definition app_tick ::
  "('f, 'y) f64_lib_scheme \<Rightarrow> (category \<Rightarrow> chars) \<Rightarrow> (string \<Rightarrow> chars) \<Rightarrow> nat \<Rightarrow> 'f \<Rightarrow> 'f \<Rightarrow> u64 \<Rightarrow> app
     \<Rightarrow> 'f meters \<times> ui \<Rightarrow> ('f meters \<times> ui) run" where
  "app_tick fl colored_tag to_chars width dt dt' sent a mu =
     (if ap_picker a \<noteq> None then Done mu
      else
        (let (transfers, m) = shown_transfers fl to_chars dt dt' sent a (fst mu)
         in run_bind (status_line fl colored_tag width transfers) (\<lambda>status.
              Done (m, set_status width status (snd mu)))))"


section \<open>Lemmas\<close>

text \<open>
  What is relied on: a bar is never filled beyond its width (the fraction is clamped to the unit interval, and a
  terminal is far below the size from which products are rounded up), numbers are printed without escape sequences, and
  a coloured tag takes one column.
\<close>

definition f64_laws :: "('f, 'y) f64_lib_scheme \<Rightarrow> bool" where
  "f64_laws fl \<longleftrightarrow> (\<forall>x. CHR 0x1B \<notin> set (fl_show1 fl x)) \<and> (\<forall>x w. w < 2 ^ 32 \<longrightarrow> filled_cells fl x w \<le> w)"

definition tag_laws :: "(category \<Rightarrow> chars) \<Rightarrow> bool" where
  "tag_laws colored_tag \<longleftrightarrow> (\<forall>c s. columns (colored_tag c @ s) = Suc (columns s))"

lemma columns_Cons [simp]: "c \<noteq> 27 \<Longrightarrow> columns (c # s) = Suc (columns s)"
  by (simp add: columns_def)

lemma columns_Nil [simp]: "columns [] = 0"
  by (simp add: columns_def)

lemma columns_plain: "27 \<notin> set p \<Longrightarrow> columns (p @ s) = length p + columns s"
  by (induction p) auto

lemma of_char_27: "(of_char c = (27 :: nat)) = (c = CHR 0x1B)"
proof -
  have "of_char (CHR 0x1B) = (27 :: nat)" by simp
  then show ?thesis by (metis of_char_eq_iff)
qed

lemma ascii_plain: "27 \<in> set (ascii_chars s) \<longleftrightarrow> CHR 0x1B \<in> set s"
  by (auto simp: ascii_chars_def of_char_27 image_iff eq_commute [of "27 :: nat"])

lemma length_ascii [simp]: "length (ascii_chars s) = length s"
  by (simp add: ascii_chars_def)


lemma dec_plain [simp]: "CHR 0x1B \<notin> set (nat_str 10 n)"
  using nat_str_digits [of 10 n] by (auto simp: list_all_iff to_digit_def dest!: bspec [of _ _ "CHR 0x1B"])

lemma format_duration_plain [simp]: "CHR 0x1B \<notin> set (format_duration d)"
  by (auto simp: format_duration_def Let_def)

lemma scale_bytes_unit: "scale_bytes fl v unit = (v', unit') \<Longrightarrow> unit < length UNITS \<Longrightarrow> unit' < length UNITS"
  by (induction fl v unit rule: scale_bytes.induct) (subst (asm) (2) scale_bytes.simps, auto split: if_splits)

lemma units_plain: "unit < length UNITS \<Longrightarrow> CHR 0x1B \<notin> set (UNITS ! unit)"
  by (auto simp: UNITS_def less_Suc_eq nth_Cons')

lemma format_bytes_plain: "f64_laws fl \<Longrightarrow> CHR 0x1B \<notin> set (format_bytes fl b)"
  using scale_bytes_unit [of fl "fl_of_u64 fl b" 0] units_plain
  by (cases "scale_bytes fl (fl_of_u64 fl b) 0") (auto simp: format_bytes_def f64_laws_def UNITS_def [THEN arg_cong, of length])

lemma transfer_tail_plain: "f64_laws fl \<Longrightarrow> 27 \<notin> set (transfer_tail fl t)"
  by (auto simp: transfer_tail_def ascii_plain format_bytes_plain format_speed_def transfer_eta_def)

text \<open>A part takes exactly the width it is given, unless its texts with the smallest bar take more.\<close>

definition least_part :: "('f, 'y) f64_lib_scheme \<Rightarrow> 'f transfer \<Rightarrow> nat" where
  "least_part fl t = length (tf_alias t) + length (transfer_tail fl t) + 15"

lemma bar_arith: "l = max (w - (a + 5 + b)) (10 :: nat) \<Longrightarrow> a + b + 5 + l = max w (a + b + 15)"
  unfolding max_def by presburger

lemma transfer_status_columns:
  assumes "f64_laws fl" and "tag_laws colored_tag" and "27 \<notin> set (tf_alias t)"
    and "width < 2 ^ 32"
  shows "\<exists>part. transfer_status fl colored_tag width t = Done part \<and>
    (\<forall>s. columns (part @ s) = max width (least_part fl t) + columns s)"
proof -
  let ?w = "max (width - (length (tf_alias t) + 5 + length (transfer_tail fl t))) 10"
  let ?fraction = "if tf_total t = 0 then fl_lit fl 1 0 else fl_div fl (fl_of_u64 fl (tf_done t)) (fl_of_u64 fl (tf_total t))"
  have "filled_cells fl ?fraction ?w \<le> ?w"
    using assms(1,4) by (auto simp: f64_laws_def)
  then obtain bar where bar: "progress_bar fl ?fraction ?w = Done bar" "length bar = ?w" "CHR 0x1B \<notin> set bar"
    by (auto simp: progress_bar_def Let_def)
  let ?rest = "ascii_chars '' '' @ tf_alias t @ ascii_chars '' ['' @ ascii_chars bar @ ascii_chars '']'' @ transfer_tail fl t"
  have plain: "27 \<notin> set ?rest"
    using assms(3) bar(3) transfer_tail_plain [OF assms(1)] by (auto simp: ascii_plain)
  have "columns ((colored_tag (tf_category t) @ ?rest) @ s) = Suc (length ?rest + columns s)" for s
    using assms(2) columns_plain [OF plain, of s] unfolding tag_laws_def append_assoc by metis
  moreover have "Suc (length ?rest) = max width (least_part fl t)"
    using bar_arith [OF bar(2)] by (simp add: least_part_def)
  ultimately show ?thesis
    using bar(1) by (intro exI [of _ "colored_tag (tf_category t) @ ?rest"]) (simp add: transfer_status_def Let_def)
qed

lemma transfer_parts_columns:
  assumes "\<And>t. t \<in> set ts \<Longrightarrow> \<exists>part. f t = Done part \<and> (\<forall>s. columns (part @ s) = w + columns s)" and "ts \<noteq> []"
  shows "\<exists>parts. transfer_parts f ts = Done parts \<and> length parts = length ts \<and>
    (\<forall>s. columns (join_chars SEPARATOR parts @ s) = length ts * w + (length ts - 1) * length SEPARATOR + columns s)"
  using assms
proof (induction ts)
  case (Cons t ts)
  obtain part where part: "f t = Done part" "\<And>s. columns (part @ s) = w + columns s"
    using Cons.prems(1) [of t] by auto
  show ?case
  proof (cases "ts = []")
    case True
    then show ?thesis using part by simp
  next
    case False
    with Cons.IH Cons.prems(1) obtain parts where parts: "transfer_parts f ts = Done parts" "length parts = length ts"
        "\<And>s. columns (join_chars SEPARATOR parts @ s) = length ts * w + (length ts - 1) * length SEPARATOR + columns s"
      by auto
    then obtain q ps where q: "parts = q # ps" using False by (cases parts) auto
    have "27 \<notin> set SEPARATOR" by (simp add: SEPARATOR_def ascii_plain)
    then have "columns (SEPARATOR @ s) = length SEPARATOR + columns s" for s by (rule columns_plain)
    then have "columns (part @ SEPARATOR @ join_chars SEPARATOR parts @ s) =
        length (t # ts) * w + (length (t # ts) - 1) * length SEPARATOR + columns s" for s
      using part(2) parts(3) False by (cases ts) (auto simp: algebra_simps)
    then show ?thesis using part(1) parts q by simp
  qed
qed simp

lemma truncate_segments_whole:
  "visible + length (filter is_visible ss) \<le> limit \<Longrightarrow> truncate_segments limit visible ss = concat (map segment_text ss)"
  by (induction limit visible ss rule: truncate_segments.induct) auto

lemma truncate_visible_whole: "columns s \<le> limit \<Longrightarrow> truncate_visible s limit = s"
  using truncate_segments_whole [of 0 "segments s" limit] segments_text [of s]
  by (simp add: truncate_visible_def columns_def)


section \<open>Properties\<close>

text \<open>
  The status line fills the terminal and never wraps: when the texts of all transfers, each with the smallest bar, fit
  into their share, the line takes exactly the shares and the separators between them, which is less than the
  width, so that the cut to the width leaves it whole; nothing panics.
\<close>

theorem status_line_fits:
  assumes "f64_laws fl" and "tag_laws colored_tag" and "width < 2 ^ 32" and "transfers \<noteq> []"
    and "list_all (\<lambda>t. 27 \<notin> set (tf_alias t) \<and> least_part fl t \<le> part_width width (length transfers)) transfers"
  shows "\<exists>line. status_line fl colored_tag width transfers = Done (Some line) \<and>
    columns line = length transfers * part_width width (length transfers) + (length transfers - 1) * length SEPARATOR \<and>
    columns line \<le> width - 1 \<and> truncate_visible line (width - 1) = line"
proof -
  let ?n = "length transfers"
  let ?w = "part_width width ?n"
  have "?w \<le> width" by (simp add: part_width_def le_trans [OF div_le_dividend])
  then have small: "?w < 2 ^ 32" using assms(3) by linarith
  have "\<exists>part. transfer_status fl colored_tag ?w t = Done part \<and> (\<forall>s. columns (part @ s) = ?w + columns s)"
    if "t \<in> set transfers" for t
    using transfer_status_columns [OF assms(1,2) _ small, of t] assms(5) that by (auto simp: list_all_iff max_absorb1)
  from transfer_parts_columns [of transfers "transfer_status fl colored_tag ?w" ?w, OF this assms(4)] obtain parts where
    parts: "transfer_parts (transfer_status fl colored_tag ?w) transfers = Done parts"
      "\<And>s. columns (join_chars SEPARATOR parts @ s) = ?n * ?w + (?n - 1) * length SEPARATOR + columns s" by blast
  have cols: "columns (join_chars SEPARATOR parts) = ?n * ?w + (?n - 1) * length SEPARATOR"
    using parts(2) [of "[]"] by simp
  obtain t where "t \<in> set transfers" using assms(4) by (meson last_in_set)
  then have "0 < ?w" using assms(5) by (auto simp: list_all_iff least_part_def)
  then have "?n \<le> width - (1 + length SEPARATOR * (?n - 1))" by (simp add: part_width_def div_greater_zero_iff)
  moreover have "0 < ?n" using assms(4) by simp
  ultimately have "1 + length SEPARATOR * (?n - 1) < width" by linarith
  moreover have "?n * ?w \<le> width - (1 + length SEPARATOR * (?n - 1))" by (simp add: part_width_def)
  ultimately have "columns (join_chars SEPARATOR parts) \<le> width - 1"
    unfolding cols by (simp add: mult.commute)
  then show ?thesis using assms(4) parts(1) cols truncate_visible_whole by (simp add: status_line_def)
qed

section \<open>Runs\<close>

text \<open>Numbers in thousandths.\<close>

definition sample_f64 :: "nat f64_lib" where
  "sample_f64 = \<lparr>fl_lit = (\<lambda>a b. a * 1000 div 10 ^ b), fl_of_u64 = (\<lambda>n. 1000 * unat n), fl_to_u64 = (\<lambda>x. of_nat (x div 1000)),
     fl_add = (+), fl_mul = (\<lambda>a b. a * b div 1000), fl_div = (\<lambda>a b. a * 1000 div b), fl_eq = (=), fl_less = (<),
     fl_le = (\<le>), fl_max = max, fl_clamp = (\<lambda>x lo hi. max lo (min hi x)),
     fl_round = (\<lambda>x. (x + 500) div 1000 * 1000), fl_show1 = (\<lambda>x. nat_str 10 (x div 1000) @ ''.0'')\<rparr>"

lemma sample_f64_laws: "f64_laws sample_f64"
proof -
  have "filled_cells sample_f64 x w \<le> w" if "w < 2 ^ 32" for x w
  proof -
    have "(min 1000 x * w + 500) div 1000 \<le> (1000 * w + 500) div 1000" by (intro div_le_mono add_right_mono mult_right_mono) simp_all
    then have "(min 1000 x * w + 500) div 1000 \<le> w" by simp
    moreover have "unat (of_nat w :: u64) = w" using that by (simp add: unat_of_nat)
    ultimately show ?thesis using that
      by (simp add: filled_cells_def sample_f64_def unat_of_nat mult.left_commute [of _ 1000])
  qed
  then show ?thesis by (simp add: f64_laws_def) (simp add: sample_f64_def)
qed

definition sample_tag :: "category \<Rightarrow> chars" where
  "sample_tag c = [27, 91, 51, 50, 109, 82, 27, 91, 51, 57, 109]"

lemma sample_tag_laws: "tag_laws sample_tag"
  by (simp add: tag_laws_def sample_tag_def columns_def is_ascii_alphabetic_def)

definition sample_transfers :: "nat transfer list" where
  "sample_transfers = [\<lparr>tf_category = Receive, tf_alias = [65, 110, 110], tf_done = 5, tf_total = 10, tf_speed = 0\<rparr>,
     \<lparr>tf_category = Send, tf_alias = [66, 111], tf_done = 0, tf_total = 0, tf_speed = 2000\<rparr>]"

theorem status_line_fits_witness:
  "\<exists>line. status_line sample_f64 sample_tag 120 sample_transfers = Done (Some line) \<and> columns line = 119"
proof -
  have short: "length (nat_str 10 n) = (if n < 10 then 1 else Suc (length (nat_str 10 (n div 10))))" for n
    by (subst nat_str.simps) simp
  have "list_all (\<lambda>t. 27 \<notin> set (tf_alias t) \<and> least_part sample_f64 t \<le> part_width 120 (length sample_transfers)) sample_transfers"
    by (simp add: sample_transfers_def least_part_def transfer_tail_def part_width_def SEPARATOR_def format_bytes_def
        scale_bytes.simps format_speed_def transfer_eta_def sample_f64_def short flip: numeral_2_eq_2)
  moreover have "sample_transfers \<noteq> []" by (simp add: sample_transfers_def)
  ultimately obtain line where "status_line sample_f64 sample_tag 120 sample_transfers = Done (Some line)"
      "columns line = length sample_transfers * part_width 120 (length sample_transfers) +
        (length sample_transfers - 1) * length SEPARATOR"
    using status_line_fits [OF sample_f64_laws sample_tag_laws, of 120 sample_transfers] by auto
  then show ?thesis by (simp add: sample_transfers_def part_width_def SEPARATOR_def flip: numeral_2_eq_2)
qed

end
