(* ===== verification/Cli_Draw.thy ===== *)
theory Cli_Draw
  imports Cli_Picker Cli_Status
begin

text \<open>
  What the file picker draws (\<open>draw\<close> in \<open>cli/src/picker.rs\<close>): the contents of its three areas. Layout, colours of the
  frame and the terminal are the crate \<open>ratatui\<close>; \<open>to_chars\<close> gives the characters of a path or name.
\<close>

section \<open>The drawing\<close>

record drawn_item =
  di_name :: chars
  di_dir :: bool

record picker_view =
  pv_title :: chars
  pv_filter :: "chars option"
  pv_items :: "drawn_item list"
  pv_highlight :: "nat option"
  pv_selected :: chars
  pv_help :: chars

definition num_chars :: "nat \<Rightarrow> chars" where
  "num_chars n = ascii_chars (nat_str 10 n)"

definition filter_title :: "picker \<Rightarrow> chars option" where
  "filter_title p =
     (if pk_query p = [] then None
      else
        (let hits = (if pk_matches p = [] then ascii_chars '' no matches''
                     else ascii_chars '' '' @ num_chars (length (pk_matches p)) @ ascii_chars '' of '' @
                       num_chars (length (ex_files (pk_explorer p))))
         in Some (ascii_chars '' Filter: '' @ pk_query p @ ascii_chars '' ('' @ hits @ ascii_chars '') '')))"

definition drawn_files :: "picker \<Rightarrow> explorer_file list" where
  "drawn_files p =
     List.map_filter (\<lambda>i. if i < length (ex_files (pk_explorer p)) then Some (ex_files (pk_explorer p) ! i) else None)
       (pk_matches p)"

definition selected_line :: "(string \<Rightarrow> chars) \<Rightarrow> picker \<Rightarrow> chars" where
  "selected_line to_chars p =
     (if pk_selected p = [] then ascii_chars '' No files selected''
      else ascii_chars '' Selected: '' @
        join_chars (ascii_chars '', '') (map to_chars (List.map_filter path_file_name (pk_selected p))))"

text \<open>The arrows of the help line are not ASCII.\<close>

definition help_line :: "picker \<Rightarrow> chars" where
  "help_line p =
     ascii_chars '' Type: filter  '' @ [0x2190] @ ascii_chars ''/'' @ [0x2192] @ ascii_chars '': folder  Space: select ('' @
       num_chars (length (pk_selected p)) @ ascii_chars '')  Enter: confirm  Esc: clear/cancel''"

definition picker_draw :: "(string \<Rightarrow> chars) \<Rightarrow> picker \<Rightarrow> picker_view" where
  "picker_draw to_chars p =
     \<lparr>pv_title = ascii_chars '' '' @ to_chars (ex_cwd (pk_explorer p)) @ ascii_chars '' '',
      pv_filter = filter_title p,
      pv_items = map (\<lambda>f. \<lparr>di_name = ef_name f, di_dir = ef_is_dir f\<rparr>) (drawn_files p),
      pv_highlight = pk_list p,
      pv_selected = selected_line to_chars p,
      pv_help = help_line p\<rparr>"

section \<open>Lemmas\<close>

lemma map_filter_total: "(\<forall>x \<in> set xs. f x = Some (g x)) \<Longrightarrow> List.map_filter f xs = map g xs"
  by (induction xs) (auto simp: List.map_filter_simps)

lemma map_filter_nth: "map ((!) xs) (filter P [0..<length xs]) = filter Q xs" if "\<And>i. i < length xs \<Longrightarrow> P i = Q (xs ! i)"
proof -
  have "filter P [0..<length xs] = filter (Q \<circ> (!) xs) [0..<length xs]"
    using that by (intro filter_cong) auto
  then have "map ((!) xs) (filter P [0..<length xs]) = filter Q (map ((!) xs) [0..<length xs])"
    by (simp add: filter_map)
  then show ?thesis by (simp add: map_nth)
qed

lemma drawn_files_matches:
  "highlight_ok lowercase p \<Longrightarrow> drawn_files p = map (\<lambda>i. ex_files (pk_explorer p) ! i) (pk_matches p)"
  unfolding drawn_files_def by (rule map_filter_total) (auto dest!: highlight_matches simp: matching_def)

lemma picker_run_open:
  "nav_laws nav \<Longrightarrow> highlight_ok lowercase p \<Longrightarrow> picker_run lowercase nav keys p = (Picker_Open, p') \<Longrightarrow>
     highlight_ok lowercase p'"
proof (induction keys arbitrary: p)
  case (Cons key keys)
  obtain o' q where key: "picker_handle_key lowercase nav key p = (o', q)" by fastforce
  with Cons.prems have "o' = Picker_Open" by (auto split: picker_outcome.splits)
  with Cons key highlight_key [OF Cons.prems(1,2), of key] show ?case by simp
qed simp

section \<open>Properties\<close>

text \<open>
  What the picker shows is what it acts on. Whatever keys were pressed, it draws exactly the entries whose name matches
  the query, in the order of the listing; it highlights a line exactly if there is one, and that line shows the entry
  Space and Enter act on.
\<close>

theorem drawn_is_current:
  assumes "nav_laws nav" and "picker_run lowercase nav keys (picker_open lowercase slot e0) = (Picker_Open, p)"
  shows "pv_items (picker_draw to_chars p) =
      map (\<lambda>f. \<lparr>di_name = ef_name f, di_dir = ef_is_dir f\<rparr>)
        (filter (\<lambda>f. matches_query lowercase (pk_query p) (ef_name f)) (ex_files (pk_explorer p))) \<and>
    (pv_highlight (picker_draw to_chars p) = None \<longleftrightarrow> pv_items (picker_draw to_chars p) = []) \<and>
    (case pv_highlight (picker_draw to_chars p) of
       None \<Rightarrow> picker_current p = None
     | Some row \<Rightarrow> row < length (pv_items (picker_draw to_chars p)) \<and>
         (\<exists>f. picker_current p = Some f \<and>
           pv_items (picker_draw to_chars p) ! row = \<lparr>di_name = ef_name f, di_dir = ef_is_dir f\<rparr>))"
proof -
  have "highlight_ok lowercase (picker_open lowercase slot e0)"
    unfolding picker_open_def by (intro highlight_first highlight_refresh)
  from picker_run_open [OF assms(1) this assms(2)] have ok: "highlight_ok lowercase p" .
  let ?files = "ex_files (pk_explorer p)"
  note files = drawn_files_matches [OF ok]
  have "drawn_files p = filter (\<lambda>f. matches_query lowercase (pk_query p) (ef_name f)) ?files"
    unfolding files highlight_matches [OF ok] matching_def by (rule map_filter_nth) simp
  then have items: "pv_items (picker_draw to_chars p) = map (\<lambda>f. \<lparr>di_name = ef_name f, di_dir = ef_is_dir f\<rparr>)
      (filter (\<lambda>f. matches_query lowercase (pk_query p) (ef_name f)) ?files)"
    by (simp add: picker_draw_def)
  show ?thesis
  proof (cases "pk_matches p")
    case Nil
    then have "pk_list p = None" and "picker_current p = None"
      using ok by (simp_all add: highlight_ok_def picker_current_def picker_cursor_def)
    then show ?thesis using items files Nil by (simp add: picker_draw_def)
  next
    case Cons
    then obtain c where c: "pk_list p = Some c" "c < length (pk_matches p)"
        "pk_matches p ! c = ex_selected (pk_explorer p)"
      using ok by (auto simp: highlight_ok_def)
    then have "picker_cursor p \<noteq> None"
      using nth_mem [of c "pk_matches p"] by (auto simp: picker_cursor_def position_None)
    then have current: "picker_current p = Some (?files ! ex_selected (pk_explorer p))"
      by (auto simp: picker_current_def)
    have drawn: "pv_items (picker_draw to_chars p) =
        map (\<lambda>f. \<lparr>di_name = ef_name f, di_dir = ef_is_dir f\<rparr>) (map (\<lambda>i. ?files ! i) (pk_matches p))"
      by (simp add: picker_draw_def files)
    have row: "pv_items (picker_draw to_chars p) ! c = \<lparr>di_name = ef_name (?files ! ex_selected (pk_explorer p)),
        di_dir = ef_is_dir (?files ! ex_selected (pk_explorer p))\<rparr>"
      using drawn c by simp
    have len: "length (pv_items (picker_draw to_chars p)) = length (pk_matches p)" using drawn by simp
    have "pv_highlight (picker_draw to_chars p) = Some c" using c by (simp add: picker_draw_def)
    moreover have "pv_items (picker_draw to_chars p) \<noteq> []" using len c(2) by auto
    ultimately show ?thesis using items row len c(2) current by simp
  qed
qed

theorem drawn_is_current_witness:
  "\<exists>p. picker_run id (\<lambda>_ e. e) [\<lparr>ke_code = Key_Char 99, ke_control = False, ke_alt = False\<rparr>]
      (picker_open id 1 example_explorer) = (Picker_Open, p) \<and>
    pv_highlight (picker_draw (\<lambda>_. []) p) \<noteq> None \<and> length (pv_items (picker_draw (\<lambda>_. []) p)) = 1"
proof -
  let ?keys = "[\<lparr>ke_code = Key_Char 99, ke_control = False, ke_alt = False\<rparr>]"
  obtain p where run: "picker_run id (\<lambda>_ e. e) ?keys (picker_open id 1 example_explorer) = (Picker_Open, p)"
      and query: "pk_query p = [99]" "ex_files (pk_explorer p) = ex_files example_explorer"
    by (simp add: picker_handle_key_def picker_open_def refresh_matches_def select_first_entry_def Let_def)
  have "nav_laws (\<lambda>_ e. e)" by (simp add: nav_laws_def)
  from drawn_is_current [OF this run, of "\<lambda>_. []"] have
    items: "pv_items (picker_draw (\<lambda>_. []) p) = map (\<lambda>f. \<lparr>di_name = ef_name f, di_dir = ef_is_dir f\<rparr>)
        (filter (\<lambda>f. matches_query id (pk_query p) (ef_name f)) (ex_files (pk_explorer p)))"
    and highlight: "pv_highlight (picker_draw (\<lambda>_. []) p) = None \<longleftrightarrow> pv_items (picker_draw (\<lambda>_. []) p) = []" by blast+
  have "length (pv_items (picker_draw (\<lambda>_. []) p)) = 1"
    unfolding items query by (simp add: example_explorer_def matches_query_def)
  then show ?thesis using run highlight by (intro exI [of _ p]) auto
qed

end
