(* ===== verification/Cli_Run.thy ===== *)
theory Cli_Run
  imports Cli_App_Safety Multicast Server_Tasks
begin

text \<open>
  A whole run of the command line client (\<open>run\<close> in \<open>cli/src/app/mod.rs\<close>): the start of the parts in their order with
  the errors that end it, the banner, the loop of \<open>Cli_App\<close> and the shutdown. Keys are read by a thread of their own,
  which hands on presses only. Colours, the version of the program and the display of paths are arguments.
\<close>

section \<open>The banner\<close>

text \<open>The block characters of the logo as their bytes.\<close>

definition upper_half :: string where
  "upper_half = [CHR 0xE2, CHR 0x96, CHR 0x80]"

definition lower_half :: string where
  "lower_half = [CHR 0xE2, CHR 0x96, CHR 0x84]"

definition full_block :: string where
  "full_block = [CHR 0xE2, CHR 0x96, CHR 0x88]"

definition LOGO :: "string list" where
  "LOGO =
     ['' '' @ lower_half @ upper_half @ '' '' @ upper_half @ '' '' @ upper_half @ lower_half @ '' '',
      lower_half @ '' '' @ lower_half @ full_block @ full_block @ full_block @ lower_half @ '' '' @ lower_half,
      upper_half @ '' '' @ upper_half @ full_block @ full_block @ full_block @ upper_half @ '' '' @ upper_half,
      '' '' @ upper_half @ lower_half @ '' '' @ lower_half @ '' '' @ lower_half @ upper_half @ '' '']"

definition newline :: string where
  "newline = [CHR 0x0A]"

definition logo_side :: "string \<Rightarrow> nat \<Rightarrow> string" where
  "logo_side version i = (if i = 1 then ''  Doorstep CLI'' else if i = 2 then ''  v'' @ version else '''')"

definition banner ::
  "(string \<Rightarrow> string) \<Rightarrow> string \<Rightarrow> (string \<Rightarrow> string) \<Rightarrow> if_addr list option \<Rightarrow> repository \<Rightarrow> string" where
  "banner green version show_path interfaces storage =
     (let logo = join newline (map (\<lambda>(i, line). green line @ logo_side version i) (enumerate 0 LOGO));
          port = nat_str 10 (unat (in_port (re_identity storage)));
          addresses = local_ipv4_addresses interfaces;
          listening = (if addresses = [] then '' - (no network interface found)''
                       else join newline (map (\<lambda>a. '' - https://'' @ ip_to_string a @ '':'' @ port) addresses))
      in logo @ newline @ newline @ green ''Alias:'' @ '' '' @ in_alias (re_identity storage) @ newline @
         green ''Port:'' @ '' '' @ port @ newline @
         green ''Destination:'' @ '' '' @ show_path (re_destination storage) @ newline @
         green ''Config:'' @ '' '' @ show_path (re_dir storage) @ newline @
         green ''Listening on:'' @ newline @ listening @ newline @ newline @ ''Ready to accept requests.'' @ newline @ newline)"

section \<open>Keys\<close>

text \<open>What the terminal reports: keys that are pressed, held or released, and everything else.\<close>

datatype key_kind = Key_Press | Key_Repeat | Key_Release

datatype term_event = Term_Key key_kind key_event | Term_Other

definition pressed_keys :: "term_event list \<Rightarrow> key_event list" where
  "pressed_keys events =
     List.map_filter (\<lambda>e. case e of Term_Key kind key \<Rightarrow> if kind = Key_Press then Some key else None | Term_Other \<Rightarrow> None)
       events"

section \<open>The run\<close>

definition DEFAULT_MULTICAST_GROUP :: ip_addr where
  "DEFAULT_MULTICAST_GROUP = V4 224 0 0 167"

definition DEFAULT_MULTICAST_GROUP_V6 :: ip_addr where
  "DEFAULT_MULTICAST_GROUP_V6 = V6 0xff12 0 0 0 0 0 0xfd3a 0xe420"

definition DEFAULT_PORT :: u16 where
  "DEFAULT_PORT = 53317"

definition run_multicast_config :: "identity \<Rightarrow> multicast_config" where
  "run_multicast_config i =
     \<lparr>mc_group = DEFAULT_MULTICAST_GROUP, mc_group_v6 = Some DEFAULT_MULTICAST_GROUP_V6, mc_port = DEFAULT_PORT,
      mc_interface_filter = \<lparr>if_whitelist = None, if_blacklist = None\<rparr>, mc_device = identity_multicast_device i\<rparr>"

text \<open>
  What the run finds: the calls on sockets, the network interfaces, whether raw mode can be set, and what the loop
  gets, in order.
\<close>

record 'k run_env =
  rn_socket :: "socket_call \<Rightarrow> string option"
  rn_bind_v4 :: "ip_addr \<Rightarrow> u16 \<Rightarrow> ip_addr \<Rightarrow> 'k option"
  rn_bind_v6 :: "ip_addr \<Rightarrow> u16 \<Rightarrow> u32 \<Rightarrow> 'k option"
  rn_interfaces :: "string + if_addr list"
  rn_raw_mode :: "string option"
  rn_inputs :: "(app_env \<times> app_input) list"

datatype run_action =
    Starts_Server u16 tls_config
  | Starts_Discovery multicast_config
  | No_Discovery
  | Announces
  | Raw_Mode_On
  | Prints_Banner
  | App_Does app_action
  | Leaves_Picker
  | Clears_Status
  | Raw_Mode_Off
  | Stops_Server
  | Stops_Discovery
  | Awaits_Server
  | Awaits_Discovery
  | Says_Bye

datatype run_error = Storage_Error store_error | Server_Error string | Terminal_Error string

datatype run_result = Run_Failed run_error | Run_Quit | Run_Goes_On

text \<open>Without discovery its channel is never ready, so the loop sees none of its events.\<close>

definition loop_inputs :: "bool \<Rightarrow> (app_env \<times> app_input) list \<Rightarrow> (app_env \<times> app_input) list" where
  "loop_inputs discovery inputs =
     filter (\<lambda>(_, i). discovery \<or> (case i of In_Multicast _ \<Rightarrow> False | _ \<Rightarrow> True)) inputs"

definition shutdown :: "bool \<Rightarrow> app \<Rightarrow> run_action list" where
  "shutdown discovery a =
     (if ap_picker a \<noteq> None then [Leaves_Picker] else []) @
     [Clears_Status, Raw_Mode_Off, Stops_Server, Stops_Discovery, Awaits_Server] @
     (if discovery then [Awaits_Discovery] else []) @ [Says_Bye]"

definition cli_run ::
  "'k run_env \<Rightarrow> store_error + repository \<Rightarrow> fs \<Rightarrow> run_result \<times> run_action list" where
  "cli_run env loaded fs =
     (case loaded of
        Inl e \<Rightarrow> (Run_Failed (Storage_Error e), [])
      | Inr storage \<Rightarrow>
          (let identity = re_identity storage;
               config = run_multicast_config identity
           in case server_start (rn_socket env) (in_port identity) of
                Inl e \<Rightarrow> (Run_Failed (Server_Error e), [])
              | Inr _ \<Rightarrow>
                  (let discovery = (case multicast_start (rn_bind_v4 env) (rn_bind_v6 env) (rn_interfaces env) config of
                         Inl _ \<Rightarrow> False | Inr _ \<Rightarrow> True);
                       started = Starts_Server (in_port identity) (identity_tls_config identity) #
                         (if discovery then [Starts_Discovery config, Announces] else [No_Discovery])
                   in case rn_raw_mode env of
                        Some e \<Rightarrow> (Run_Failed (Terminal_Error e), started)
                      | None \<Rightarrow>
                          (let (a, acts, quit) = app_run (loop_inputs discovery (rn_inputs env)) (app_start storage fs);
                               done = started @ [Raw_Mode_On, Prints_Banner] @ map App_Does acts
                           in if quit then (Run_Quit, done @ shutdown discovery a) else (Run_Goes_On, done)))))"

section \<open>Lemmas\<close>

text \<open>A loop that quits was told to by Ctrl+C with nothing going on, and is idle in the end.\<close>

definition idle :: "app \<Rightarrow> bool" where
  "idle a \<longleftrightarrow> ap_picker a = None \<and> ap_pending a = None \<and> ap_send a = None \<and> ap_receive a = None"

lemma app_run_quits:
  "app_run inputs a = (a', acts, True) \<Longrightarrow> \<exists>xs env key ys a1.
     inputs = xs @ (env, In_Key key) # ys \<and> ctrl_c key \<and> app_before xs a a1 \<and> idle a1 \<and> ap_picker a' = None"
proof (induction inputs arbitrary: a acts)
  case (Cons ei inputs)
  obtain env i where ei: "ei = (env, i)" by fastforce
  obtain a1 acts1 quit where step: "app_step env i a = (a1, acts1, quit)" by (metis prod_cases3)
  show ?case
  proof (cases quit)
    case True
    then obtain key where key: "i = In_Key key" "ctrl_c key" and idle: "idle a"
      using step_quits [OF step] by (auto simp: idle_def)
    then have "app_step env i a = handle_ctrl_c env a"
      by (simp add: app_step_def handle_key_ctrl_c)
    then have "ap_picker a1 = None" using step idle by (auto simp: handle_ctrl_c_eq idle_def Let_def)
    moreover have "a' = a1" using Cons.prems ei step True by simp
    ultimately show ?thesis using ei key idle by (intro exI [of _ "[]"]) auto
  next
    case False
    then obtain acts2 where run: "app_run inputs a1 = (a', acts2, True)" and go: "No_Return \<notin> set acts1"
      using Cons.prems ei step by (auto simp: Let_def split: if_splits prod.splits)
    obtain xs env' key ys a2 where rest: "inputs = xs @ (env', In_Key key) # ys" "ctrl_c key" "app_before xs a1 a2"
        "idle a2" "ap_picker a' = None" using Cons.IH [OF run] by blast
    have "app_before (ei # xs) a a2"
      using rest(3) step False go ei by (auto simp: app_before_def)
    with rest show ?thesis by (metis append_Cons)
  qed
qed simp

section \<open>Properties\<close>

text \<open>
  C28: The client quits only by Ctrl+C pressed while it is idle: no picker is open, no request waits for an answer and
  nothing is sent or received. It then restores the terminal and stops the server and the discovery, in this order; the
  picker that the shutdown would close is never open.
\<close>

theorem run_quits_idle:
  assumes "cli_run env (Inr storage) fs = (Run_Quit, acts)"
  shows "\<exists>discovery xs e key ys a before.
    loop_inputs discovery (rn_inputs env) = xs @ (e, In_Key key) # ys \<and> ctrl_c key \<and>
    app_before xs (app_start storage fs) a \<and>
    ap_picker a = None \<and> ap_pending a = None \<and> ap_send a = None \<and> ap_receive a = None \<and>
    acts = before @ [Clears_Status, Raw_Mode_Off, Stops_Server, Stops_Discovery, Awaits_Server] @
      (if discovery then [Awaits_Discovery] else []) @ [Says_Bye] \<and>
    Leaves_Picker \<notin> set acts"
proof -
  let ?identity = "re_identity storage"
  let ?discovery = "case multicast_start (rn_bind_v4 env) (rn_bind_v6 env) (rn_interfaces env) (run_multicast_config ?identity) of
      Inl _ \<Rightarrow> False | Inr _ \<Rightarrow> True"
  let ?started = "Starts_Server (in_port ?identity) (identity_tls_config ?identity) #
      (if ?discovery then [Starts_Discovery (run_multicast_config ?identity), Announces] else [No_Discovery])"
  obtain a' acts' where run: "app_run (loop_inputs ?discovery (rn_inputs env)) (app_start storage fs) = (a', acts', True)"
      and acts: "acts = (?started @ [Raw_Mode_On, Prints_Banner] @ map App_Does acts') @ shutdown ?discovery a'"
    using assms by (auto simp: cli_run_def Let_def split: sum.splits option.splits prod.splits if_splits)
  obtain xs e key ys a where quits: "loop_inputs ?discovery (rn_inputs env) = xs @ (e, In_Key key) # ys" "ctrl_c key"
      "app_before xs (app_start storage fs) a" "idle a" "ap_picker a' = None"
    using app_run_quits [OF run] by blast
  then have "acts = (?started @ [Raw_Mode_On, Prints_Banner] @ map App_Does acts') @
      [Clears_Status, Raw_Mode_Off, Stops_Server, Stops_Discovery, Awaits_Server] @
      (if ?discovery then [Awaits_Discovery] else []) @ [Says_Bye]"
    using acts by (simp add: shutdown_def)
  moreover from this have "Leaves_Picker \<notin> set acts" by auto
  ultimately show ?thesis using quits unfolding idle_def by blast
qed

text \<open>A start that fails has not touched the terminal.\<close>

lemma failed_start_leaves_terminal:
  "cli_run env loaded fs = (Run_Failed e, acts) \<Longrightarrow> Raw_Mode_On \<notin> set acts \<and> Prints_Banner \<notin> set acts"
  by (auto simp: cli_run_def Let_def split: sum.splits option.splits prod.splits if_splits)

section \<open>Runs\<close>

definition sample_run_env :: "nat run_env" where
  "sample_run_env = \<lparr>rn_socket = (\<lambda>_. None), rn_bind_v4 = (\<lambda>_ _ _. None), rn_bind_v6 = (\<lambda>_ _ _. None),
     rn_interfaces = Inl ''no interfaces'', rn_raw_mode = None,
     rn_inputs = [(sample_app_env, In_Key \<lparr>ke_code = Key_Char 99, ke_control = True, ke_alt = False\<rparr>)]\<rparr>"

theorem run_quits_idle_witness:
  "\<exists>acts. cli_run sample_run_env (Inr sample_repository) empty_fs = (Run_Quit, acts) \<and> last acts = Says_Bye"
proof -
  have key: "ctrl_c \<lparr>ke_code = Key_Char 99, ke_control = True, ke_alt = False\<rparr>" by (simp add: ctrl_c_def)
  obtain acts where run: "cli_run sample_run_env (Inr sample_repository) empty_fs = (Run_Quit, acts)"
    using key by (simp add: cli_run_def sample_run_env_def server_start_def start_listeners_def bind_reusable_def
        bind_calls_def multicast_start_def bind_multicast_sockets_def loop_inputs_def app_step_def handle_key_ctrl_c
        handle_ctrl_c_eq app_start_def Let_def)
  from run_quits_idle [OF this] have "last acts = Says_Bye" by auto
  with run show ?thesis by blast
qed

end
