(* ===== verification/Multicast_Sockets.thy ===== *)
theory Multicast_Sockets
  imports Multicast
begin

text \<open>
  The options of the sockets of the discovery (\<open>multicast/socket.rs\<close>), in the order the code sets them. A socket is what
  was done to it; \<open>os\<close> tells which call fails. On Windows and some other systems there is no \<open>SO_REUSEPORT\<close>
  (\<open>reuse_port\<close>). With these functions \<open>Multicast\<close> has sockets of the operating system.
\<close>

datatype udp_call =
    Udp_New bool
  | Udp_Only_V6
  | Udp_Reuse_Address
  | Udp_Reuse_Port
  | Udp_Bind socket_addr
  | Udp_Join_V4 ip_addr ip_addr
  | Udp_Join_V6 ip_addr u32
  | Udp_Interface_V4 ip_addr
  | Udp_Interface_V6 u32
  | Udp_Loop
  | Udp_Hops nat
  | Udp_Nonblocking

definition calls_v4 :: "bool \<Rightarrow> ip_addr \<Rightarrow> u16 \<Rightarrow> ip_addr \<Rightarrow> udp_call list" where
  "calls_v4 reuse_port grp port interface =
     [Udp_New False, Udp_Reuse_Address] @ (if reuse_port then [Udp_Reuse_Port] else []) @
     [Udp_Bind (Sock_V4 (V4 0 0 0 0) port), Udp_Join_V4 grp interface, Udp_Interface_V4 interface, Udp_Loop, Udp_Hops 1,
      Udp_Nonblocking]"

definition calls_v6 :: "bool \<Rightarrow> ip_addr \<Rightarrow> u16 \<Rightarrow> u32 \<Rightarrow> udp_call list" where
  "calls_v6 reuse_port grp port interface =
     [Udp_New True, Udp_Only_V6, Udp_Reuse_Address] @ (if reuse_port then [Udp_Reuse_Port] else []) @
     [Udp_Bind (Sock_V6 (V6 0 0 0 0 0 0 0 0) port 0), Udp_Join_V6 grp interface, Udp_Interface_V6 interface, Udp_Loop,
      Udp_Hops 1, Udp_Nonblocking]"

fun udp_run :: "(udp_call \<Rightarrow> bool) \<Rightarrow> udp_call list \<Rightarrow> bool" where
  "udp_run os [] = True"
| "udp_run os (call # calls) = (os call \<and> udp_run os calls)"

definition bind_multicast_socket_v4 ::
  "(udp_call \<Rightarrow> bool) \<Rightarrow> bool \<Rightarrow> ip_addr \<Rightarrow> u16 \<Rightarrow> ip_addr \<Rightarrow> udp_call list option" where
  "bind_multicast_socket_v4 os reuse_port grp port interface =
     (if udp_run os (calls_v4 reuse_port grp port interface) then Some (calls_v4 reuse_port grp port interface) else None)"

definition bind_multicast_socket_v6 ::
  "(udp_call \<Rightarrow> bool) \<Rightarrow> bool \<Rightarrow> ip_addr \<Rightarrow> u16 \<Rightarrow> u32 \<Rightarrow> udp_call list option" where
  "bind_multicast_socket_v6 os reuse_port grp port interface =
     (if udp_run os (calls_v6 reuse_port grp port interface) then Some (calls_v6 reuse_port grp port interface) else None)"

section \<open>Properties\<close>

lemma map_filter_mem: "y \<in> set (List.map_filter f xs) \<longleftrightarrow> (\<exists>x \<in> set xs. f x = Some y)"
  by (force simp: List.map_filter_def)

lemma map_mem: "ys = map f xs \<Longrightarrow> y \<in> set ys \<Longrightarrow> \<exists>x \<in> set xs. y = f x"
  by auto

text \<open>The interface a socket sends on.\<close>

definition pinned_v4 :: "udp_call list \<Rightarrow> ip_addr list" where
  "pinned_v4 calls = List.map_filter (\<lambda>c. case c of Udp_Interface_V4 i \<Rightarrow> Some i | _ \<Rightarrow> None) calls"

definition pinned_v6 :: "udp_call list \<Rightarrow> u32 list" where
  "pinned_v6 calls = List.map_filter (\<lambda>c. case c of Udp_Interface_V6 i \<Rightarrow> Some i | _ \<Rightarrow> None) calls"

lemma pinned_calls:
  "pinned_v4 (calls_v4 rp grp port i) = [i]" "pinned_v6 (calls_v4 rp grp port i) = []"
  "pinned_v6 (calls_v6 rp grp port j) = [j]" "pinned_v4 (calls_v6 rp grp port j) = []"
  by (simp_all add: pinned_v4_def pinned_v6_def calls_v4_def calls_v6_def List.map_filter_simps)

text \<open>
  Every socket a discovery starts with is one whose calls all succeeded: it is bound to the port, has joined the group it
  sends to on one usable interface, sends on this interface only, and its datagrams do not leave the local network.
\<close>

theorem discovery_sockets_pinned:
  assumes "multicast_start (bind_multicast_socket_v4 os rp) (bind_multicast_socket_v6 os rp) (Inr interfaces) config = Inr st"
    and "s \<in> set (st_sockets st)"
  shows "list_all os (ss_socket s) \<and> Udp_Hops 1 \<in> set (ss_socket s) \<and> Udp_Reuse_Address \<in> set (ss_socket s) \<and>
    ((\<exists>i. i \<in> set (fst (local_interfaces (mc_interface_filter config) interfaces)) \<and>
        ss_target s = Sock_V4 (mc_group config) (mc_port config) \<and>
        pinned_v4 (ss_socket s) = [l4_address i] \<and> pinned_v6 (ss_socket s) = [] \<and>
        Udp_Join_V4 (mc_group config) (l4_address i) \<in> set (ss_socket s)) \<or>
     (\<exists>i grp. i \<in> set (snd (local_interfaces (mc_interface_filter config) interfaces)) \<and>
        mc_group_v6 config = Some grp \<and> ss_target s = Sock_V6 grp (mc_port config) (l6_index i) \<and>
        pinned_v6 (ss_socket s) = [l6_index i] \<and> pinned_v4 (ss_socket s) = [] \<and> Udp_Only_V6 \<in> set (ss_socket s) \<and>
        Udp_Join_V6 grp (l6_index i) \<in> set (ss_socket s)))"
proof -
  have run: "udp_run os calls = list_all os calls" for calls by (induction calls) auto
  obtain v4 v6 where local: "local_interfaces (mc_interface_filter config) interfaces = (v4, v6)" by fastforce
  let ?bound = "List.map_filter (bind_one_v4 (bind_multicast_socket_v4 os rp) (mc_group config) (mc_port config)) v4 @
        (case mc_group_v6 config of
           Some grp \<Rightarrow> List.map_filter (bind_one_v6 (bind_multicast_socket_v6 os rp) grp (mc_port config)) v6 | None \<Rightarrow> [])"
  have "st_sockets st = map (\<lambda>s. \<lparr>ss_target = ms_target s, ss_broadcast = ms_broadcast s, ss_port = mc_port config,
      ss_socket = ms_socket s\<rparr>) ?bound"
    using assms(1) by (auto simp: multicast_start_def bind_multicast_sockets_def local split: if_splits)
  from map_mem [OF this assms(2)] obtain m where mem: "m \<in> set ?bound" and
      s: "s = \<lparr>ss_target = ms_target m, ss_broadcast = ms_broadcast m, ss_port = mc_port config, ss_socket = ms_socket m\<rparr>"
    by blast
  then have m: "ss_target s = ms_target m" "ss_socket s = ms_socket m" by simp_all
  from mem consider i where "i \<in> set v4" "bind_one_v4 (bind_multicast_socket_v4 os rp) (mc_group config) (mc_port config) i = Some m"
    | i grp where "mc_group_v6 config = Some grp" "i \<in> set v6"
        "bind_one_v6 (bind_multicast_socket_v6 os rp) grp (mc_port config) i = Some m"
    by (cases "mc_group_v6 config") (auto simp: map_filter_mem)
  then show ?thesis
  proof cases
    case 1
    then have "ms_socket m = calls_v4 rp (mc_group config) (mc_port config) (l4_address i)" "list_all os (ms_socket m)"
        "ms_target m = Sock_V4 (mc_group config) (mc_port config)"
      by (auto simp: bind_one_v4_def bind_multicast_socket_v4_def run split: if_splits)
    with 1(1) m local pinned_calls show ?thesis by (auto simp: calls_v4_def)
  next
    case 2
    then have "ms_socket m = calls_v6 rp grp (mc_port config) (l6_index i)" "list_all os (ms_socket m)"
        "ms_target m = Sock_V6 grp (mc_port config) (l6_index i)"
      by (auto simp: bind_one_v6_def bind_multicast_socket_v6_def run split: if_splits)
    with 2(1,2) m local pinned_calls show ?thesis by (auto simp: calls_v6_def)
  qed
qed

end
