(* ===== verification/Responders.thy ===== *)
theory Responders
  imports Prelude "HOL-Library.Multiset"
begin

text \<open>
  The contract of the places where the bindings keep the responders of requests that wait for the application:
  a responder is a channel that is used once, by sending on it or by dropping it, which fails the request.
  The slot of the pending decision and the maps of pending uploads and downloads of \<open>api/server.rs\<close> are its
  providers. A responder that is put, taken and dropped is named by a number.
\<close>

locale responder_store =
  fixes ok :: "'s \<Rightarrow> bool"
    and pending :: "'s \<Rightarrow> nat multiset"
    and put_in :: "'k \<Rightarrow> nat \<Rightarrow> 's \<Rightarrow> 's \<times> nat list"
    and take_out :: "'k \<Rightarrow> 's \<Rightarrow> nat option \<times> 's"
    and retain :: "('k \<Rightarrow> bool) \<Rightarrow> 's \<Rightarrow> 's \<times> nat list"
  assumes put_ok: "ok s \<Longrightarrow> ok (fst (put_in k c s))"
    and take_ok: "ok s \<Longrightarrow> ok (snd (take_out k s))"
    and retain_ok: "ok s \<Longrightarrow> ok (fst (retain P s))"
    and put_conserves: "ok s \<Longrightarrow> pending (fst (put_in k c s)) + mset (snd (put_in k c s)) = add_mset c (pending s)"
    and take_conserves: "ok s \<Longrightarrow> pending s =
      pending (snd (take_out k s)) + (case fst (take_out k s) of None \<Rightarrow> {#} | Some c \<Rightarrow> {#c#})"
    and retain_conserves: "ok s \<Longrightarrow> pending (fst (retain P s)) + mset (snd (retain P s)) = pending s"
    and take_put: "ok s \<Longrightarrow> fst (take_out k (fst (put_in k c s))) = Some c"
    and take_again: "ok s \<Longrightarrow> fst (take_out k (snd (take_out k s))) = None"
begin

text \<open>What waits and what is given up add up to what waited and what came.\<close>

lemma put_sum: "ok s \<Longrightarrow> put_in k c s = (s', d) \<Longrightarrow> pending s' + mset d = pending s + {#c#}"
  using put_conserves [of s k c] by simp

lemma take_sum:
  "ok s \<Longrightarrow> take_out k s = (r, s') \<Longrightarrow>
     pending s' + mset (case r of None \<Rightarrow> [] | Some c \<Rightarrow> [c]) = pending s + {#}"
  using take_conserves [of s k] by (simp split: option.splits)

lemma retain_sum: "ok s \<Longrightarrow> retain P s = (s', d) \<Longrightarrow> pending s' + mset d = pending s + {#}"
  using retain_conserves [of s P] by simp

text \<open>A responder that is taken is gone.\<close>

lemma taken_once: "ok s \<Longrightarrow> take_out k s = (r, s') \<Longrightarrow> fst (take_out k s') = None"
  using take_again [of s k] by simp

end

text \<open>Where a responder is found under its own key only.\<close>

locale keyed_responder_store = responder_store +
  assumes take_put_other: "ok s \<Longrightarrow> k' \<noteq> k \<Longrightarrow> fst (take_out k' (fst (put_in k c s))) = fst (take_out k' s)"
    and take_retained: "ok s \<Longrightarrow> fst (take_out k (fst (retain P s))) = (if P k then fst (take_out k s) else None)"

section \<open>Providers\<close>

subsection \<open>A hash map\<close>

definition map_put :: "'k \<Rightarrow> nat \<Rightarrow> ('k, nat) hmap \<Rightarrow> ('k, nat) hmap \<times> nat list" where
  "map_put k c m = (hm_put k c m, case hm_get m k of None \<Rightarrow> [] | Some d \<Rightarrow> [d])"

definition map_take :: "'k \<Rightarrow> ('k, nat) hmap \<Rightarrow> nat option \<times> ('k, nat) hmap" where
  "map_take k m = (hm_get m k, hm_del k m)"

definition map_retain :: "('k \<Rightarrow> bool) \<Rightarrow> ('k, nat) hmap \<Rightarrow> ('k, nat) hmap \<times> nat list" where
  "map_retain P m = (filter (\<lambda>(k, _). P k) m, map snd (filter (\<lambda>(k, _). \<not> P k) m))"

definition map_pending :: "('k, nat) hmap \<Rightarrow> nat multiset" where
  "map_pending m = mset (map snd m)"

lemma map_put_conserves:
  "map_pending (hm_put k c m) + mset (case hm_get m k of None \<Rightarrow> [] | Some d \<Rightarrow> [d]) = add_mset c (map_pending m)"
  by (induction m) (auto simp: map_pending_def)

lemma del_absent: "hm_get m k = None \<Longrightarrow> hm_del k m = m"
  by (induction m) (auto split: if_splits)

lemma map_take_conserves:
  "hm_wf m \<Longrightarrow> map_pending m = map_pending (hm_del k m) + (case hm_get m k of None \<Rightarrow> {#} | Some d \<Rightarrow> {#d#})"
proof (induction m)
  case (Cons x m)
  show ?case
  proof (cases "fst x = k")
    case True
    then have "hm_get m k = None" using Cons.prems by (auto simp: map_of_eq_None_iff)
    then show ?thesis using True by (cases x) (simp add: map_pending_def del_absent)
  next
    case False
    then show ?thesis using Cons by (cases x) (auto simp: map_pending_def)
  qed
qed (simp add: map_pending_def)

lemma map_retain_conserves:
  "map_pending (filter (\<lambda>(k, _). P k) m) + mset (map snd (filter (\<lambda>(k, _). \<not> P k) m)) = map_pending m"
  by (induction m) (auto simp: map_pending_def)

interpretation mapped: keyed_responder_store hm_wf map_pending map_put map_take map_retain
  by unfold_locales
    (use map_put_conserves map_take_conserves map_retain_conserves in
      \<open>auto simp: map_put_def map_take_def map_retain_def hm_get_filter_key\<close>)

subsection \<open>One slot\<close>

text \<open>What is taken is whatever is there, under any key.\<close>

type_synonym slot = "(string \<times> nat) option"

definition slot_put :: "string \<Rightarrow> nat \<Rightarrow> slot \<Rightarrow> slot \<times> nat list" where
  "slot_put k c s = (Some (k, c), case s of None \<Rightarrow> [] | Some (_, d) \<Rightarrow> [d])"

definition slot_take :: "string \<Rightarrow> slot \<Rightarrow> nat option \<times> slot" where
  "slot_take k s = (map_option snd s, None)"

definition slot_retain :: "(string \<Rightarrow> bool) \<Rightarrow> slot \<Rightarrow> slot \<times> nat list" where
  "slot_retain P s = (case s of None \<Rightarrow> (None, []) | Some (k, c) \<Rightarrow> if P k then (s, []) else (None, [c]))"

definition slot_pending :: "slot \<Rightarrow> nat multiset" where
  "slot_pending s = (case s of None \<Rightarrow> {#} | Some (_, c) \<Rightarrow> {#c#})"

interpretation slotted: responder_store "\<lambda>_. True" slot_pending slot_put slot_take slot_retain
  by unfold_locales (auto simp: slot_put_def slot_take_def slot_retain_def slot_pending_def split: option.splits)

end
