(* ===== verification/Frb_Server.thy ===== *)
theory Frb_Server
  imports Responders Router
begin

text \<open>
  The server as the Flutter application sees it (\<open>doorstep_isolates/rust/src/api/server.rs\<close>): events are
  forwarded to a stream, the responders that come with them are kept until the application answers by the
  ids of the session and the file. Responders are numbered; \<open>still_open c\<close> says that the request of \<open>c\<close> still
  waits. Every call takes its lock once, so calls and events are steps on one state.
\<close>

section \<open>State and effects\<close>

datatype rs_server_event =
    Rs_Register string register_dto_v2
  | Rs_Prepare_Upload string string register_dto_v2 "string option" "(string, file_dto) hmap"
  | Rs_File_Upload string string file_dto
  | Rs_Session_End string session_end_reason
  | Rs_Prepare_Upload_Aborted string
  | Rs_Cancel_Received string string
  | Rs_Web_Prepare_Download string string "string option"
  | Rs_Web_File_Download string string file_dto
  | Rs_Show "string list"

record rs_http_server =
  hs_event_rx :: bool
  hs_stop_tx :: bool
  hs_pending_decision :: slot
  hs_pending_uploads :: "(string \<times> string, nat) hmap"
  hs_pending_download_decisions :: "(string, nat) hmap"
  hs_pending_downloads :: "(string \<times> string, nat) hmap"

definition rs_server_new :: rs_http_server where
  "rs_server_new = \<lparr>hs_event_rx = True, hs_stop_tx = True, hs_pending_decision = None, hs_pending_uploads = [],
     hs_pending_download_decisions = [], hs_pending_downloads = []\<rparr>"

datatype rs_action =
    Emit rs_server_event
  | Emit_Error string
  | Send_Decision nat prepare_upload_decision
  | Send_Target nat upload_target
  | Send_Accept nat bool
  | Send_Content nat file_content
  | Drop_Responder nat
  | Cancel_V2_Session string
  | Stop_Server

section \<open>Starting\<close>

record web_send_params =
  wp_files :: "(string, file_dto) hmap"
  wp_pin :: "string option"
  wp_i18n :: "(string, string) hmap"

text \<open>What the server is started with: this device, and what is enabled.\<close>

definition start_server_config ::
  "string \<Rightarrow> string \<Rightarrow> string option \<Rightarrow> device_type option \<Rightarrow> string \<Rightarrow> string option \<Rightarrow> web_send_params option
     \<Rightarrow> string option
     \<Rightarrow> client_info \<times> internal_config option \<times> server_config_v2 option \<times> web_send_config option" where
  "start_server_config alias version device_model device_type fingerprint pin web_send show_token =
     (\<lparr>ci_alias = alias, ci_version = version, ci_device_model = device_model, ci_device_type = device_type,
       ci_token = fingerprint\<rparr>,
      map_option (\<lambda>t. \<lparr>icfg_show_token = t\<rparr>) show_token,
      Some \<lparr>sc_pin = pin\<rparr>,
      map_option (\<lambda>w. \<lparr>wc_files = wp_files w, wc_pin = wp_pin w, wc_i18n = wp_i18n w\<rparr>) web_send)"

section \<open>Events\<close>

definition rs_handle_event ::
  "server_event \<Rightarrow> nat \<Rightarrow> rs_http_server \<Rightarrow> rs_http_server \<times> rs_action list" where
  "rs_handle_event event c s =
     (case event of
        Ev_Register ip info \<Rightarrow> (s, [Emit (Rs_Register (peer_to_string ip) info)])
      | Ev_Prepare_Upload sid ip info cert files \<Rightarrow>
          (let (slot, dropped) = slot_put sid c (hs_pending_decision s)
           in (s\<lparr>hs_pending_decision := slot\<rparr>,
               map Drop_Responder dropped @ [Emit (Rs_Prepare_Upload sid (peer_to_string ip) info cert files)]))
      | Ev_File_Upload sid fid d \<Rightarrow>
          (let (uploads, dropped) = map_put (sid, fid) c (hs_pending_uploads s)
           in (s\<lparr>hs_pending_uploads := uploads\<rparr>, map Drop_Responder dropped @ [Emit (Rs_File_Upload sid fid d)]))
      | Ev_Session_End sid reason \<Rightarrow>
          (let (uploads, dropped) = map_retain (\<lambda>(sid', _). sid' \<noteq> sid) (hs_pending_uploads s)
           in (s\<lparr>hs_pending_uploads := uploads\<rparr>, map Drop_Responder dropped @ [Emit (Rs_Session_End sid reason)]))
      | Ev_Prepare_Upload_Aborted sid \<Rightarrow>
          (let (slot, dropped) = slot_retain (\<lambda>sid'. sid' \<noteq> sid) (hs_pending_decision s)
           in (s\<lparr>hs_pending_decision := slot\<rparr>,
               map Drop_Responder dropped @ [Emit (Rs_Prepare_Upload_Aborted sid)]))
      | Ev_Cancel_Received ip sid \<Rightarrow> (s, [Emit (Rs_Cancel_Received (peer_to_string ip) sid)]))"

definition rs_web_event :: "web_event \<Rightarrow> nat \<Rightarrow> rs_http_server \<Rightarrow> rs_http_server \<times> rs_action list" where
  "rs_web_event event c s =
     (case event of
        Ev_Prepare_Download ip sid agent \<Rightarrow>
          (let (decisions, dropped) = map_put sid c (hs_pending_download_decisions s)
           in (s\<lparr>hs_pending_download_decisions := decisions\<rparr>,
               map Drop_Responder dropped @ [Emit (Rs_Web_Prepare_Download (peer_to_string ip) sid agent)]))
      | Ev_File_Download sid fid d \<Rightarrow>
          (let (downloads, dropped) = map_put (sid, fid) c (hs_pending_downloads s)
           in (s\<lparr>hs_pending_downloads := downloads\<rparr>,
               map Drop_Responder dropped @ [Emit (Rs_Web_File_Download sid fid d)])))"

section \<open>Answers\<close>

definition respond_prepare_upload ::
  "(nat \<Rightarrow> bool) \<Rightarrow> string list option \<Rightarrow> rs_http_server \<Rightarrow> (string + unit) \<times> rs_http_server \<times> rs_action list" where
  "respond_prepare_upload still_open accepted s =
     (case slot_take [] (hs_pending_decision s) of
        (None, _) \<Rightarrow> (Inl ''No pending prepare-upload request'', s, [])
      | (Some c, slot) \<Rightarrow>
          (if still_open c then Inr () else Inl ''Prepare-upload request already ended'',
           s\<lparr>hs_pending_decision := slot\<rparr>,
           [Send_Decision c (case accepted of Some ids \<Rightarrow> Accept ids | None \<Rightarrow> Decline)]))"

definition resolve_upload_target :: "bool \<Rightarrow> string option \<Rightarrow> int option \<Rightarrow> string + upload_target" where
  "resolve_upload_target android path descriptor =
     (case (path, descriptor) of
        (Some p, None) \<Rightarrow> Inr (Target_Path p)
      | (None, Some fd) \<Rightarrow>
          if android then Inr (Target_Fd fd) else Inl ''File descriptors are only supported on Android''
      | _ \<Rightarrow> Inl ''Exactly one upload target must be provided'')"

definition rs_file_content :: "bool \<Rightarrow> string option \<Rightarrow> int option \<Rightarrow> string + file_content" where
  "rs_file_content android path descriptor =
     (case (path, descriptor) of
        (Some p, None) \<Rightarrow> Inr (Content_Path p)
      | (None, Some fd) \<Rightarrow>
          if android then Inr (Content_Fd fd) else Inl ''File descriptors are only supported on Android''
      | _ \<Rightarrow> Inl ''Exactly one download source must be provided'')"

text \<open>\<open>outcome\<close> is what the request reports when it has ended, \<open>None\<close> if it drops the channel.\<close>

definition respond_file_upload ::
  "bool \<Rightarrow> (nat \<Rightarrow> bool) \<Rightarrow> (string + unit) option \<Rightarrow> string \<Rightarrow> string \<Rightarrow> string option \<Rightarrow> int option
     \<Rightarrow> rs_http_server \<Rightarrow> (string + unit) \<times> rs_http_server \<times> rs_action list" where
  "respond_file_upload android still_open outcome sid fid path descriptor s =
     (case map_take (sid, fid) (hs_pending_uploads s) of
        (None, _) \<Rightarrow> (Inl ''No pending file upload for this file'', s, [])
      | (Some c, uploads) \<Rightarrow>
          (let s = s\<lparr>hs_pending_uploads := uploads\<rparr>
           in case resolve_upload_target android path descriptor of
                Inl e \<Rightarrow> (Inl e, s, [Drop_Responder c])
              | Inr target \<Rightarrow>
                  (if \<not> still_open c then Inl ''Upload request already ended''
                   else (case outcome of None \<Rightarrow> Inl ''Upload request aborted'' | Some r \<Rightarrow> r),
                   s, [Send_Target c target])))"

definition fail_file_upload :: "string \<Rightarrow> string \<Rightarrow> rs_http_server \<Rightarrow> rs_http_server \<times> rs_action list" where
  "fail_file_upload sid fid s =
     (let (r, uploads) = map_take (sid, fid) (hs_pending_uploads s)
      in (s\<lparr>hs_pending_uploads := uploads\<rparr>, case r of None \<Rightarrow> [] | Some c \<Rightarrow> [Drop_Responder c]))"

definition respond_prepare_download ::
  "(nat \<Rightarrow> bool) \<Rightarrow> string \<Rightarrow> bool \<Rightarrow> rs_http_server \<Rightarrow> (string + unit) \<times> rs_http_server \<times> rs_action list" where
  "respond_prepare_download still_open sid accept s =
     (case map_take sid (hs_pending_download_decisions s) of
        (None, _) \<Rightarrow> (Inl ''No pending prepare-download request'', s, [])
      | (Some c, decisions) \<Rightarrow>
          (if still_open c then Inr () else Inl ''Prepare-download request already ended'',
           s\<lparr>hs_pending_download_decisions := decisions\<rparr>, [Send_Accept c accept]))"

definition respond_file_download ::
  "bool \<Rightarrow> (nat \<Rightarrow> bool) \<Rightarrow> string \<Rightarrow> string \<Rightarrow> string option \<Rightarrow> int option \<Rightarrow> rs_http_server
     \<Rightarrow> (string + unit) \<times> rs_http_server \<times> rs_action list" where
  "respond_file_download android still_open sid fid path descriptor s =
     (case map_take (sid, fid) (hs_pending_downloads s) of
        (None, _) \<Rightarrow> (Inl ''No pending file download for this file'', s, [])
      | (Some c, downloads) \<Rightarrow>
          (let s = s\<lparr>hs_pending_downloads := downloads\<rparr>
           in case rs_file_content android path descriptor of
                Inl e \<Rightarrow> (Inl e, s, [Drop_Responder c])
              | Inr content \<Rightarrow>
                  (if still_open c then Inr () else Inl ''Download request already ended'',
                   s, [Send_Content c content])))"

definition fail_file_download :: "string \<Rightarrow> string \<Rightarrow> rs_http_server \<Rightarrow> rs_http_server \<times> rs_action list" where
  "fail_file_download sid fid s =
     (let (r, downloads) = map_take (sid, fid) (hs_pending_downloads s)
      in (s\<lparr>hs_pending_downloads := downloads\<rparr>, case r of None \<Rightarrow> [] | Some c \<Rightarrow> [Drop_Responder c]))"

definition rs_cancel_session :: "string \<Rightarrow> rs_http_server \<Rightarrow> rs_http_server \<times> rs_action list" where
  "rs_cancel_session sid s =
     (let (uploads, dropped) = map_retain (\<lambda>(sid', _). sid' \<noteq> sid) (hs_pending_uploads s)
      in (s\<lparr>hs_pending_uploads := uploads\<rparr>, Cancel_V2_Session sid # map Drop_Responder dropped))"

definition rs_stop :: "rs_http_server \<Rightarrow> rs_http_server \<times> rs_action list" where
  "rs_stop s = (if hs_stop_tx s then (s\<lparr>hs_stop_tx := False\<rparr>, [Stop_Server]) else (s, []))"

section \<open>Listening\<close>

text \<open>What the three channels give: an event, or their end. A channel that has ended is not asked again.\<close>

datatype listen_input =
    From_V2 "(server_event \<times> nat) option"
  | From_Web "(web_event \<times> nat) option"
  | From_Internal "string list option"

fun listen_loop ::
  "bool \<Rightarrow> bool \<Rightarrow> bool \<Rightarrow> listen_input list \<Rightarrow> rs_http_server \<Rightarrow> rs_http_server \<times> rs_action list \<times> bool" where
  "listen_loop v2 web internal [] s = (s, [], False)"
| "listen_loop v2 web internal (input # inputs) s =
     (let (s, acts, v2, web, internal) =
        (case input of
           From_V2 (Some (e, c)) \<Rightarrow> (let (s, acts) = rs_handle_event e c s in (s, acts, v2, web, internal))
         | From_V2 None \<Rightarrow> (s, [], False, web, internal)
         | From_Web (Some (e, c)) \<Rightarrow> (let (s, acts) = rs_web_event e c s in (s, acts, v2, web, internal))
         | From_Web None \<Rightarrow> (s, [], v2, False, internal)
         | From_Internal (Some args) \<Rightarrow> (s, [Emit (Rs_Show args)], v2, web, internal)
         | From_Internal None \<Rightarrow> (s, [], v2, web, False))
      in if \<not> v2 \<and> \<not> web \<and> \<not> internal then (s, acts, True)
         else (let (s, acts', done) = listen_loop v2 web internal inputs s in (s, acts @ acts', done)))"

text \<open>\<open>web\<close> and \<open>internal\<close>: whether these parts of the server are enabled.\<close>

definition rs_listen ::
  "bool \<Rightarrow> bool \<Rightarrow> listen_input list \<Rightarrow> rs_http_server \<Rightarrow> rs_http_server \<times> rs_action list \<times> bool" where
  "rs_listen web internal inputs s =
     (if hs_event_rx s then listen_loop True web internal inputs (s\<lparr>hs_event_rx := False\<rparr>)
      else (s, [Emit_Error ''Server events already listened to''], True))"

section \<open>Progress\<close>

text \<open>
  The values that are shown, of those that arrive with their times in nanoseconds: one every 20 milliseconds, and every
  one that reaches the size. The fraction that is emitted is computed from them in floating point and left out.
\<close>

fun shown_progress :: "u64 \<Rightarrow> nat option \<Rightarrow> (nat \<times> u64) list \<Rightarrow> u64 list" where
  "shown_progress full prev [] = []"
| "shown_progress full prev ((now, written) # rest) =
     (if written < full \<and> (case prev of Some l \<Rightarrow> now - l < 20000000 | None \<Rightarrow> False)
      then shown_progress full prev rest
      else written # shown_progress full (Some now) rest)"

section \<open>Calls and events in any order\<close>

datatype rs_op =
    Op_Event server_event nat
  | Op_Web web_event nat
  | Op_Respond_Prepare "string list option"
  | Op_Respond_Upload string string "string option" "int option"
  | Op_Fail_Upload string string
  | Op_Respond_Prepare_Download string bool
  | Op_Respond_Download string string "string option" "int option"
  | Op_Fail_Download string string
  | Op_Cancel_Session string
  | Op_Stop

text \<open>What the application is told (\<open>still_open\<close>, \<open>outcome\<close>) has no influence on the state.\<close>

definition rs_step :: "bool \<Rightarrow> rs_op \<Rightarrow> rs_http_server \<Rightarrow> rs_http_server \<times> rs_action list" where
  "rs_step android op s =
     (case op of
        Op_Event e c \<Rightarrow> rs_handle_event e c s
      | Op_Web e c \<Rightarrow> rs_web_event e c s
      | Op_Respond_Prepare ids \<Rightarrow> snd (respond_prepare_upload (\<lambda>_. True) ids s)
      | Op_Respond_Upload sid fid p fd \<Rightarrow> snd (respond_file_upload android (\<lambda>_. True) None sid fid p fd s)
      | Op_Fail_Upload sid fid \<Rightarrow> fail_file_upload sid fid s
      | Op_Respond_Prepare_Download sid accept \<Rightarrow> snd (respond_prepare_download (\<lambda>_. True) sid accept s)
      | Op_Respond_Download sid fid p fd \<Rightarrow> snd (respond_file_download android (\<lambda>_. True) sid fid p fd s)
      | Op_Fail_Download sid fid \<Rightarrow> fail_file_download sid fid s
      | Op_Cancel_Session sid \<Rightarrow> rs_cancel_session sid s
      | Op_Stop \<Rightarrow> rs_stop s)"

fun rs_run :: "bool \<Rightarrow> rs_op list \<Rightarrow> rs_http_server \<Rightarrow> rs_http_server \<times> rs_action list" where
  "rs_run android [] s = (s, [])"
| "rs_run android (op # ops) s =
     (let (s, acts) = rs_step android op s; (s, acts') = rs_run android ops s in (s, acts @ acts'))"

text \<open>The responders an operation brings, and those that are used up.\<close>

fun brought :: "rs_op \<Rightarrow> nat list" where
  "brought (Op_Event (Ev_Prepare_Upload _ _ _ _ _) c) = [c]"
| "brought (Op_Event (Ev_File_Upload _ _ _) c) = [c]"
| "brought (Op_Web _ c) = [c]"
| "brought _ = []"

fun used :: "rs_action \<Rightarrow> nat list" where
  "used (Send_Decision c _) = [c]"
| "used (Send_Target c _) = [c]"
| "used (Send_Accept c _) = [c]"
| "used (Send_Content c _) = [c]"
| "used (Drop_Responder c) = [c]"
| "used _ = []"

definition rs_ok :: "rs_http_server \<Rightarrow> bool" where
  "rs_ok s \<longleftrightarrow> hm_wf (hs_pending_uploads s) \<and> hm_wf (hs_pending_download_decisions s) \<and> hm_wf (hs_pending_downloads s)"

definition rs_pending :: "rs_http_server \<Rightarrow> nat multiset" where
  "rs_pending s = slot_pending (hs_pending_decision s) + map_pending (hs_pending_uploads s) +
     map_pending (hs_pending_download_decisions s) + map_pending (hs_pending_downloads s)"

abbreviation used_up :: "rs_action list \<Rightarrow> nat multiset" where
  "used_up acts \<equiv> mset (concat (map used acts))"

lemma used_drops [simp]: "concat (map used (map Drop_Responder cs)) = cs"
  by (induction cs) auto

lemma used_drops_comp [simp]: "concat (map (used \<circ> Drop_Responder) cs) = cs"
  by (induction cs) auto

named_theorems rs_defs \<open>the operations of the server for the application\<close>

lemmas [rs_defs] = rs_handle_event_def rs_web_event_def respond_prepare_upload_def respond_file_upload_def
  fail_file_upload_def respond_prepare_download_def respond_file_download_def fail_file_download_def
  rs_cancel_session_def rs_stop_def

lemma rs_step_ok:
  assumes "rs_ok s"
  shows "rs_ok (fst (rs_step android op s))"
  using assms mapped.put_ok mapped.take_ok mapped.retain_ok
  by (cases op) (auto simp: rs_step_def rs_ok_def rs_defs map_put_def map_take_def map_retain_def Let_def
      split: server_event.split web_event.split option.split sum.split prod.split)

lemma shift:
  assumes "A + D = B + C"
  shows "A + X + Y + Z + D = B + X + Y + Z + (C :: nat multiset)"
    and "X + A + Y + Z + D = X + B + Y + Z + C"
    and "X + Y + A + Z + D = X + Y + B + Z + C"
    and "X + Y + Z + A + D = X + Y + Z + B + C"
proof -
  have "(A + D) + (X + Y + Z) = (B + C) + (X + Y + Z)" using assms by simp
  then show "A + X + Y + Z + D = B + X + Y + Z + C" "X + A + Y + Z + D = X + B + Y + Z + C"
    "X + Y + A + Z + D = X + Y + B + Z + C" "X + Y + Z + A + D = X + Y + Z + B + C"
    by (simp_all add: ac_simps)
qed

lemma step_uploads:
  assumes "map_pending uploads + mset d = map_pending (hs_pending_uploads s) + C"
  shows "rs_pending (s\<lparr>hs_pending_uploads := uploads\<rparr>) + mset d = rs_pending s + C"
  using shift(2) [OF assms] by (simp add: rs_pending_def)

lemma step_downloads:
  assumes "map_pending downloads + mset d = map_pending (hs_pending_downloads s) + C"
  shows "rs_pending (s\<lparr>hs_pending_downloads := downloads\<rparr>) + mset d = rs_pending s + C"
  using shift(4) [OF assms] by (simp add: rs_pending_def)

lemma step_download_decisions:
  assumes "map_pending decisions + mset d = map_pending (hs_pending_download_decisions s) + C"
  shows "rs_pending (s\<lparr>hs_pending_download_decisions := decisions\<rparr>) + mset d = rs_pending s + C"
  using shift(3) [OF assms] by (simp add: rs_pending_def)

lemma step_decision:
  assumes "slot_pending slot + mset d = slot_pending (hs_pending_decision s) + C"
  shows "rs_pending (s\<lparr>hs_pending_decision := slot\<rparr>) + mset d = rs_pending s + C"
  using shift(1) [OF assms] by (simp add: rs_pending_def)

lemma rs_step_conserves:
  assumes "rs_ok s"
  shows "rs_pending (fst (rs_step android op s)) + used_up (snd (rs_step android op s)) = rs_pending s + mset (brought op)"
proof -
  have wf: "hm_wf (hs_pending_uploads s)" "hm_wf (hs_pending_download_decisions s)" "hm_wf (hs_pending_downloads s)"
    using assms by (simp_all add: rs_ok_def)
  note up = step_uploads [OF mapped.put_sum [OF wf(1)]] step_uploads [OF mapped.take_sum [OF wf(1)]]
    step_uploads [OF mapped.retain_sum [OF wf(1)]]
  note down = step_downloads [OF mapped.put_sum [OF wf(3)]] step_downloads [OF mapped.take_sum [OF wf(3)]]
  note decisions = step_download_decisions [OF mapped.put_sum [OF wf(2)]] step_download_decisions [OF mapped.take_sum [OF wf(2)]]
  note slot = step_decision [OF slotted.put_sum] step_decision [OF slotted.take_sum] step_decision [OF slotted.retain_sum]
  show ?thesis
  proof (cases op)
    case (Op_Event e c)
    then show ?thesis
      by (cases e) (use up slot in \<open>auto simp: rs_step_def rs_handle_event_def split: prod.split\<close>)
  next
    case (Op_Web e c)
    then show ?thesis
      by (cases e) (use down decisions in \<open>auto simp: rs_step_def rs_web_event_def split: prod.split\<close>)
  next
    case (Op_Respond_Prepare ids)
    then show ?thesis using slot(2)
      by (fastforce simp: rs_step_def respond_prepare_upload_def split: prod.split option.split)
  next
    case (Op_Respond_Upload sid fid p fd)
    then show ?thesis using up(2)
      by (fastforce simp: rs_step_def respond_file_upload_def Let_def split: prod.split option.split sum.split)
  next
    case (Op_Fail_Upload sid fid)
    then show ?thesis using up(2) by (fastforce simp: rs_step_def fail_file_upload_def split: prod.split option.split)
  next
    case (Op_Respond_Prepare_Download sid accept)
    then show ?thesis using decisions(2)
      by (fastforce simp: rs_step_def respond_prepare_download_def split: prod.split option.split)
  next
    case (Op_Respond_Download sid fid p fd)
    then show ?thesis using down(2)
      by (fastforce simp: rs_step_def respond_file_download_def Let_def split: prod.split option.split sum.split)
  next
    case (Op_Fail_Download sid fid)
    then show ?thesis using down(2) by (fastforce simp: rs_step_def fail_file_download_def split: prod.split option.split)
  next
    case (Op_Cancel_Session sid)
    then show ?thesis using up(3) by (auto simp: rs_step_def rs_cancel_session_def split: prod.split)
  next
    case Op_Stop
    then show ?thesis by (simp add: rs_step_def rs_stop_def rs_pending_def)
  qed
qed

lemma rs_ok_new: "rs_ok rs_server_new" "rs_pending rs_server_new = {#}"
  by (simp_all add: rs_ok_def rs_pending_def rs_server_new_def slot_pending_def map_pending_def)

lemma rs_run_conserves:
  "rs_ok s \<Longrightarrow> rs_pending (fst (rs_run android ops s)) + used_up (snd (rs_run android ops s)) =
     rs_pending s + mset (concat (map brought ops))"
proof (induction ops arbitrary: s)
  case (Cons op ops)
  let ?s = "fst (rs_step android op s)"
  have rest: "rs_pending (fst (rs_run android ops ?s)) + used_up (snd (rs_run android ops ?s)) =
      rs_pending ?s + mset (concat (map brought ops))"
    by (rule Cons.IH [OF rs_step_ok [OF Cons.prems]])
  have "rs_pending (fst (rs_run android (op # ops) s)) + used_up (snd (rs_run android (op # ops) s)) =
      (rs_pending (fst (rs_run android ops ?s)) + used_up (snd (rs_run android ops ?s))) +
      used_up (snd (rs_step android op s))"
    by (simp add: Let_def case_prod_beta ac_simps)
  also have "\<dots> = (rs_pending ?s + used_up (snd (rs_step android op s))) + mset (concat (map brought ops))"
    by (simp only: rest ac_simps)
  also have "\<dots> = rs_pending s + mset (concat (map brought (op # ops)))"
    by (simp only: rs_step_conserves [OF Cons.prems]) (simp add: ac_simps)
  finally show ?case .
qed simp

text \<open>A second answer to the same request is an error and does nothing.\<close>

lemma answered_once:
  "rs_ok s \<Longrightarrow> respond_file_upload android open1 outcome sid fid path descriptor s = (r, s', acts) \<Longrightarrow>
     respond_file_upload android open2 outcome' sid fid path' descriptor' s' =
       (Inl ''No pending file upload for this file'', s', [])"
  "respond_prepare_upload open1 accepted s = (r, s', acts) \<Longrightarrow>
     respond_prepare_upload open2 accepted' s' = (Inl ''No pending prepare-upload request'', s', [])"
  using mapped.taken_once [of "hs_pending_uploads s" "(sid, fid)"] slotted.taken_once [of "[]" "hs_pending_decision s"]
  by (auto simp: respond_file_upload_def respond_prepare_upload_def rs_ok_def Let_def
      split: option.splits prod.splits sum.splits)

section \<open>Which request an answer reaches\<close>

text \<open>The responder of a file that waits, said of the operations alone.\<close>

fun upload_waits :: "string \<Rightarrow> string \<Rightarrow> rs_op \<Rightarrow> nat option \<Rightarrow> nat option" where
  "upload_waits sid fid (Op_Event (Ev_File_Upload sid' fid' _) c) w = (if sid' = sid \<and> fid' = fid then Some c else w)"
| "upload_waits sid fid (Op_Event (Ev_Session_End sid' _) c) w = (if sid' = sid then None else w)"
| "upload_waits sid fid (Op_Respond_Upload sid' fid' _ _) w = (if sid' = sid \<and> fid' = fid then None else w)"
| "upload_waits sid fid (Op_Fail_Upload sid' fid') w = (if sid' = sid \<and> fid' = fid then None else w)"
| "upload_waits sid fid (Op_Cancel_Session sid') w = (if sid' = sid then None else w)"
| "upload_waits sid fid _ w = w"

lemma upload_waits_step:
  assumes "rs_ok s"
  shows "hm_get (hs_pending_uploads (fst (rs_step android op s))) (sid, fid) =
    upload_waits sid fid op (hm_get (hs_pending_uploads s) (sid, fid))"
proof (cases op)
  case (Op_Event e c)
  then show ?thesis
    by (cases e) (auto simp: rs_step_def rs_handle_event_def map_put_def map_retain_def hm_get_filter_key split: prod.split)
next
  case (Op_Web e c)
  then show ?thesis by (cases e) (auto simp: rs_step_def rs_web_event_def split: prod.split)
qed (use assms in \<open>auto simp: rs_step_def rs_defs Let_def map_take_def map_retain_def hm_get_filter_key
    split: option.split sum.split prod.split\<close>)

lemma upload_waits_run:
  "rs_ok s \<Longrightarrow> hm_get (hs_pending_uploads (fst (rs_run android ops s))) (sid, fid) =
     fold (upload_waits sid fid) ops (hm_get (hs_pending_uploads s) (sid, fid))"
  by (induction ops arbitrary: s)
    (auto simp: Let_def case_prod_beta upload_waits_step rs_step_ok)

text \<open>
  C39: An answer to an upload reaches exactly the request that announced the file last, if that was not answered or
  failed and its session has not ended or been cancelled since; a call without a target fails that
  request, and every other call does nothing.
\<close>

theorem upload_answer_exact:
  "snd (rs_step android (Op_Respond_Upload sid fid path descriptor) (fst (rs_run android ops rs_server_new))) =
     (case fold (upload_waits sid fid) ops None of
        None \<Rightarrow> []
      | Some c \<Rightarrow>
          (case resolve_upload_target android path descriptor of
             Inl e \<Rightarrow> [Drop_Responder c]
           | Inr target \<Rightarrow> [Send_Target c target]))"
proof -
  have "hm_get (hs_pending_uploads (fst (rs_run android ops rs_server_new))) (sid, fid) =
      fold (upload_waits sid fid) ops None"
    using upload_waits_run [OF rs_ok_new(1)] by (simp add: rs_server_new_def)
  then show ?thesis
    by (simp add: rs_step_def respond_file_upload_def map_take_def Let_def split: option.split sum.split)
qed

text \<open>The same for the request to send, of which one waits at a time, and for the two requests of a browser.\<close>

fun decision_waits :: "rs_op \<Rightarrow> (string \<times> nat) option \<Rightarrow> (string \<times> nat) option" where
  "decision_waits (Op_Event (Ev_Prepare_Upload sid _ _ _ _) c) w = Some (sid, c)"
| "decision_waits (Op_Event (Ev_Prepare_Upload_Aborted sid) c) w = (if map_option fst w = Some sid then None else w)"
| "decision_waits (Op_Respond_Prepare _) w = None"
| "decision_waits _ w = w"

fun download_decision_waits :: "string \<Rightarrow> rs_op \<Rightarrow> nat option \<Rightarrow> nat option" where
  "download_decision_waits sid (Op_Web (Ev_Prepare_Download _ sid' _) c) w = (if sid' = sid then Some c else w)"
| "download_decision_waits sid (Op_Respond_Prepare_Download sid' _) w = (if sid' = sid then None else w)"
| "download_decision_waits sid _ w = w"

fun download_waits :: "string \<Rightarrow> string \<Rightarrow> rs_op \<Rightarrow> nat option \<Rightarrow> nat option" where
  "download_waits sid fid (Op_Web (Ev_File_Download sid' fid' _) c) w = (if sid' = sid \<and> fid' = fid then Some c else w)"
| "download_waits sid fid (Op_Respond_Download sid' fid' _ _) w = (if sid' = sid \<and> fid' = fid then None else w)"
| "download_waits sid fid (Op_Fail_Download sid' fid') w = (if sid' = sid \<and> fid' = fid then None else w)"
| "download_waits sid fid _ w = w"

lemma waits_step_all:
  assumes "rs_ok s"
  shows "hs_pending_decision (fst (rs_step android op s)) = decision_waits op (hs_pending_decision s) \<and>
    hm_get (hs_pending_download_decisions (fst (rs_step android op s))) sid =
      download_decision_waits sid op (hm_get (hs_pending_download_decisions s) sid) \<and>
    hm_get (hs_pending_downloads (fst (rs_step android op s))) (sid, fid) =
      download_waits sid fid op (hm_get (hs_pending_downloads s) (sid, fid))"
proof (cases op)
  case (Op_Event e c)
  then show ?thesis
    by (cases e) (auto simp: rs_step_def rs_handle_event_def slot_put_def slot_retain_def split: prod.split option.split)
next
  case (Op_Web e c)
  then show ?thesis by (cases e) (auto simp: rs_step_def rs_web_event_def map_put_def split: prod.split)
next
  case (Op_Respond_Download sid' fid' p fd)
  have "hs_pending_downloads (fst (rs_step android op s)) = hm_del (sid', fid') (hs_pending_downloads s)"
    using Op_Respond_Download assms
    by (auto simp: rs_step_def rs_ok_def respond_file_download_def map_take_def Let_def del_absent
        split: option.split sum.split)
  then show ?thesis
    using Op_Respond_Download assms
    by (auto simp: rs_step_def rs_ok_def respond_file_download_def map_take_def Let_def split: option.split sum.split)
qed (use assms in \<open>auto simp: rs_step_def rs_ok_def rs_defs Let_def slot_take_def map_take_def map_retain_def
    split: option.split sum.split prod.split\<close>)

lemmas waits_step = waits_step_all [THEN conjunct1] waits_step_all [THEN conjunct2, THEN conjunct1]
  waits_step_all [THEN conjunct2, THEN conjunct2]

lemma waits_run:
  assumes "rs_ok s"
  shows "hs_pending_decision (fst (rs_run android ops s)) = fold decision_waits ops (hs_pending_decision s)"
    and "hm_get (hs_pending_download_decisions (fst (rs_run android ops s))) sid =
      fold (download_decision_waits sid) ops (hm_get (hs_pending_download_decisions s) sid)"
    and "hm_get (hs_pending_downloads (fst (rs_run android ops s))) (sid, fid) =
      fold (download_waits sid fid) ops (hm_get (hs_pending_downloads s) (sid, fid))"
  using assms
  by (induction ops arbitrary: s) (simp_all add: Let_def case_prod_beta waits_step rs_step_ok)

text \<open>
  C38: However events and calls are interleaved, a request that waits is answered: the decision on a request to
  send reaches the last one that came, unless it was aborted or answered before; the decision on a download
  reaches the last request of its session that was not answered, and the content of a file the last
  request for it that was not answered or failed (a call without a source fails it). Every other answer does
  nothing. And no responder is lost or used twice: those that came are those that wait and those that were
  sent on or dropped, each as often as it came.
\<close>

theorem waiting_requests_answered:
  "let s = fst (rs_run android ops rs_server_new) in
    snd (rs_step android (Op_Respond_Prepare accepted) s) =
      (case fold decision_waits ops None of
         None \<Rightarrow> []
       | Some (_, c) \<Rightarrow> [Send_Decision c (case accepted of Some ids \<Rightarrow> Accept ids | None \<Rightarrow> Decline)]) \<and>
    snd (rs_step android (Op_Respond_Prepare_Download sid accept) s) =
      (case fold (download_decision_waits sid) ops None of
         None \<Rightarrow> []
       | Some c \<Rightarrow> [Send_Accept c accept]) \<and>
    snd (rs_step android (Op_Respond_Download sid fid path descriptor) s) =
      (case fold (download_waits sid fid) ops None of
         None \<Rightarrow> []
       | Some c \<Rightarrow>
           (case rs_file_content android path descriptor of
              Inl e \<Rightarrow> [Drop_Responder c]
            | Inr content \<Rightarrow> [Send_Content c content])) \<and>
    mset (concat (map brought ops)) = rs_pending s + used_up (snd (rs_run android ops rs_server_new))"
proof -
  have new: "hs_pending_decision rs_server_new = None" "hs_pending_download_decisions rs_server_new = []"
    "hs_pending_downloads rs_server_new = []"
    by (simp_all add: rs_server_new_def)
  note waits = waits_run [OF rs_ok_new(1), of android ops]
  let ?s = "fst (rs_run android ops rs_server_new)"
  have "rs_pending ?s + used_up (snd (rs_run android ops rs_server_new)) = mset (concat (map brought ops))"
    using rs_run_conserves [OF rs_ok_new(1), of android ops] by (simp add: rs_ok_new(2))
  moreover have "hs_pending_decision ?s = fold decision_waits ops None"
    and "hm_get (hs_pending_download_decisions ?s) sid = fold (download_decision_waits sid) ops None"
    and "hm_get (hs_pending_downloads ?s) (sid, fid) = fold (download_waits sid fid) ops None"
    using waits by (simp_all add: new)
  ultimately show ?thesis
    by (simp add: rs_step_def respond_prepare_upload_def respond_prepare_download_def respond_file_download_def
        slot_take_def map_take_def Let_def split: option.split sum.split prod.split)
qed

text \<open>
  The answer to a request to send names no session: given while the request it was meant for is aborted and the next
  one has come, it decides the next one, with files the user has not seen.
\<close>

lemma stale_answer_decides_next_request:
  assumes "a \<noteq> b"
  shows "snd (rs_run android
    [Op_Event (Ev_Prepare_Upload a ip info cert files) 0, Op_Event (Ev_Prepare_Upload_Aborted a) 1,
     Op_Event (Ev_Prepare_Upload b ip info cert files') 2, Op_Respond_Prepare (Some (map fst files))] rs_server_new) =
    [Emit (Rs_Prepare_Upload a (peer_to_string ip) info cert files), Drop_Responder 0,
     Emit (Rs_Prepare_Upload_Aborted a), Emit (Rs_Prepare_Upload b (peer_to_string ip) info cert files'),
     Send_Decision 2 (Accept (map fst files))]"
  by (simp add: rs_step_def rs_handle_event_def respond_prepare_upload_def slot_put_def slot_take_def slot_retain_def
      rs_server_new_def)

section \<open>The stream of events and of progress\<close>

text \<open>
  The loop ends exactly when all channels it listens to have ended.
\<close>

lemma listen_ends:
  "v2 \<or> web \<or> internal \<Longrightarrow> snd (snd (listen_loop v2 web internal inputs s)) \<longleftrightarrow>
     (v2 \<longrightarrow> From_V2 None \<in> set inputs) \<and> (web \<longrightarrow> From_Web None \<in> set inputs) \<and>
     (internal \<longrightarrow> From_Internal None \<in> set inputs)"
proof (induction inputs arbitrary: v2 web internal s)
  case (Cons i inputs)
  show ?case
  proof (cases i)
    case (From_V2 e)
    then show ?thesis using Cons by (cases e) (auto simp: Let_def case_prod_beta)
  next
    case (From_Web e)
    then show ?thesis using Cons by (cases e) (auto simp: Let_def case_prod_beta)
  next
    case (From_Internal e)
    then show ?thesis using Cons by (cases e) (auto simp: Let_def case_prod_beta)
  qed
qed auto

text \<open>However fast it goes, the end of a file is shown.\<close>

lemma shown_progress_end:
  "full \<le> snd (last arrivals) \<Longrightarrow> arrivals \<noteq> [] \<Longrightarrow> last (shown_progress full prev arrivals) = snd (last arrivals)"
proof (induction arrivals arbitrary: prev)
  case (Cons x arrivals)
  have nonempty: "shown_progress full p arrivals \<noteq> []" if "arrivals \<noteq> []" "full \<le> snd (last arrivals)" for p
    using that by (induction arrivals arbitrary: p) (auto split: if_splits)
  show ?case using Cons nonempty by (cases x; cases "arrivals = []") (auto simp: not_less)
qed simp

end
