(* ===== verification/Frb_Client.thy ===== *)
theory Frb_Client
  imports Http_Client Multicast Ip_Text
begin

text \<open>
  The HTTP client, hashing and discovery as the Flutter application sees them
  (\<open>doorstep_isolates/rust/src/api/\<close>: \<open>http.rs\<close>, \<open>crypto.rs\<close>, \<open>multicast.rs\<close>, \<open>stream.rs\<close>; \<open>util/bytes.rs\<close>). \<open>android\<close>
  says for which system the library is built.
\<close>

section \<open>Streams from the application\<close>

text \<open>
  A stream is the chunks sent so far; sending fails when the stream is closed or its receiver is gone.
\<close>

record dart_sink =
  ds_open :: bool
  ds_receiver :: bool
  ds_sent :: "bytes list"

definition create_stream :: dart_sink where
  "create_stream = \<lparr>ds_open = True, ds_receiver = True, ds_sent = []\<rparr>"

definition sink_add :: "bytes \<Rightarrow> dart_sink \<Rightarrow> (string + unit) \<times> dart_sink" where
  "sink_add data s =
     (if \<not> ds_open s then (Inl ''Stream already closed'', s)
      else if \<not> ds_receiver s then (Inl ''Failed to send data'', s)
      else (Inr (), s\<lparr>ds_sent := ds_sent s @ [data]\<rparr>))"

definition sink_close :: "dart_sink \<Rightarrow> dart_sink" where
  "sink_close s = s\<lparr>ds_open := False\<rparr>"

section \<open>Content\<close>

definition client_file_content :: "bool \<Rightarrow> bytes list option \<Rightarrow> string option \<Rightarrow> int option \<Rightarrow> string + file_content" where
  "client_file_content android binary path descriptor =
     (case (binary, path, descriptor) of
        (Some chunks, None, None) \<Rightarrow> Inr (Content_Stream chunks)
      | (None, Some p, None) \<Rightarrow> Inr (Content_Path p)
      | (None, None, Some fd) \<Rightarrow>
          if android then Inr (Content_Fd fd) else Inl ''File descriptors are only supported on Android''
      | _ \<Rightarrow> Inl ''Exactly one upload content source must be provided'')"

text \<open>The hash of bytes in memory is not cancelled.\<close>

definition hash_file ::
  "('sk, 'ek, 'rk, 'z) crypto_lib_scheme \<Rightarrow> (string \<Rightarrow> string + reads) \<Rightarrow> (int \<Rightarrow> reads) \<Rightarrow> (hash_error \<Rightarrow> string)
     \<Rightarrow> bool \<Rightarrow> string option \<Rightarrow> int option \<Rightarrow> bytes option \<Rightarrow> (nat \<Rightarrow> bool) \<Rightarrow> string + string" where
  "hash_file lib open_file fd_reads show_error android path descriptor data cancelled =
     (let file = (\<lambda>content. case sha256_file_content lib open_file fd_reads content cancelled of
            Inl e \<Rightarrow> Inl (show_error e)
          | Inr h \<Rightarrow> Inr h)
      in case (path, descriptor, data) of
           (Some p, None, None) \<Rightarrow> file (Content_Path p)
         | (None, Some fd, None) \<Rightarrow>
             if android then file (Content_Fd fd) else Inl ''File descriptors are only supported on Android''
         | (None, None, Some b) \<Rightarrow> Inr (sha256_hex lib b)
         | _ \<Rightarrow> Inl ''Exactly one content source must be provided'')"

section \<open>Errors\<close>

datatype rs_client_error =
    Rs_Status_Code status "string option"
  | Rs_Reqwest string
  | Rs_Json string
  | Rs_Io string
  | Rs_Other string

text \<open>An error is its text followed by the texts of its causes.\<close>

fun error_chain :: "string list \<Rightarrow> string" where
  "error_chain [] = []"
| "error_chain (message # causes) = message @ concat (map (\<lambda>c. '': '' @ c) causes)"

text \<open>\<open>chain\<close> gives the texts of a \<open>reqwest\<close> error, \<open>describe\<close> that of another.\<close>

definition rs_client_error_from :: "string list \<Rightarrow> (client_error \<Rightarrow> string) \<Rightarrow> client_error \<Rightarrow> rs_client_error" where
  "rs_client_error_from chain describe e =
     (case e of
        Ce_Status st message \<Rightarrow> Rs_Status_Code st message
      | Ce_Reqwest \<Rightarrow> Rs_Reqwest (error_chain chain)
      | Ce_Json \<Rightarrow> Rs_Json (describe e)
      | Ce_Io \<Rightarrow> Rs_Io (describe e)
      | Ce_Cert _ \<Rightarrow> Rs_Other (describe e)
      | Ce_Other _ \<Rightarrow> Rs_Other (describe e)
      | Ce_Cancelled \<Rightarrow> Rs_Other ''Upload cancelled'')"

section \<open>Calls\<close>

abbreviation rs_mapped :: "string list \<Rightarrow> (client_error \<Rightarrow> string) \<Rightarrow> 'a client_result \<times> 's \<Rightarrow> (rs_client_error + 'a) \<times> 's" where
  "rs_mapped chain describe r \<equiv> (map_sum (rs_client_error_from chain describe) id (fst r), snd r)"

definition rs_client_register ::
  "string list \<Rightarrow> (client_error \<Rightarrow> string) \<Rightarrow> ls_http_client \<Rightarrow> 'pk cert_lib \<Rightarrow> 'b body_lib \<Rightarrow> ('b, 's) network
     \<Rightarrow> protocol_type \<Rightarrow> string \<Rightarrow> u16 \<Rightarrow> register_dto \<Rightarrow> 's
     \<Rightarrow> (rs_client_error + string option \<times> register_response_dto) \<times> 's" where
  "rs_client_register chain describe client cl bl send protocol ip port payload w =
     rs_mapped chain describe (ls_register client cl bl send protocol ip port payload w)"

definition rs_client_prepare_upload ::
  "string list \<Rightarrow> (client_error \<Rightarrow> string) \<Rightarrow> ls_http_client \<Rightarrow> 'pk cert_lib \<Rightarrow> 'b body_lib \<Rightarrow> ('b, 's) network
     \<Rightarrow> protocol_type \<Rightarrow> string \<Rightarrow> u16 \<Rightarrow> prepare_upload_request_dto \<Rightarrow> string option \<Rightarrow> string option \<Rightarrow> bool \<Rightarrow> 's
     \<Rightarrow> (rs_client_error + prepare_upload_result) \<times> 's" where
  "rs_client_prepare_upload chain describe client cl bl send protocol ip port payload public_key pin cancelled w =
     rs_mapped chain describe (ls_prepare_upload client cl bl send protocol ip port public_key payload pin cancelled w)"

definition rs_client_upload ::
  "string list \<Rightarrow> (client_error \<Rightarrow> string) \<Rightarrow> bool \<Rightarrow> ls_http_client \<Rightarrow> 'pk cert_lib \<Rightarrow> 'b body_lib
     \<Rightarrow> (file_content \<Rightarrow> bytes list) \<Rightarrow> ('b, 's) network \<Rightarrow> protocol_type \<Rightarrow> string \<Rightarrow> u16 \<Rightarrow> string option
     \<Rightarrow> string \<Rightarrow> string \<Rightarrow> string \<Rightarrow> bytes list option \<Rightarrow> string option \<Rightarrow> int option \<Rightarrow> bool \<Rightarrow> 's
     \<Rightarrow> (rs_client_error + unit) \<times> 's" where
  "rs_client_upload chain describe android client cl bl receiver send protocol ip port public_key session_id file_id
     token binary path descriptor cancelled w =
     (case client_file_content android binary path descriptor of
        Inl e \<Rightarrow> (Inl (Rs_Other e), w)
      | Inr content \<Rightarrow>
          rs_mapped chain describe
            (ls_upload client cl bl receiver send protocol ip port public_key session_id file_id token content cancelled w))"

definition rs_client_cancel ::
  "string list \<Rightarrow> (client_error \<Rightarrow> string) \<Rightarrow> ls_http_client \<Rightarrow> ('b, 's) network \<Rightarrow> protocol_type \<Rightarrow> string \<Rightarrow> u16
     \<Rightarrow> string \<Rightarrow> 's \<Rightarrow> (rs_client_error + unit) \<times> 's" where
  "rs_client_cancel chain describe client send protocol ip port session_id w =
     rs_mapped chain describe (ls_cancel client send protocol ip port session_id w)"

text \<open>Exactly one source, and a call without one sends nothing.\<close>

lemma client_file_content_one:
  "(\<exists>c. client_file_content android binary path descriptor = Inr c) \<longleftrightarrow>
     (binary \<noteq> None \<and> path = None \<and> descriptor = None) \<or> (binary = None \<and> path \<noteq> None \<and> descriptor = None) \<or>
     (android \<and> binary = None \<and> path = None \<and> descriptor \<noteq> None)"
  by (auto simp: client_file_content_def split: option.split)

section \<open>Discovery\<close>

definition parse_ipv4 :: "string \<Rightarrow> ip_addr option" where
  "parse_ipv4 s = (case read_ipv4_addr s of Some ((a, b, c, d), []) \<Rightarrow> Some (V4 a b c d) | _ \<Rightarrow> None)"

definition start_multicast_config ::
  "string \<Rightarrow> u16 \<Rightarrow> string list option \<Rightarrow> string list option \<Rightarrow> string \<Rightarrow> string \<Rightarrow> string option
     \<Rightarrow> device_type option \<Rightarrow> string \<Rightarrow> protocol_type_v2 \<Rightarrow> bool \<Rightarrow> string + multicast_config" where
  "start_multicast_config g port whitelist blacklist alias version device_model device_type fingerprint
     protocol has_download =
     (case parse_ipv4 g of
        None \<Rightarrow> Inl (''Invalid multicast group: '' @ g)
      | Some ip \<Rightarrow>
          Inr \<lparr>mc_group = ip, mc_group_v6 = Some (V6 0xff12 0 0 0 0 0 0xfd3a 0xe420), mc_port = port,
            mc_interface_filter = \<lparr>if_whitelist = whitelist, if_blacklist = blacklist\<rparr>,
            mc_device = \<lparr>md_alias = alias, md_version = version, md_device_model = device_model,
              md_device_type = device_type, md_fingerprint = fingerprint, md_port = port, md_protocol = protocol,
              md_download = has_download\<rparr>\<rparr>)"

record rs_discovered =
  rd_ip :: string
  rd_message :: multicast_message_v2

definition rs_discovered_from :: "discovered \<Rightarrow> rs_discovered" where
  "rs_discovered_from e =
     \<lparr>rd_ip = (case dv_scope_id e of
          Some scope \<Rightarrow> ip_to_string (dv_ip e) @ ''%'' @ nat_str 10 (unat scope)
        | None \<Rightarrow> ip_to_string (dv_ip e)),
      rd_message = dv_message e\<rparr>"

record rs_multicast =
  rm_event_rx :: bool
  rm_stop_tx :: bool

definition rs_multicast_listen ::
  "discovered list \<Rightarrow> rs_multicast \<Rightarrow> (string + rs_discovered list) \<times> rs_multicast" where
  "rs_multicast_listen events m =
     (if rm_event_rx m then (Inr (map rs_discovered_from events), m\<lparr>rm_event_rx := False\<rparr>)
      else (Inl ''Multicast events already listened to'', m))"

text \<open>Whether the stop is sent and waited for; a second call returns at once.\<close>

definition rs_multicast_stop :: "rs_multicast \<Rightarrow> bool \<times> rs_multicast" where
  "rs_multicast_stop m = (if rm_stop_tx m then (True, m\<lparr>rm_stop_tx := False\<rparr>) else (False, m))"

text \<open>The text of a discovered address is that of the same peer in an event of the server.\<close>

lemma discovered_ip_is_peer_text:
  "rd_ip (rs_discovered_from e) = peer_to_string \<lparr>p_ip = dv_ip e, p_scope_id = dv_scope_id e\<rparr>"
  by (simp add: rs_discovered_from_def peer_to_string_def split: option.split)

section \<open>Collecting small chunks\<close>

definition BUFFER_SIZE :: nat where
  "BUFFER_SIZE = 1024 * 1024"

fun buffer_chunks :: "nat \<Rightarrow> bytes \<Rightarrow> bytes list \<Rightarrow> bytes list" where
  "buffer_chunks room buffer [] = (if buffer = [] then [] else [buffer])"
| "buffer_chunks room buffer (d # ds) =
     (let buffer = buffer @ d
      in if room \<le> length buffer then buffer # buffer_chunks room [] ds else buffer_chunks room buffer ds)"

definition buffer_receiver :: "bytes list \<Rightarrow> bytes list" where
  "buffer_receiver input = buffer_chunks BUFFER_SIZE [] input"

lemma buffer_chunks_concat: "concat (buffer_chunks room buffer ds) = buffer @ concat ds"
  by (induction room buffer ds rule: buffer_chunks.induct) (auto simp: Let_def)

lemma buffer_chunks_full: "list_all (\<lambda>c. room \<le> length c) (butlast (buffer_chunks room buffer ds))"
proof (induction room buffer ds rule: buffer_chunks.induct)
  case (2 room buffer d ds)
  then show ?case by (cases "buffer_chunks room [] ds") (auto simp: Let_def)
qed simp

lemma buffer_chunks_nonempty: "0 < room \<Longrightarrow> [] \<notin> set (buffer_chunks room buffer ds)"
  by (induction room buffer ds rule: buffer_chunks.induct) (auto simp: Let_def)

text \<open>
  Collecting the chunks of a received file keeps its bytes and their order; every message but the last has at least
  one megabyte, and none is empty.
\<close>

theorem buffer_receiver_exact:
  "concat (buffer_receiver input) = concat input \<and>
   list_all (\<lambda>c. 1048576 \<le> length c) (butlast (buffer_receiver input)) \<and> [] \<notin> set (buffer_receiver input)"
  using buffer_chunks_full [of BUFFER_SIZE "[]" input] buffer_chunks_nonempty [of BUFFER_SIZE "[]" input]
  by (simp add: buffer_receiver_def buffer_chunks_concat) (simp add: BUFFER_SIZE_def)

end
