(* ===== verification/Frb_Rtc.thy ===== *)
theory Frb_Rtc
  imports Responders Frb_Client Rtc_Handshake Signaling_Client
begin

text \<open>
  Signaling and WebRTC transfers as the Flutter application sees them
  (\<open>doorstep_isolates/rust/src/api/webrtc.rs\<close>): an offer or its acceptance starts the task of \<open>Rtc_Handshake\<close> and gives
  the application a controller, which holds one end of each of its channels. A channel that is used once is
  there or gone; the question for a PIN is kept in a slot until it is answered, as in \<open>Responders\<close>.
\<close>

section \<open>Connecting to the signaling server\<close>

definition sign_info ::
  "('sk, 'ek, 'rk, 'z) crypto_lib_scheme \<Rightarrow> u64 option \<Rightarrow> 'sk signing_key \<Rightarrow> string \<Rightarrow> string \<Rightarrow> string option
     \<Rightarrow> device_type option \<Rightarrow> ws_info option" where
  "sign_info lib now key alias version device_model device_type =
     map_option (\<lambda>token. \<lparr>wi_alias = alias, wi_version = version, wi_device_model = device_model,
         wi_device_type = device_type, wi_token = token\<rparr>)
       (generate_token_timestamp lib now key)"

section \<open>Starting a transfer\<close>

definition expecting_key ::
  "('sk, 'ek, 'rk, 'z) crypto_lib_scheme \<Rightarrow> (string \<times> string) option \<Rightarrow> ('ek, 'rk) verifying_key option option" where
  "expecting_key lib expecting =
     (case expecting of
        None \<Rightarrow> Some None
      | Some (public_key, kind) \<Rightarrow> map_option Some (parse_public_key lib public_key kind))"

text \<open>
  The configuration of the task, or no task at all when a key does not parse. What the application will answer is
  given: the PINs, and whether the question to pair is reached, which is always answered with no.
\<close>

definition offer_config ::
  "('sk, 'ek, 'rk, 'z) crypto_lib_scheme \<Rightarrow> (string \<Rightarrow> 'sk signing_key option) \<Rightarrow> string \<Rightarrow> (string \<times> string) option
     \<Rightarrow> pin_config option \<Rightarrow> file_dto list \<Rightarrow> string list \<Rightarrow> ('sk, 'ek, 'rk) sender_config option" where
  "offer_config lib parse_private_key private_key expecting pin files pins =
     (case parse_private_key private_key of
        None \<Rightarrow> None
      | Some key \<Rightarrow>
          map_option (\<lambda>expecting. \<lparr>so_key = key, so_expecting = expecting, so_pin = pin, so_files = files,
              so_pins = pins, so_pair = Some False, so_listens = True\<rparr>)
            (expecting_key lib expecting))"

definition accept_config ::
  "('sk, 'ek, 'rk, 'z) crypto_lib_scheme \<Rightarrow> (string \<Rightarrow> 'sk signing_key option) \<Rightarrow> string \<Rightarrow> (string \<times> string) option
     \<Rightarrow> pin_config option \<Rightarrow> string list \<Rightarrow> string list option option \<Rightarrow> (nat \<Rightarrow> string)
     \<Rightarrow> ('sk, 'ek, 'rk) receiver_config option" where
  "accept_config lib parse_private_key private_key expecting pin pins selection uuid =
     (case parse_private_key private_key of
        None \<Rightarrow> None
      | Some key \<Rightarrow>
          map_option (\<lambda>expecting. \<lparr>ro_key = key, ro_expecting = expecting, ro_pin = pin, ro_pins = pins,
              ro_selection = selection, ro_uuid = uuid, ro_listens = True, ro_takes_files = True\<rparr>)
            (expecting_key lib expecting))"

text \<open>The status stream ends with the error of the task, if it failed.\<close>

definition status_stream :: "rtc_status list \<Rightarrow> 'a rtc_result \<Rightarrow> rtc_status list" where
  "status_stream reported result =
     (case result of Rtc_Err e \<Rightarrow> reported @ [St_Error e] | _ \<Rightarrow> reported)"

section \<open>The controller of a receiver\<close>

record rtc_receive_controller =
  rc_status_rx :: bool
  rc_files_rx :: bool
  rc_selected_tx :: bool
  rc_error_rx :: bool
  rc_pin_tx :: slot
  rc_receiving_rx :: bool

definition receive_controller_new :: rtc_receive_controller where
  "receive_controller_new = \<lparr>rc_status_rx = True, rc_files_rx = True, rc_selected_tx = True, rc_error_rx = True,
     rc_pin_tx = None, rc_receiving_rx = True\<rparr>"

text \<open>What the task asks (a PIN, by the number of its channel) and what the application calls.\<close>

datatype rc_op =
    Rc_Asked_Pin nat
  | Rc_Listen_Status
  | Rc_Listen_Files
  | Rc_Listen_Error
  | Rc_Listen_Receiving
  | Rc_Send_Pin string
  | Rc_Send_Selection "string list"
  | Rc_Decline

datatype rc_action =
    Rc_Listens_Status
  | Rc_Listens_Files
  | Rc_Listens_Error
  | Rc_Listens_Receiving
  | Rc_Answers_Pin nat string
  | Rc_Drops_Pin nat
  | Rc_Selects "string list option"
  | Rc_Refused string

definition rc_step :: "rc_op \<Rightarrow> rtc_receive_controller \<Rightarrow> rtc_receive_controller \<times> rc_action list" where
  "rc_step op c =
     (case op of
        Rc_Asked_Pin q \<Rightarrow>
          (let (slot, dropped) = slot_put [] q (rc_pin_tx c) in (c\<lparr>rc_pin_tx := slot\<rparr>, map Rc_Drops_Pin dropped))
      | Rc_Listen_Status \<Rightarrow>
          if rc_status_rx c then (c\<lparr>rc_status_rx := False\<rparr>, [Rc_Listens_Status])
          else (c, [Rc_Refused ''Status stream already listened to''])
      | Rc_Listen_Files \<Rightarrow>
          if rc_files_rx c then (c\<lparr>rc_files_rx := False\<rparr>, [Rc_Listens_Files])
          else (c, [Rc_Refused ''Files already received''])
      | Rc_Listen_Error \<Rightarrow>
          if rc_error_rx c then (c\<lparr>rc_error_rx := False\<rparr>, [Rc_Listens_Error])
          else (c, [Rc_Refused ''Error stream already listened to''])
      | Rc_Listen_Receiving \<Rightarrow>
          if rc_receiving_rx c then (c\<lparr>rc_receiving_rx := False\<rparr>, [Rc_Listens_Receiving])
          else (c, [Rc_Refused ''Receiving stream already listened to''])
      | Rc_Send_Pin pin \<Rightarrow>
          (case slot_take [] (rc_pin_tx c) of
             (None, _) \<Rightarrow> (c, [Rc_Refused ''Pin already sent''])
           | (Some q, slot) \<Rightarrow> (c\<lparr>rc_pin_tx := slot\<rparr>, [Rc_Answers_Pin q pin]))
      | Rc_Send_Selection selection \<Rightarrow>
          if rc_selected_tx c then (c\<lparr>rc_selected_tx := False\<rparr>, [Rc_Selects (Some selection)])
          else (c, [Rc_Refused ''Selected files already sent''])
      | Rc_Decline \<Rightarrow>
          if rc_selected_tx c then (c\<lparr>rc_selected_tx := False\<rparr>, [Rc_Selects None])
          else (c, [Rc_Refused ''Selected files already sent'']))"

fun rc_run :: "rc_op list \<Rightarrow> rtc_receive_controller \<Rightarrow> rtc_receive_controller \<times> rc_action list" where
  "rc_run [] c = (c, [])"
| "rc_run (op # ops) c = (let (c, acts) = rc_step op c; (c, acts') = rc_run ops c in (c, acts @ acts'))"

text \<open>What the task is told about the files: nothing if the application never decides.\<close>

fun selection_of :: "rc_action list \<Rightarrow> string list option option" where
  "selection_of [] = None"
| "selection_of (Rc_Selects s # acts) = Some s"
| "selection_of (_ # acts) = selection_of acts"

section \<open>The controller of a sender\<close>

record rtc_send_controller =
  sc_selected_rx :: bool
  sc_pin_tx :: slot

text \<open>\<open>selected\<close> is what the channel gives, \<open>None\<close> if it is closed.\<close>

definition listen_selected_files ::
  "string list option \<Rightarrow> rtc_send_controller \<Rightarrow> (string + string list) \<times> rtc_send_controller" where
  "listen_selected_files selected c =
     (if sc_selected_rx c
      then (case selected of
              None \<Rightarrow> Inl ''Selected files channel closed''
            | Some s \<Rightarrow> Inr s,
            c\<lparr>sc_selected_rx := False\<rparr>)
      else (Inl ''Selected files already received'', c))"

definition send_controller_pin ::
  "(nat \<Rightarrow> bool) \<Rightarrow> string \<Rightarrow> rtc_send_controller \<Rightarrow> (string + nat) \<times> rtc_send_controller" where
  "send_controller_pin still_open pin c =
     (case slot_take [] (sc_pin_tx c) of
        (None, _) \<Rightarrow> (Inl ''Pin already sent'', c)
      | (Some q, slot) \<Rightarrow>
          (if still_open q then Inr q else Inl ''Pin channel closed'', c\<lparr>sc_pin_tx := slot\<rparr>))"

section \<open>A file that is received\<close>

record rtc_file_receiver =
  fe_file_id :: string
  fe_binary_rx :: bool

definition rtc_file_receive ::
  "bytes list \<Rightarrow> rtc_file_receiver \<Rightarrow> (string + bytes list) \<times> rtc_file_receiver" where
  "rtc_file_receive binary r =
     (if fe_binary_rx r then (Inr (buffer_receiver binary), r\<lparr>fe_binary_rx := False\<rparr>)
      else (Inl ''File receiver listened to'', r))"

section \<open>What the controller keeps\<close>

fun decision_of :: "rc_op list \<Rightarrow> string list option option" where
  "decision_of [] = None"
| "decision_of (Rc_Send_Selection s # ops) = Some (Some s)"
| "decision_of (Rc_Decline # ops) = Some None"
| "decision_of (_ # ops) = decision_of ops"

fun selects :: "rc_action \<Rightarrow> bool" where
  "selects (Rc_Selects s) = True"
| "selects _ = False"

lemma selection_of_append:
  "selection_of (xs @ ys) = (case selection_of xs of None \<Rightarrow> selection_of ys | Some s \<Rightarrow> Some s)"
  by (induction xs rule: selection_of.induct) auto

lemma selection_of_none: "selection_of acts = None \<longleftrightarrow> filter selects acts = []"
  by (induction acts rule: selection_of.induct) auto

lemma drops_select_nothing [simp]:
  "filter selects (map Rc_Drops_Pin cs) = []" "selection_of (map Rc_Drops_Pin cs) = None"
  by (induction cs) auto

lemma rc_step_selects:
  "rc_selected_tx (fst (rc_step op c)) = (rc_selected_tx c \<and> decision_of [op] = None) \<and>
   selection_of (snd (rc_step op c)) = (if rc_selected_tx c then decision_of [op] else None) \<and>
   length (filter selects (snd (rc_step op c))) \<le> 1"
  by (cases op) (auto simp: rc_step_def split: prod.split option.split)

lemma decision_of_Cons:
  "decision_of (op # ops) = (case decision_of [op] of None \<Rightarrow> decision_of ops | Some s \<Rightarrow> Some s)"
  by (cases op) auto

lemma rc_run_selects:
  "selection_of (snd (rc_run ops c)) = (if rc_selected_tx c then decision_of ops else None) \<and>
   length (filter selects (snd (rc_run ops c))) \<le> 1"
proof (induction ops arbitrary: c)
  case (Cons op ops)
  let ?c = "fst (rc_step op c)" and ?acts = "snd (rc_step op c)"
  have step: "rc_selected_tx ?c = (rc_selected_tx c \<and> decision_of [op] = None)"
      "selection_of ?acts = (if rc_selected_tx c then decision_of [op] else None)"
      "length (filter selects ?acts) \<le> 1"
    using rc_step_selects by blast+
  have rest: "selection_of (snd (rc_run ops ?c)) = (if rc_selected_tx ?c then decision_of ops else None)"
      "length (filter selects (snd (rc_run ops ?c))) \<le> 1"
    using Cons.IH by blast+
  have run: "snd (rc_run (op # ops) c) = ?acts @ snd (rc_run ops ?c)" by (simp add: Let_def case_prod_beta)
  show ?case
  proof
    show "selection_of (snd (rc_run (op # ops) c)) = (if rc_selected_tx c then decision_of (op # ops) else None)"
      unfolding run selection_of_append decision_of_Cons [of op ops] using step(1,2) rest(1)
      by (simp split: option.split)
    have "filter selects ?acts = [] \<or> filter selects (snd (rc_run ops ?c)) = []"
      using step rest(1) selection_of_none by (metis option.distinct(1))
    then show "length (filter selects (snd (rc_run (op # ops) c))) \<le> 1"
      unfolding run using step(3) rest(2) by auto
  qed
qed simp

text \<open>
  What the receiving task is told about the files is the first decision of the application, a selection or a refusal;
  any later one is refused and changes nothing.
\<close>

theorem first_decision_counts:
  "selection_of (snd (rc_run ops receive_controller_new)) = decision_of ops \<and>
   length (filter selects (snd (rc_run ops receive_controller_new))) \<le> 1"
  using rc_run_selects [of ops receive_controller_new] by (simp add: receive_controller_new_def)

text \<open>Each question for a PIN is answered once, dropped, or waits.\<close>

fun asked :: "rc_op \<Rightarrow> nat list" where
  "asked (Rc_Asked_Pin q) = [q]"
| "asked _ = []"

fun pin_used :: "rc_action \<Rightarrow> nat list" where
  "pin_used (Rc_Answers_Pin q _) = [q]"
| "pin_used (Rc_Drops_Pin q) = [q]"
| "pin_used _ = []"

lemma pin_used_drops [simp]: "concat (map (pin_used \<circ> Rc_Drops_Pin) cs) = cs"
  by (induction cs) auto

lemma rc_step_pins:
  "slot_pending (rc_pin_tx (fst (rc_step op c))) + mset (concat (map pin_used (snd (rc_step op c)))) =
     slot_pending (rc_pin_tx c) + mset (asked op)"
  by (cases op) (use slotted.put_sum slotted.take_sum in \<open>fastforce simp: rc_step_def split: prod.split option.split\<close>)+

lemma conserved_chain:
  assumes "p0 + u0 = p + a" and "p1 + u1 = p0 + (b :: nat multiset)"
  shows "p1 + (u0 + u1) = p + (a + b)"
proof -
  have "p1 + (u0 + u1) = (p1 + u1) + u0" by (simp add: ac_simps)
  also have "\<dots> = (p0 + u0) + b" by (simp only: assms(2)) (simp add: ac_simps)
  also have "\<dots> = p + (a + b)" by (simp only: assms(1)) (simp add: ac_simps)
  finally show ?thesis .
qed

lemma rc_run_pins:
  "slot_pending (rc_pin_tx (fst (rc_run ops c))) + mset (concat (map pin_used (snd (rc_run ops c)))) =
     slot_pending (rc_pin_tx c) + mset (concat (map asked ops))"
proof (induction ops arbitrary: c)
  case (Cons op ops)
  show ?case using conserved_chain [OF rc_step_pins [of op c] Cons.IH [of "fst (rc_step op c)"]]
    by (simp add: Let_def case_prod_beta)
qed simp

text \<open>A transfer offered through the bindings never pairs.\<close>

lemma offers_never_pair: "offer_config lib parse_private_key key expecting pin files pins = Some cfg \<Longrightarrow> so_pair cfg = Some False"
  by (auto simp: offer_config_def split: option.splits)

end
