(* ===== verification/Frb_Connect.thy ===== *)
theory Frb_Connect
  imports Frb_Rtc Token_Keys Signaling_View
begin

text \<open>
  Connecting to the signaling server from the application (\<open>connect\<close> in \<open>api/webrtc.rs\<close> of the Flutter bindings, with the
  request of \<open>webrtc/signaling.rs\<close>), and the same joined with the server of \<open>Signaling\<close>: what the device proposes is
  what its group is told.
\<close>

section \<open>The request\<close>

text \<open>
  What other crates do with the texts: the JSON form of the information, the bytes of a text and the text of bytes, and the
  extraction of the query parameter \<open>d\<close> from a URI.
\<close>

record ws_text =
  wx_print :: "ws_info \<Rightarrow> string"
  wx_parse :: "string \<Rightarrow> ws_info option"
  wx_to_bytes :: "string \<Rightarrow> bytes"
  wx_from_utf8 :: "bytes \<Rightarrow> string option"
  wx_query_d :: "string \<Rightarrow> string option"

text \<open>Base64 texts of the URL-safe alphabet need no escaping in a query.\<close>

definition ws_text_laws :: "('sk, 'ek, 'rk, 'z) crypto_lib_scheme \<Rightarrow> ws_text \<Rightarrow> string \<Rightarrow> bool" where
  "ws_text_laws lib wx uri \<longleftrightarrow>
     (\<forall>info. wx_parse wx (wx_print wx info) = Some info) \<and>
     (\<forall>s. wx_from_utf8 wx (wx_to_bytes wx s) = Some s) \<and>
     (\<forall>b. wx_query_d wx (uri @ ''?d='' @ cl_b64_encode lib b) = Some (cl_b64_encode lib b))"

definition signaling_uri ::
  "('sk, 'ek, 'rk, 'z) crypto_lib_scheme \<Rightarrow> ws_text \<Rightarrow> string \<Rightarrow> ws_info \<Rightarrow> string" where
  "signaling_uri lib wx uri info = uri @ ''?d='' @ cl_b64_encode lib (wx_to_bytes wx (wx_print wx info))"

section \<open>The stream of the application\<close>

text \<open>
  A second greeting would not be forwarded, because nobody takes its client any more. The listener forwards the
  rest; the application always takes what is added to its stream.
\<close>

definition forwarded_messages :: "ws_server_message list \<Rightarrow> ws_server_message list" where
  "forwarded_messages msgs =
     takeWhile (\<lambda>m. \<not> is_hello m) msgs @
     (case dropWhile (\<lambda>m. \<not> is_hello m) msgs of [] \<Rightarrow> [] | m # ms \<Rightarrow> m # filter (\<lambda>m. \<not> is_hello m) ms)"

definition listener_stream :: "ws_server_message list \<Rightarrow> ws_server_message list" where
  "listener_stream msgs =
     (case listen (\<lambda>_. True) (map Ls_Message (forwarded_messages msgs)) new_listener of
        Done l \<Rightarrow> ls_forwarded l | Panicked \<Rightarrow> [])"

datatype connect_report =
    Stream_Error string
  | Connection_Given ws_client
  | Stream_Message ws_server_message

datatype connect_end = Connect_Returned | Connect_Waits | Connect_Panics

record proposing_client =
  pi_alias :: string
  pi_version :: string
  pi_device_model :: "string option"
  pi_device_type :: "device_type option"

text \<open>\<open>dial\<close> opens the socket: an error, or what it gives until it closes.\<close>

definition rs_connect ::
  "('sk, 'ek, 'rk, 'z) key_lib_scheme \<Rightarrow> ws_text \<Rightarrow> u64 option \<Rightarrow> (string \<Rightarrow> string + socket_item list)
     \<Rightarrow> string \<Rightarrow> proposing_client \<Rightarrow> string \<Rightarrow> connect_report list \<times> connect_end" where
  "rs_connect lib wx now dial uri p private_key =
     (case parse_private_key lib private_key of
        None \<Rightarrow> ([Stream_Error ''Invalid private key''], Connect_Returned)
      | Some signing_key \<Rightarrow>
          (case sign_info lib now signing_key (pi_alias p) (pi_version p) (pi_device_model p) (pi_device_type p) of
             None \<Rightarrow> ([Stream_Error ''Invalid client info''], Connect_Returned)
           | Some client_info \<Rightarrow>
               (case dial (signaling_uri lib wx uri client_info) of
                  Inl e \<Rightarrow> ([Stream_Error e], Connect_Returned)
                | Inr items \<Rightarrow>
                    (case signaling_connect items of
                       Connect_Blocked \<Rightarrow> ([], Connect_Waits)
                     | Connect_Panicked \<Rightarrow> ([], Connect_Panics)
                     | Connected client \<Rightarrow>
                         (Connection_Given client # map Stream_Message (listener_stream (socket_messages items)),
                          Connect_Returned)))))"

section \<open>With the server\<close>

text \<open>
  The server that handles the connection at once: the machine after it, and what the new connection has been sent.
  \<open>forwarded\<close> is the header of a proxy, \<open>addr\<close> the address of the connection.
\<close>

definition dial_server ::
  "('sk, 'ek, 'rk, 'z) crypto_lib_scheme \<Rightarrow> ws_text \<Rightarrow> sig_limits \<Rightarrow> uuid \<Rightarrow> string option \<Rightarrow> ip_addr \<Rightarrow> sig_machine
     \<Rightarrow> string \<Rightarrow> u16 + ws_server_message list \<times> sig_machine" where
  "dial_server lib wx lim new_id forwarded addr m uri =
     (case wx_query_d wx uri of
        None \<Rightarrow> Inl 400
      | Some d \<Rightarrow>
          map_sum id (\<lambda>(ip_group, peer).
              (let m' = serve_connect lim ip_group peer m in (mc_inbox m' (wc_id peer), m')))
            (ws_handler (cl_b64_decode lib) (wx_from_utf8 wx) (wx_parse wx) d new_id forwarded addr))"

definition dial_text :: "u16 + ws_server_message list \<times> sig_machine \<Rightarrow> string + socket_item list" where
  "dial_text r = map_sum (\<lambda>status. ''HTTP error: '' @ nat_str 10 (unat status)) (\<lambda>(msgs, _). map Item_Message msgs) r"

section \<open>Lemmas\<close>

lemma socket_messages_Items [simp]: "socket_messages (map Item_Message msgs) = msgs"
  by (induction msgs) auto

lemma listener_stream_eq: "listener_stream msgs = forwarded_messages msgs"
proof -
  have "\<exists>l'. listen (\<lambda>_. True) (map Ls_Message ms) l = Done l' \<and> ls_forwarded l' = ls_forwarded l @ ms" for ms l
  proof (induction ms arbitrary: l)
    case (Cons msg ms)
    obtain l1 where one: "listen_message (\<lambda>_. True) msg l = Done l1"
      by (simp add: listen_message_def Let_def)
    with Cons.IH [of l1] listen_message_accounts(1) [OF one] show ?case by auto
  qed simp
  from this [of "forwarded_messages msgs" new_listener] show ?thesis
    by (auto simp: listener_stream_def new_listener_def)
qed

lemma serve_connect_greets:
  assumes "sig_served lim m" and "hm_get (mc_groups m) (wc_id peer) = None"
    and "register_peer lim g peer (mc_state m) = (Some (txs, peers), s)"
  shows "mc_inbox (serve_connect lim g peer m) (wc_id peer) = [Ws_Hello peer peers]"
    and "hm_get (members g (mc_state (serve_connect lim g peer m))) (wc_id peer) = Some (ws_info_from peer)"
proof -
  note inv = sig_reach_invariants [OF served_reach [OF assms(1)]]
  note acc = register_accepted [OF assms(3)]
  have dead: "live_in m (wc_id peer) = None"
    using fresh_no_task [OF _ assms(2)] inv by (auto simp: live_task_def)
  have txs: "distinct txs" "wc_id peer \<notin> set txs"
    using distinct_members [of lim "mc_state m" g] hm_keys_iff [of "wc_id peer" "members g (mc_state m)"]
      registryD [of m g "wc_id peer"] inv dead acc by auto
  have "mc_inbox m (wc_id peer) = []"
    using inv inv_inboxD [of m _ "wc_id peer"] assms(2) by (cases "mc_inbox m (wc_id peer)") fastforce+
  then show "mc_inbox (serve_connect lim g peer m) (wc_id peer) = [Ws_Hello peer peers]"
    using assms(3) txs by (simp add: serve_connect_def post_def posts_inbox)
  show "hm_get (members g (mc_state (serve_connect lim g peer m))) (wc_id peer) = Some (ws_info_from peer)"
    using assms(3) acc by (auto simp: serve_connect_def)
qed

lemma room_registers:
  assumes "length (members g s) < sg_max_connections lim"
    and "case hm_get (sg_counts s) g of None \<Rightarrow> 0 < sg_max_requests lim | Some n \<Rightarrow> n < sg_max_requests lim"
  obtains txs s' where "register_peer lim g peer s = (Some (txs, map (\<lambda>(k, v). ws_client_from v k) (members g s)), s')"
proof -
  obtain c counts where c: "hm_or_insert g 0 (sg_counts s) = (c, counts)" "c < sg_max_requests lim"
    using assms(2) by (auto simp: hm_or_insert_def split: option.splits)
  obtain tx_map where local: "hm_or_insert g [] (sg_map s) = (members g s, tx_map)"
    by (cases "hm_get (sg_map s) g") (auto simp: hm_or_insert_def members_def)
  show ?thesis
    using assms(1) c by (intro that) (simp add: register_peer_def protect_ddos_request_count_def local not_le Let_def)
qed

lemma timestamp_token_accepted:
  assumes "crypto_laws lib" and "generate_token_timestamp lib (Some t) key = Some token"
    and "unat t < 2 ^ 63" and "unat now < 2 ^ 63" and "t \<le> now" and "unat now - unat t \<le> 3600"
  shows "verify_token_timestamp lib overflow_checks (Some now) (to_verifying_key lib key) token = Done True"
proof -
  have token: "generate_token_nonce lib key (u64_to_le_bytes t) = Some token"
    using assms(2) by (simp add: generate_token_timestamp_def)
  have "now - t \<le> 3600" using unat_sub_window [OF assms(3,4)] assms(5,6) by simp
  then have "timestamp_salt_check overflow_checks (Some now) (u64_to_le_bytes t) = Done (Inr ())"
    using assms(5) by (simp add: timestamp_salt_check_ok_iff not_less)
  from generate_then_verify [where verify_salt = "timestamp_salt_check overflow_checks (Some now)", OF assms(1) token this]
  show ?thesis by (simp add: verify_token_timestamp_def)
qed

section \<open>Properties\<close>

text \<open>
  C22: A device that connects is known to its group exactly as it proposes itself: the server, which has room for it, registers
  the information it proposed under the new id and a token that every device with its public key accepts for an hour; the
  application is given this very client, and its stream begins with the greeting that lists the group.
\<close>

theorem connected_as_proposed:
  assumes laws: "crypto_laws lib" "ws_text_laws lib wx uri"
    and key: "parse_private_key lib private_key = Some key" "cl_ed_der lib (cl_ed_key lib (inner_key key)) \<noteq> None"
    and served: "sig_served lim m" "hm_get (mc_groups m) new_id = None"
    and group: "g = get_ip_group (request_ip forwarded addr)"
    and room: "length (members g (mc_state m)) < sg_max_connections lim"
      "case hm_get (sg_counts (mc_state m)) g of None \<Rightarrow> 0 < sg_max_requests lim | Some n \<Rightarrow> n < sg_max_requests lim"
    and time: "unat t < 2 ^ 63" "unat later < 2 ^ 63" "t \<le> later" "unat later - unat t \<le> 3600"
  shows "\<exists>info client m'.
    rs_connect lib wx (Some t) (\<lambda>u. dial_text (dial_server lib wx lim new_id forwarded addr m u)) uri p private_key =
      ([Connection_Given client, Stream_Message (Ws_Hello client (map (\<lambda>(k, v). ws_client_from v k) (members g (mc_state m))))],
       Connect_Returned) \<and>
    client = ws_client_from info new_id \<and>
    info = \<lparr>wi_alias = pi_alias p, wi_version = pi_version p, wi_device_model = pi_device_model p,
      wi_device_type = pi_device_type p, wi_token = wi_token info\<rparr> \<and>
    dial_server lib wx lim new_id forwarded addr m (signaling_uri lib wx uri info) =
      Inr ([Ws_Hello client (map (\<lambda>(k, v). ws_client_from v k) (members g (mc_state m)))], m') \<and>
    hm_get (members g (mc_state m')) new_id = Some info \<and>
    verify_token_timestamp lib overflow_checks (Some later) (to_verifying_key lib key) (wi_token info) = Done True"
proof -
  obtain token where token: "generate_token_timestamp lib (Some t) key = Some token"
    using key(2) by (auto simp: generate_token_timestamp_def generate_token_nonce_def Let_def)
  define info where "info = \<lparr>wi_alias = pi_alias p, wi_version = pi_version p, wi_device_model = pi_device_model p,
      wi_device_type = pi_device_type p, wi_token = token\<rparr>"
  let ?client = "ws_client_from info new_id" and ?local = "map (\<lambda>(k, v). ws_client_from v k) (members g (mc_state m))"
  obtain txs s where reg: "register_peer lim g ?client (mc_state m) = (Some (txs, ?local), s)"
    by (rule room_registers [OF room])
  have fresh: "hm_get (mc_groups m) (wc_id ?client) = None" using served(2) by simp
  note greets = serve_connect_greets [OF served(1) fresh reg]
  have handled: "ws_handler (cl_b64_decode lib) (wx_from_utf8 wx) (wx_parse wx)
      (cl_b64_encode lib (wx_to_bytes wx (wx_print wx info))) new_id forwarded addr = Inr (g, ?client)"
    using laws group by (simp add: ws_handler_def crypto_laws_def ws_text_laws_def)
  have dialled: "dial_server lib wx lim new_id forwarded addr m (signaling_uri lib wx uri info) =
      Inr ([Ws_Hello ?client ?local], serve_connect lim g ?client m)"
    using laws(2) handled greets(1) by (simp add: dial_server_def signaling_uri_def ws_text_laws_def)
  have "rs_connect lib wx (Some t) (\<lambda>u. dial_text (dial_server lib wx lim new_id forwarded addr m u)) uri p private_key =
      ([Connection_Given ?client, Stream_Message (Ws_Hello ?client ?local)], Connect_Returned)"
    using key(1) token dialled
    by (simp add: rs_connect_def sign_info_def info_def [symmetric] dial_text_def signaling_connect_def
        listener_stream_eq forwarded_messages_def)
  moreover have "verify_token_timestamp lib overflow_checks (Some later) (to_verifying_key lib key) token = Done True"
    by (rule timestamp_token_accepted [OF laws(1) token time])
  ultimately show ?thesis
    using dialled greets(2) by (intro exI [of _ info]) (auto simp: info_def)
qed

text \<open>Texts with these laws: the fields in hexadecimal, separated by full stops; the URI is \<open>ws:\<close>.\<close>

definition text_bytes :: "string \<Rightarrow> bytes" where
  "text_bytes = map (\<lambda>c. of_nat (of_char c))"

definition bytes_text :: "bytes \<Rightarrow> string" where
  "bytes_text = map (\<lambda>b. char_of (unat b))"

lemma bytes_text [simp]: "bytes_text (text_bytes s) = s"
proof -
  have "unat (of_nat (of_char c) :: u8) = of_char c" for c
    by (simp add: unat_of_nat take_bit_nat_def)
  then show ?thesis by (induction s) (simp_all add: bytes_text_def text_bytes_def)
qed

definition field :: "string \<Rightarrow> string" where
  "field s = to_hex (text_bytes s)"

definition opt_field :: "string option \<Rightarrow> string" where
  "opt_field o' = (case o' of None \<Rightarrow> ''-'' | Some s \<Rightarrow> field s)"

definition type_field :: "device_type option \<Rightarrow> string" where
  "type_field t = (case t of None \<Rightarrow> ''-'' | Some Mobile \<Rightarrow> ''m'' | Some Desktop \<Rightarrow> ''d'' | Some Web \<Rightarrow> ''w''
     | Some Headless \<Rightarrow> ''h'' | Some Server \<Rightarrow> ''s'')"

definition from_field :: "string \<Rightarrow> string" where
  "from_field s = (case from_hex s of None \<Rightarrow> [] | Some bs \<Rightarrow> bytes_text bs)"

definition from_opt_field :: "string \<Rightarrow> string option" where
  "from_opt_field s = (if s = ''-'' then None else Some (from_field s))"

definition from_type_field :: "string \<Rightarrow> device_type option" where
  "from_type_field s = (if s = ''m'' then Some Mobile else if s = ''d'' then Some Desktop else if s = ''w'' then Some Web
     else if s = ''h'' then Some Headless else if s = ''s'' then Some Server else None)"

lemma field_back [simp]: "from_field (field s) = s"
  by (simp add: from_field_def field_def from_hex_to_hex)

lemma field_no_dot [simp]: "CHR ''.'' \<notin> set (field s)"
  by (simp add: field_def to_hex_no_dot)

lemma field_not_dash: "field s \<noteq> ''-''"
  by (cases "text_bytes s") (auto simp: field_def to_hex_def hex_byte_def)

lemma opt_field_back [simp]: "from_opt_field (opt_field t) = t" "CHR ''.'' \<notin> set (opt_field t)"
  by (cases t; simp add: from_opt_field_def opt_field_def field_not_dash)+

lemma type_field_back [simp]: "from_type_field (type_field t) = t" "CHR ''.'' \<notin> set (type_field t)"
  by (cases t; auto simp: from_type_field_def type_field_def split: device_type.splits)+

definition sample_ws_text :: ws_text where
  "sample_ws_text = \<lparr>
     wx_print = (\<lambda>i. field (wi_alias i) @ ''.'' @ field (wi_version i) @ ''.'' @ opt_field (wi_device_model i) @ ''.'' @
       type_field (wi_device_type i) @ ''.'' @ field (wi_token i)),
     wx_parse = (\<lambda>s. case split_on CHR ''.'' s of
         [a, v, m, t, k] \<Rightarrow> Some \<lparr>wi_alias = from_field a, wi_version = from_field v, wi_device_model = from_opt_field m,
           wi_device_type = from_type_field t, wi_token = from_field k\<rparr>
       | _ \<Rightarrow> None),
     wx_to_bytes = text_bytes, wx_from_utf8 = (\<lambda>b. Some (bytes_text b)), wx_query_d = (\<lambda>u. Some (drop 6 u))\<rparr>"

lemma sample_ws_text_laws: "ws_text_laws lib sample_ws_text ''ws:''"
  by (simp add: ws_text_laws_def sample_ws_text_def split_on_sep split_on_no_sep)

theorem connected_as_proposed_witness:
  "\<exists>token. fst (rs_connect sample_key_lib sample_ws_text (Some 1000)
     (\<lambda>u. dial_text (dial_server sample_key_lib sample_ws_text default_limits 1 None (V4 10 0 0 1) sig_init u)) ''ws:''
     \<lparr>pi_alias = ''Anna'', pi_version = ''2.3'', pi_device_model = None, pi_device_type = Some Mobile\<rparr> '''') =
   [Connection_Given \<lparr>wc_id = 1, wc_alias = ''Anna'', wc_version = ''2.3'', wc_device_model = None,
      wc_device_type = Some Mobile, wc_token = token\<rparr>,
    Stream_Message (Ws_Hello \<lparr>wc_id = 1, wc_alias = ''Anna'', wc_version = ''2.3'', wc_device_model = None,
      wc_device_type = Some Mobile, wc_token = token\<rparr> [])] \<and>
   verify_token_timestamp sample_key_lib True (Some 4600) (to_verifying_key sample_key_lib (Signing_Key ())) token = Done True"
proof -
  have laws: "crypto_laws sample_key_lib"
    using sample_lib_laws by (simp add: crypto_laws_def sample_key_lib_def)
  have key: "parse_private_key sample_key_lib '''' = Some (Signing_Key ())"
      "cl_ed_der sample_key_lib (cl_ed_key sample_key_lib (inner_key (Signing_Key ()))) \<noteq> None"
    by (simp_all add: parse_private_key_def sample_key_lib_def sample_lib_def)
  have fresh: "hm_get (mc_groups sig_init) 1 = None" by (simp add: sig_init_def)
  have room: "length (members g (mc_state sig_init)) < sg_max_connections default_limits"
      "case hm_get (sg_counts (mc_state sig_init)) g of None \<Rightarrow> 0 < sg_max_requests default_limits
       | Some n \<Rightarrow> n < sg_max_requests default_limits" for g
    by (simp_all add: sig_init_def sig_empty_def members_def default_limits_def)
  have time: "unat (1000 :: u64) < 2 ^ 63" "unat (4600 :: u64) < 2 ^ 63" "(1000 :: u64) \<le> 4600"
      "unat (4600 :: u64) - unat (1000 :: u64) \<le> 3600"
    by simp_all
  have none: "members g (mc_state sig_init) = []" for g
    by (simp add: sig_init_def sig_empty_def members_def)
  from connected_as_proposed [OF laws sample_ws_text_laws key served_start fresh refl room time,
      of None "V4 10 0 0 1" "\<lparr>pi_alias = ''Anna'', pi_version = ''2.3'', pi_device_model = None, pi_device_type = Some Mobile\<rparr>" True]
  obtain info client where run: "rs_connect sample_key_lib sample_ws_text (Some 1000)
      (\<lambda>u. dial_text (dial_server sample_key_lib sample_ws_text default_limits 1 None (V4 10 0 0 1) sig_init u)) ''ws:''
      \<lparr>pi_alias = ''Anna'', pi_version = ''2.3'', pi_device_model = None, pi_device_type = Some Mobile\<rparr> '''' =
      ([Connection_Given client, Stream_Message (Ws_Hello client [])], Connect_Returned)"
    and client: "client = ws_client_from info 1"
    and info: "info = \<lparr>wi_alias = ''Anna'', wi_version = ''2.3'', wi_device_model = None, wi_device_type = Some Mobile,
      wi_token = wi_token info\<rparr>"
    and token: "verify_token_timestamp sample_key_lib True (Some 4600) (to_verifying_key sample_key_lib (Signing_Key ()))
      (wi_token info) = Done True"
    by (auto simp: none)
  have "client = \<lparr>wc_id = 1, wc_alias = ''Anna'', wc_version = ''2.3'', wc_device_model = None,
      wc_device_type = Some Mobile, wc_token = wi_token info\<rparr>"
    unfolding client by (subst info) (simp add: ws_client_from_def)
  then show ?thesis using run token by (intro exI [of _ "wi_token info"]) simp
qed

end
