(* ===== verification/Spec2Isabelle.thy ===== *)
theory Spec2Isabelle
  imports Router Token_Keys Upload_Safety Rtc_Peers Signaling_Rooms Server_Tasks
    Client_Config End_To_End Upload_Attempts Cli_Consent Cli_Draw Cli_Run Multicast_Sockets Frb_Server Frb_Connect
begin

text \<open>
  Doorstep is a file transfer program for the local network. A device serves the LocalSend HTTP
  protocol, finds others by UDP multicast, sends files to them over HTTP, offers files to browsers,
  and transfers files over WebRTC data channels that are arranged through a signaling server. This
  development models its Rust code: the library \<open>packages/core\<close>, the signaling server \<open>server\<close>, the command line
  client \<open>cli\<close>, and the bindings \<open>packages/doorstep_isolates\<close> through which the Flutter application uses the library.

  \<^bold>\<open>How to read the model.\<close> A struct is a record, an enum a datatype, an integer a word of its width,
  a \<open>HashMap\<close> an association list with distinct keys, a \<open>String\<close> the list of its bytes (\<open>Prelude\<close>). A fallible
  function returns a sum with its error on the left; a panic is a value (\<open>Panicked\<close>, or a result of its own
  in the WebRTC tasks). An asynchronous function is cut at its awaits: each stretch that touches shared
  state under a lock is one definition, the function composes them, and where several tasks run at once
  the same stretches are the steps of a relation. What other crates or the operating system do is an argument:
  a record of functions (\<open>crypto_lib\<close>, \<open>lru_ops\<close>, \<open>rtc_codec\<close>, \<open>link\<close>, \<open>body_lib\<close>), or the list of what
  arrives or fails. What is relied on of them is a named predicate (\<open>crypto_laws\<close>, \<open>lru_laws\<close>,
  \<open>link_laws\<close>) or the contract of a locale, and every property that needs it has a witness with a
  concrete instance.

  \<^bold>\<open>Shared parts.\<close>
  \<^item> \<open>Prelude\<close>: types, finite maps, splitting, decimal and hexadecimal printing.
  \<^item> \<open>Crypto\<close>, \<open>Token\<close> (\<open>crypto/\<close>): nonces, hashes of contents, certificate checks, signed tokens. A token verifies
    exactly if its hash, salt and signature are right; the window of timestamps is computed at 64 bits. \<open>Token_Keys\<close>: keys as texts.
  \<^item> \<open>Http_Types\<close> (\<open>model/\<close>, \<open>http/dto_v2.rs\<close>, \<open>http/state.rs\<close>, \<open>server/common/\<close>): DTOs, addresses, errors, responses.
  \<^item> \<open>Ip_Text\<close>, \<open>Target_Url\<close> (\<open>http/client/url.rs\<close>, \<open>scoped_host.rs\<close>): the text of addresses and URLs; parsing inverts
    printing, so that a peer seen with a scope can be dialled back.
  \<^item> \<open>Drop_Guard\<close>, \<open>Pin\<close>: the locales \<open>drop_guard\<close> and \<open>pin_gate\<close>, the contracts of the guards of
    pending sessions and of the PIN check (\<open>server/common/pin.rs\<close>), interpreted on each of their providers.

  \<^bold>\<open>HTTP server\<close> (\<open>http/server/\<close>).
  \<^item> \<open>Upload_Server\<close> (\<open>v2.rs\<close>, \<open>common/session.rs\<close>): the single session slot and the handlers; \<open>Upload_Contract\<close> says what
    each does undisturbed, on every branch.
  \<^item> \<open>Upload_Machine\<close>: any number of requests at once; \<open>mstep\<close> runs one section of one of them, or drops
    a connection. \<open>Upload_Invariants\<close> and \<open>Upload_Safety\<close>: the pending slot has one owner, a file one writer,
    an end is reported once, nothing leaks but for a drop at two points; \<open>Upload_Attempts\<close> bounds the uploads of a session.
  \<^item> \<open>Save_File\<close> (\<open>common/save.rs\<close>): a file reported as saved is the body that was sent, for each kind of target: a path, a
    descriptor, whose old tail stays when cutting it fails, and a stream that the application consumes.
  \<^item> \<open>Web_Send\<close> (\<open>web.rs\<close>, \<open>model/transfer.rs\<close>): the download sessions of browsers and the content they get.
  \<^item> \<open>Router\<close> (\<open>mod.rs\<close>, \<open>internal.rs\<close>, \<open>v3.rs\<close>): dispatch of a request, the remaining endpoints, nonces.
  \<^item> \<open>Server_Tasks\<close> (\<open>mod.rs\<close>, \<open>common/client_cert_verifier.rs\<close>): sockets and their options, the TLS configuration, the two accept
    loops and the tasks of the connections as \<open>sv_step\<close>, the stop and the wait for it. A stop is taken up in every state and
    takes boundedly many steps, and after a wait for it nothing is served; \<open>wait_step\<close> adds waits that are given up.

  \<^bold>\<open>HTTP client\<close> (\<open>http/client/\<close>, \<open>http/dto.rs\<close>).
  \<^item> \<open>Http_Client\<close>: the calls of versions 2 and 3 over a network that is an argument.
  \<^item> \<open>Client_Tls\<close> (\<open>server_cert_verifier.rs\<close>): the locale \<open>pinned_transport\<close>, what the client relies on of TLS, on
    URLs of the scheme \<open>https\<close>; the verifier accepts exactly the pinned certificate. \<open>Client_Config\<close>: how a client is made; what is
    made with a fingerprint tells nothing to an impostor over \<open>https\<close>, and ignores the fingerprint over \<open>http\<close>.
  \<^item> \<open>Client_Server\<close>, \<open>End_To_End\<close>: client and server joined by a link. An upload that is reported as done is stored;
    a token that was granted is good; both sides agree on nonces.

  \<^bold>\<open>WebRTC\<close> (\<open>webrtc/webrtc.rs\<close>).
  \<^item> \<open>Rtc_Channel\<close>: messages, chunks and the PIN challenge; reassembly inverts splitting.
  \<^item> \<open>Rtc_Handshake\<close>, \<open>Rtc_Handshake_Safety\<close>, \<open>Rtc_Agreement\<close>: the tasks of both peers up to the selection; neither goes
    on without a token, which it has received and, if it expects a key, verified; and two honest peers agree.
  \<^item> \<open>Rtc_Files\<close>: the sending and the receiving loop; every file arrives whole and in order, and
    after a header no more of it than announced.
  \<^item> \<open>Rtc_Peers\<close>: both functions as a whole (\<open>send_offer\<close>, \<open>accept_offer\<close>). Two honest devices transfer all files, from the nonce to
    the delimiter; the descriptions of the connection go round through the server of \<open>Signaling\<close>; how each function ends.

  \<^bold>\<open>Signaling\<close> (\<open>server/src\<close>, \<open>webrtc/signaling.rs\<close>).
  \<^item> \<open>Signaling\<close>, \<open>Signaling_Machine\<close>: the sections of the WebSocket handler and their interleaving \<open>sig_step\<close>; the registry
    is exact and groups are isolated.
  \<^item> \<open>Signaling_Rooms\<close>: the specification of the server, rooms with places and requests that clients join, talk in and leave
    (\<open>room_step\<close>); the interleaved server refines it, by the simulation \<open>shows_rooms\<close>.
  \<^item> \<open>Signaling_View\<close>: handlers run to their end are runs of the interleaved server, and what clients then see is true.
  \<^item> \<open>Signaling_Client\<close>: the client, its greeting and its listener.

  \<^bold>\<open>Multicast discovery\<close> (\<open>multicast/\<close>).
  \<^item> \<open>Interfaces\<close>: the interface filter, equivalent to a declarative account of its patterns, and the selection of addresses.
  \<^item> \<open>Multicast\<close>: messages, binding, announcing, receiving and stopping; \<open>mc_step\<close> interleaves the tasks. \<open>Multicast_Sockets\<close>: the options
    of its sockets, each of which sends on its own interface only.

  \<^bold>\<open>Command line client\<close> (\<open>cli/src\<close>).
  \<^item> \<open>Cli_Util\<close> (\<open>util.rs\<close>, text of \<open>ui.rs\<close>): free paths for received files, which stay in the destination; cutting of
    terminal text to its width. \<open>Cli_Status\<close> (\<open>app/status.rs\<close>, \<open>util.rs\<close>): the status line, which fits the terminal.
  \<^item> \<open>Cli_Storage\<close> (\<open>storage/\<close>): configuration, identity and paired devices on a file system that is a state; what is
    saved is found again, and a save that fails or is cut short anywhere leaves a file that is read as before or after.
  \<^item> \<open>Cli_Devices\<close> (\<open>devices.rs\<close>), \<open>Cli_Picker\<close> (\<open>picker.rs\<close>): the registry with its stable numbers; the file picker,
    which highlights and picks only what it shows; \<open>Cli_Draw\<close>: what it draws is what the keys act on.
  \<^item> \<open>Cli_Send\<close> (\<open>send_task.rs\<close>): the sending task on the modelled HTTP client, its requests and its reports.
  \<^item> \<open>Cli_Ui\<close> (\<open>ui.rs\<close>): the log, the status line, and what a terminal shows of them.
  \<^item> \<open>Cli_App\<close> (\<open>app/\<close>): the state and every handler of the loop; \<open>app_step\<close> handles one input. \<open>Cli_App_Safety\<close>: consent,
    one send at a time and to the device that was chosen, quitting, the end of a receive session. \<open>Cli_Consent\<close> joins the loop with the server of
    \<open>Upload_Server\<close>: a session is opened only with consent. \<open>Cli_Run\<close> (\<open>run\<close>, \<open>banner.rs\<close>): start, loop and shutdown.

  \<^bold>\<open>Bindings for Flutter\<close> (\<open>doorstep_isolates/rust/src\<close>).
  \<^item> \<open>Responders\<close>: the locales \<open>responder_store\<close> and \<open>keyed_responder_store\<close>, the contract of where the channels of
    waiting requests are kept, interpreted on the maps and on the single slot of the code.
  \<^item> \<open>Frb_Server\<close> (\<open>api/server.rs\<close>): events and answers in any order; every answer reaches exactly the request
    that waits for it, and no responder is lost or used twice.
  \<^item> \<open>Frb_Client\<close> (\<open>api/http.rs\<close>, \<open>crypto.rs\<close>, \<open>multicast.rs\<close>, \<open>stream.rs\<close>, \<open>util/bytes.rs\<close>), \<open>Frb_Rtc\<close> (\<open>api/webrtc.rs\<close>): errors and
    sources of content, the buffering of received bytes, the controllers of WebRTC transfers.
  \<^item> \<open>Frb_Connect\<close>: connecting to the signaling server, joined with \<open>Signaling_View\<close>: a device is registered and greeted as it proposes itself.

  \<^bold>\<open>Fuel and bounds.\<close> There is no fuel: loops over what arrives are structural recursion on the list of
  what arrives, and the other recursions have a measure. The one search that may not end (\<open>first_free\<close>, when its 32-bit
  number wraps and every path exists) is a partial function that gives \<open>None\<close> then, or a panic where overflow is checked; with
  fewer than \<open>2\<^sup>3\<^sup>1 - 1\<close> existing paths it is shown to give a free one.
  Sizes of files are 64-bit words; the additions that could wrap are written as such and shown not to where that holds.

  \<^bold>\<open>Not modelled.\<close> What a socket transports, logging, and the requests that one HTTP/2 connection serves at once (they are
  the interleaved requests of \<open>Upload_Machine\<close>); the peer connection of WebRTC (ICE, gathering, the compression of
  descriptions are the crates \<open>webrtc\<close> and \<open>flate2\<close>, given by their outcomes); floating point numbers, which are an argument with
  the operations the code uses; \<open>main\<close> of the signaling server and of the command line client with the parsing of its
  arguments; layout and colours of the picker; of the bindings \<open>frb_generated.rs\<close>, which is generated, and \<open>model.rs\<close>, which only
  mirrors types for it; everything that is not Rust.
\<close>

end
